(* ===== verification/Omx_Prelude.thy ===== *)
theory Omx_Prelude
  imports Main "HOL-Library.Word" "HOL-Library.Monad_Syntax"
begin

text \<open>
  What every theory of the development shares: the names of the C integer types, the reading of
  an option as the outcome of a C call that may kill the process, and generic facts about lists
  and options.

  A function of the model that can reach \<^verbatim>\<open>omx__abort\<close> or an access outside of an array returns an
  option: \<open>None\<close> is the death of the process (abort or memory fault), \<open>Some\<close> the state or value
  the C call leaves behind.
\<close>

unbundle bit_operations_syntax

type_synonym u8 = "8 word"
type_synonym u16 = "16 word"
type_synonym u32 = "32 word"
type_synonym u64 = "64 word"

named_theorems seqnum_simps \<open>arithmetic of 14-bit sequence numbers\<close>
named_theorems frame_simps \<open>which fields an operation leaves alone\<close>
named_theorems queue_simps \<open>what an operation does to the request queues\<close>

subsection \<open>Outcomes of calls that may kill the process\<close>

text \<open>\<open>outcome P r\<close>: if the call returns, what it returns satisfies \<open>P\<close>.\<close>

abbreviation outcome :: "('a \<Rightarrow> bool) \<Rightarrow> 'a option \<Rightarrow> bool" where
  "outcome \<equiv> pred_option"

lemma outcome_bind: "outcome (\<lambda>x. outcome P (f x)) r \<Longrightarrow> outcome P (Option.bind r f)"
  by (cases r) auto

lemma outcome_bindI:
  assumes "outcome Q r" and "\<And>x. Q x \<Longrightarrow> outcome P (f x)"
  shows "outcome P (Option.bind r f)"
  using assms by (cases r) auto

lemma outcome_mono: "outcome P r \<Longrightarrow> (\<And>x. P x \<Longrightarrow> Q x) \<Longrightarrow> outcome Q r"
  by (cases r) auto

lemma outcome_SomeD: "outcome P r \<Longrightarrow> r = Some x \<Longrightarrow> P x"
  by simp

lemma outcomeI: "(\<And>x. r = Some x \<Longrightarrow> P x) \<Longrightarrow> outcome P r"
  by (cases r) auto

subsection \<open>Lists\<close>

lemma remove1_mid:
  assumes "distinct (xs @ x # ys)"
  shows "remove1 x (xs @ x # ys) = xs @ ys"
  using assms by (simp add: remove1_append)

lemma distinct_remove1_notin: "distinct xs \<Longrightarrow> x \<notin> set (remove1 x xs)"
  by simp

lemma length_remove1_Suc: "x \<in> set xs \<Longrightarrow> Suc (length (remove1 x xs)) = length xs"
  by (induction xs) auto


lemma find_in_set: "find P xs = Some x \<Longrightarrow> x \<in> set xs \<and> P x"
  by (induction xs) (auto split: if_splits)

subsection \<open>Machine integers of different widths\<close>

lemma unat_ucast_up:
  "LENGTH('a::len) \<le> LENGTH('b::len) \<Longrightarrow> unat (ucast (x :: 'a word) :: 'b word) = unat x"
  by (simp add: unsigned_ucast_eq take_bit_nat_eq_self_iff order_less_le_trans [OF unsigned_less])

lemma unat_ucast_widen [simp]:
  "unat (ucast (a :: u32) :: u64) = unat a"
  "unat (ucast (b :: u16) :: u32) = unat b"
  "unat (ucast (b :: u16) :: u64) = unat b"
  "unat (ucast (c :: u8) :: u16) = unat c"
  "unat (ucast (c :: u8) :: u32) = unat c"
  "unat (ucast (c :: u8) :: u64) = unat c"
  by (simp_all add: unat_ucast_up)

lemma unat_ucast_narrow:
  "unat x < 2 ^ LENGTH('b::len) \<Longrightarrow> unat (ucast (x :: 'a::len word) :: 'b word) = unat x"
  by (simp add: unsigned_ucast_eq take_bit_nat_eq_self_iff)

lemma unat_u32_less: "unat (x :: u32) < 4294967296"
  using unsigned_less [of x] by simp

lemma unat_u64_less: "unat (x :: u64) < 18446744073709551616"
  using unsigned_less [of x] by simp

lemma unat_sub_le: "b \<le> (a :: 'a::len word) \<Longrightarrow> unat (a - b) = unat a - unat b"
  by (rule unat_sub)

subsection \<open>Simulations\<close>

text \<open>
  A component whose operations refine operations on an abstract state, one step at a time and
  under the callers' discipline \<open>ok\<close>, refines it over every sequence of operations that keeps the
  discipline.
\<close>

fun run_steps :: "('op \<Rightarrow> 's \<Rightarrow> 's) \<Rightarrow> 'op list \<Rightarrow> 's \<Rightarrow> 's" where
  "run_steps f [] s = s"
| "run_steps f (x # xs) s = run_steps f xs (f x s)"

fun run_ok :: "('q \<Rightarrow> 'op \<Rightarrow> bool) \<Rightarrow> ('op \<Rightarrow> 'q \<Rightarrow> 'q) \<Rightarrow> 'op list \<Rightarrow> 'q \<Rightarrow> bool" where
  "run_ok ok f [] q = True"
| "run_ok ok f (x # xs) q = (ok q x \<and> run_ok ok f xs (f x q))"

locale simulation =
  fixes step :: "'op \<Rightarrow> 's \<Rightarrow> 's"
    and abs_step :: "'op \<Rightarrow> 'q \<Rightarrow> 'q"
    and ok :: "'q \<Rightarrow> 'op \<Rightarrow> bool"
    and rel :: "'s \<Rightarrow> 'q \<Rightarrow> bool"
  assumes step_sim: "rel s q \<Longrightarrow> ok q x \<Longrightarrow> rel (step x s) (abs_step x q)"
begin

lemma run_sim:
  "rel s q \<Longrightarrow> run_ok ok abs_step xs q \<Longrightarrow> rel (run_steps step xs s) (run_steps abs_step xs q)"
  by (induction xs arbitrary: s q) (auto intro: step_sim)

end

text \<open>The same for operations that may kill the process: under the discipline, they do not.\<close>

fun run_partial :: "('op \<Rightarrow> 's \<Rightarrow> 's option) \<Rightarrow> 'op list \<Rightarrow> 's \<Rightarrow> 's option" where
  "run_partial f [] s = Some s"
| "run_partial f (x # xs) s = Option.bind (f x s) (run_partial f xs)"

locale partial_simulation =
  fixes pstep :: "'op \<Rightarrow> 's \<Rightarrow> 's option"
    and abs_step :: "'op \<Rightarrow> 'q \<Rightarrow> 'q"
    and ok :: "'q \<Rightarrow> 'op \<Rightarrow> bool"
    and rel :: "'s \<Rightarrow> 'q \<Rightarrow> bool"
  assumes step_progress: "rel s q \<Longrightarrow> ok q x \<Longrightarrow> \<exists>s'. pstep x s = Some s' \<and> rel s' (abs_step x q)"
begin

lemma run_progress:
  "rel s q \<Longrightarrow> run_ok ok abs_step xs q \<Longrightarrow>
    \<exists>s'. run_partial pstep xs s = Some s' \<and> rel s' (run_steps abs_step xs q)"
proof (induction xs arbitrary: s q)
  case (Cons x xs)
  then obtain s' where "pstep x s = Some s'" "rel s' (abs_step x q)" using step_progress [of s q x] by auto
  with Cons show ?case by auto
qed simp

end

sublocale simulation \<subseteq> total: partial_simulation "\<lambda>x s. Some (step x s)" abs_step ok rel
  by unfold_locales (simp add: step_sim)

end
