(* ===== verification/Seqnum.thy ===== *)
theory Seqnum
  imports Omx_Prelude
begin

text \<open>
  Message sequence numbers (\<^verbatim>\<open>libopen-mx/omx_types.h\<close>): a 16-bit word whose low 14 bits number the
  messages sent to a partner and whose high 2 bits number the session of that partner. All
  comparisons of the library go through the 14-bit difference to a base, so that they survive the
  wrap-around; this theory proves the arithmetic they rest on.
\<close>

type_synonym omx__seqnum_t = u16

definition OMX__SEQNUM_BITS :: nat where
  "OMX__SEQNUM_BITS = 14"

definition OMX__SEQNUM_MASK :: u16 where
  "OMX__SEQNUM_MASK = push_bit OMX__SEQNUM_BITS 1 - 1"

definition OMX__SEQNUM :: "u16 \<Rightarrow> u16" where
  "OMX__SEQNUM x = x AND OMX__SEQNUM_MASK"

definition OMX__SESNUM_BITS :: nat where
  "OMX__SESNUM_BITS = 16 - OMX__SEQNUM_BITS"

definition OMX__SESNUM_ONE :: u16 where
  "OMX__SESNUM_ONE = push_bit OMX__SEQNUM_BITS 1"

definition OMX__SESNUM_MASK :: u16 where
  "OMX__SESNUM_MASK = push_bit OMX__SEQNUM_BITS (push_bit OMX__SESNUM_BITS 1 - 1)"

definition OMX__SESNUM :: "u16 \<Rightarrow> u16" where
  "OMX__SESNUM x = x AND OMX__SESNUM_MASK"

definition OMX__SESNUM_SHIFTED :: "u16 \<Rightarrow> u16" where
  "OMX__SESNUM_SHIFTED x = drop_bit OMX__SEQNUM_BITS (OMX__SESNUM x)"

definition OMX__SEQNUM_INCREASE_BY :: "u16 \<Rightarrow> u16 \<Rightarrow> u16" where
  "OMX__SEQNUM_INCREASE_BY old n = OMX__SESNUM old OR OMX__SEQNUM (old + n)"

definition OMX__SEQNUM_INCREASE :: "u16 \<Rightarrow> u16" where
  "OMX__SEQNUM_INCREASE x = OMX__SEQNUM_INCREASE_BY x 1"

definition OMX__SEQNUM_RESET :: "u16 \<Rightarrow> u16" where
  "OMX__SEQNUM_RESET old = OMX__SESNUM old OR OMX__SEQNUM 1"

definition OMX__EARLY_PACKET_OFFSET_MAX :: u16 where
  "OMX__EARLY_PACKET_OFFSET_MAX = 0xff"

definition OMX__THROTTLING_OFFSET_MAX :: u16 where
  "OMX__THROTTLING_OFFSET_MAX = OMX__SEQNUM_MASK div 2"

lemma seqnum_mask_val: "OMX__SEQNUM_MASK = mask 14"
  by (simp add: OMX__SEQNUM_MASK_def OMX__SEQNUM_BITS_def mask_eq_exp_minus_1)

lemma sesnum_mask_val: "OMX__SESNUM_MASK = NOT (mask 14)"
  by (simp add: OMX__SESNUM_MASK_def OMX__SESNUM_BITS_def OMX__SEQNUM_BITS_def mask_eq_exp_minus_1)

lemma seqnum_take_bit: "OMX__SEQNUM x = take_bit 14 x"
  by (simp add: OMX__SEQNUM_def seqnum_mask_val take_bit_eq_mask)

lemma sesnum_and_not: "OMX__SESNUM x = x AND NOT (mask 14)"
  by (simp add: OMX__SESNUM_def sesnum_mask_val)

lemma throttling_max_val: "OMX__THROTTLING_OFFSET_MAX = 8191"
  by (simp add: OMX__THROTTLING_OFFSET_MAX_def OMX__SEQNUM_MASK_def OMX__SEQNUM_BITS_def)

subsection \<open>The two halves of a sequence number\<close>

lemma bit_seqnum: "bit (OMX__SEQNUM x) i \<longleftrightarrow> bit x i \<and> i < 14"
  by (auto simp: seqnum_take_bit bit_take_bit_iff)

lemma bit_sesnum: "bit (OMX__SESNUM x) i \<longleftrightarrow> bit x i \<and> 14 \<le> i"
  by (auto simp: sesnum_and_not bit_simps dest: bit_imp_le_length)

lemma seqnum_parts: "OMX__SESNUM x OR OMX__SEQNUM x = x"
  by (rule bit_word_eqI) (auto simp: bit_simps bit_seqnum bit_sesnum)

lemma seqnum_eq_iff: "x = y \<longleftrightarrow> OMX__SESNUM x = OMX__SESNUM y \<and> OMX__SEQNUM x = OMX__SEQNUM y"
  by (metis seqnum_parts)

lemma sesnum_xor_zero: "OMX__SESNUM (x XOR y) = 0 \<longleftrightarrow> OMX__SESNUM x = OMX__SESNUM y"
  by (auto simp: bit_eq_iff bit_sesnum bit_simps)

lemma sesnum_join [seqnum_simps]: "OMX__SESNUM (OMX__SESNUM x OR OMX__SEQNUM y) = OMX__SESNUM x"
  by (rule bit_word_eqI) (auto simp: bit_simps bit_seqnum bit_sesnum)

lemma seqnum_join [seqnum_simps]: "OMX__SEQNUM (OMX__SESNUM x OR OMX__SEQNUM y) = OMX__SEQNUM y"
  by (rule bit_word_eqI) (auto simp: bit_simps bit_seqnum bit_sesnum)

lemma sesnum_increase_by [seqnum_simps]: "OMX__SESNUM (OMX__SEQNUM_INCREASE_BY x n) = OMX__SESNUM x"
  by (simp add: OMX__SEQNUM_INCREASE_BY_def seqnum_simps)

lemma seqnum_increase_by [seqnum_simps]: "OMX__SEQNUM (OMX__SEQNUM_INCREASE_BY x n) = OMX__SEQNUM (x + n)"
  by (simp add: OMX__SEQNUM_INCREASE_BY_def seqnum_simps)

lemma sesnum_increase [seqnum_simps]: "OMX__SESNUM (OMX__SEQNUM_INCREASE x) = OMX__SESNUM x"
  by (simp add: OMX__SEQNUM_INCREASE_def seqnum_simps)

lemma seqnum_increase [seqnum_simps]: "OMX__SEQNUM (OMX__SEQNUM_INCREASE x) = OMX__SEQNUM (x + 1)"
  by (simp add: OMX__SEQNUM_INCREASE_def seqnum_simps)

lemma sesnum_reset [seqnum_simps]: "OMX__SESNUM (OMX__SEQNUM_RESET x) = OMX__SESNUM x"
  by (simp add: OMX__SEQNUM_RESET_def seqnum_simps)

lemma seqnum_reset [seqnum_simps]: "OMX__SEQNUM (OMX__SEQNUM_RESET x) = 1"
  by (simp add: OMX__SEQNUM_RESET_def seqnum_simps) (simp add: seqnum_take_bit)

subsection \<open>Distances: the index of a sequence number relative to a base\<close>

text \<open>
  The library compares \<open>OMX__SEQNUM (x - base)\<close>, never \<open>x\<close> itself. \<open>seq_index base x\<close> is that
  index as a natural number below \<open>2 ^ 14\<close>.
\<close>

definition seq_index :: "u16 \<Rightarrow> u16 \<Rightarrow> nat" where
  "seq_index base x = unat (OMX__SEQNUM (x - base))"

lemma uint_seqnum: "uint (OMX__SEQNUM x) = uint x mod 16384"
  unfolding seqnum_take_bit unsigned_take_bit_eq by (simp add: take_bit_eq_mod)

lemma uint_seqnum_diff: "uint (OMX__SEQNUM (a - b)) = (uint a - uint b) mod 16384"
proof -
  have "uint (a - b) = (uint a - uint b) mod 65536"
    by (simp add: uint_word_ariths)
  then show ?thesis
    by (simp add: uint_seqnum mod_mod_cancel)
qed

lemma uint_mod_seqnum: "uint x mod 16384 = uint (OMX__SEQNUM x)"
  by (simp add: uint_seqnum)

lemma int_seq_index: "int (seq_index base x) = (uint x - uint base) mod 16384"
  by (simp add: seq_index_def uint_seqnum_diff)

lemma seq_index_less: "seq_index base x < 16384"
proof -
  have "int (seq_index base x) < 16384"
    by (simp add: int_seq_index)
  then show ?thesis by simp
qed

lemma seq_index_refl [simp]: "seq_index x x = 0"
  by (simp add: seq_index_def seqnum_take_bit)

lemma seqnum_diff_cong:
  "OMX__SEQNUM a = OMX__SEQNUM a' \<Longrightarrow> OMX__SEQNUM (a - b) = OMX__SEQNUM (a' - b)"
  unfolding word_uint_eq_iff uint_seqnum_diff unfolding uint_seqnum by (rule mod_diff_cong) simp_all

lemma seq_index_increase:
  "seq_index base (OMX__SEQNUM_INCREASE x) = Suc (seq_index base x) mod 16384"
proof -
  have "OMX__SEQNUM (OMX__SEQNUM_INCREASE x - base) = OMX__SEQNUM (x + 1 - base)"
    by (rule seqnum_diff_cong) (simp add: seqnum_simps)
  then have "int (seq_index base (OMX__SEQNUM_INCREASE x)) = (uint (x + 1) - uint base) mod 16384"
    by (simp add: seq_index_def uint_seqnum_diff)
  also have "\<dots> = ((uint x + 1) mod 65536 mod 16384 - uint base) mod 16384"
    by (simp add: uint_word_ariths mod_diff_left_eq)
  also have "\<dots> = (uint x + 1 - uint base) mod 16384"
    by (simp add: mod_mod_cancel mod_diff_left_eq)
  also have "\<dots> = (uint x - uint base + 1) mod 16384"
    by (simp add: algebra_simps)
  also have "\<dots> = (int (seq_index base x) + 1) mod 16384"
    by (simp add: int_seq_index mod_add_left_eq)
  finally show ?thesis
    by (simp add: zmod_int add.commute flip: of_nat_eq_iff [where 'a = int])
qed

lemma seq_index_inject:
  "seq_index base x = seq_index base y \<longleftrightarrow> OMX__SEQNUM x = OMX__SEQNUM y"
proof
  assume "seq_index base x = seq_index base y"
  then have "(uint x - uint base) mod 16384 = (uint y - uint base) mod 16384"
    by (metis int_seq_index)
  then have "(uint x - uint base + uint base) mod 16384 = (uint y - uint base + uint base) mod 16384"
    by (rule mod_add_cong) simp
  then have "uint x mod 16384 = uint y mod 16384"
    by simp
  then show "OMX__SEQNUM x = OMX__SEQNUM y"
    by (metis uint_seqnum word_uint_eq_iff)
next
  assume "OMX__SEQNUM x = OMX__SEQNUM y"
  then show "seq_index base x = seq_index base y"
    by (simp add: seq_index_def seqnum_diff_cong [of x y])
qed

lemma sesnum_increase_pow: "OMX__SESNUM ((OMX__SEQNUM_INCREASE ^^ n) x) = OMX__SESNUM x"
  by (induction n) (simp_all add: seqnum_simps)

lemma seq_index_increase_pow: "seq_index x ((OMX__SEQNUM_INCREASE ^^ n) x) = n mod 16384"
  by (induction n) (simp_all add: seq_index_increase mod_Suc_eq)

text \<open>
  The number of sequence numbers between two positions of one window is the difference of their
  indices: what lets \<^verbatim>\<open>omx__handle_ack\<close> count the new acks with one subtraction.
\<close>

lemma seq_index_between:
  assumes "seq_index base x \<le> seq_index base y"
  shows "seq_index x y = seq_index base y - seq_index base x"
proof -
  have "int (seq_index x y) = (uint y - uint base - (uint x - uint base)) mod 16384"
    by (simp add: int_seq_index)
  also have "\<dots> = (int (seq_index base y) - int (seq_index base x)) mod 16384"
    by (simp add: int_seq_index mod_diff_eq)
  also have "\<dots> = int (seq_index base y - seq_index base x)"
    using assms seq_index_less [of base y] by (simp add: of_nat_diff)
  finally show ?thesis by simp
qed

text \<open>
  C19: Numbering messages with \<^verbatim>\<open>OMX__SEQNUM_INCREASE\<close> keeps the session bits, and the \<open>n\<close>-th number
  after a base is \<open>n\<close> steps away from it modulo \<open>2^14\<close>, so that the 14-bit difference, computed on
  wrapping 16-bit words, tells any two messages of a window of 16384 apart.
\<close>

theorem seqnum_window:
  "OMX__SESNUM ((OMX__SEQNUM_INCREASE ^^ n) base) = OMX__SESNUM base \<and>
   unat (OMX__SEQNUM ((OMX__SEQNUM_INCREASE ^^ n) base - base)) = n mod 16384"
  using sesnum_increase_pow seq_index_increase_pow [unfolded seq_index_def] by blast

end
