(* ===== verification/Linked_List.thy ===== *)
theory Linked_List
  imports Omx_Prelude
begin

text \<open>
  The intrusive circular doubly linked lists of \<^verbatim>\<open>libopen-mx/omx_list.h\<close>, on an explicit store of
  \<^verbatim>\<open>struct list_head\<close> cells. Each operation is translated assignment by assignment;
  \<open>list_repr s h xs\<close> says that the cells reachable from the head \<open>h\<close> are \<open>xs\<close>, in order. The
  refinement lemmas show that the operations are the list operations the rest of the development
  uses for its queues (append, cons, remove, concatenation), and that they leave every other list
  of the store alone.
\<close>

type_synonym addr = nat

record list_store =
  prv :: "addr \<Rightarrow> addr"
  nxt :: "addr \<Rightarrow> addr"

definition set_prv :: "addr \<Rightarrow> addr \<Rightarrow> list_store \<Rightarrow> list_store" where
  "set_prv a v s = s\<lparr>prv := (prv s)(a := v)\<rparr>"

definition set_nxt :: "addr \<Rightarrow> addr \<Rightarrow> list_store \<Rightarrow> list_store" where
  "set_nxt a v s = s\<lparr>nxt := (nxt s)(a := v)\<rparr>"

lemma set_prv_sel [simp]: "prv (set_prv a v s) = (prv s)(a := v)" "nxt (set_prv a v s) = nxt s"
  by (simp_all add: set_prv_def)

lemma set_nxt_sel [simp]: "nxt (set_nxt a v s) = (nxt s)(a := v)" "prv (set_nxt a v s) = prv s"
  by (simp_all add: set_nxt_def)

definition list_head_init :: "addr \<Rightarrow> list_store \<Rightarrow> list_store" where
  "list_head_init node s =
    (let s = set_prv node node s;
         s = set_nxt node node s
     in s)"

definition list_add_after :: "addr \<Rightarrow> addr \<Rightarrow> list_store \<Rightarrow> list_store" where
  "list_add_after new node s =
    (let s = set_prv new node s;
         s = set_nxt new (nxt s node) s;
         s = set_nxt node new s;
         s = set_prv (nxt s new) new s
     in s)"

definition list_add_tail :: "addr \<Rightarrow> addr \<Rightarrow> list_store \<Rightarrow> list_store" where
  "list_add_tail new node s =
    (let s = set_prv new (prv s node) s;
         s = set_nxt new node s;
         s = set_prv node new s;
         s = set_nxt (prv s new) new s
     in s)"

definition list_del :: "addr \<Rightarrow> list_store \<Rightarrow> list_store" where
  "list_del node s =
    (let s = set_nxt (prv s node) (nxt s node) s;
         s = set_prv (nxt s node) (prv s node) s
     in s)"

definition list_empty :: "addr \<Rightarrow> list_store \<Rightarrow> bool" where
  "list_empty h s \<longleftrightarrow> nxt s h = h"

definition list_move :: "addr \<Rightarrow> addr \<Rightarrow> list_store \<Rightarrow> list_store" where
  "list_move node node_to s = list_add_after node node_to (list_del node s)"

definition list_spliceall_tail :: "addr \<Rightarrow> addr \<Rightarrow> list_store \<Rightarrow> list_store" where
  "list_spliceall_tail src dst s =
    (if \<not> list_empty src s then
       (let s = set_nxt (prv s dst) (nxt s src) s;
            s = set_prv (nxt s src) (prv s dst) s;
            s = set_nxt (prv s src) dst s;
            s = set_prv dst (prv s src) s
        in s)
     else s)"

text \<open>The loops over \<^verbatim>\<open>__list_for_each\<close>: \<open>None\<close> when the walk never comes back to the head.\<close>

partial_function (option) list_check_elt_from :: "list_store \<Rightarrow> addr \<Rightarrow> addr \<Rightarrow> addr \<Rightarrow> bool option" where
  "list_check_elt_from s h elt iter =
    (if iter = h then Some False
     else if iter = elt then Some True
     else list_check_elt_from s h elt (nxt s iter))"

definition list_check_elt :: "addr \<Rightarrow> addr \<Rightarrow> list_store \<Rightarrow> bool option" where
  "list_check_elt h elt s = list_check_elt_from s h elt (nxt s h)"

partial_function (option) list_count_from :: "list_store \<Rightarrow> addr \<Rightarrow> addr \<Rightarrow> u32 \<Rightarrow> u32 option" where
  "list_count_from s h iter acc =
    (if iter = h then Some acc else list_count_from s h (nxt s iter) (acc + 1))"

definition list_count :: "addr \<Rightarrow> list_store \<Rightarrow> u32 option" where
  "list_count h s = list_count_from s h (nxt s h) 0"

subsection \<open>The list a head stands for\<close>

text \<open>\<open>chain s a xs b\<close>: following \<^verbatim>\<open>nxt\<close> from \<open>a\<close> visits \<open>xs\<close> and then \<open>b\<close>, and \<^verbatim>\<open>prv\<close> goes back.\<close>

fun chain :: "list_store \<Rightarrow> addr \<Rightarrow> addr list \<Rightarrow> addr \<Rightarrow> bool" where
  "chain s a [] b \<longleftrightarrow> nxt s a = b \<and> prv s b = a"
| "chain s a (x # xs) b \<longleftrightarrow> nxt s a = x \<and> prv s x = a \<and> chain s x xs b"

definition list_repr :: "list_store \<Rightarrow> addr \<Rightarrow> addr list \<Rightarrow> bool" where
  "list_repr s h xs \<longleftrightarrow> distinct (h # xs) \<and> chain s h xs h"

lemma chain_append: "chain s a (xs @ x # ys) b \<longleftrightarrow> chain s a xs x \<and> chain s x ys b"
  by (induction xs arbitrary: a) auto

lemma chain_first: "chain s a xs b \<Longrightarrow> nxt s a = hd (xs @ [b])"
  by (cases xs) auto

lemma chain_last: "chain s a xs b \<Longrightarrow> prv s b = last (a # xs)"
  by (induction xs arbitrary: a) auto

text \<open>Only the \<^verbatim>\<open>nxt\<close> fields of \<open>a # xs\<close> and the \<^verbatim>\<open>prv\<close> fields of \<open>xs @ [b]\<close> matter to a chain.\<close>

lemma chain_cong:
  assumes "\<And>c. c \<in> set (a # xs) \<Longrightarrow> nxt s' c = nxt s c"
    and "\<And>c. c \<in> set (xs @ [b]) \<Longrightarrow> prv s' c = prv s c"
  shows "chain s' a xs b = chain s a xs b"
  using assms by (induction xs arbitrary: a) auto

lemma list_repr_frame:
  assumes "list_repr s h xs"
    and "\<And>c. c \<in> set (h # xs) \<Longrightarrow> nxt s' c = nxt s c \<and> prv s' c = prv s c"
  shows "list_repr s' h xs"
  using assms chain_cong [of h xs s' s h] by (auto simp: list_repr_def)

lemma list_repr_unique: "list_repr s h xs \<Longrightarrow> list_repr s h ys \<Longrightarrow> xs = ys"
proof -
  have "chain s a xs b \<Longrightarrow> chain s a ys b \<Longrightarrow> b \<notin> set xs \<Longrightarrow> b \<notin> set ys \<Longrightarrow> xs = ys" for a b
  proof (induction xs arbitrary: a ys)
    case Nil
    then show ?case by (cases ys) auto
  next
    case (Cons x xs)
    then show ?case by (cases ys) auto
  qed
  then show "list_repr s h xs \<Longrightarrow> list_repr s h ys \<Longrightarrow> xs = ys"
    by (auto simp: list_repr_def)
qed

subsection \<open>Each operation on the represented lists\<close>

lemma list_head_init_repr: "list_repr (list_head_init h s) h []"
  by (simp add: list_repr_def list_head_init_def)

lemma list_empty_repr: "list_repr s h xs \<Longrightarrow> list_empty h s \<longleftrightarrow> xs = []"
  by (cases xs) (auto simp: list_repr_def list_empty_def)

lemma list_add_after_sel:
  assumes "new \<noteq> node"
  shows "nxt (list_add_after new node s) = (nxt s)(new := nxt s node, node := new)"
    and "prv (list_add_after new node s) = (prv s)(new := node, nxt s node := new)"
  using assms by (simp_all add: list_add_after_def Let_def)

lemma list_add_after_chain:
  assumes "chain s node zs b" "new \<notin> set (node # zs)" "new \<noteq> b" "distinct (node # zs)" "b \<notin> set zs"
  shows "chain (list_add_after new node s) node (new # zs) b"
proof (cases zs)
  case Nil
  with assms show ?thesis by (auto simp: list_add_after_sel)
next
  case (Cons z zs')
  with assms have "chain (list_add_after new node s) z zs' b = chain s z zs' b"
    by (intro chain_cong) (auto simp: list_add_after_sel)
  with Cons assms show ?thesis by (auto simp: list_add_after_sel)
qed

lemma list_add_after_repr:
  assumes "list_repr s h (ys @ zs)" "new \<notin> set (h # ys @ zs)"
  shows "list_repr (list_add_after new (last (h # ys)) s) h (ys @ new # zs)"
proof (cases ys rule: rev_cases)
  case Nil
  with assms list_add_after_chain [of s h zs h new] show ?thesis
    by (auto simp: list_repr_def)
next
  case (snoc ys' node)
  let ?s = "list_add_after new node s"
  have ch: "chain s h ys' node" "chain s node zs h"
    and dist: "distinct (h # ys' @ node # zs)" and new: "new \<notin> set (h # ys' @ node # zs)"
    using assms snoc by (auto simp: list_repr_def chain_append)
  have "nxt s node = hd (zs @ [h])"
    using ch(2) by (rule chain_first)
  then have "nxt s node \<in> set (zs @ [h])"
    by (cases zs) auto
  then have "chain ?s h ys' node = chain s h ys' node"
    using dist new by (intro chain_cong) (auto simp: list_add_after_sel)
  moreover have "chain ?s node (new # zs) h"
    using ch(2) dist new by (intro list_add_after_chain) auto
  ultimately show ?thesis
    using ch(1) dist new snoc by (auto simp: list_repr_def chain_append)
qed

lemma list_repr_neighbours:
  assumes "list_repr s h (ys @ x # zs)"
  shows "prv s x = last (h # ys)" "nxt s x = hd (zs @ [h])"
    "nxt s (last (h # ys)) = x" "prv s (hd (zs @ [h])) = x"
proof -
  have ch: "chain s h ys x" "chain s x zs h"
    using assms by (auto simp: list_repr_def chain_append)
  show "prv s x = last (h # ys)" using ch(1) by (rule chain_last)
  show "nxt s x = hd (zs @ [h])" using ch(2) by (rule chain_first)
  show "nxt s (last (h # ys)) = x"
    using ch(1) by (cases ys rule: rev_cases) (auto simp: chain_append)
  show "prv s (hd (zs @ [h])) = x"
    using ch(2) by (cases zs) auto
qed

lemma list_add_tail_eq:
  assumes "new \<noteq> node" "new \<noteq> prv s node" "nxt s (prv s node) = node"
  shows "list_add_tail new node s = list_add_after new (prv s node) s"
  using assms by (auto simp: list_add_tail_def list_add_after_def set_prv_def set_nxt_def Let_def
      fun_upd_twist)

lemma list_add_tail_as_after:
  assumes "list_repr s h xs" "new \<notin> set (h # xs)"
  shows "list_add_tail new h s = list_add_after new (last (h # xs)) s"
proof -
  have ch: "chain s h xs h" using assms by (simp add: list_repr_def)
  have p: "prv s h = last (h # xs)" using ch by (rule chain_last)
  moreover have "nxt s (last (h # xs)) = h"
    using ch by (cases xs rule: rev_cases) (auto simp: chain_append)
  moreover have "last (h # xs) \<in> set (h # xs)" by (rule last_in_set) simp
  ultimately show ?thesis
    using assms(2) list_add_tail_eq [of new h s] by (metis list.set_intros(1))
qed

lemma list_add_tail_repr:
  assumes "list_repr s h xs" "new \<notin> set (h # xs)"
  shows "list_repr (list_add_tail new h s) h (xs @ [new])"
  using list_add_after_repr [of s h xs "[]" new] assms by (simp add: list_add_tail_as_after)

lemma list_del_sel:
  "nxt (list_del x s) = (nxt s)(prv s x := nxt s x)"
  "prv (list_del x s) = (prv s)(((nxt s)(prv s x := nxt s x)) x := prv s x)"
  by (simp_all add: list_del_def Let_def)

lemma list_del_repr:
  assumes "list_repr s h (ys @ x # zs)"
  shows "list_repr (list_del x s) h (ys @ zs)"
proof -
  let ?s = "list_del x s"
  note nb = list_repr_neighbours [OF assms]
  have ch: "chain s h ys x" "chain s x zs h" and dist: "distinct (h # ys @ x # zs)"
    using assms by (auto simp: list_repr_def chain_append)
  have "last (h # ys) \<in> set (h # ys)" by (rule last_in_set) simp
  with dist have "x \<noteq> last (h # ys)" by auto
  then have sel: "nxt ?s = (nxt s)(last (h # ys) := hd (zs @ [h]))"
    "prv ?s = (prv s)(hd (zs @ [h]) := last (h # ys))"
    using nb(1,2) by (simp_all add: list_del_sel)
  have "chain ?s h (ys @ zs) h"
  proof (cases zs)
    case Nil
    then show ?thesis
    proof (cases ys rule: rev_cases)
      case Nil
      with \<open>zs = []\<close> show ?thesis by (simp add: sel)
    next
      case (snoc ys' y)
      then have "chain ?s h ys' y = chain s h ys' y"
        using dist \<open>zs = []\<close> by (intro chain_cong) (auto simp: sel)
      with snoc \<open>zs = []\<close> ch(1) show ?thesis by (simp add: sel chain_append)
    qed
  next
    case (Cons z zs')
    have "last (h # ys) \<notin> set zs"
      using \<open>last (h # ys) \<in> set (h # ys)\<close> dist by (auto simp: disjoint_iff simp del: last.simps)
    then have "chain ?s z zs' h = chain s z zs' h"
      using dist Cons by (intro chain_cong) (auto simp: sel simp del: last.simps)
    then have tail: "chain ?s z zs' h" using ch(2) Cons by simp
    show ?thesis
    proof (cases ys rule: rev_cases)
      case Nil
      with Cons tail show ?thesis by (simp add: sel)
    next
      case (snoc ys' y)
      have "chain ?s h ys' y = chain s h ys' y"
        using dist snoc Cons by (intro chain_cong) (auto simp: sel)
      then have "chain ?s h ys' y" using ch(1) snoc by (simp add: chain_append)
      with snoc Cons tail show ?thesis by (simp add: sel chain_append)
    qed
  qed
  with dist show ?thesis by (auto simp: list_repr_def)
qed

lemma chain_split_last:
  assumes "xs \<noteq> []"
  shows "chain s a xs b \<longleftrightarrow> chain s a (butlast xs) (last xs) \<and> nxt s (last xs) = b \<and> prv s b = last xs"
  by (subst append_butlast_last_id [OF assms, symmetric]) (simp add: chain_append del: append_butlast_last_id)

lemma distinct_butlast_last: "xs \<noteq> [] \<Longrightarrow> distinct xs \<Longrightarrow> last xs \<notin> set (butlast xs)"
  by (metis append_butlast_last_id distinct_append disjoint_iff list.set_intros(1))

lemma list_spliceall_tail_sel:
  assumes src: "list_repr s src xs" "xs \<noteq> []" and dst: "list_repr s dst ys"
    and disj: "set (src # xs) \<inter> set (dst # ys) = {}"
  shows "nxt (list_spliceall_tail src dst s) = (nxt s)(last (dst # ys) := hd xs, last xs := dst)"
    and "prv (list_spliceall_tail src dst s) = (prv s)(hd xs := last (dst # ys), dst := last xs)"
proof -
  define p l where pl: "p = last (dst # ys)" "l = last xs"
  have "prv s dst = p" "prv s src = l" "nxt s src = hd xs"
    using src dst chain_last [of s dst ys dst] chain_last [of s src xs src] chain_first [of s src xs src]
    by (auto simp: list_repr_def pl)
  moreover have "p \<in> set (dst # ys)" "l \<in> set xs" "hd xs \<in> set xs"
    using src(2) by (auto simp: pl intro: last_in_set)
  then have "p \<noteq> src" "hd xs \<noteq> dst" "hd xs \<noteq> src" "l \<noteq> p" "src \<noteq> dst"
    using disj src by (auto simp: list_repr_def disjoint_iff)
  moreover have "\<not> list_empty src s" using src by (simp add: list_empty_repr)
  ultimately show "nxt (list_spliceall_tail src dst s) = (nxt s)(last (dst # ys) := hd xs, last xs := dst)"
    and "prv (list_spliceall_tail src dst s) = (prv s)(hd xs := last (dst # ys), dst := last xs)"
    unfolding pl [symmetric] by (simp_all add: list_spliceall_tail_def Let_def)
qed

lemma list_spliceall_tail_repr:
  assumes src: "list_repr s src xs" and dst: "list_repr s dst ys"
    and disj: "set (src # xs) \<inter> set (dst # ys) = {}"
  shows "list_repr (list_spliceall_tail src dst s) dst (ys @ xs)"
proof (cases "xs = []")
  case True
  with src dst show ?thesis
    by (simp add: list_spliceall_tail_def list_empty_repr)
next
  case False
  define p l t where pl: "p = last (dst # ys)" "l = last xs" "t = list_spliceall_tail src dst s"
  obtain x xs' where xs: "xs = x # xs'" using False by (cases xs) auto
  have sel: "nxt t = (nxt s)(p := x, l := dst)" "prv t = (prv s)(x := p, dst := l)"
    using list_spliceall_tail_sel [OF src False dst disj] xs by (simp_all add: pl)
  have cs: "chain s src xs src" and cd: "chain s dst ys dst"
    and dist: "distinct (src # xs)" "distinct (dst # ys)"
    using src dst by (auto simp: list_repr_def)
  have p: "p \<in> set (dst # ys)" and l: "l \<in> set xs"
    using False by (auto simp: pl intro: last_in_set)
  have "chain t p xs dst"
  proof (cases "xs' = []")
    case True
    with xs p disj show ?thesis by (auto simp: sel pl(2) disjoint_iff)
  next
    case False
    have l': "l \<notin> set (butlast xs')" "l = last xs'" "l \<noteq> x" "set (butlast xs') \<subseteq> set xs'" "l \<in> set xs'"
      using False dist xs distinct_butlast_last [of xs'] by (auto simp: pl(2) dest: in_set_butlastD)
    have "chain s x (butlast xs') l"
      using cs xs False by (simp add: chain_split_last pl(2))
    moreover have "chain t x (butlast xs') l = chain s x (butlast xs') l"
      using l' l p dist(1) disj xs by (intro chain_cong) (auto simp: sel disjoint_iff)
    ultimately have "chain t x xs' dst"
      using False l' by (simp add: chain_split_last sel)
    with xs p disj l' show ?thesis by (auto simp: sel disjoint_iff)
  qed
  moreover have "chain t dst (butlast ys) p" if "ys \<noteq> []"
  proof -
    have "chain s dst (butlast ys) p"
      using cd that by (simp add: chain_split_last pl(1))
    moreover have "p \<notin> set (dst # butlast ys)"
      using that dist(2) distinct_butlast_last [of ys] last_in_set [of ys] by (auto simp: pl(1))
    then have "chain t dst (butlast ys) p = chain s dst (butlast ys) p"
      using l p disj xs dist(2)
      by (intro chain_cong) (auto simp: sel disjoint_iff dest: in_set_butlastD)
    ultimately show ?thesis by simp
  qed
  ultimately have "chain t dst (ys @ xs) dst"
    using xs by (cases ys rule: rev_cases) (auto simp: chain_append pl(1))
  with dist disj show ?thesis by (auto simp: list_repr_def pl(3))
qed

lemma list_count_from_chain:
  "chain s a xs h \<Longrightarrow> h \<notin> set xs \<Longrightarrow> list_count_from s h (nxt s a) acc = Some (acc + of_nat (length xs))"
proof (induction xs arbitrary: a acc)
  case Nil
  then show ?case by (subst list_count_from.simps) simp
next
  case (Cons x xs)
  then show ?case by (subst list_count_from.simps) (auto simp: add.assoc)
qed

lemma list_check_elt_from_chain:
  "chain s a xs h \<Longrightarrow> h \<notin> set xs \<Longrightarrow> elt \<noteq> h \<Longrightarrow>
    list_check_elt_from s h elt (nxt s a) = Some (elt \<in> set xs)"
proof (induction xs arbitrary: a)
  case Nil
  then show ?case by (subst list_check_elt_from.simps) simp
next
  case (Cons x xs)
  then show ?case by (subst list_check_elt_from.simps) auto
qed

subsection \<open>The other lists of the store\<close>

lemma list_add_after_frame:
  assumes "list_repr s h (ys @ zs)" "list_repr s k ks" "set (h # ys @ zs) \<inter> set (k # ks) = {}"
    and "new \<notin> set (h # ys @ zs)" "new \<notin> set (k # ks)"
  shows "list_repr (list_add_after new (last (h # ys)) s) k ks"
proof -
  define node where "node = last (h # ys)"
  have "node \<in> set (h # ys)" unfolding node_def by (rule last_in_set) simp
  then have n: "node \<in> set (h # ys @ zs)" by auto
  have "nxt s node = hd (zs @ [h])"
  proof (cases ys rule: rev_cases)
    case Nil
    with assms(1) show ?thesis by (auto simp: node_def list_repr_def chain_first)
  next
    case (snoc ys' y)
    with assms(1) list_repr_neighbours(2) [of s h ys' y zs] show ?thesis by (simp add: node_def)
  qed
  then have "nxt s node \<in> set (h # ys @ zs)" by (cases zs) auto
  with n assms(3,4) have "new \<noteq> node" "node \<notin> set (k # ks)" "nxt s node \<notin> set (k # ks)"
    by blast+
  with assms(5) show ?thesis
    unfolding node_def [symmetric]
    by (intro list_repr_frame [OF assms(2)]) (auto simp: list_add_after_sel)
qed

lemma list_del_frame:
  assumes "list_repr s h xs" "x \<in> set xs" "list_repr s k ks" "set (h # xs) \<inter> set (k # ks) = {}"
  shows "list_repr (list_del x s) k ks"
proof -
  obtain ys zs where xs: "xs = ys @ x # zs" using assms(2) by (meson split_list)
  define p n where pn: "p = last (h # ys)" "n = hd (zs @ [h])"
  have "p \<in> set (h # ys)" unfolding pn by (rule last_in_set) simp
  then have p: "p \<in> set (h # xs)" and n: "n \<in> set (h # xs)" and px: "p \<noteq> x"
    using xs assms(1) by (auto simp: pn list_repr_def split: list.splits) (cases zs; auto)+
  have "prv s x = p" "nxt s x = n"
    using list_repr_neighbours [of s h ys x zs] assms(1) xs by (simp_all add: pn)
  then show ?thesis
    using p n px assms(4)
    by (intro list_repr_frame [OF assms(3)]) (auto simp: list_del_sel disjoint_iff)
qed

lemma list_head_init_frame:
  assumes "list_repr s k ks" "h \<notin> set (k # ks)"
  shows "list_repr (list_head_init h s) k ks"
  using assms by (intro list_repr_frame [OF assms(1)]) (auto simp: list_head_init_def Let_def)

lemma list_spliceall_tail_frame:
  assumes "list_repr s src xs" "list_repr s dst ys" "set (src # xs) \<inter> set (dst # ys) = {}"
    and "list_repr s k ks" "set (src # xs) \<inter> set (k # ks) = {}" "set (dst # ys) \<inter> set (k # ks) = {}"
  shows "list_repr (list_spliceall_tail src dst s) k ks"
proof (cases "xs = []")
  case True
  with assms show ?thesis by (simp add: list_spliceall_tail_def list_empty_repr)
next
  case False
  define p l where pl: "p = last (dst # ys)" "l = last xs"
  have "p \<in> set (dst # ys)" "l \<in> set xs" "hd xs \<in> set xs"
    using False by (auto simp: pl intro: last_in_set)
  then show ?thesis
    using assms(3,5,6) list_spliceall_tail_sel [OF assms(1) False assms(2,3)]
    unfolding pl [symmetric]
    by (intro list_repr_frame [OF assms(4)]) (auto simp: disjoint_iff)
qed

subsection \<open>The queue interface\<close>

text \<open>
  What the rest of the library uses of \<^verbatim>\<open>omx_list.h\<close>, through the wrappers of \<^verbatim>\<open>omx_request.h\<close>: a
  family of queues over one store, each named by its head. An element is enqueued at the tail,
  requeued at the front or dequeued, and a whole queue is moved to the end of another one.
  \<^verbatim>\<open>list_spliceall_tail\<close> leaves its source head dangling; its two callers
  (\<^verbatim>\<open>omx__process_resend_requests\<close>, \<^verbatim>\<open>omx__process_connect_requests\<close>) use a local head that the next
  call starts by initialising, which is part of the step here.
\<close>

datatype queue_op =
    Enqueue addr addr  \<comment> \<open>head, element\<close>
  | Requeue addr addr
  | Dequeue addr addr
  | Splice addr addr   \<comment> \<open>source head, destination head\<close>

fun queue_step :: "queue_op \<Rightarrow> list_store \<Rightarrow> list_store" where
  "queue_step (Enqueue h e) s = list_add_tail e h s"
| "queue_step (Requeue h e) s = list_add_after e h s"
| "queue_step (Dequeue h e) s = list_del e s"
| "queue_step (Splice src dst) s = list_head_init src (list_spliceall_tail src dst s)"

fun abs_queue_step :: "queue_op \<Rightarrow> (addr \<Rightarrow> addr list) \<Rightarrow> (addr \<Rightarrow> addr list)" where
  "abs_queue_step (Enqueue h e) Q = Q(h := Q h @ [e])"
| "abs_queue_step (Requeue h e) Q = Q(h := e # Q h)"
| "abs_queue_step (Dequeue h e) Q = Q(h := remove1 e (Q h))"
| "abs_queue_step (Splice src dst) Q = Q(dst := Q dst @ Q src, src := [])"

text \<open>
  The discipline the callers keep: an element is added while it is on no queue, and removed from
  the queue it is on.
\<close>

fun queue_op_ok :: "addr set \<Rightarrow> (addr \<Rightarrow> addr list) \<Rightarrow> queue_op \<Rightarrow> bool" where
  "queue_op_ok H Q (Enqueue h e) \<longleftrightarrow> h \<in> H \<and> e \<notin> H \<and> (\<forall>k \<in> H. e \<notin> set (Q k))"
| "queue_op_ok H Q (Requeue h e) \<longleftrightarrow> h \<in> H \<and> e \<notin> H \<and> (\<forall>k \<in> H. e \<notin> set (Q k))"
| "queue_op_ok H Q (Dequeue h e) \<longleftrightarrow> h \<in> H \<and> e \<in> set (Q h)"
| "queue_op_ok H Q (Splice src dst) \<longleftrightarrow> src \<in> H \<and> dst \<in> H \<and> src \<noteq> dst"

text \<open>The heads \<open>H\<close> of the store stand for the queues \<open>Q\<close>, which share no cell.\<close>

definition queues_repr :: "addr set \<Rightarrow> list_store \<Rightarrow> (addr \<Rightarrow> addr list) \<Rightarrow> bool" where
  "queues_repr H s Q \<longleftrightarrow> (\<forall>h \<in> H. list_repr s h (Q h)) \<and>
    (\<forall>h \<in> H. \<forall>k \<in> H. h \<noteq> k \<longrightarrow> set (h # Q h) \<inter> set (k # Q k) = {})"


lemma queues_reprD:
  assumes "queues_repr H s Q" "h \<in> H"
  shows "list_repr s h (Q h)" "k \<in> H \<Longrightarrow> h \<noteq> k \<Longrightarrow> set (h # Q h) \<inter> set (k # Q k) = {}"
    "k \<in> H \<Longrightarrow> k \<notin> set (Q h)"
  using assms unfolding queues_repr_def list_repr_def by (blast, blast, cases "k = h", auto)

lemma queues_reprI:
  assumes "queues_repr H s Q" "\<And>k. k \<in> H \<Longrightarrow> list_repr s' k (Q' k)"
    and "\<And>k x. k \<in> H \<Longrightarrow> x \<in> set (Q' k) \<Longrightarrow> \<exists>g \<in> H. x \<in> set (Q g) \<and> f g = k"
    and "\<And>g x. g \<in> H \<Longrightarrow> x \<in> H \<Longrightarrow> x \<notin> set (Q g)"
  shows "queues_repr H s' Q'"
proof -
  have "h = k" if "h \<in> H" "k \<in> H" "x \<in> set (Q' h)" "x \<in> set (Q' k)" for h k x
    using assms(3) [OF that(1,3)] assms(3) [OF that(2,4)] assms(1) unfolding queues_repr_def by fastforce
  moreover have "k \<notin> set (Q' h)" if "h \<in> H" "k \<in> H" for h k
    using assms(3) [OF that(1)] assms(4) that by blast
  ultimately show ?thesis using assms(2) unfolding queues_repr_def by auto
qed

lemma queue_step_enqueue:
  assumes "queues_repr H s Q" "queue_op_ok H Q (Enqueue h e)"
  shows "queues_repr H (list_add_tail e h s) (Q(h := Q h @ [e]))"
proof -
  note D = queues_reprD [OF assms(1)]
  have h: "h \<in> H" and e: "\<And>k. k \<in> H \<Longrightarrow> e \<notin> set (k # Q k)" using assms(2) by auto
  have "list_repr (list_add_tail e h s) k (Q k)" if "k \<in> H" "k \<noteq> h" for k
    using list_add_after_frame [of s h "Q h" "[]" k "Q k" e] D [OF h] D [OF that(1)] e h that
    by (auto simp: list_add_tail_as_after [of s h "Q h"])
  then show ?thesis
    using list_add_tail_repr [OF D(1) [OF h] e [OF h]] assms(1) h e unfolding queues_repr_def by auto
qed

lemma queue_step_requeue:
  assumes "queues_repr H s Q" "queue_op_ok H Q (Requeue h e)"
  shows "queues_repr H (list_add_after e h s) (Q(h := e # Q h))"
proof -
  note D = queues_reprD [OF assms(1)]
  have h: "h \<in> H" and e: "\<And>k. k \<in> H \<Longrightarrow> e \<notin> set (k # Q k)" using assms(2) by auto
  have "list_repr (list_add_after e h s) k (Q k)" if "k \<in> H" "k \<noteq> h" for k
    using list_add_after_frame [of s h "[]" "Q h" k "Q k" e] D [OF h] D [OF that(1)] e h that by auto
  then show ?thesis
    using list_add_after_repr [of s h "[]" "Q h" e] D(1) [OF h] e [OF h] assms(1) h e
    unfolding queues_repr_def by auto
qed

lemma queue_step_dequeue:
  assumes "queues_repr H s Q" "queue_op_ok H Q (Dequeue h e)"
  shows "queues_repr H (list_del e s) (Q(h := remove1 e (Q h)))"
proof -
  note D = queues_reprD [OF assms(1)]
  have h: "h \<in> H" and e: "e \<in> set (Q h)" using assms(2) by auto
  obtain ys zs where Q: "Q h = ys @ e # zs" using split_list [OF e] by blast
  have "e \<notin> set ys" using D(1) [OF h] Q by (auto simp: list_repr_def)
  then have r: "remove1 e (Q h) = ys @ zs" using Q by (simp add: remove1_append)
  have "list_repr (list_del e s) k (Q k)" if "k \<in> H" "k \<noteq> h" for k
    using list_del_frame [OF D(1) [OF h] e D(1) [OF that(1)] D(2) [OF h that(1)]] that by auto
  then show ?thesis
    using list_del_repr [of s h ys e zs] D [OF h] Q D(3) unfolding r
    by (intro queues_reprI [OF assms(1), where f = id]) (auto split: if_splits)
qed

lemma queue_step_splice:
  assumes "queues_repr H s Q" "queue_op_ok H Q (Splice src dst)"
  shows "queues_repr H (list_head_init src (list_spliceall_tail src dst s)) (Q(dst := Q dst @ Q src, src := []))"
    (is "queues_repr H ?s _")
proof -
  note D = queues_reprD [OF assms(1)]
  have src: "src \<in> H" and dst: "dst \<in> H" and ne: "src \<noteq> dst" using assms(2) by auto
  have disj: "set (src # Q src) \<inter> set (dst # Q dst) = {}" by (rule D(2) [OF src dst ne])
  have "list_repr ?s k (Q k)" if "k \<in> H" "k \<noteq> src" "k \<noteq> dst" for k
    by (intro list_head_init_frame list_spliceall_tail_frame [OF D(1) D(1) disj D(1)] D(2))
      (use src dst that D(3) in auto)
  moreover have "list_repr ?s dst (Q dst @ Q src)"
    by (intro list_head_init_frame list_spliceall_tail_repr D(1) src dst disj)
      (use ne D(3) [OF dst src] D(3) [OF src src] in auto)
  ultimately show ?thesis
    using list_head_init_repr D(3) src dst ne
    by (intro queues_reprI [OF assms(1), where f = "\<lambda>g. if g = src then dst else g"]) (auto split: if_splits)
qed

interpretation queues: simulation queue_step abs_queue_step "queue_op_ok H" "queues_repr H" for H
proof
  show "queues_repr H s Q \<Longrightarrow> queue_op_ok H Q x \<Longrightarrow> queues_repr H (queue_step x s) (abs_queue_step x Q)" for s Q x
    by (cases x)
      (auto simp only: queue_step.simps abs_queue_step.simps
        intro: queue_step_enqueue queue_step_requeue queue_step_dequeue queue_step_splice)
qed

text \<open>
  C13: The pointer operations refine queues. Whatever sequence of enqueue (tail), requeue (front),
  dequeue and splice is applied to a store holding a family of disjoint well-formed lists, as long
  as an element is only added when it is on no queue and only removed from the queue it is on, the
  final store holds exactly the queues the same sequence of list operations produces, again well
  formed and disjoint.
\<close>

theorem queue_ops_refine:
  assumes "queues_repr H s Q" "run_ok (queue_op_ok H) abs_queue_step ops Q"
  shows "queues_repr H (run_steps queue_step ops s) (run_steps abs_queue_step ops Q)"
  by (rule queues.run_sim [OF assms])

theorem queue_ops_refine_witness:
  "queues_repr {1, 2}
    (run_steps queue_step [Enqueue 1 10, Enqueue 1 11, Requeue 1 12, Enqueue 2 13, Dequeue 1 10, Splice 1 2]
      (list_head_init 1 (list_head_init 2 \<lparr>prv = id, nxt = id\<rparr>)))
    ((\<lambda>_. [])(2 := [13, 12, 11]))"
proof -
  let ?s = "list_head_init 1 (list_head_init 2 \<lparr>prv = id, nxt = id\<rparr>)"
  let ?ops = "[Enqueue 1 10, Enqueue 1 11, Requeue 1 12, Enqueue 2 13, Dequeue 1 10, Splice 1 2]"
  have "queues_repr {1, 2} ?s (\<lambda>_. [])"
    by (auto simp: queues_repr_def intro: list_head_init_repr list_head_init_frame)
  moreover have "run_ok (queue_op_ok {1, 2}) abs_queue_step ?ops (\<lambda>_. [])"
    by simp
  ultimately have "queues_repr {1, 2} (run_steps queue_step ?ops ?s) (run_steps abs_queue_step ?ops (\<lambda>_. []))"
    by (rule queue_ops_refine)
  moreover have "run_steps abs_queue_step ?ops (\<lambda>_. []) = (\<lambda>_. [])(2 := [13, 12, 11])"
    by (simp add: fun_eq_iff)
  ultimately show ?thesis
    by (simp only:)
qed

text \<open>
  C20: The walks over a well-formed list terminate: \<^verbatim>\<open>list_count\<close> returns the number of elements (as
  a 32-bit counter) and \<^verbatim>\<open>__list_check_elt\<close> decides membership.
\<close>

theorem list_walks_terminate:
  assumes "list_repr s h xs" "elt \<noteq> h"
  shows "list_count h s = Some (of_nat (length xs)) \<and> list_check_elt h elt s = Some (elt \<in> set xs)"
  using assms list_count_from_chain [of s h xs h 0] list_check_elt_from_chain [of s h xs h elt]
  by (simp add: list_repr_def list_count_def list_check_elt_def)

theorem list_walks_terminate_witness:
  "list_count 1 (list_add_tail 3 1 (list_add_tail 2 1 (list_head_init 1 \<lparr>prv = id, nxt = id\<rparr>))) = Some 2 \<and>
   list_check_elt 1 3 (list_add_tail 3 1 (list_add_tail 2 1 (list_head_init 1 \<lparr>prv = id, nxt = id\<rparr>))) = Some True"
proof -
  have "list_repr (list_add_tail 3 1 (list_add_tail 2 1 (list_head_init 1 \<lparr>prv = id, nxt = id\<rparr>))) 1 ([] @ [2] @ [3])"
    unfolding append_assoc [symmetric] by (intro list_add_tail_repr list_head_init_repr) auto
  from list_walks_terminate [OF this, of 3] show ?thesis
    by simp
qed

end
