(* ===== verification/Types.thy ===== *)
theory Types
  imports Seqnum
begin

text \<open>
  The data of the library: return codes and statuses (\<^verbatim>\<open>common/open-mx.h\<close>), driver commands and
  events (\<^verbatim>\<open>common/omx_io.h\<close>), segments, slot maps, partners, requests and the endpoint
  (\<^verbatim>\<open>libopen-mx/omx_types.h\<close>).

  Conventions. A \<^verbatim>\<open>struct\<close> is a record; field names are those of the source, with a prefix where two
  structs share a name. Requests, partners and large regions are named by numbers (\<open>rid\<close>, \<open>pid\<close>,
  slot index) instead of pointers. An intrusive list of requests or partners is the list of their
  names, which is what \<^verbatim>\<open>Linked_List\<close> justifies. The arms of \<^verbatim>\<open>union omx_request\<close> are separate fields of
  one record: the code only reads the arm that the request type selects. Bit masks of flags are
  sets of flags. Padding and the fields only used with \<^verbatim>\<open>OMX_LIB_DEBUG\<close> are left out.
\<close>

subsection \<open>Return codes and statuses\<close>

datatype omx_return =
    OMX_SUCCESS | OMX_BAD_ERROR | OMX_ALREADY_INITIALIZED | OMX_NOT_INITIALIZED
  | OMX_NO_DEVICE_FILE | OMX_NO_DRIVER | OMX_ACCESS_DENIED | OMX_BOARD_NOT_FOUND | OMX_BAD_ENDPOINT
  | OMX_SEGMENTS_BAD_COUNT | OMX_BAD_REQUEST | OMX_BAD_MATCH_MASK | OMX_NO_RESOURCES
  | OMX_BUSY | OMX_BAD_INFO_KEY | OMX_BAD_INFO_ADDRESS
  | OMX_ENDPOINT_PARAMS_BAD_LIST | OMX_ENDPOINT_PARAM_BAD_KEY | OMX_ENDPOINT_PARAM_BAD_VALUE
  | OMX_PEER_NOT_FOUND | OMX_TIMEOUT
  | OMX_REMOTE_ENDPOINT_BAD_ID | OMX_REMOTE_ENDPOINT_CLOSED | OMX_REMOTE_ENDPOINT_BAD_CONNECTION_KEY
  | OMX_BAD_INFO_LENGTH | OMX_NIC_ID_NOT_FOUND | OMX_BAD_KERNEL_ABI | OMX_BAD_LIB_ABI
  | OMX_BAD_MATCHING_FOR_CONTEXT_ID_MASK
  | OMX_CANCELLED | OMX_REMOTE_RDMA_WINDOW_BAD_ID | OMX_REMOTE_ENDPOINT_UNREACHABLE
  | OMX_REMOTE_ENDPOINT_BAD_SESSION | OMX_MESSAGE_ABORTED | OMX_MESSAGE_TRUNCATED
  | OMX_NOT_SUPPORTED_IN_HANDLER | OMX_NO_SYSTEM_RESOURCES | OMX_NOT_IMPLEMENTED
  \<comment> \<open>the internal codes of \<^verbatim>\<open>omx_types.h\<close>\<close>
  | OMX_INTERNAL_MISSING_RESOURCES | OMX_INTERNAL_UNEXPECTED_ERRNO
  | OMX_INTERNAL_MISC_ENODEV | OMX_INTERNAL_MISC_EINVAL | OMX_INTERNAL_MISC_EFAULT

datatype omx_errno =
    EINVAL | EACCES | EPERM | EMFILE | ENFILE | ENOMEM | ENODEV | EBADF | ENOENT | EBUSY | EFAULT | EOTHER

type_synonym rid = nat
type_synonym pid = nat

record omx__endpoint_addr =
  addr_partner :: pid
  addr_session_id :: u32

record omx_status =
  st_code :: omx_return
  st_addr :: omx__endpoint_addr
  st_match_info :: u64
  st_msg_length :: u32
  st_xfer_length :: u32
  st_context :: u64

subsection \<open>Segments and slot maps\<close>

record omx_cmd_user_segment =
  seg_vaddr :: u64
  seg_len :: u64

record omx_seg =
  oseg_ptr :: u64
  oseg_len :: u32

text \<open>
  \<^verbatim>\<open>segs\<close> is NULL, points to the \<^verbatim>\<open>single\<close> field of the same struct, or to an allocated array, here with
  its address and its content (which nothing writes to once it is filled).
\<close>

datatype segs_ptr = Segs_null | Segs_single | Segs_array u64 "omx_cmd_user_segment list"

record omx__req_segs =
  segs_single :: omx_cmd_user_segment
  segs_nseg :: u32
  segs_segs :: segs_ptr
  segs_total_length :: u32

record omx_segscan_state =
  scan_seg :: nat
  scan_off :: u32

record omx__sendq_entry =
  entry_next_free :: int
  entry_user :: "rid option"

record omx__sendq_map =
  sq_first_free :: int
  sq_nr_free :: int
  sq_array :: "omx__sendq_entry list"

record omx__large_region =
  reg_use_count :: int
  reg_id :: u8
  reg_last_seqnum :: u8
  reg_segs :: omx__req_segs
  reg_reserver :: "rid option"

record omx__large_region_slot =
  slot_next_free :: int
  slot_region :: omx__large_region

record omx__large_region_map =
  lr_first_free :: int
  lr_nr_free :: int
  lr_array :: "omx__large_region_slot list"

subsection \<open>Driver commands\<close>

record omx_cmd_send_tiny =
  tiny_peer_index :: u16
  tiny_dest_endpoint :: u8
  tiny_shared :: bool
  tiny_session_id :: u32
  tiny_seqnum :: u16
  tiny_piggyack :: u16
  tiny_length :: u8
  tiny_checksum :: u16
  tiny_match_info :: u64
  tiny_data :: "u8 list"

record omx_cmd_send_small =
  small_peer_index :: u16
  small_dest_endpoint :: u8
  small_shared :: bool
  small_session_id :: u32
  small_seqnum :: u16
  small_piggyack :: u16
  small_length :: u16
  small_checksum :: u16
  small_vaddr :: u64
  small_match_info :: u64

record omx_cmd_send_mediumsq_frag =
  msq_peer_index :: u16
  msq_dest_endpoint :: u8
  msq_shared :: bool
  msq_session_id :: u32
  msq_seqnum :: u16
  msq_piggyack :: u16
  msq_sendq_offset :: u32
  msq_checksum :: u16
  msq_msg_length :: u32
  msq_frag_length :: u16
  msq_frag_seqnum :: u8
  msq_match_info :: u64

record omx_cmd_send_mediumva =
  mva_peer_index :: u16
  mva_dest_endpoint :: u8
  mva_shared :: bool
  mva_session_id :: u32
  mva_seqnum :: u16
  mva_piggyack :: u16
  mva_length :: u32
  mva_checksum :: u16
  mva_nr_segments :: u32
  mva_segments :: segs_ptr
  mva_match_info :: u64

record omx_cmd_send_rndv =
  rndv_peer_index :: u16
  rndv_dest_endpoint :: u8
  rndv_shared :: bool
  rndv_session_id :: u32
  rndv_seqnum :: u16
  rndv_piggyack :: u16
  rndv_match_info :: u64
  rndv_msg_length :: u32
  rndv_pulled_rdma_id :: u8
  rndv_pulled_rdma_seqnum :: u8
  rndv_checksum :: u16

record omx_cmd_send_connect_request =
  conn_peer_index :: u16
  conn_dest_endpoint :: u8
  conn_shared_disabled :: bool
  conn_seqnum :: u16
  conn_src_session_id :: u32
  conn_app_key :: u32
  conn_target_recv_seqnum_start :: u16
  conn_connect_seqnum :: u8

record omx_cmd_send_connect_reply =
  reply_peer_index :: u16
  reply_dest_endpoint :: u8
  reply_shared_disabled :: bool
  reply_seqnum :: u16
  reply_src_session_id :: u32
  reply_target_session_id :: u32
  reply_target_recv_seqnum_start :: u16
  reply_connect_seqnum :: u8
  reply_connect_status_code :: u8

record omx_cmd_pull =
  pull_peer_index :: u16
  pull_dest_endpoint :: u8
  pull_shared :: bool
  pull_session_id :: u32
  pull_length :: u32
  pull_resend_timeout_jiffies :: u32
  pull_puller_rdma_id :: u32
  pull_pulled_rdma_offset :: u32
  pull_pulled_rdma_id :: u32
  pull_pulled_rdma_seqnum :: u32
  pull_lib_cookie :: rid

record omx_cmd_send_notify =
  notify_peer_index :: u16
  notify_dest_endpoint :: u8
  notify_shared :: bool
  notify_session_id :: u32
  notify_total_length :: u32
  notify_seqnum :: u16
  notify_piggyack :: u16
  notify_pulled_rdma_id :: u8
  notify_pulled_rdma_seqnum :: u8

record omx_cmd_send_liback =
  liback_peer_index :: u16
  liback_dest_endpoint :: u8
  liback_shared :: bool
  liback_session_id :: u32
  liback_acknum :: u32
  liback_lib_seqnum :: u16
  liback_send_seq :: u16
  liback_resent :: bool

record omx_cmd_create_user_region =
  reg_cmd_nr_segments :: u32
  reg_cmd_id :: u32
  reg_cmd_seqnum :: u32
  reg_cmd_segments :: omx__req_segs

text \<open>The commands the library passes to \<^verbatim>\<open>ioctl\<close> on the endpoint.\<close>

datatype omx_cmd =
    OMX_CMD_SEND_TINY omx_cmd_send_tiny
  | OMX_CMD_SEND_SMALL omx_cmd_send_small
  | OMX_CMD_SEND_MEDIUMSQ_FRAG omx_cmd_send_mediumsq_frag
  | OMX_CMD_SEND_MEDIUMVA omx_cmd_send_mediumva
  | OMX_CMD_SEND_RNDV omx_cmd_send_rndv
  | OMX_CMD_PULL omx_cmd_pull
  | OMX_CMD_SEND_NOTIFY omx_cmd_send_notify
  | OMX_CMD_SEND_CONNECT_REQUEST omx_cmd_send_connect_request
  | OMX_CMD_SEND_CONNECT_REPLY omx_cmd_send_connect_reply
  | OMX_CMD_SEND_LIBACK omx_cmd_send_liback
  | OMX_CMD_CREATE_USER_REGION omx_cmd_create_user_region
  | OMX_CMD_DESTROY_USER_REGION u32
  | OMX_CMD_WAKEUP u32
  | OMX_CMD_RELEASE_EXP_SLOTS
  | OMX_CMD_RELEASE_UNEXP_SLOTS

subsection \<open>Driver events\<close>

datatype omx_evt_recv_msg_specific =
    Msg_tiny (mt_checksum: u16) (mt_length: u8) (mt_data: "u8 list")
  | Msg_small (ms_recvq_offset: u32) (ms_length: u16) (ms_checksum: u16)
  | Msg_medium_frag (mm_recvq_offset: u32) (mm_msg_length: u32) (mm_frag_length: u16)
      (mm_frag_seqnum: u8) (mm_frag_pipeline: u8) (mm_checksum: u16)
  | Msg_rndv (mr_msg_length: u32) (mr_pulled_rdma_id: u8) (mr_pulled_rdma_seqnum: u8)
      (mr_pulled_rdma_offset: u16) (mr_checksum: u16)
  | Msg_notify (mn_length: u32) (mn_pulled_rdma_id: u8) (mn_pulled_rdma_seqnum: u8)

record omx_evt_recv_msg =
  msg_peer_index :: u16
  msg_src_endpoint :: u8
  msg_seqnum :: u16
  msg_piggyack :: u16
  msg_match_info :: u64
  msg_specific :: omx_evt_recv_msg_specific

record omx_evt_recv_connect_request =
  creq_peer_index :: u16
  creq_src_endpoint :: u8
  creq_shared :: bool
  creq_seqnum :: u16
  creq_src_session_id :: u32
  creq_app_key :: u32
  creq_target_recv_seqnum_start :: u16
  creq_connect_seqnum :: u8

record omx_evt_recv_connect_reply =
  crep_peer_index :: u16
  crep_src_endpoint :: u8
  crep_shared :: bool
  crep_seqnum :: u16
  crep_src_session_id :: u32
  crep_target_session_id :: u32
  crep_target_recv_seqnum_start :: u16
  crep_connect_seqnum :: u8
  crep_connect_status_code :: u8

record omx_evt_recv_liback =
  lb_peer_index :: u16
  lb_src_endpoint :: u8
  lb_acknum :: u32
  lb_lib_seqnum :: u16
  lb_send_seq :: u16
  lb_resent :: bool

datatype omx_evt_nack_lib_type =
  OMX_EVT_NACK_LIB_BAD_ENDPT | OMX_EVT_NACK_LIB_ENDPT_CLOSED | OMX_EVT_NACK_LIB_BAD_SESSION | Nack_lib_unknown

record omx_evt_recv_nack_lib =
  nack_peer_index :: u16
  nack_src_endpoint :: u8
  nack_nack_type :: omx_evt_nack_lib_type
  nack_seqnum :: u16

datatype omx_evt_pull_done_status =
    OMX_EVT_PULL_DONE_SUCCESS | OMX_EVT_PULL_DONE_BAD_ENDPT | OMX_EVT_PULL_DONE_ENDPT_CLOSED
  | OMX_EVT_PULL_DONE_BAD_SESSION | OMX_EVT_PULL_DONE_BAD_RDMAWIN | OMX_EVT_PULL_DONE_ABORTED
  | OMX_EVT_PULL_DONE_TIMEOUT | Pull_done_unknown

record omx_evt_pull_done =
  pd_lib_cookie :: rid
  pd_puller_rdma_id :: u32
  pd_status :: omx_evt_pull_done_status

datatype omx_evt =
    OMX_EVT_NONE
  | OMX_EVT_IGNORE
  | OMX_EVT_RECV_CONNECT_REQUEST omx_evt_recv_connect_request
  | OMX_EVT_RECV_CONNECT_REPLY omx_evt_recv_connect_reply
  | OMX_EVT_RECV_TINY omx_evt_recv_msg
  | OMX_EVT_RECV_SMALL omx_evt_recv_msg
  | OMX_EVT_RECV_MEDIUM_FRAG omx_evt_recv_msg
  | OMX_EVT_RECV_RNDV omx_evt_recv_msg
  | OMX_EVT_RECV_NOTIFY omx_evt_recv_msg
  | OMX_EVT_RECV_LIBACK omx_evt_recv_liback
  | OMX_EVT_RECV_NACK_LIB omx_evt_recv_nack_lib
  | OMX_EVT_SEND_MEDIUMSQ_FRAG_DONE u32
  | OMX_EVT_PULL_DONE omx_evt_pull_done
  | Evt_unknown

record omx_evt_slot =
  evt_id :: u8
  evt_body :: omx_evt

end
