(* ===== verification/Endpoint_State.thy ===== *)
theory Endpoint_State
  imports Types
begin

text \<open>
  The partners, the requests and the endpoint (\<^verbatim>\<open>libopen-mx/omx_types.h\<close>), and the primitive accesses
  every other theory uses: reading and writing a request or a partner, copying memory, allocating,
  and passing a command to the driver.

  \<^verbatim>\<open>tmp_req_q\<close> is the local queue head of \<^verbatim>\<open>omx__process_resend_requests\<close>, here because unlinking a request
  can take it off that queue too. \<^verbatim>\<open>sleepers\<close> is the list of the \<^verbatim>\<open>need_wakeup\<close> fields of the waiting threads. The unexpected handler of
  the application is not a field but an argument of the functions that call it.

  The endpoint record also holds what the C code keeps in globals or gets from outside: the driver
  descriptor, the tunables, the memory of the process, the answers of the allocator and of the
  driver (both unknown functions: the \<open>n\<close>-th call gets the \<open>n\<close>-th answer), and the log of the
  commands passed to the driver.
\<close>

subsection \<open>Partners\<close>

datatype omx__partner_localization =
    OMX__PARTNER_LOCALIZATION_LOCAL
  | OMX__PARTNER_LOCALIZATION_REMOTE
  | OMX__PARTNER_LOCALIZATION_UNKNOWN

datatype omx__partner_need_ack =
    OMX__PARTNER_NEED_NO_ACK
  | OMX__PARTNER_NEED_ACK_DELAYED
  | OMX__PARTNER_NEED_ACK_IMMEDIATE

text \<open>The function pointer a packet carries until it is processed. \<open>early_addr\<close> is the address of the struct itself.\<close>

datatype omx__process_recv_func_t =
  Process_recv_tiny | Process_recv_small | Process_recv_medium_frag | Process_recv_rndv | Process_recv_notify

record omx__early_packet =
  early_addr :: u64
  early_msg :: omx_evt_recv_msg
  early_recv_func :: omx__process_recv_func_t
  early_data :: u64
  early_msg_length :: u32

record omx__partner =
  p_board_addr :: u64
  p_peer_index :: u16
  p_endpoint_index :: u8
  localization :: omx__partner_localization
  rndv_threshold :: u32
  true_session_id :: u32
  back_session_id :: u32
  p_connect_seqnum :: u8
  last_send_acknum :: u32
  last_recv_acknum :: u32
  p_non_acked_req_q :: "rid list"
  p_connect_req_q :: "rid list"
  p_partial_medium_recv_req_q :: "rid list"
  p_need_seqnum_send_req_q :: "rid list"
  early_recv_q :: "omx__early_packet list"
  throttling_sends_nr :: u32
  next_send_seq :: omx__seqnum_t
  next_acked_send_seq :: omx__seqnum_t
  next_match_recv_seq :: omx__seqnum_t
  next_frag_recv_seq :: omx__seqnum_t
  last_acked_recv_seq :: omx__seqnum_t
  need_ack :: omx__partner_need_ack
  oldest_recv_time_not_acked :: u64
  user_context :: u64

subsection \<open>Requests\<close>

datatype omx__request_resource =
    OMX_REQUEST_RESOURCE_EXP_EVENT
  | OMX_REQUEST_RESOURCE_SEND_LARGE_REGION
  | OMX_REQUEST_RESOURCE_LARGE_REGION
  | OMX_REQUEST_RESOURCE_PULL_HANDLE
  | OMX_REQUEST_RESOURCE_SENDQ_SLOT

definition OMX_REQUEST_SEND_MEDIUMSQ_RESOURCES :: "omx__request_resource set" where
  "OMX_REQUEST_SEND_MEDIUMSQ_RESOURCES = {OMX_REQUEST_RESOURCE_EXP_EVENT, OMX_REQUEST_RESOURCE_SENDQ_SLOT}"

definition OMX_REQUEST_SEND_LARGE_RESOURCES :: "omx__request_resource set" where
  "OMX_REQUEST_SEND_LARGE_RESOURCES =
    {OMX_REQUEST_RESOURCE_SEND_LARGE_REGION, OMX_REQUEST_RESOURCE_LARGE_REGION}"

definition OMX_REQUEST_PULL_RESOURCES :: "omx__request_resource set" where
  "OMX_REQUEST_PULL_RESOURCES =
    {OMX_REQUEST_RESOURCE_EXP_EVENT, OMX_REQUEST_RESOURCE_LARGE_REGION, OMX_REQUEST_RESOURCE_PULL_HANDLE}"

datatype omx__request_type =
    OMX_REQUEST_TYPE_NONE
  | OMX_REQUEST_TYPE_CONNECT
  | OMX_REQUEST_TYPE_SEND_TINY
  | OMX_REQUEST_TYPE_SEND_SMALL
  | OMX_REQUEST_TYPE_SEND_MEDIUMSQ
  | OMX_REQUEST_TYPE_SEND_MEDIUMVA
  | OMX_REQUEST_TYPE_SEND_LARGE
  | OMX_REQUEST_TYPE_RECV
  | OMX_REQUEST_TYPE_RECV_LARGE
  | OMX_REQUEST_TYPE_SEND_SELF
  | OMX_REQUEST_TYPE_RECV_SELF_UNEXPECTED

datatype omx__request_state =
    OMX_REQUEST_STATE_NEED_RESOURCES
  | OMX_REQUEST_STATE_NEED_SEQNUM
  | OMX_REQUEST_STATE_DRIVER_MEDIUMSQ_SENDING
  | OMX_REQUEST_STATE_NEED_ACK
  | OMX_REQUEST_STATE_NEED_REPLY
  | OMX_REQUEST_STATE_RECV_NEED_MATCHING
  | OMX_REQUEST_STATE_RECV_PARTIAL
  | OMX_REQUEST_STATE_DRIVER_PULLING
  | OMX_REQUEST_STATE_UNEXPECTED_RECV
  | OMX_REQUEST_STATE_UNEXPECTED_SELF_SEND
  | OMX_REQUEST_STATE_DONE
  | OMX_REQUEST_STATE_ZOMBIE
  | OMX_REQUEST_STATE_INTERNAL

text \<open>
  \<^verbatim>\<open>struct omx__generic_request\<close>, then the arms of \<^verbatim>\<open>union omx_request\<close>: \<^verbatim>\<open>send\<close> (with its specific
  arms), \<^verbatim>\<open>recv\<close>, \<^verbatim>\<open>connect\<close>.
\<close>

record omx_request =
  rpartner :: pid
  rtype :: omx__request_type
  state :: "omx__request_state set"
  missing_resources :: "omx__request_resource set"
  send_seqnum :: omx__seqnum_t
  last_send_jiffies :: u64
  resends_max :: u32
  resends :: u32
  status :: omx_status
  segs :: omx__req_segs
  send_tiny_ioctl_param :: omx_cmd_send_tiny
  send_small_ioctl_param :: omx_cmd_send_small
  small_copy :: u64
  send_mediumsq_frag_ioctl_param :: omx_cmd_send_mediumsq_frag
  frags_nr :: u32
  frags_pending_nr :: u32
  sendq_map_index :: "u16 list"
  send_mediumva_ioctl_param :: omx_cmd_send_mediumva
  send_rndv_ioctl_param :: omx_cmd_send_rndv
  region :: nat
  region_seqnum :: u8
  match_info :: u64
  match_mask :: u64
  recv_checksum :: u16
  recv_seqnum :: omx__seqnum_t
  frags_received_mask :: u32
  accumulated_length :: u32
  scan_offset :: u32
  scan_state :: omx_segscan_state
  send_notify_ioctl_param :: omx_cmd_send_notify
  local_region :: nat
  pulled_rdma_id :: u8
  pulled_rdma_seqnum :: u8
  pulled_rdma_offset :: u16
  self_unexp_sreq :: rid
  send_connect_request_ioctl_param :: omx_cmd_send_connect_request
  connect_session_id :: u32
  connect_seqnum :: u8

subsection \<open>The endpoint\<close>

record omx_driver_desc =
  endpoint_max :: u32
  jiffies :: u64
  hz :: u32
  medium_frag_length_max :: u16

record omx_endpoint_desc =
  desc_status :: u64
  desc_wakeup_jiffies :: u64
  desc_session_id :: u32
  desc_user_event_index :: u32

record omx__globals =
  g_regcache :: bool
  g_waitspin :: bool
  g_parallel_regcache :: bool
  g_debug_checksum :: bool
  g_medium_sendq :: bool
  g_selfcomms :: bool
  g_sharedcomms :: bool
  g_rndv_threshold :: u32
  g_shared_rndv_threshold :: u32
  g_ack_delay_jiffies :: u32
  g_resend_delay_jiffies :: u32
  g_not_acked_max :: u32

datatype omx__progression_disabled =
  OMX_PROGRESSION_DISABLED_IN_HANDLER | OMX_PROGRESSION_DISABLED_BY_API

type_synonym memory = "u64 \<Rightarrow> u8"
type_synonym omx_error_handler_t = "omx_return \<Rightarrow> omx_return option"

record omx_endpoint =
  endpoint_index :: u8
  board_addr :: u64
  app_key :: u32
  progression_disabled :: "omx__progression_disabled set"
  desc :: omx_endpoint_desc
  check_status_delay_jiffies :: u32
  last_check_jiffies :: u64
  sendq :: u64
  recvq :: u64
  exp_eventq :: "omx_evt_slot list"
  unexp_eventq :: "omx_evt_slot list"
  next_exp_event_index :: u32
  next_unexp_event_index :: u32
  avail_exp_events :: u32
  req_resends_max :: u32
  pull_resend_timeout_jiffies :: u32
  zombies :: u32
  zombie_max :: u32
  ctxid_bits :: u8
  ctxid_max :: u32
  ctxid_shift :: u8
  ctxid_mask :: u64
  anyctxid_done_req_q :: "rid list"
  anyctxid_unexp_req_q :: "rid list"
  ctxid_unexp_req_q :: "u32 \<Rightarrow> rid list"
  ctxid_recv_req_q :: "u32 \<Rightarrow> rid list"
  ctxid_done_req_q :: "u32 \<Rightarrow> rid list"
  need_resources_send_req_q :: "rid list"
  driver_mediumsq_sending_req_q :: "rid list"
  large_send_need_reply_req_q :: "rid list"
  driver_pulling_req_q :: "rid list"
  connect_req_q :: "rid list"
  non_acked_req_q :: "rid list"
  tmp_req_q :: "rid list"
  unexp_self_send_req_q :: "rid list"
  sendq_map :: omx__sendq_map
  large_region_map :: omx__large_region_map
  partner_table :: "u32 \<Rightarrow> pid option"
  myself :: pid
  last_partners_acking_jiffies :: u64
  partners_to_ack_immediate_list :: "pid list"
  partners_to_ack_delayed_list :: "pid list"
  throttling_partners_list :: "pid list"
  sleepers :: "bool list"
  reg_list :: "nat list"
  reg_unused_list :: "nat list"
  reg_vect_list :: "nat list"
  large_sends_avail_nr :: int
  error_handler :: "omx_error_handler_t option"
  \<comment> \<open>globals, memory and environment\<close>
  driver_desc :: omx_driver_desc
  globals :: omx__globals
  default_error_handler :: omx_error_handler_t
  reqs :: "rid \<Rightarrow> omx_request"
  live_reqs :: "rid set"
  next_rid :: rid
  partners :: "pid \<Rightarrow> omx__partner"
  next_pid :: pid
  mem :: memory
  malloc_answer :: "nat \<Rightarrow> u64 option"
  malloc_nr :: nat
  freed :: "u64 list"
  ioctl_answer :: "nat \<Rightarrow> omx_errno option"
  cmds :: "omx_cmd list"

subsection \<open>Primitive accesses\<close>

definition upd_req :: "rid \<Rightarrow> (omx_request \<Rightarrow> omx_request) \<Rightarrow> omx_endpoint \<Rightarrow> omx_endpoint" where
  "upd_req r f ep = ep\<lparr>reqs := (reqs ep)(r := f (reqs ep r))\<rparr>"

definition upd_partner :: "pid \<Rightarrow> (omx__partner \<Rightarrow> omx__partner) \<Rightarrow> omx_endpoint \<Rightarrow> omx_endpoint" where
  "upd_partner p f ep = ep\<lparr>partners := (partners ep)(p := f (partners ep p))\<rparr>"

abbreviation set_state_flag :: "omx__request_state \<Rightarrow> omx_request \<Rightarrow> omx_request" where
  "set_state_flag fl rq \<equiv> rq\<lparr>state := insert fl (state rq)\<rparr>"

abbreviation clear_state_flag :: "omx__request_state \<Rightarrow> omx_request \<Rightarrow> omx_request" where
  "clear_state_flag fl rq \<equiv> rq\<lparr>state := state rq - {fl}\<rparr>"

text \<open>\<^verbatim>\<open>memcpy\<close>: the \<open>n\<close> bytes from \<open>s\<close> on, as they were before the call, become the bytes from \<open>d\<close> on.\<close>

definition memcpy :: "u64 \<Rightarrow> u64 \<Rightarrow> u64 \<Rightarrow> memory \<Rightarrow> memory" where
  "memcpy d s n m = (\<lambda>a. if a - d < n then m (s + (a - d)) else m a)"

definition mem_read :: "memory \<Rightarrow> u64 \<Rightarrow> nat \<Rightarrow> u8 list" where
  "mem_read m a n = map (\<lambda>i. m (a + of_nat i)) [0..<n]"

definition mem_write :: "u64 \<Rightarrow> u8 list \<Rightarrow> memory \<Rightarrow> memory" where
  "mem_write d bs m = (\<lambda>a. if unat (a - d) < length bs then bs ! unat (a - d) else m a)"

text \<open>\<^verbatim>\<open>omx_malloc_ep\<close> and \<^verbatim>\<open>omx_free_ep\<close>: the address, or None for NULL, is the allocator's next answer.\<close>

definition omx_malloc_ep :: "omx_endpoint \<Rightarrow> u64 option \<times> omx_endpoint" where
  "omx_malloc_ep ep = (malloc_answer ep (malloc_nr ep), ep\<lparr>malloc_nr := Suc (malloc_nr ep)\<rparr>)"

definition omx_free_ep :: "u64 \<Rightarrow> omx_endpoint \<Rightarrow> omx_endpoint" where
  "omx_free_ep a ep = ep\<lparr>freed := freed ep @ [a]\<rparr>"

text \<open>\<^verbatim>\<open>ioctl\<close> on the endpoint: the command is logged, and the answer is the driver's next one.\<close>

definition ioctl :: "omx_cmd \<Rightarrow> omx_endpoint \<Rightarrow> omx_errno option \<times> omx_endpoint" where
  "ioctl c ep = (ioctl_answer ep (length (cmds ep)), ep\<lparr>cmds := cmds ep @ [c]\<rparr>)"

subsection \<open>Blank values\<close>

text \<open>Structs with every field zero or empty, from which the concrete examples are built.\<close>

definition blank_endpoint_addr :: omx__endpoint_addr where
  "blank_endpoint_addr = \<lparr>addr_partner = 0, addr_session_id = 0\<rparr>"

definition blank_status :: omx_status where
  "blank_status = \<lparr>st_code = OMX_SUCCESS, st_addr = blank_endpoint_addr, st_match_info = 0, st_msg_length = 0,
    st_xfer_length = 0, st_context = 0\<rparr>"

definition blank_user_segment :: omx_cmd_user_segment where
  "blank_user_segment = \<lparr>seg_vaddr = 0, seg_len = 0\<rparr>"

definition blank_req_segs :: omx__req_segs where
  "blank_req_segs = \<lparr>segs_single = blank_user_segment, segs_nseg = 0, segs_segs = Segs_null, segs_total_length = 0\<rparr>"

definition blank_segscan_state :: omx_segscan_state where
  "blank_segscan_state = \<lparr>scan_seg = 0, scan_off = 0\<rparr>"

definition blank_sendq_map :: omx__sendq_map where
  "blank_sendq_map = \<lparr>sq_first_free = 0, sq_nr_free = 0, sq_array = []\<rparr>"

definition blank_large_region_map :: omx__large_region_map where
  "blank_large_region_map = \<lparr>lr_first_free = 0, lr_nr_free = 0, lr_array = []\<rparr>"

definition blank_send_tiny :: omx_cmd_send_tiny where
  "blank_send_tiny = \<lparr>tiny_peer_index = 0, tiny_dest_endpoint = 0, tiny_shared = False, tiny_session_id = 0, tiny_seqnum = 0,
    tiny_piggyack = 0, tiny_length = 0, tiny_checksum = 0, tiny_match_info = 0, tiny_data = []\<rparr>"

definition blank_send_small :: omx_cmd_send_small where
  "blank_send_small = \<lparr>small_peer_index = 0, small_dest_endpoint = 0, small_shared = False, small_session_id = 0,
    small_seqnum = 0, small_piggyack = 0, small_length = 0, small_checksum = 0, small_vaddr = 0,
    small_match_info = 0\<rparr>"

definition blank_send_mediumsq_frag :: omx_cmd_send_mediumsq_frag where
  "blank_send_mediumsq_frag = \<lparr>msq_peer_index = 0, msq_dest_endpoint = 0, msq_shared = False, msq_session_id = 0, msq_seqnum = 0,
    msq_piggyack = 0, msq_sendq_offset = 0, msq_checksum = 0, msq_msg_length = 0, msq_frag_length = 0,
    msq_frag_seqnum = 0, msq_match_info = 0\<rparr>"

definition blank_send_mediumva :: omx_cmd_send_mediumva where
  "blank_send_mediumva = \<lparr>mva_peer_index = 0, mva_dest_endpoint = 0, mva_shared = False, mva_session_id = 0, mva_seqnum = 0,
    mva_piggyack = 0, mva_length = 0, mva_checksum = 0, mva_nr_segments = 0, mva_segments = Segs_null,
    mva_match_info = 0\<rparr>"

definition blank_send_rndv :: omx_cmd_send_rndv where
  "blank_send_rndv = \<lparr>rndv_peer_index = 0, rndv_dest_endpoint = 0, rndv_shared = False, rndv_session_id = 0, rndv_seqnum = 0,
    rndv_piggyack = 0, rndv_match_info = 0, rndv_msg_length = 0, rndv_pulled_rdma_id = 0,
    rndv_pulled_rdma_seqnum = 0, rndv_checksum = 0\<rparr>"

definition blank_send_notify :: omx_cmd_send_notify where
  "blank_send_notify = \<lparr>notify_peer_index = 0, notify_dest_endpoint = 0, notify_shared = False, notify_session_id = 0,
    notify_total_length = 0, notify_seqnum = 0, notify_piggyack = 0, notify_pulled_rdma_id = 0,
    notify_pulled_rdma_seqnum = 0\<rparr>"

definition blank_send_connect_request :: omx_cmd_send_connect_request where
  "blank_send_connect_request = \<lparr>conn_peer_index = 0, conn_dest_endpoint = 0, conn_shared_disabled = False, conn_seqnum = 0,
    conn_src_session_id = 0, conn_app_key = 0, conn_target_recv_seqnum_start = 0, conn_connect_seqnum = 0\<rparr>"

definition blank_partner :: omx__partner where
  "blank_partner = \<lparr>p_board_addr = 0, p_peer_index = 0, p_endpoint_index = 0,
    localization = OMX__PARTNER_LOCALIZATION_REMOTE, rndv_threshold = 0, true_session_id = 0,
    back_session_id = 0, p_connect_seqnum = 0, last_send_acknum = 0, last_recv_acknum = 0,
    p_non_acked_req_q = [], p_connect_req_q = [], p_partial_medium_recv_req_q = [],
    p_need_seqnum_send_req_q = [], early_recv_q = [], throttling_sends_nr = 0, next_send_seq = 0,
    next_acked_send_seq = 0, next_match_recv_seq = 0, next_frag_recv_seq = 0, last_acked_recv_seq = 0,
    need_ack = OMX__PARTNER_NEED_NO_ACK, oldest_recv_time_not_acked = 0, user_context = 0\<rparr>"

definition blank_request :: omx_request where
  "blank_request = \<lparr>rpartner = 0, rtype = OMX_REQUEST_TYPE_NONE, state = {}, missing_resources = {}, send_seqnum = 0,
    last_send_jiffies = 0, resends_max = 0, resends = 0, status = blank_status, segs = blank_req_segs,
    send_tiny_ioctl_param = blank_send_tiny, send_small_ioctl_param = blank_send_small, small_copy = 0,
    send_mediumsq_frag_ioctl_param = blank_send_mediumsq_frag, frags_nr = 0, frags_pending_nr = 0,
    sendq_map_index = [], send_mediumva_ioctl_param = blank_send_mediumva,
    send_rndv_ioctl_param = blank_send_rndv, region = 0, region_seqnum = 0, match_info = 0, match_mask = 0,
    recv_checksum = 0, recv_seqnum = 0, frags_received_mask = 0, accumulated_length = 0, scan_offset = 0,
    scan_state = blank_segscan_state, send_notify_ioctl_param = blank_send_notify, local_region = 0,
    pulled_rdma_id = 0, pulled_rdma_seqnum = 0, pulled_rdma_offset = 0, self_unexp_sreq = 0,
    send_connect_request_ioctl_param = blank_send_connect_request, connect_session_id = 0,
    connect_seqnum = 0\<rparr>"

definition blank_driver_desc :: omx_driver_desc where
  "blank_driver_desc = \<lparr>endpoint_max = 0, jiffies = 0, hz = 0, medium_frag_length_max = 0\<rparr>"

definition blank_endpoint_desc :: omx_endpoint_desc where
  "blank_endpoint_desc = \<lparr>desc_status = 0, desc_wakeup_jiffies = 0, desc_session_id = 0, desc_user_event_index = 0\<rparr>"

definition blank_globals :: omx__globals where
  "blank_globals = \<lparr>g_regcache = False, g_waitspin = False, g_parallel_regcache = False, g_debug_checksum = False, g_medium_sendq = False,
    g_selfcomms = False, g_sharedcomms = False, g_rndv_threshold = 0, g_shared_rndv_threshold = 0,
    g_ack_delay_jiffies = 0, g_resend_delay_jiffies = 0, g_not_acked_max = 0\<rparr>"

definition blank_endpoint :: omx_endpoint where
  "blank_endpoint = \<lparr>endpoint_index = 0, board_addr = 0, app_key = 0, progression_disabled = {}, desc = blank_endpoint_desc,
    check_status_delay_jiffies = 0, last_check_jiffies = 0,
    sendq = 0, recvq = 0, exp_eventq = [], unexp_eventq = [], next_exp_event_index = 0,
    next_unexp_event_index = 0, avail_exp_events = 0, req_resends_max = 0, pull_resend_timeout_jiffies = 0,
    zombies = 0, zombie_max = 0, ctxid_bits = 0, ctxid_max = 1, ctxid_shift = 0, ctxid_mask = 0,
    anyctxid_done_req_q = [], anyctxid_unexp_req_q = [], ctxid_unexp_req_q = (\<lambda>_. []), ctxid_recv_req_q = (\<lambda>_. []),
    ctxid_done_req_q = (\<lambda>_. []), need_resources_send_req_q = [], driver_mediumsq_sending_req_q = [],
    large_send_need_reply_req_q = [], driver_pulling_req_q = [], connect_req_q = [], non_acked_req_q = [], tmp_req_q = [],
    unexp_self_send_req_q = [], sendq_map = blank_sendq_map, large_region_map = blank_large_region_map,
    partner_table = (\<lambda>_. None), myself = 0, last_partners_acking_jiffies = 0,
    partners_to_ack_immediate_list = [], partners_to_ack_delayed_list = [], throttling_partners_list = [], sleepers = [],
    reg_list = [], reg_unused_list = [], reg_vect_list = [], large_sends_avail_nr = 0,
    error_handler = None, driver_desc = blank_driver_desc, globals = blank_globals,
    default_error_handler = Some, reqs = (\<lambda>_. blank_request), live_reqs = {}, next_rid = 0,
    partners = (\<lambda>_. blank_partner), next_pid = 0, mem = (\<lambda>_. 0),
    malloc_answer = (\<lambda>_. None), malloc_nr = 0, freed = [], ioctl_answer = (\<lambda>_. None),
    cmds = []\<rparr>"

lemmas blank_defs =
  blank_endpoint_addr_def blank_status_def blank_user_segment_def blank_req_segs_def
  blank_segscan_state_def blank_sendq_map_def blank_large_region_map_def blank_send_tiny_def
  blank_send_small_def blank_send_mediumsq_frag_def blank_send_mediumva_def blank_send_rndv_def
  blank_send_notify_def blank_send_connect_request_def blank_partner_def blank_request_def
  blank_driver_desc_def blank_endpoint_desc_def blank_globals_def blank_endpoint_def

lemma blank_endpoint_addr_sel [simp]:
  "addr_partner blank_endpoint_addr = 0" "addr_session_id blank_endpoint_addr = 0"
  by (simp_all add: blank_endpoint_addr_def)

lemma blank_status_sel [simp]:
  "st_code blank_status = OMX_SUCCESS" "st_addr blank_status = blank_endpoint_addr"
  "st_match_info blank_status = 0" "st_msg_length blank_status = 0" "st_xfer_length blank_status = 0"
  "st_context blank_status = 0"
  by (simp_all add: blank_status_def)

lemma blank_user_segment_sel [simp]:
  "seg_vaddr blank_user_segment = 0" "seg_len blank_user_segment = 0"
  by (simp_all add: blank_user_segment_def)

lemma blank_req_segs_sel [simp]:
  "segs_single blank_req_segs = blank_user_segment" "segs_nseg blank_req_segs = 0"
  "segs_segs blank_req_segs = Segs_null" "segs_total_length blank_req_segs = 0"
  by (simp_all add: blank_req_segs_def)

lemma blank_segscan_state_sel [simp]:
  "scan_seg blank_segscan_state = 0" "scan_off blank_segscan_state = 0"
  by (simp_all add: blank_segscan_state_def)

lemma blank_sendq_map_sel [simp]:
  "sq_first_free blank_sendq_map = 0" "sq_nr_free blank_sendq_map = 0" "sq_array blank_sendq_map = []"
  by (simp_all add: blank_sendq_map_def)

lemma blank_large_region_map_sel [simp]:
  "lr_first_free blank_large_region_map = 0" "lr_nr_free blank_large_region_map = 0"
  "lr_array blank_large_region_map = []"
  by (simp_all add: blank_large_region_map_def)

lemma blank_send_tiny_sel [simp]:
  "tiny_peer_index blank_send_tiny = 0" "tiny_dest_endpoint blank_send_tiny = 0"
  "tiny_shared blank_send_tiny = False" "tiny_session_id blank_send_tiny = 0"
  "tiny_seqnum blank_send_tiny = 0" "tiny_piggyack blank_send_tiny = 0" "tiny_length blank_send_tiny = 0"
  "tiny_checksum blank_send_tiny = 0" "tiny_match_info blank_send_tiny = 0" "tiny_data blank_send_tiny = []"
  by (simp_all add: blank_send_tiny_def)

lemma blank_send_small_sel [simp]:
  "small_peer_index blank_send_small = 0" "small_dest_endpoint blank_send_small = 0"
  "small_shared blank_send_small = False" "small_session_id blank_send_small = 0"
  "small_seqnum blank_send_small = 0" "small_piggyack blank_send_small = 0"
  "small_length blank_send_small = 0" "small_checksum blank_send_small = 0"
  "small_vaddr blank_send_small = 0" "small_match_info blank_send_small = 0"
  by (simp_all add: blank_send_small_def)

lemma blank_send_mediumsq_frag_sel [simp]:
  "msq_peer_index blank_send_mediumsq_frag = 0" "msq_dest_endpoint blank_send_mediumsq_frag = 0"
  "msq_shared blank_send_mediumsq_frag = False" "msq_session_id blank_send_mediumsq_frag = 0"
  "msq_seqnum blank_send_mediumsq_frag = 0" "msq_piggyack blank_send_mediumsq_frag = 0"
  "msq_sendq_offset blank_send_mediumsq_frag = 0" "msq_checksum blank_send_mediumsq_frag = 0"
  "msq_msg_length blank_send_mediumsq_frag = 0" "msq_frag_length blank_send_mediumsq_frag = 0"
  "msq_frag_seqnum blank_send_mediumsq_frag = 0" "msq_match_info blank_send_mediumsq_frag = 0"
  by (simp_all add: blank_send_mediumsq_frag_def)

lemma blank_send_mediumva_sel [simp]:
  "mva_peer_index blank_send_mediumva = 0" "mva_dest_endpoint blank_send_mediumva = 0"
  "mva_shared blank_send_mediumva = False" "mva_session_id blank_send_mediumva = 0"
  "mva_seqnum blank_send_mediumva = 0" "mva_piggyack blank_send_mediumva = 0"
  "mva_length blank_send_mediumva = 0" "mva_checksum blank_send_mediumva = 0"
  "mva_nr_segments blank_send_mediumva = 0" "mva_segments blank_send_mediumva = Segs_null"
  "mva_match_info blank_send_mediumva = 0"
  by (simp_all add: blank_send_mediumva_def)

lemma blank_send_rndv_sel [simp]:
  "rndv_peer_index blank_send_rndv = 0" "rndv_dest_endpoint blank_send_rndv = 0"
  "rndv_shared blank_send_rndv = False" "rndv_session_id blank_send_rndv = 0"
  "rndv_seqnum blank_send_rndv = 0" "rndv_piggyack blank_send_rndv = 0" "rndv_match_info blank_send_rndv = 0"
  "rndv_msg_length blank_send_rndv = 0" "rndv_pulled_rdma_id blank_send_rndv = 0"
  "rndv_pulled_rdma_seqnum blank_send_rndv = 0" "rndv_checksum blank_send_rndv = 0"
  by (simp_all add: blank_send_rndv_def)

lemma blank_send_notify_sel [simp]:
  "notify_peer_index blank_send_notify = 0" "notify_dest_endpoint blank_send_notify = 0"
  "notify_shared blank_send_notify = False" "notify_session_id blank_send_notify = 0"
  "notify_total_length blank_send_notify = 0" "notify_seqnum blank_send_notify = 0"
  "notify_piggyack blank_send_notify = 0" "notify_pulled_rdma_id blank_send_notify = 0"
  "notify_pulled_rdma_seqnum blank_send_notify = 0"
  by (simp_all add: blank_send_notify_def)

lemma blank_send_connect_request_sel [simp]:
  "conn_peer_index blank_send_connect_request = 0" "conn_dest_endpoint blank_send_connect_request = 0"
  "conn_shared_disabled blank_send_connect_request = False" "conn_seqnum blank_send_connect_request = 0"
  "conn_src_session_id blank_send_connect_request = 0" "conn_app_key blank_send_connect_request = 0"
  "conn_target_recv_seqnum_start blank_send_connect_request = 0"
  "conn_connect_seqnum blank_send_connect_request = 0"
  by (simp_all add: blank_send_connect_request_def)

lemma blank_partner_sel [simp]:
  "p_board_addr blank_partner = 0" "p_peer_index blank_partner = 0" "p_endpoint_index blank_partner = 0"
  "localization blank_partner = OMX__PARTNER_LOCALIZATION_REMOTE" "rndv_threshold blank_partner = 0"
  "true_session_id blank_partner = 0" "back_session_id blank_partner = 0"
  "p_connect_seqnum blank_partner = 0" "last_send_acknum blank_partner = 0"
  "last_recv_acknum blank_partner = 0" "p_non_acked_req_q blank_partner = []"
  "p_connect_req_q blank_partner = []" "p_partial_medium_recv_req_q blank_partner = []"
  "p_need_seqnum_send_req_q blank_partner = []" "early_recv_q blank_partner = []"
  "throttling_sends_nr blank_partner = 0" "next_send_seq blank_partner = 0"
  "next_acked_send_seq blank_partner = 0" "next_match_recv_seq blank_partner = 0"
  "next_frag_recv_seq blank_partner = 0" "last_acked_recv_seq blank_partner = 0"
  "need_ack blank_partner = OMX__PARTNER_NEED_NO_ACK" "oldest_recv_time_not_acked blank_partner = 0"
  "user_context blank_partner = 0"
  by (simp_all add: blank_partner_def)

lemma blank_request_sel [simp]:
  "rpartner blank_request = 0" "rtype blank_request = OMX_REQUEST_TYPE_NONE" "state blank_request = {}"
  "missing_resources blank_request = {}" "send_seqnum blank_request = 0"
  "last_send_jiffies blank_request = 0" "resends_max blank_request = 0" "resends blank_request = 0"
  "status blank_request = blank_status" "segs blank_request = blank_req_segs"
  "send_tiny_ioctl_param blank_request = blank_send_tiny"
  "send_small_ioctl_param blank_request = blank_send_small" "small_copy blank_request = 0"
  "send_mediumsq_frag_ioctl_param blank_request = blank_send_mediumsq_frag" "frags_nr blank_request = 0"
  "frags_pending_nr blank_request = 0" "sendq_map_index blank_request = []"
  "send_mediumva_ioctl_param blank_request = blank_send_mediumva"
  "send_rndv_ioctl_param blank_request = blank_send_rndv" "region blank_request = 0"
  "region_seqnum blank_request = 0" "match_info blank_request = 0" "match_mask blank_request = 0"
  "recv_checksum blank_request = 0" "recv_seqnum blank_request = 0" "frags_received_mask blank_request = 0"
  "accumulated_length blank_request = 0" "scan_offset blank_request = 0"
  "scan_state blank_request = blank_segscan_state"
  "send_notify_ioctl_param blank_request = blank_send_notify" "local_region blank_request = 0"
  "pulled_rdma_id blank_request = 0" "pulled_rdma_seqnum blank_request = 0"
  "pulled_rdma_offset blank_request = 0" "self_unexp_sreq blank_request = 0"
  "send_connect_request_ioctl_param blank_request = blank_send_connect_request"
  "connect_session_id blank_request = 0" "connect_seqnum blank_request = 0"
  by (simp_all add: blank_request_def)

lemma blank_driver_desc_sel [simp]:
  "endpoint_max blank_driver_desc = 0" "jiffies blank_driver_desc = 0" "hz blank_driver_desc = 0"
  "medium_frag_length_max blank_driver_desc = 0"
  by (simp_all add: blank_driver_desc_def)

lemma blank_endpoint_desc_sel [simp]:
  "desc_status blank_endpoint_desc = 0" "desc_wakeup_jiffies blank_endpoint_desc = 0"
  "desc_session_id blank_endpoint_desc = 0" "desc_user_event_index blank_endpoint_desc = 0"
  by (simp_all add: blank_endpoint_desc_def)

lemma blank_globals_sel [simp]:
  "g_regcache blank_globals = False" "g_waitspin blank_globals = False"
  "g_parallel_regcache blank_globals = False" "g_debug_checksum blank_globals = False"
  "g_medium_sendq blank_globals = False" "g_selfcomms blank_globals = False"
  "g_sharedcomms blank_globals = False" "g_rndv_threshold blank_globals = 0"
  "g_shared_rndv_threshold blank_globals = 0" "g_ack_delay_jiffies blank_globals = 0"
  "g_resend_delay_jiffies blank_globals = 0" "g_not_acked_max blank_globals = 0"
  by (simp_all add: blank_globals_def)

lemma blank_endpoint_sel [simp]:
  "endpoint_index blank_endpoint = 0" "board_addr blank_endpoint = 0" "app_key blank_endpoint = 0"
  "progression_disabled blank_endpoint = {}" "desc blank_endpoint = blank_endpoint_desc"
  "check_status_delay_jiffies blank_endpoint = 0" "last_check_jiffies blank_endpoint = 0"
  "sendq blank_endpoint = 0" "recvq blank_endpoint = 0" "exp_eventq blank_endpoint = []"
  "unexp_eventq blank_endpoint = []" "next_exp_event_index blank_endpoint = 0"
  "next_unexp_event_index blank_endpoint = 0" "avail_exp_events blank_endpoint = 0"
  "req_resends_max blank_endpoint = 0" "pull_resend_timeout_jiffies blank_endpoint = 0"
  "zombies blank_endpoint = 0" "zombie_max blank_endpoint = 0" "ctxid_bits blank_endpoint = 0"
  "ctxid_max blank_endpoint = 1" "ctxid_shift blank_endpoint = 0" "ctxid_mask blank_endpoint = 0"
  "anyctxid_done_req_q blank_endpoint = []" "anyctxid_unexp_req_q blank_endpoint = []"
  "ctxid_unexp_req_q blank_endpoint = (\<lambda>_. [])" "ctxid_recv_req_q blank_endpoint = (\<lambda>_. [])"
  "ctxid_done_req_q blank_endpoint = (\<lambda>_. [])" "need_resources_send_req_q blank_endpoint = []"
  "driver_mediumsq_sending_req_q blank_endpoint = []" "large_send_need_reply_req_q blank_endpoint = []"
  "driver_pulling_req_q blank_endpoint = []" "connect_req_q blank_endpoint = []"
  "non_acked_req_q blank_endpoint = []" "tmp_req_q blank_endpoint = []" "unexp_self_send_req_q blank_endpoint = []"
  "sendq_map blank_endpoint = blank_sendq_map" "large_region_map blank_endpoint = blank_large_region_map"
  "partner_table blank_endpoint = (\<lambda>_. None)" "myself blank_endpoint = 0"
  "last_partners_acking_jiffies blank_endpoint = 0" "partners_to_ack_immediate_list blank_endpoint = []"
  "partners_to_ack_delayed_list blank_endpoint = []" "throttling_partners_list blank_endpoint = []"
  "sleepers blank_endpoint = []" "reg_list blank_endpoint = []" "reg_unused_list blank_endpoint = []"
  "reg_vect_list blank_endpoint = []" "large_sends_avail_nr blank_endpoint = 0"
  "error_handler blank_endpoint = None" "driver_desc blank_endpoint = blank_driver_desc"
  "globals blank_endpoint = blank_globals" "default_error_handler blank_endpoint = Some"
  "reqs blank_endpoint = (\<lambda>_. blank_request)" "live_reqs blank_endpoint = {}"
  "next_rid blank_endpoint = 0" "partners blank_endpoint = (\<lambda>_. blank_partner)"
  "next_pid blank_endpoint = 0" "mem blank_endpoint = (\<lambda>_. 0)"
  "malloc_answer blank_endpoint = (\<lambda>_. None)" "malloc_nr blank_endpoint = 0"
  "freed blank_endpoint = []" "ioctl_answer blank_endpoint = (\<lambda>_. None)" "cmds blank_endpoint = []"
  by (simp_all add: blank_endpoint_def)

end
