(* ===== verification/Segments.thy ===== *)
theory Segments
  imports Endpoint_State
begin

text \<open>
  Scatter/gather copies (\<^verbatim>\<open>libopen-mx/omx_segments.h\<close>). A message is a list of user segments; the
  functions below copy between a contiguous buffer and the segments, at once or fragment by
  fragment with a saved position, and compute the checksum of a message. A loop that runs past
  the segment array returns \<open>None\<close>.

  The lemmas view the segments as the list of the addresses of their bytes, in order
  (\<open>segs_addrs\<close>): every copy is an address-wise copy between two such lists (\<open>copied\<close>).
\<close>

subsection \<open>Building segment lists\<close>

definition OMX_MAX_SEGMENTS :: u32 where
  "OMX_MAX_SEGMENTS = 256"

definition omx_cache_single_segment :: "omx__req_segs \<Rightarrow> u64 \<Rightarrow> u32 \<Rightarrow> omx__req_segs" where
  "omx_cache_single_segment reqsegs buffer len =
    reqsegs\<lparr>segs_single := \<lparr>seg_vaddr = buffer, seg_len = ucast len\<rparr>,
      segs_nseg := 1, segs_segs := Segs_single, segs_total_length := len\<rparr>"

definition cache_seg :: "omx_seg \<Rightarrow> omx_cmd_user_segment" where
  "cache_seg s = \<lparr>seg_vaddr = oseg_ptr s, seg_len = ucast (oseg_len s)\<rparr>"

text \<open>\<open>nseg\<close> is the length of the caller's array.\<close>

definition omx_cache_segments ::
  "omx__req_segs \<Rightarrow> omx_seg list \<Rightarrow> omx_endpoint \<Rightarrow> omx_return \<times> omx__req_segs \<times> omx_endpoint" where
  "omx_cache_segments reqsegs sgs ep =
    (if length sgs = 0 then (OMX_SUCCESS, omx_cache_single_segment reqsegs 0 0, ep)
     else if length sgs = 1 then
       (OMX_SUCCESS, omx_cache_single_segment reqsegs (oseg_ptr (sgs ! 0)) (oseg_len (sgs ! 0)), ep)
     else if length sgs > unat OMX_MAX_SEGMENTS then (OMX_SEGMENTS_BAD_COUNT, reqsegs, ep)
     else
       (let (blk, ep) = omx_malloc_ep ep in
        case blk of
          None \<Rightarrow> (OMX_NO_RESOURCES, reqsegs\<lparr>segs_segs := Segs_null\<rparr>, ep)
        | Some b \<Rightarrow>
            (OMX_SUCCESS,
             reqsegs\<lparr>segs_segs := Segs_array b (map cache_seg sgs), segs_nseg := of_nat (length sgs),
               segs_total_length := foldl (\<lambda>acc s. acc + oseg_len s) 0 sgs\<rparr>, ep)))"

definition omx_free_segments :: "omx__req_segs \<Rightarrow> omx_endpoint \<Rightarrow> omx_endpoint" where
  "omx_free_segments reqsegs ep =
    (if segs_nseg reqsegs > 1 then
       (case segs_segs reqsegs of Segs_array b _ \<Rightarrow> omx_free_ep b ep | _ \<Rightarrow> ep)
     else ep)"

definition omx_clone_segments :: "omx__req_segs \<Rightarrow> omx__req_segs" where
  "omx_clone_segments src = (if segs_nseg src = 1 then src\<lparr>segs_segs := Segs_single\<rparr> else src)"

text \<open>The array \<^verbatim>\<open>segs\<close> points to.\<close>

definition seg_array :: "omx__req_segs \<Rightarrow> omx_cmd_user_segment list" where
  "seg_array rs = (case segs_segs rs of Segs_null \<Rightarrow> [] | Segs_single \<Rightarrow> [segs_single rs] | Segs_array _ xs \<Rightarrow> xs)"

subsection \<open>Whole copies\<close>

definition seg_chunk :: "u64 \<Rightarrow> u32 \<Rightarrow> u32" where
  "seg_chunk l len = (if l > ucast len then len else ucast l)"

fun copy_from_segments_loop ::
  "u64 \<Rightarrow> omx_cmd_user_segment list \<Rightarrow> u32 \<Rightarrow> memory \<Rightarrow> memory option" where
  "copy_from_segments_loop dst [] len m = (if len = 0 then Some m else None)"
| "copy_from_segments_loop dst (cseg # rest) len m =
    (if len = 0 then Some m
     else
       (let chunk = seg_chunk (seg_len cseg) len in
        copy_from_segments_loop (dst + ucast chunk) rest (len - chunk)
          (memcpy dst (seg_vaddr cseg) (ucast chunk) m)))"

definition omx_copy_from_segments :: "u64 \<Rightarrow> omx__req_segs \<Rightarrow> u32 \<Rightarrow> memory \<Rightarrow> memory option" where
  "omx_copy_from_segments dst srcsegs len m =
    (if segs_nseg srcsegs = 1 then Some (memcpy dst (seg_vaddr (segs_single srcsegs)) (ucast len) m)
     else copy_from_segments_loop dst (seg_array srcsegs) len m)"

fun copy_to_segments_loop ::
  "omx_cmd_user_segment list \<Rightarrow> u64 \<Rightarrow> u32 \<Rightarrow> memory \<Rightarrow> memory option" where
  "copy_to_segments_loop [] src len m = (if len = 0 then Some m else None)"
| "copy_to_segments_loop (cseg # rest) src len m =
    (if len = 0 then Some m
     else
       (let chunk = seg_chunk (seg_len cseg) len in
        copy_to_segments_loop rest (src + ucast chunk) (len - chunk)
          (memcpy (seg_vaddr cseg) src (ucast chunk) m)))"

definition omx_copy_to_segments :: "omx__req_segs \<Rightarrow> u64 \<Rightarrow> u32 \<Rightarrow> memory \<Rightarrow> memory option" where
  "omx_copy_to_segments dstsegs src len m =
    (if segs_nseg dstsegs = 1 then Some (memcpy (seg_vaddr (segs_single dstsegs)) src (ucast len) m)
     else copy_to_segments_loop (seg_array dstsegs) src len m)"

text \<open>
  The loop of \<^verbatim>\<open>omx_copy_from_to_segments\<close>, with the remaining segments of both sides and the offset
  in the first of each. The chunk is bounded by the whole length of the two segments, not by what
  is left of them.
\<close>

function copy_from_to_segments_loop ::
  "omx_cmd_user_segment list \<Rightarrow> u32 \<Rightarrow> omx_cmd_user_segment list \<Rightarrow> u32 \<Rightarrow> u32 \<Rightarrow> memory \<Rightarrow> memory option" where
  "copy_from_to_segments_loop ds doff ss soff len m =
    (if len = 0 then Some m
     else
       (case ss of [] \<Rightarrow> None | csseg # ss' \<Rightarrow>
        (case ds of [] \<Rightarrow> None | cdseg # ds' \<Rightarrow>
         (let chunk = seg_chunk (seg_len csseg) len;
              chunk = seg_chunk (seg_len cdseg) chunk;
              m = memcpy (seg_vaddr cdseg + ucast doff) (seg_vaddr csseg + ucast soff) (ucast chunk) m;
              len = len - chunk;
              (ss, soff) = (if ucast (soff + chunk) \<ge> seg_len csseg then (ss', 0) else (ss, soff + chunk));
              (ds, doff) = (if ucast (doff + chunk) \<ge> seg_len cdseg then (ds', 0) else (ds, doff + chunk))
          in copy_from_to_segments_loop ds doff ss soff len m))))"
  by pat_completeness auto

lemma unat_seg_chunk: "unat (seg_chunk l len) = min (unat l) (unat len)"
proof (cases "unat l > unat len")
  case False
  then have "unat l < 2 ^ LENGTH(32)" using unat_u32_less [of len] le_less_trans by auto
  with False show ?thesis
    by (simp add: seg_chunk_def word_less_nat_alt unat_ucast_narrow)
qed (simp add: seg_chunk_def word_less_nat_alt)

lemma seg_chunk_le: "seg_chunk l len \<le> len"
  by (simp add: word_le_nat_alt unat_seg_chunk)

lemma seg_chunk_0: "seg_chunk l len = 0 \<longleftrightarrow> l = 0 \<or> len = 0"
  by (auto simp: unat_seg_chunk min_def simp flip: unat_eq_0)

lemma from_to_decreases:
  assumes "len \<noteq> 0" "c = seg_chunk ld (seg_chunk ls len)"
  shows "unat (len - c) + (if ls \<le> x then n else Suc n) + (if ld \<le> y then k else Suc k)
    < unat len + Suc n + Suc k"
proof (cases "c = 0")
  case True
  then have "ls = 0 \<or> ld = 0" using assms by (auto simp: seg_chunk_0)
  with True show ?thesis by auto
next
  case False
  have "c \<le> len" using assms(2) seg_chunk_le order_trans by blast
  moreover have "0 < unat c" using False by (simp add: unat_gt_0)
  ultimately have "unat (len - c) < unat len"
    by (simp add: unat_sub word_le_nat_alt)
  then show ?thesis by auto
qed

termination copy_from_to_segments_loop
proof (relation "measure (\<lambda>(ds, doff, ss, soff, len, m). unat len + length ss + length ds)", goal_cases)
  case (2 ds doff ss soff len m csseg ss' cdseg ds' chunk chunk')
  then show ?case
    using from_to_decreases [of len chunk' "seg_len cdseg" "seg_len csseg" "ucast (soff + chunk')" "length ss'"
        "ucast (doff + chunk')" "length ds'"]
    by (auto split: if_splits)
qed simp

declare copy_from_to_segments_loop.simps [simp del]

definition omx_copy_from_to_segments :: "omx__req_segs \<Rightarrow> omx__req_segs \<Rightarrow> u32 \<Rightarrow> memory \<Rightarrow> memory option" where
  "omx_copy_from_to_segments dstsegs srcsegs len m =
    (if segs_nseg srcsegs = 1 then omx_copy_to_segments dstsegs (seg_vaddr (segs_single srcsegs)) len m
     else if segs_nseg dstsegs = 1 then omx_copy_from_segments (seg_vaddr (segs_single dstsegs)) srcsegs len m
     else copy_from_to_segments_loop (seg_array dstsegs) 0 (seg_array srcsegs) 0 len m)"

subsection \<open>Partial copies\<close>

text \<open>
  The loops take the segments from the saved one on, its index and the offset in it, and return
  the memory and the next position.
\<close>

fun continue_partial_copy_from_loop ::
  "u64 \<Rightarrow> omx_cmd_user_segment list \<Rightarrow> nat \<Rightarrow> u32 \<Rightarrow> u32 \<Rightarrow> memory \<Rightarrow> (memory \<times> omx_segscan_state) option" where
  "continue_partial_copy_from_loop dst [] i curoff len m = None"
| "continue_partial_copy_from_loop dst (curseg # rest) i curoff len m =
    (let curchunk = ucast (seg_len curseg - ucast curoff) :: u32;
         chunk = (if curchunk > len then len else curchunk);
         m = memcpy dst (seg_vaddr curseg + ucast curoff) (ucast chunk) m;
         len = len - chunk
     in if curchunk \<noteq> chunk then Some (m, \<lparr>scan_seg = i, scan_off = curoff + chunk\<rparr>)
        else if len = 0 then Some (m, \<lparr>scan_seg = Suc i, scan_off = 0\<rparr>)
        else continue_partial_copy_from_loop (dst + ucast chunk) rest (Suc i) 0 len m)"

definition omx_continue_partial_copy_from_segments ::
  "u64 \<Rightarrow> omx__req_segs \<Rightarrow> u32 \<Rightarrow> omx_segscan_state \<Rightarrow> memory \<Rightarrow> (memory \<times> omx_segscan_state) option" where
  "omx_continue_partial_copy_from_segments dst srcsegs len st m =
    continue_partial_copy_from_loop dst (drop (scan_seg st) (seg_array srcsegs)) (scan_seg st) (scan_off st) len m"

fun continue_partial_copy_to_loop ::
  "omx_cmd_user_segment list \<Rightarrow> nat \<Rightarrow> u32 \<Rightarrow> u64 \<Rightarrow> u32 \<Rightarrow> memory \<Rightarrow> (memory \<times> omx_segscan_state) option" where
  "continue_partial_copy_to_loop [] i curoff src len m = None"
| "continue_partial_copy_to_loop (curseg # rest) i curoff src len m =
    (let curchunk = ucast (seg_len curseg - ucast curoff) :: u32;
         chunk = (if curchunk > len then len else curchunk);
         m = memcpy (seg_vaddr curseg + ucast curoff) src (ucast chunk) m;
         len = len - chunk
     in if curchunk \<noteq> chunk then Some (m, \<lparr>scan_seg = i, scan_off = curoff + chunk\<rparr>)
        else if len = 0 then Some (m, \<lparr>scan_seg = Suc i, scan_off = 0\<rparr>)
        else continue_partial_copy_to_loop rest (Suc i) 0 (src + ucast chunk) len m)"

definition omx_continue_partial_copy_to_segments ::
  "omx__req_segs \<Rightarrow> u64 \<Rightarrow> u32 \<Rightarrow> omx_segscan_state \<Rightarrow> memory \<Rightarrow> (memory \<times> omx_segscan_state) option" where
  "omx_continue_partial_copy_to_segments dstsegs src len st m =
    continue_partial_copy_to_loop (drop (scan_seg st) (seg_array dstsegs)) (scan_seg st) (scan_off st) src len m"

text \<open>The search of the segment that holds an offset, with the index and the offset of the current one.\<close>

fun partial_copy_seek :: "omx_cmd_user_segment list \<Rightarrow> nat \<Rightarrow> u32 \<Rightarrow> u32 \<Rightarrow> omx_segscan_state option" where
  "partial_copy_seek [] i curoffset offset = None"
| "partial_copy_seek (curseg # rest) i curoffset offset =
    (if ucast offset > ucast curoffset + seg_len curseg
     then partial_copy_seek rest (Suc i) (curoffset + ucast (seg_len curseg)) offset
     else Some \<lparr>scan_seg = i, scan_off = offset - curoffset\<rparr>)"

definition omx_partial_copy_to_segments ::
  "omx__req_segs \<Rightarrow> u64 \<Rightarrow> u32 \<Rightarrow> u32 \<Rightarrow> omx_segscan_state \<Rightarrow> u32 \<Rightarrow> memory \<Rightarrow>
    (memory \<times> omx_segscan_state \<times> u32) option" where
  "omx_partial_copy_to_segments dstsegs src len offset st soffset m =
    do {
      st \<leftarrow> (if offset \<noteq> soffset then partial_copy_seek (seg_array dstsegs) 0 0 offset else Some st);
      (m, st) \<leftarrow> omx_continue_partial_copy_to_segments dstsegs src len st m;
      Some (m, st, offset + len)
    }"

subsection \<open>Checksum\<close>

fun crc_shift :: "nat \<Rightarrow> u16 \<Rightarrow> u16" where
  "crc_shift 0 crc = crc"
| "crc_shift (Suc i) crc =
    crc_shift i (if crc AND 0x8000 \<noteq> 0 then push_bit 1 crc XOR 0x1021 else push_bit 1 crc)"

definition crc_byte :: "u16 \<Rightarrow> u8 \<Rightarrow> u16" where
  "crc_byte crc b = crc_shift 8 (crc XOR push_bit 8 (ucast b))"

fun crc_bytes :: "memory \<Rightarrow> u64 \<Rightarrow> nat \<Rightarrow> u16 \<Rightarrow> u16" where
  "crc_bytes m ptr 0 crc = crc"
| "crc_bytes m ptr (Suc j) crc = crc_bytes m (ptr + 1) j (crc_byte crc (m ptr))"

fun checksum_segments_loop :: "memory \<Rightarrow> omx_cmd_user_segment list \<Rightarrow> u32 \<Rightarrow> u16 \<Rightarrow> u16" where
  "checksum_segments_loop m [] len crc = crc"
| "checksum_segments_loop m (cseg # rest) len crc =
    (if len > 0 then
       (let chunk = seg_chunk (seg_len cseg) len in
        checksum_segments_loop m rest (len - chunk) (crc_bytes m (seg_vaddr cseg) (unat chunk) crc))
     else crc)"

definition omx_checksum_segments :: "memory \<Rightarrow> omx__req_segs \<Rightarrow> u32 \<Rightarrow> u16" where
  "omx_checksum_segments m reqsegs len =
    checksum_segments_loop m
      (if segs_nseg reqsegs = 1 then [segs_single reqsegs] else take (unat (segs_nseg reqsegs)) (seg_array reqsegs))
      len 0"

subsection \<open>Address lists\<close>

definition addrs :: "u64 \<Rightarrow> nat \<Rightarrow> u64 list" where
  "addrs a n = map (\<lambda>i. a + of_nat i) [0..<n]"

definition segs_addrs :: "omx_cmd_user_segment list \<Rightarrow> u64 list" where
  "segs_addrs sgs = concat (map (\<lambda>s. addrs (seg_vaddr s) (unat (seg_len s))) sgs)"

text \<open>The bytes at \<open>ss\<close> are now at \<open>ds\<close>, and nothing else changed.\<close>

definition copied :: "u64 list \<Rightarrow> u64 list \<Rightarrow> memory \<Rightarrow> memory \<Rightarrow> bool" where
  "copied ds ss m m' \<longleftrightarrow> length ds = length ss \<and> (\<forall>i < length ds. m' (ds ! i) = m (ss ! i)) \<and>
    (\<forall>a. a \<notin> set ds \<longrightarrow> m' a = m a)"

lemma length_addrs [simp]: "length (addrs a n) = n"
  by (simp add: addrs_def)

lemma addrs_nth [simp]: "i < n \<Longrightarrow> addrs a n ! i = a + of_nat i"
  by (simp add: addrs_def)

lemma addrs_0 [simp]: "addrs a 0 = []"
  by (simp add: addrs_def)

lemma addrs_add: "addrs a (i + j) = addrs a i @ addrs (a + of_nat i) j"
  by (rule nth_equalityI) (auto simp: nth_append add.assoc simp flip: of_nat_add)

lemma take_addrs [simp]: "take k (addrs a n) = addrs a (min k n)"
  by (rule nth_equalityI) simp_all

lemma drop_addrs: "k \<le> n \<Longrightarrow> drop k (addrs a n) = addrs (a + of_nat k) (n - k)"
  using addrs_add [of a k "n - k"] by simp

lemma set_addrs: "n < 2 ^ 64 \<Longrightarrow> set (addrs a n) = {x. unat (x - a) < n}"
proof (intro set_eqI iffI)
  fix x assume n: "n < 2 ^ 64" and x: "x \<in> set (addrs a n)"
  then obtain i where "i < n" "x = a + of_nat i" by (auto simp: addrs_def)
  with n show "x \<in> {x. unat (x - a) < n}" by (simp add: unat_of_nat take_bit_nat_eq_self)
next
  fix x assume "x \<in> {x. unat (x - a) < n}"
  moreover have "x = a + of_nat (unat (x - a))" by simp
  ultimately show "x \<in> set (addrs a n)" unfolding addrs_def by (auto intro: image_eqI [where x = "unat (x - a)"])
qed

lemma distinct_addrs: "n < 2 ^ 64 \<Longrightarrow> distinct (addrs a n)"
  by (auto simp: addrs_def distinct_map inj_on_def of_nat_eq_iff unsigned_of_nat word_of_nat_eq_iff take_bit_nat_eq_self)

lemma segs_addrs_Nil [simp]: "segs_addrs [] = []"
  by (simp add: segs_addrs_def)

lemma segs_addrs_Cons [simp]:
  "segs_addrs (s # ss) = addrs (seg_vaddr s) (unat (seg_len s)) @ segs_addrs ss"
  by (simp add: segs_addrs_def)

lemma memcpy_copied: "copied (addrs d (unat n)) (addrs s (unat n)) m (memcpy d s n m)"
  unfolding copied_def
proof (intro conjI allI impI)
  fix i assume "i < length (addrs d (unat n))"
  then have "i < unat n" by simp
  moreover from this have "(of_nat i :: u64) < n"
    by (simp add: word_less_nat_alt unat_of_nat take_bit_nat_eq_self order.strict_trans [OF _ unsigned_less])
  ultimately show "memcpy d s n m (addrs d (unat n) ! i) = m (addrs s (unat n) ! i)"
    by (simp add: memcpy_def)
next
  fix a assume "a \<notin> set (addrs d (unat n))"
  then show "memcpy d s n m a = m a"
    using unat_u64_less [of n] by (simp add: set_addrs memcpy_def word_less_nat_alt)
qed simp

lemma copied_append:
  assumes "copied d1 s1 m m1" "copied d2 s2 m1 m2" "set d1 \<inter> set d2 = {}" "set d1 \<inter> set s2 = {}"
  shows "copied (d1 @ d2) (s1 @ s2) m m2"
proof -
  have d1: "m2 (d1 ! i) = m (s1 ! i)" if "i < length d1" for i
    using assms that nth_mem [OF that] by (auto simp: copied_def disjoint_iff)
  have d2: "m2 (d2 ! i) = m (s2 ! i)" if "i < length d2" for i
    using assms that nth_mem [of i s2] by (auto simp: copied_def disjoint_iff)
  show ?thesis
    using assms d1 d2 by (auto simp: copied_def nth_append)
qed

lemma copied_Nil [simp]: "copied [] [] m m"
  by (simp add: copied_def)

lemma copied_Nil_iff: "copied [] [] m m' \<longleftrightarrow> m' = m"
  by (auto simp: copied_def)

subsection \<open>The whole copies are address-wise copies\<close>

abbreviation segs_bytes :: "omx_cmd_user_segment list \<Rightarrow> nat" where
  "segs_bytes sgs \<equiv> length (segs_addrs sgs)"

lemma sub_chunk_cases:
  fixes len :: u32
  obtains "unat (seg_chunk l len) = unat len" "unat len \<le> unat l" "len - seg_chunk l len = 0"
  | "unat (seg_chunk l len) = unat l" "unat l < unat len" "unat (len - seg_chunk l len) = unat len - unat l"
  using unat_seg_chunk [of l len] unat_sub [OF seg_chunk_le [of l len]]
  by (metis diff_self_eq_0 min.absorb2 min.absorb_iff1 min.strict_order_iff not_le unat_eq_0 nat_less_le linorder_le_cases)

lemma copy_from_segments_loop_copied:
  assumes "unat len \<le> segs_bytes sgs"
    and "set (addrs dst (unat len)) \<inter> set (take (unat len) (segs_addrs sgs)) = {}"
  shows "\<exists>m'. copy_from_segments_loop dst sgs len m = Some m' \<and>
    copied (addrs dst (unat len)) (take (unat len) (segs_addrs sgs)) m m'"
  using assms
proof (induction sgs arbitrary: dst len m)
  case (Cons s sgs)
  let ?c = "seg_chunk (seg_len s) len" and ?m = "memcpy dst (seg_vaddr s) (ucast (seg_chunk (seg_len s) len)) m"
  show ?case
  proof (cases rule: sub_chunk_cases [of "seg_len s" len])
    case 1
    have "copied (addrs dst (unat len)) (addrs (seg_vaddr s) (unat len)) m ?m"
      using memcpy_copied [of dst "ucast ?c" "seg_vaddr s" m] 1 by simp
    moreover have "copy_from_segments_loop (dst + ucast ?c) sgs (len - ?c) ?m = Some ?m"
      using 1 by (cases sgs) auto
    ultimately show ?thesis using 1 by (auto simp: Let_def copied_Nil_iff)
  next
    case 2
    let ?l = "unat (seg_len s)" and ?r = "unat len - unat (seg_len s)"
    have len: "unat len = ?l + ?r" using 2 by simp
    have d: "addrs dst (unat len) = addrs dst ?l @ addrs (dst + ucast ?c) ?r"
      using 2 by (subst len) (simp only: addrs_add, simp flip: 2(1))
    have t: "take (unat len) (segs_addrs (s # sgs)) = addrs (seg_vaddr s) ?l @ take ?r (segs_addrs sgs)"
      using 2 by simp
    have "distinct (addrs dst (unat len))"
      using unat_u32_less [of len] by (intro distinct_addrs) simp
    then have disj: "set (addrs dst ?l) \<inter> set (addrs (dst + ucast ?c) ?r) = {}"
      unfolding d by simp
    have 1: "copied (addrs dst ?l) (addrs (seg_vaddr s) ?l) m ?m"
      using memcpy_copied [of dst "ucast ?c" "seg_vaddr s" m] 2 by simp
    have p: "?r \<le> segs_bytes sgs" "set (addrs (dst + ucast ?c) ?r) \<inter> set (take ?r (segs_addrs sgs)) = {}"
      using Cons.prems 2 unfolding d t by auto
    obtain m' where m': "copy_from_segments_loop (dst + ucast ?c) sgs (len - ?c) ?m = Some m'"
      "copied (addrs (dst + ucast ?c) ?r) (take ?r (segs_addrs sgs)) ?m m'"
      using Cons.IH [of "len - ?c" "dst + ucast ?c" ?m] p 2 by auto
    have "copied (addrs dst (unat len)) (take (unat len) (segs_addrs (s # sgs))) m m'"
      unfolding d t using Cons.prems(2) unfolding d t by (intro copied_append [OF 1 m'(2) disj]) auto
    moreover have "copy_from_segments_loop dst (s # sgs) len m = Some m'"
      using m'(1) 2 by (auto simp: Let_def)
    ultimately show ?thesis by blast
  qed
qed (simp add: unat_eq_0)

lemma copy_to_segments_loop_copied:
  assumes "unat len \<le> segs_bytes sgs" "distinct (take (unat len) (segs_addrs sgs))"
    and "set (addrs src (unat len)) \<inter> set (take (unat len) (segs_addrs sgs)) = {}"
  shows "\<exists>m'. copy_to_segments_loop sgs src len m = Some m' \<and>
    copied (take (unat len) (segs_addrs sgs)) (addrs src (unat len)) m m'"
  using assms
proof (induction sgs arbitrary: src len m)
  case (Cons s sgs)
  let ?c = "seg_chunk (seg_len s) len" and ?m = "memcpy (seg_vaddr s) src (ucast (seg_chunk (seg_len s) len)) m"
  show ?case
  proof (cases rule: sub_chunk_cases [of "seg_len s" len])
    case 1
    have "copied (addrs (seg_vaddr s) (unat len)) (addrs src (unat len)) m ?m"
      using memcpy_copied [of "seg_vaddr s" "ucast ?c" src m] 1 by simp
    moreover have "copy_to_segments_loop sgs (src + ucast ?c) (len - ?c) ?m = Some ?m"
      using 1 by (cases sgs) auto
    ultimately show ?thesis using 1 by (auto simp: Let_def copied_Nil_iff)
  next
    case 2
    let ?l = "unat (seg_len s)" and ?r = "unat len - unat (seg_len s)"
    have len: "unat len = ?l + ?r" using 2 by simp
    have d: "addrs src (unat len) = addrs src ?l @ addrs (src + ucast ?c) ?r"
      using 2 by (subst len) (simp only: addrs_add, simp flip: 2(1))
    have t: "take (unat len) (segs_addrs (s # sgs)) = addrs (seg_vaddr s) ?l @ take ?r (segs_addrs sgs)"
      using 2 by simp
    have disj: "set (addrs (seg_vaddr s) ?l) \<inter> set (take ?r (segs_addrs sgs)) = {}"
      using Cons.prems(2) unfolding t by simp
    have 1: "copied (addrs (seg_vaddr s) ?l) (addrs src ?l) m ?m"
      using memcpy_copied [of "seg_vaddr s" "ucast ?c" src m] 2 by simp
    have p: "?r \<le> segs_bytes sgs" "distinct (take ?r (segs_addrs sgs))"
      "set (addrs (src + ucast ?c) ?r) \<inter> set (take ?r (segs_addrs sgs)) = {}"
      using Cons.prems 2 unfolding d t by auto
    obtain m' where m': "copy_to_segments_loop sgs (src + ucast ?c) (len - ?c) ?m = Some m'"
      "copied (take ?r (segs_addrs sgs)) (addrs (src + ucast ?c) ?r) ?m m'"
      using Cons.IH [of "len - ?c" "src + ucast ?c" ?m] p 2 by auto
    have "copied (take (unat len) (segs_addrs (s # sgs))) (addrs src (unat len)) m m'"
      unfolding d t using Cons.prems(3) unfolding d t by (intro copied_append [OF 1 m'(2) disj]) auto
    moreover have "copy_to_segments_loop (s # sgs) src len m = Some m'"
      using m'(1) 2 by (auto simp: Let_def)
    ultimately show ?thesis by blast
  qed
qed (simp add: unat_eq_0)

subsection \<open>The partial copies\<close>

text \<open>The saved position \<open>st\<close> is the byte number \<open>pos\<close> of the segments.\<close>

definition scan_at :: "omx_cmd_user_segment list \<Rightarrow> omx_segscan_state \<Rightarrow> nat \<Rightarrow> bool" where
  "scan_at sgs st pos \<longleftrightarrow> scan_seg st \<le> length sgs \<and>
    segs_bytes (take (scan_seg st) sgs) + unat (scan_off st) = pos \<and>
    (scan_seg st < length sgs \<longrightarrow> unat (scan_off st) \<le> unat (seg_len (sgs ! scan_seg st)))"

definition short_segs :: "omx_cmd_user_segment list \<Rightarrow> bool" where
  "short_segs sgs \<longleftrightarrow> list_all (\<lambda>s. seg_len s < 0x100000000) sgs"

lemma segs_addrs_append [simp]: "segs_addrs (xs @ ys) = segs_addrs xs @ segs_addrs ys"
  by (simp add: segs_addrs_def)

lemma short_segs_Cons [simp]: "short_segs (s # sgs) \<longleftrightarrow> unat (seg_len s) < 4294967296 \<and> short_segs sgs"
  by (simp add: short_segs_def word_less_nat_alt)

lemma curchunk_val:
  assumes "unat off \<le> unat l" "unat l < 4294967296"
  shows "unat (ucast (l - ucast (off :: u32)) :: u32) = unat (l :: u64) - unat off"
proof -
  have "unat (l - ucast off) = unat l - unat off"
    using assms by (simp add: unat_sub word_le_nat_alt)
  with assms show ?thesis by (simp add: unat_ucast_narrow)
qed

lemma partial_chunk_cases:
  fixes len :: u32 and l :: u64
  assumes "unat off \<le> unat l" "unat l < 4294967296"
  defines "k \<equiv> ucast (l - ucast off) :: u32"
  obtains "k > len" "unat off + unat len < unat l" "unat (off + len) = unat off + unat len"
  | "\<not> k > len" "unat k = unat l - unat off" "unat l - unat off \<le> unat len"
    "unat (len - k) = unat len - (unat l - unat off)"
proof (cases "k > len")
  case True
  then have "unat off + unat len < unat l"
    using assms by (simp add: word_less_nat_alt curchunk_val less_diff_conv add.commute)
  with True that(1) show ?thesis using assms(2) by (simp add: unat_plus_simple [THEN iffD1] word_le_nat_alt unat_word_ariths)
next
  case False
  then show ?thesis
    using that(2) assms by (simp add: word_less_nat_alt curchunk_val not_less unat_sub word_le_nat_alt)
qed

lemma continue_to_loop_copied:
  assumes "short_segs sgs" "sgs \<noteq> []" "unat off \<le> unat (seg_len (hd sgs))" "0 < unat len"
    and "unat off + unat len \<le> segs_bytes sgs"
    and "distinct (take (unat len) (drop (unat off) (segs_addrs sgs)))"
    and "set (addrs src (unat len)) \<inter> set (take (unat len) (drop (unat off) (segs_addrs sgs))) = {}"
  shows "\<exists>m' st'. continue_partial_copy_to_loop sgs (length pre) off src len m = Some (m', st') \<and>
    copied (take (unat len) (drop (unat off) (segs_addrs sgs))) (addrs src (unat len)) m m' \<and>
    scan_at (pre @ sgs) st' (segs_bytes pre + unat off + unat len)"
  using assms
proof (induction sgs arbitrary: pre off src len m)
  case (Cons s sgs)
  let ?l = "unat (seg_len s)" and ?a = "seg_vaddr s + ucast off"
  have off: "unat off \<le> ?l" "?l < 4294967296" using Cons.prems by auto
  have dr: "drop (unat off) (segs_addrs (s # sgs)) = addrs ?a (?l - unat off) @ segs_addrs sgs"
    using off by (simp add: drop_addrs)
  show ?case
  proof (cases rule: partial_chunk_cases [OF off, of len])
    case 1
    let ?m = "memcpy ?a src (ucast len) m"
    have "copied (take (unat len) (drop (unat off) (segs_addrs (s # sgs)))) (addrs src (unat len)) m ?m"
      unfolding dr using memcpy_copied [of ?a "ucast len" src m] 1 by (simp add: min_absorb1)
    then show ?thesis
      using 1 by (auto simp: Let_def scan_at_def)
  next
    case 2
    let ?k = "ucast (seg_len s - ucast off) :: u32"
    let ?m = "memcpy ?a src (ucast ?k) m" and ?r = "unat len - unat ?k"
    have len: "unat len = unat ?k + ?r" using 2 by simp
    have d: "addrs src (unat len) = addrs src (unat ?k) @ addrs (src + ucast ?k) ?r"
      by (subst len) (simp add: addrs_add)
    have t: "take (unat len) (drop (unat off) (segs_addrs (s # sgs))) =
        addrs ?a (unat ?k) @ take ?r (segs_addrs sgs)"
      unfolding dr using 2 by simp
    have 1: "copied (addrs ?a (unat ?k)) (addrs src (unat ?k)) m ?m"
      using memcpy_copied [of ?a "ucast ?k" src m] by simp
    show ?thesis
    proof (cases "?r = 0")
      case True
      then have "len - ?k = 0" "unat off + unat len = ?l" using 2 off by (auto simp: unat_eq_0)
      then show ?thesis
        using 1 2 d t True by (auto simp: Let_def scan_at_def)
    next
      case False
      have p: "?r \<le> segs_bytes sgs" "distinct (take ?r (segs_addrs sgs))"
        "set (addrs (src + ucast ?k) ?r) \<inter> set (take ?r (segs_addrs sgs)) = {}"
        using Cons.prems 2 off unfolding d t by auto
      then have "sgs \<noteq> []" using False by auto
      with p obtain m' st' where
        m': "continue_partial_copy_to_loop sgs (length (pre @ [s])) 0 (src + ucast ?k) (len - ?k) ?m = Some (m', st')"
        "copied (take ?r (segs_addrs sgs)) (addrs (src + ucast ?k) ?r) ?m m'"
        "scan_at ((pre @ [s]) @ sgs) st' (segs_bytes (pre @ [s]) + ?r)"
        using Cons.IH [of 0 "len - ?k" "src + ucast ?k" "pre @ [s]" ?m] Cons.prems(1) False 2 by auto
      have "copied (take (unat len) (drop (unat off) (segs_addrs (s # sgs)))) (addrs src (unat len)) m m'"
        unfolding d t using Cons.prems(6,7) unfolding d t by (intro copied_append [OF 1 m'(2)]) auto
      moreover have "continue_partial_copy_to_loop (s # sgs) (length pre) off src len m = Some (m', st')"
        using m'(1) 2 False by (auto simp: Let_def)
      moreover have "segs_bytes pre + unat off + unat len = segs_bytes (pre @ [s]) + ?r"
        using 2 off by simp
      then have "scan_at (pre @ s # sgs) st' (segs_bytes pre + unat off + unat len)"
        using m'(3) by (simp only: append_assoc append_Cons append_Nil)
      ultimately show ?thesis by blast
    qed
  qed
qed simp
lemma continue_from_loop_copied:
  assumes "short_segs sgs" "sgs \<noteq> []" "unat off \<le> unat (seg_len (hd sgs))" "0 < unat len"
    and "unat off + unat len \<le> segs_bytes sgs"
    and "set (addrs dst (unat len)) \<inter> set (take (unat len) (drop (unat off) (segs_addrs sgs))) = {}"
  shows "\<exists>m' st'. continue_partial_copy_from_loop dst sgs (length pre) off len m = Some (m', st') \<and>
    copied (addrs dst (unat len)) (take (unat len) (drop (unat off) (segs_addrs sgs))) m m' \<and>
    scan_at (pre @ sgs) st' (segs_bytes pre + unat off + unat len)"
  using assms
proof (induction sgs arbitrary: pre off dst len m)
  case (Cons s sgs)
  let ?l = "unat (seg_len s)" and ?a = "seg_vaddr s + ucast off"
  have off: "unat off \<le> ?l" "?l < 4294967296" using Cons.prems by auto
  have dr: "drop (unat off) (segs_addrs (s # sgs)) = addrs ?a (?l - unat off) @ segs_addrs sgs"
    using off by (simp add: drop_addrs)
  show ?case
  proof (cases rule: partial_chunk_cases [OF off, of len])
    case 1
    let ?m = "memcpy dst ?a (ucast len) m"
    have "copied (addrs dst (unat len)) (take (unat len) (drop (unat off) (segs_addrs (s # sgs)))) m ?m"
      unfolding dr using memcpy_copied [of dst "ucast len" ?a m] 1 by (simp add: min_absorb1)
    then show ?thesis
      using 1 by (auto simp: Let_def scan_at_def)
  next
    case 2
    let ?k = "ucast (seg_len s - ucast off) :: u32"
    let ?m = "memcpy dst ?a (ucast ?k) m" and ?r = "unat len - unat ?k"
    have len: "unat len = unat ?k + ?r" using 2 by simp
    have d: "addrs dst (unat len) = addrs dst (unat ?k) @ addrs (dst + ucast ?k) ?r"
      by (subst len) (simp add: addrs_add)
    have t: "take (unat len) (drop (unat off) (segs_addrs (s # sgs))) =
        addrs ?a (unat ?k) @ take ?r (segs_addrs sgs)"
      unfolding dr using 2 by simp
    have 1: "copied (addrs dst (unat ?k)) (addrs ?a (unat ?k)) m ?m"
      using memcpy_copied [of dst "ucast ?k" ?a m] by simp
    have disj: "set (addrs dst (unat ?k)) \<inter> set (addrs (dst + ucast ?k) ?r) = {}"
      using distinct_addrs [of "unat len" dst] unat_u32_less [of len] unfolding d by simp
    show ?thesis
    proof (cases "?r = 0")
      case True
      then have "len - ?k = 0" "unat off + unat len = ?l" using 2 off by (auto simp: unat_eq_0)
      then show ?thesis
        using 1 2 d t True by (auto simp: Let_def scan_at_def)
    next
      case False
      have p: "?r \<le> segs_bytes sgs"
        "set (addrs (dst + ucast ?k) ?r) \<inter> set (take ?r (segs_addrs sgs)) = {}"
        using Cons.prems 2 off unfolding d t by auto
      then have "sgs \<noteq> []" using False by auto
      with p obtain m' st' where
        m': "continue_partial_copy_from_loop (dst + ucast ?k) sgs (length (pre @ [s])) 0 (len - ?k) ?m = Some (m', st')"
        "copied (addrs (dst + ucast ?k) ?r) (take ?r (segs_addrs sgs)) ?m m'"
        "scan_at ((pre @ [s]) @ sgs) st' (segs_bytes (pre @ [s]) + ?r)"
        using Cons.IH [of 0 "len - ?k" "dst + ucast ?k" "pre @ [s]" ?m] Cons.prems(1) False 2 by auto
      have "copied (addrs dst (unat len)) (take (unat len) (drop (unat off) (segs_addrs (s # sgs)))) m m'"
        unfolding d t using Cons.prems(6) unfolding d t by (intro copied_append [OF 1 m'(2) disj]) auto
      moreover have "continue_partial_copy_from_loop dst (s # sgs) (length pre) off len m = Some (m', st')"
        using m'(1) 2 False by (auto simp: Let_def)
      moreover have "segs_bytes pre + unat off + unat len = segs_bytes (pre @ [s]) + ?r"
        using 2 off by simp
      then have "scan_at (pre @ s # sgs) st' (segs_bytes pre + unat off + unat len)"
        using m'(3) by (simp only: append_assoc append_Cons append_Nil)
      ultimately show ?thesis by blast
    qed
  qed
qed simp
lemma partial_copy_seek_at:
  assumes "unat curoffset = segs_bytes pre" "segs_bytes pre \<le> unat offset" "sgs \<noteq> []"
    and "unat offset \<le> segs_bytes (pre @ sgs)" "segs_bytes (pre @ sgs) < 4294967296"
  shows "\<exists>st. partial_copy_seek sgs (length pre) curoffset offset = Some st \<and>
    scan_at (pre @ sgs) st (unat offset)"
  using assms
proof (induction sgs arbitrary: pre curoffset)
  case (Cons s sgs)
  let ?l = "unat (seg_len s)"
  have l: "?l < 4294967296" "unat curoffset + ?l < 4294967296" using Cons.prems(1,5) by auto
  have sum: "unat (ucast curoffset + seg_len s) = unat curoffset + ?l"
    using l by (simp add: unat_word_ariths)
  have off: "unat (offset - curoffset) = unat offset - unat curoffset"
    using Cons.prems by (simp add: unat_sub word_le_nat_alt)
  show ?case
  proof (cases "ucast offset > ucast curoffset + seg_len s")
    case True
    then have gt: "unat offset > unat curoffset + ?l" using sum by (simp add: word_less_nat_alt)
    moreover from this have "sgs \<noteq> []" using Cons.prems by auto
    moreover have "unat (curoffset + ucast (seg_len s)) = unat curoffset + ?l"
      using l by (simp add: unat_word_ariths unat_ucast_narrow)
    ultimately show ?thesis
      using True Cons.IH [of "curoffset + ucast (seg_len s)" "pre @ [s]"] Cons.prems by simp
  next
    case False
    then have "unat offset \<le> unat curoffset + ?l" using sum by (simp add: word_less_nat_alt)
    with False Cons.prems off show ?thesis by (auto simp: scan_at_def)
  qed
qed simp

subsection \<open>The checksum is a fold over the bytes\<close>

lemma crc_bytes_fold: "crc_bytes m ptr n crc = foldl crc_byte crc (map m (addrs ptr n))"
proof (induction n arbitrary: ptr crc)
  case (Suc n)
  then show ?case using addrs_add [of ptr 1 n] by (simp add: addrs_def)
qed simp

lemma checksum_segments_loop_fold:
  "checksum_segments_loop m sgs len crc = foldl crc_byte crc (map m (take (unat len) (segs_addrs sgs)))"
proof (induction sgs arbitrary: len crc)
  case (Cons s sgs)
  show ?case
  proof (cases rule: sub_chunk_cases [of "seg_len s" len])
    case 1
    then have "checksum_segments_loop m sgs (len - seg_chunk (seg_len s) len) c = c" for c
      by (cases sgs) auto
    with 1 show ?thesis
      by (cases "len = 0") (auto simp: Let_def crc_bytes_fold word_gt_0 min_absorb1)
  next
    case 2
    with Cons.IH show ?thesis by (auto simp: Let_def crc_bytes_fold word_gt_0 min_absorb2)
  qed
qed simp

subsection \<open>Well-formed segment lists\<close>

definition wf_segs :: "omx__req_segs \<Rightarrow> bool" where
  "wf_segs rs \<longleftrightarrow> short_segs (seg_array rs) \<and> unat (segs_total_length rs) = segs_bytes (seg_array rs) \<and>
    (case segs_segs rs of
       Segs_null \<Rightarrow> False
     | Segs_single \<Rightarrow> segs_nseg rs = 1
     | Segs_array _ xs \<Rightarrow> 1 < length xs \<and> length xs \<le> 256 \<and> segs_nseg rs = of_nat (length xs))"

abbreviation req_addrs :: "omx__req_segs \<Rightarrow> u64 list" where
  "req_addrs rs \<equiv> segs_addrs (seg_array rs)"

lemma wf_segs_cases:
  assumes "wf_segs rs"
  obtains "segs_nseg rs = 1" "seg_array rs = [segs_single rs]" "segs_segs rs = Segs_single"
  | b where "segs_nseg rs \<noteq> 1" "1 < length (seg_array rs)" "unat (segs_nseg rs) = length (seg_array rs)"
    "segs_segs rs = Segs_array b (seg_array rs)"
proof (cases "segs_segs rs")
  case (Segs_array b xs)
  then have "unat (segs_nseg rs) = length xs" "1 < length xs"
    using assms by (auto simp: wf_segs_def unat_of_nat take_bit_nat_eq_self)
  moreover from this have "segs_nseg rs \<noteq> 1" by auto
  ultimately show ?thesis using that(2) Segs_array by (simp add: seg_array_def)
qed (use assms that(1) in \<open>auto simp: wf_segs_def seg_array_def\<close>)

lemma foldl_seg_len: "foldl (\<lambda>acc s. acc + oseg_len s) a sgs = a + (\<Sum>s\<leftarrow>sgs. oseg_len s)"
  by (induction sgs arbitrary: a) (auto simp: add.assoc)

lemma unat_sum_list_seg_len:
  "(\<Sum>s\<leftarrow>sgs. unat (oseg_len s)) < 4294967296 \<Longrightarrow> unat (\<Sum>s\<leftarrow>sgs. oseg_len s) = (\<Sum>s\<leftarrow>sgs. unat (oseg_len s))"
  by (induction sgs) (auto simp: unat_word_ariths)

definition user_addrs :: "omx_seg list \<Rightarrow> u64 list" where
  "user_addrs sgs = concat (map (\<lambda>s. addrs (oseg_ptr s) (unat (oseg_len s))) sgs)"

lemma segs_addrs_cache: "segs_addrs (map cache_seg sgs) = user_addrs sgs"
  by (simp add: segs_addrs_def user_addrs_def cache_seg_def comp_def)

lemma length_user_addrs: "length (user_addrs sgs) = (\<Sum>s\<leftarrow>sgs. unat (oseg_len s))"
  by (induction sgs) (auto simp: user_addrs_def)

lemma short_segs_cache: "short_segs (map cache_seg sgs)"
  by (induction sgs) (auto simp: short_segs_def cache_seg_def word_less_nat_alt unat_u32_less)

lemma wf_segs_single: "wf_segs (omx_cache_single_segment rs buf len)"
  by (simp add: wf_segs_def omx_cache_single_segment_def seg_array_def short_segs_def word_less_nat_alt unat_u32_less)

lemma req_addrs_single: "req_addrs (omx_cache_single_segment rs buf len) = addrs buf (unat len)"
  by (simp add: omx_cache_single_segment_def seg_array_def)


lemma copy_from_segments_copied:
  assumes "wf_segs rs" "len \<le> segs_total_length rs"
    and "set (addrs dst (unat len)) \<inter> set (take (unat len) (req_addrs rs)) = {}"
  shows "\<exists>m'. omx_copy_from_segments dst rs len m = Some m' \<and>
    copied (addrs dst (unat len)) (take (unat len) (req_addrs rs)) m m'"
proof -
  have len: "unat len \<le> segs_bytes (seg_array rs)"
    using assms(1,2) by (simp add: wf_segs_def word_le_nat_alt)
  from assms(1) show ?thesis
  proof (cases rule: wf_segs_cases)
    case 1
    then show ?thesis
      using len memcpy_copied [of dst "ucast len"] by (simp add: omx_copy_from_segments_def min_absorb1)
  next
    case 2
    then show ?thesis
      using copy_from_segments_loop_copied [OF len assms(3)] by (simp add: omx_copy_from_segments_def)
  qed
qed

lemma copy_to_segments_copied:
  assumes "wf_segs rs" "len \<le> segs_total_length rs" "distinct (take (unat len) (req_addrs rs))"
    and "set (addrs src (unat len)) \<inter> set (take (unat len) (req_addrs rs)) = {}"
  shows "\<exists>m'. omx_copy_to_segments rs src len m = Some m' \<and>
    copied (take (unat len) (req_addrs rs)) (addrs src (unat len)) m m'"
proof -
  have len: "unat len \<le> segs_bytes (seg_array rs)"
    using assms(1,2) by (simp add: wf_segs_def word_le_nat_alt)
  from assms(1) show ?thesis
  proof (cases rule: wf_segs_cases)
    case 1
    then show ?thesis
      using len memcpy_copied [of "seg_vaddr (segs_single rs)" "ucast len"]
      by (simp add: omx_copy_to_segments_def min_absorb1)
  next
    case 2
    then show ?thesis
      using copy_to_segments_loop_copied [OF len assms(3,4)] by (simp add: omx_copy_to_segments_def)
  qed
qed

lemma scan_at_split:
  assumes "scan_at sgs st pos" "pos < segs_bytes sgs" "short_segs sgs"
  defines "i \<equiv> scan_seg st"
  shows "i < length sgs" "short_segs (drop i sgs)" "drop i sgs \<noteq> []"
    "unat (scan_off st) \<le> unat (seg_len (hd (drop i sgs)))"
    "pos = segs_bytes (take i sgs) + unat (scan_off st)"
    "segs_bytes sgs = segs_bytes (take i sgs) + segs_bytes (drop i sgs)"
    "drop pos (segs_addrs sgs) = drop (unat (scan_off st)) (segs_addrs (drop i sgs))"
proof -
  show i: "i < length sgs"
    using assms(1,2) unfolding i_def by (cases "scan_seg st = length sgs") (auto simp: scan_at_def)
  show "short_segs (drop i sgs)"
    using assms(3) by (auto simp: short_segs_def list_all_iff dest: in_set_dropD)
  show "drop i sgs \<noteq> []" "unat (scan_off st) \<le> unat (seg_len (hd (drop i sgs)))"
    and pos: "pos = segs_bytes (take i sgs) + unat (scan_off st)"
    using i assms(1) unfolding i_def by (auto simp: scan_at_def hd_drop_conv_nth)
  have sgs: "segs_addrs sgs = segs_addrs (take i sgs) @ segs_addrs (drop i sgs)"
    using segs_addrs_append [of "take i sgs" "drop i sgs"] by simp
  then show "segs_bytes sgs = segs_bytes (take i sgs) + segs_bytes (drop i sgs)"
    by simp
  show "drop pos (segs_addrs sgs) = drop (unat (scan_off st)) (segs_addrs (drop i sgs))"
    unfolding sgs pos by simp
qed





lemma req_addrs_take_single:
  assumes "wf_segs rs" "segs_nseg rs = 1" "len \<le> segs_total_length rs"
  shows "take (unat len) (req_addrs rs) = addrs (seg_vaddr (segs_single rs)) (unat len)"
  using assms(1)
proof (cases rule: wf_segs_cases)
  case 1
  with assms(1,3) show ?thesis by (simp add: wf_segs_def word_le_nat_alt min_absorb1)
qed (use assms(2) in simp)

subsection \<open>Properties\<close>

text \<open>Two lists of two segments, 4 + 4 bytes and 2 + 6 bytes, for the examples.\<close>

definition src_4_4 :: omx__req_segs where
  "src_4_4 = \<lparr>segs_single = \<lparr>seg_vaddr = 0, seg_len = 0\<rparr>, segs_nseg = 2,
     segs_segs = Segs_array 0 [\<lparr>seg_vaddr = 0x1000, seg_len = 4\<rparr>, \<lparr>seg_vaddr = 0x2000, seg_len = 4\<rparr>],
     segs_total_length = 8\<rparr>"

definition dst_2_6 :: omx__req_segs where
  "dst_2_6 = \<lparr>segs_single = \<lparr>seg_vaddr = 0, seg_len = 0\<rparr>, segs_nseg = 2,
     segs_segs = Segs_array 0 [\<lparr>seg_vaddr = 0x3000, seg_len = 2\<rparr>, \<lparr>seg_vaddr = 0x4000, seg_len = 6\<rparr>],
     segs_total_length = 8\<rparr>"

lemmas segs_examples = src_4_4_def dst_2_6_def wf_segs_def seg_array_def short_segs_def addrs_def upt_rec scan_at_def

text \<open>
  C26: When the allocator answers and the lengths add up to less than \<open>2^32\<close>, caching at most 256 user
  segments succeeds, and the cached list is well formed and describes the user's bytes in order.
\<close>

theorem cache_segments_ok:
  assumes "(\<Sum>s\<leftarrow>sgs. unat (oseg_len s)) < 2 ^ 32" "length sgs \<le> 256"
    and "malloc_answer ep (malloc_nr ep) = Some b"
  shows "\<exists>rs' ep'. omx_cache_segments rs sgs ep = (OMX_SUCCESS, rs', ep') \<and> wf_segs rs' \<and>
    req_addrs rs' = user_addrs sgs"
proof -
  consider "sgs = []" | s where "sgs = [s]" | "1 < length sgs"
    by (cases sgs; cases "tl sgs") auto
  then show ?thesis
  proof cases
    case 3
    then have "omx_cache_segments rs sgs ep = (OMX_SUCCESS,
        rs\<lparr>segs_segs := Segs_array b (map cache_seg sgs), segs_nseg := of_nat (length sgs),
          segs_total_length := (\<Sum>s\<leftarrow>sgs. oseg_len s)\<rparr>, ep\<lparr>malloc_nr := Suc (malloc_nr ep)\<rparr>)"
      using assms by (auto simp: omx_cache_segments_def OMX_MAX_SEGMENTS_def omx_malloc_ep_def foldl_seg_len)
    then show ?thesis
      using 3 assms by (auto simp: wf_segs_def seg_array_def short_segs_cache segs_addrs_cache
          length_user_addrs unat_sum_list_seg_len)
  qed (auto simp: omx_cache_segments_def wf_segs_single req_addrs_single user_addrs_def)
qed

theorem cache_segments_ok_witness:
  "\<exists>rs' ep'. omx_cache_segments src_4_4 [\<lparr>oseg_ptr = 0x10, oseg_len = 3\<rparr>, \<lparr>oseg_ptr = 0x20, oseg_len = 1\<rparr>]
     (blank_endpoint\<lparr>malloc_answer := \<lambda>_. Some 0x1000, malloc_nr := 0\<rparr>) = (OMX_SUCCESS, rs', ep') \<and> wf_segs rs' \<and>
     req_addrs rs' = [0x10, 0x11, 0x12, 0x20]"
  using cache_segments_ok [of "[\<lparr>oseg_ptr = 0x10, oseg_len = 3\<rparr>, \<lparr>oseg_ptr = 0x20, oseg_len = 1\<rparr>]"
      "blank_endpoint\<lparr>malloc_answer := \<lambda>_. Some 0x1000, malloc_nr := 0\<rparr>" "0x1000" src_4_4]
  by (simp add: user_addrs_def addrs_def upt_rec)

text \<open>
  C21: \<^verbatim>\<open>omx_copy_from_segments\<close> gathers: the buffer receives the first bytes of the segments in order and
  no other byte of memory changes, when the buffer does not overlap the bytes read.
\<close>

theorem copy_from_segments_gathers:
  assumes "wf_segs rs" "len \<le> segs_total_length rs"
    and "set (addrs dst (unat len)) \<inter> set (take (unat len) (req_addrs rs)) = {}"
  shows "\<exists>m'. omx_copy_from_segments dst rs len m = Some m' \<and>
    copied (addrs dst (unat len)) (take (unat len) (req_addrs rs)) m m'"
  by (rule copy_from_segments_copied [OF assms])

theorem copy_from_segments_gathers_witness:
  "\<exists>m'. omx_copy_from_segments 0x3000 src_4_4 5 (\<lambda>a. ucast a) = Some m' \<and>
    copied [0x3000, 0x3001, 0x3002, 0x3003, 0x3004] [0x1000, 0x1001, 0x1002, 0x1003, 0x2000] (\<lambda>a. ucast a) m'"
  using copy_from_segments_gathers [of src_4_4 5 "0x3000" "\<lambda>a. ucast a"] by (simp add: segs_examples)

text \<open>
  C22: \<^verbatim>\<open>omx_copy_to_segments\<close> scatters: the first bytes of the segments receive the buffer in order and no
  other byte of memory changes, when these bytes are distinct and do not overlap the buffer.
\<close>

theorem copy_to_segments_scatters:
  assumes "wf_segs rs" "len \<le> segs_total_length rs" "distinct (take (unat len) (req_addrs rs))"
    and "set (addrs src (unat len)) \<inter> set (take (unat len) (req_addrs rs)) = {}"
  shows "\<exists>m'. omx_copy_to_segments rs src len m = Some m' \<and>
    copied (take (unat len) (req_addrs rs)) (addrs src (unat len)) m m'"
  by (rule copy_to_segments_copied [OF assms])

theorem copy_to_segments_scatters_witness:
  "\<exists>m'. omx_copy_to_segments dst_2_6 0x1000 4 (\<lambda>a. ucast a) = Some m' \<and>
    copied [0x3000, 0x3001, 0x4000, 0x4001] [0x1000, 0x1001, 0x1002, 0x1003] (\<lambda>a. ucast a) m'"
  using copy_to_segments_scatters [of dst_2_6 4 "0x1000" "\<lambda>a. ucast a"] by (simp add: segs_examples)

text \<open>
  C23: A fragment can be scattered at any offset, in any order: whether the saved position is the one of
  the offset or has to be searched again, \<^verbatim>\<open>omx_partial_copy_to_segments\<close> writes exactly the bytes
  \<open>offset\<close> to \<open>offset + len\<close> of the segments, and leaves a saved position that is right again.
\<close>

theorem partial_copy_any_order:
  assumes "wf_segs rs" "1 < segs_nseg rs" "scan_at (seg_array rs) st (unat soffset)"
    and "0 < unat len" "unat offset + unat len \<le> unat (segs_total_length rs)"
    and "distinct (take (unat len) (drop (unat offset) (req_addrs rs)))"
    and "set (addrs src (unat len)) \<inter> set (take (unat len) (drop (unat offset) (req_addrs rs))) = {}"
  shows "\<exists>m' st'. omx_partial_copy_to_segments rs src len offset st soffset m = Some (m', st', offset + len) \<and>
    copied (take (unat len) (drop (unat offset) (req_addrs rs))) (addrs src (unat len)) m m' \<and>
    scan_at (seg_array rs) st' (unat (offset + len))"
proof -
  let ?sgs = "seg_array rs"
  have tot: "unat offset + unat len \<le> segs_bytes ?sgs" "segs_bytes ?sgs < 4294967296" "short_segs ?sgs"
    using assms(1,5) unat_u32_less [of "segs_total_length rs"] by (auto simp: wf_segs_def)
  then have ne: "?sgs \<noteq> []" using assms(4) by auto
  obtain st0 where st0: "(if offset \<noteq> soffset then partial_copy_seek ?sgs 0 0 offset else Some st) = Some st0"
    "scan_at ?sgs st0 (unat offset)"
    using partial_copy_seek_at [of 0 "[]" offset ?sgs] assms(3) tot ne by (cases "offset = soffset") auto
  note split = scan_at_split [OF st0(2) _ tot(3)]
  have sum: "unat (offset + len) = unat offset + unat len"
    using tot by (simp add: unat_word_ariths)
  from continue_to_loop_copied [OF split(2-4) assms(4), of src "take (scan_seg st0) ?sgs" m]
  show ?thesis
    using assms(4,6,7) st0(1) tot sum split
    by (auto simp: omx_partial_copy_to_segments_def omx_continue_partial_copy_to_segments_def min_absorb2)
qed

theorem partial_copy_any_order_witness:
  "\<exists>m' st'. omx_partial_copy_to_segments dst_2_6 0x1000 3 1 \<lparr>scan_seg = 1, scan_off = 2\<rparr> 4 (\<lambda>a. ucast a) =
      Some (m', st', 4) \<and>
    copied [0x3001, 0x4000, 0x4001] [0x1000, 0x1001, 0x1002] (\<lambda>a. ucast a) m' \<and>
    scan_at (seg_array dst_2_6) st' 4"
  using partial_copy_any_order [of dst_2_6 "\<lparr>scan_seg = 1, scan_off = 2\<rparr>" 4 3 1 "0x1000" "\<lambda>a. ucast a"]
  by (simp add: segs_examples)

text \<open>
  C24: Fragment by fragment on the sending side: from a saved position \<open>pos\<close>, the next call gathers the
  bytes \<open>pos\<close> to \<open>pos + len\<close> of the segments and saves the position \<open>pos + len\<close>.
\<close>

theorem continue_partial_copy_from_gathers:
  assumes "wf_segs rs" "scan_at (seg_array rs) st pos" "0 < unat len" "pos + unat len \<le> unat (segs_total_length rs)"
    and "set (addrs dst (unat len)) \<inter> set (take (unat len) (drop pos (req_addrs rs))) = {}"
  shows "\<exists>m' st'. omx_continue_partial_copy_from_segments dst rs len st m = Some (m', st') \<and>
    copied (addrs dst (unat len)) (take (unat len) (drop pos (req_addrs rs))) m m' \<and>
    scan_at (seg_array rs) st' (pos + unat len)"
proof -
  let ?sgs = "seg_array rs" and ?i = "scan_seg st" and ?o = "unat (scan_off st)"
  have tot: "pos + unat len \<le> segs_bytes ?sgs" "short_segs ?sgs"
    using assms(1,4) by (auto simp: wf_segs_def)
  note split = scan_at_split [OF assms(2) _ tot(2)]
  from continue_from_loop_copied [OF split(2-4) assms(3), of dst "take ?i ?sgs" m]
  show ?thesis
    using assms(3,5) tot split
    by (auto simp: omx_continue_partial_copy_from_segments_def min_absorb2)
qed

theorem continue_partial_copy_from_gathers_witness:
  "\<exists>m' st'. omx_continue_partial_copy_from_segments 0x3000 src_4_4 3 \<lparr>scan_seg = 0, scan_off = 2\<rparr> (\<lambda>a. ucast a) =
      Some (m', st') \<and>
    copied [0x3000, 0x3001, 0x3002] [0x1002, 0x1003, 0x2000] (\<lambda>a. ucast a) m' \<and> scan_at (seg_array src_4_4) st' 5"
  using continue_partial_copy_from_gathers [of src_4_4 "\<lparr>scan_seg = 0, scan_off = 2\<rparr>" 2 3 "0x3000" "\<lambda>a. ucast a"]
  by (simp add: segs_examples)

text \<open>
  C25: The checksum depends on the bytes only, not on how they are cut into segments: it is the CRC of the
  first \<open>len\<close> bytes in order.
\<close>

theorem checksum_of_bytes:
  assumes "wf_segs rs"
  shows "omx_checksum_segments m rs len = foldl crc_byte 0 (map m (take (unat len) (req_addrs rs)))"
  using assms
  by (cases rule: wf_segs_cases) (simp_all add: omx_checksum_segments_def checksum_segments_loop_fold)

theorem checksum_of_bytes_witness:
  "omx_checksum_segments (\<lambda>a. if a < 0x2000 then 7 else 9) src_4_4 5 = foldl crc_byte 0 [7, 7, 7, 7, 9]"
  using checksum_of_bytes [of src_4_4 "\<lambda>a. if a < 0x2000 then 7 else 9" 5] by (simp add: segs_examples)

text \<open>
  C27: When the source or the destination is a single segment, \<^verbatim>\<open>omx_copy_from_to_segments\<close> copies the first
  bytes of the source to the first bytes of the destination, and nothing else.
\<close>

theorem copy_from_to_segments_one_side_single:
  assumes "wf_segs srs" "wf_segs drs" "segs_nseg srs = 1 \<or> segs_nseg drs = 1"
    and "len \<le> segs_total_length srs" "len \<le> segs_total_length drs"
    and "distinct (take (unat len) (req_addrs drs))"
    and "set (take (unat len) (req_addrs srs)) \<inter> set (take (unat len) (req_addrs drs)) = {}"
  shows "\<exists>m'. omx_copy_from_to_segments drs srs len m = Some m' \<and>
    copied (take (unat len) (req_addrs drs)) (take (unat len) (req_addrs srs)) m m'"
proof (cases "segs_nseg srs = 1")
  case True
  show ?thesis
    using copy_to_segments_copied [OF assms(2,5,6), of "seg_vaddr (segs_single srs)"] True assms(7)
    unfolding req_addrs_take_single [OF assms(1) True assms(4)]
    by (simp add: omx_copy_from_to_segments_def)
next
  case False
  with assms(3) have d: "segs_nseg drs = 1" by simp
  show ?thesis
    using copy_from_segments_copied [OF assms(1,4), of "seg_vaddr (segs_single drs)"] d False assms(7)
    unfolding req_addrs_take_single [OF assms(2) d assms(5)]
    by (simp add: omx_copy_from_to_segments_def Int_commute)
qed

theorem copy_from_to_segments_one_side_single_witness:
  "\<exists>m'. omx_copy_from_to_segments dst_2_6 (omx_cache_single_segment src_4_4 0x1000 4) 3 (\<lambda>a. ucast a) = Some m' \<and>
    copied [0x3000, 0x3001, 0x4000] [0x1000, 0x1001, 0x1002] (\<lambda>a. ucast a) m'"
  using copy_from_to_segments_one_side_single
    [of "omx_cache_single_segment src_4_4 0x1000 4" dst_2_6 3 "\<lambda>a. ucast a"]
  by (simp add: segs_examples omx_cache_single_segment_def)


end
