(* ===== verification/Slot_Map.thy ===== *)
theory Slot_Map
  imports Endpoint_State
begin

text \<open>
  The free lists threaded through arrays. The send queue of an endpoint has 1024 slots; a medium
  message takes one per fragment (\<^verbatim>\<open>omx__endpoint_sendq_map_init\<close> in \<^verbatim>\<open>libopen-mx/omx_endpoint.c\<close>, the
  other operations in \<^verbatim>\<open>libopen-mx/omx_lib.h\<close>). An access out of the array returns \<open>None\<close>.
  \<open>free_chain\<close> is shared with the map of large regions.
\<close>

definition OMX_SENDQ_ENTRY_NR :: nat where
  "OMX_SENDQ_ENTRY_NR = 1024"

definition omx__endpoint_sendq_map_init :: "omx_endpoint \<Rightarrow> omx_return \<times> omx_endpoint" where
  "omx__endpoint_sendq_map_init ep =
    (let (blk, ep) = omx_malloc_ep ep in
     case blk of
       None \<Rightarrow> (OMX_NO_RESOURCES, ep)
     | Some _ \<Rightarrow>
         (let array = map (\<lambda>i. \<lparr>entry_next_free = int i + 1, entry_user = None\<rparr>) [0..<OMX_SENDQ_ENTRY_NR];
              array = array[OMX_SENDQ_ENTRY_NR - 1 := (array ! (OMX_SENDQ_ENTRY_NR - 1))\<lparr>entry_next_free := -1\<rparr>]
          in (OMX_SUCCESS,
              ep\<lparr>sendq_map := \<lparr>sq_first_free = 0, sq_nr_free = int OMX_SENDQ_ENTRY_NR, sq_array = array\<rparr>\<rparr>)))"

text \<open>The loop of \<^verbatim>\<open>map_get\<close>: the index after the slots taken, the array, and the slots taken.\<close>

fun sendq_map_get_loop ::
  "nat \<Rightarrow> int \<Rightarrow> rid \<Rightarrow> omx__sendq_entry list \<Rightarrow> (int \<times> omx__sendq_entry list \<times> u16 list) option" where
  "sendq_map_get_loop 0 index user array = Some (index, array, [])"
| "sendq_map_get_loop (Suc n) index user array =
    (if 0 \<le> index \<and> nat index < length array then
       (let next_free = entry_next_free (array ! nat index);
            array = array[nat index := (array ! nat index)\<lparr>entry_user := Some user\<rparr>]
        in do {
          (index', array, founds) \<leftarrow> sendq_map_get_loop n next_free user array;
          Some (index', array, of_int index # founds)
        })
     else None)"

text \<open>The inner \<open>None\<close> is the return value -1 (not enough free slots), \<open>Some founds\<close> the return value 0.\<close>

definition omx__endpoint_sendq_map_get ::
  "nat \<Rightarrow> rid \<Rightarrow> omx__sendq_map \<Rightarrow> (u16 list option \<times> omx__sendq_map) option" where
  "omx__endpoint_sendq_map_get nr user mp =
    (if sq_nr_free mp < int nr then Some (None, mp)
     else do {
       (index, array, founds) \<leftarrow> sendq_map_get_loop nr (sq_first_free mp) user (sq_array mp);
       Some (Some founds, mp\<lparr>sq_array := array, sq_first_free := index, sq_nr_free := sq_nr_free mp - int nr\<rparr>)
     })"

text \<open>
  The loop of \<^verbatim>\<open>map_put\<close> on the indexes from \<open>i\<close> on, where \<open>prev\<close> is \<^verbatim>\<open>first_free\<close> when \<open>i\<close> is 0 and the
  previous index otherwise.
\<close>

fun sendq_map_put_loop :: "u16 list \<Rightarrow> int \<Rightarrow> omx__sendq_entry list \<Rightarrow> omx__sendq_entry list option" where
  "sendq_map_put_loop [] prev array = Some array"
| "sendq_map_put_loop (x # xs) prev array =
    (if unat x < length array then
       sendq_map_put_loop xs (uint x) (array[unat x := \<lparr>entry_next_free = prev, entry_user = None\<rparr>])
     else None)"

text \<open>\<^verbatim>\<open>indexes[nr-1]\<close> is read even when \<^verbatim>\<open>nr\<close> is 0, in front of the array then.\<close>

definition omx__endpoint_sendq_map_put :: "nat \<Rightarrow> u16 list \<Rightarrow> omx__sendq_map \<Rightarrow> omx__sendq_map option" where
  "omx__endpoint_sendq_map_put nr indexes mp =
    (if nr \<le> length indexes then
       do {
         array \<leftarrow> sendq_map_put_loop (take nr indexes) (sq_first_free mp) (sq_array mp);
         (if nr = 0 then None
          else Some (mp\<lparr>sq_array := array, sq_first_free := uint (indexes ! (nr - 1)),
            sq_nr_free := sq_nr_free mp + int nr\<rparr>))
       }
     else None)"

definition omx__endpoint_sendq_map_user :: "omx__sendq_map \<Rightarrow> u16 \<Rightarrow> rid option" where
  "omx__endpoint_sendq_map_user mp index =
    (if unat index < length (sq_array mp) then entry_user (sq_array mp ! unat index) else None)"

subsection \<open>Free chains\<close>

text \<open>Following \<open>nf\<close> from the index \<open>f\<close> visits \<open>xs\<close> and ends with -1.\<close>

fun free_chain :: "(nat \<Rightarrow> int) \<Rightarrow> int \<Rightarrow> nat list \<Rightarrow> bool" where
  "free_chain nf f [] \<longleftrightarrow> f = -1"
| "free_chain nf f (x # xs) \<longleftrightarrow> f = int x \<and> free_chain nf (nf x) xs"

lemma free_chain_cong: "(\<And>x. x \<in> set xs \<Longrightarrow> nf x = nf' x) \<Longrightarrow> free_chain nf f xs = free_chain nf' f xs"
  by (induction xs arbitrary: f) auto

lemma free_chain_upt: "(\<And>i. a \<le> i \<Longrightarrow> i < b \<Longrightarrow> nf i = (if Suc i = b then -1 else int i + 1)) \<Longrightarrow> a < b \<Longrightarrow>
    free_chain nf (int a) [a..<b]"
proof (induction "b - a" arbitrary: a)
  case (Suc n)
  then show ?case
    by (cases "Suc a = b") (auto simp: upt_conv_Cons add.commute)
qed simp

subsection \<open>The invariant of the send queue map\<close>

type_synonym abs_sendq_map = "nat list \<times> (nat \<Rightarrow> rid option)"

text \<open>The map stands for the free slots \<open>F\<close>, in the order they are taken, and the owner of each slot.\<close>

fun sendq_map_rel :: "omx__sendq_map \<Rightarrow> abs_sendq_map \<Rightarrow> bool" where
  "sendq_map_rel mp (F, own) \<longleftrightarrow>
    length (sq_array mp) = OMX_SENDQ_ENTRY_NR \<and> sq_nr_free mp = int (length F) \<and>
    free_chain (\<lambda>i. entry_next_free (sq_array mp ! i)) (sq_first_free mp) F \<and>
    distinct F \<and> set F \<union> dom own = {..<OMX_SENDQ_ENTRY_NR} \<and> set F \<inter> dom own = {} \<and>
    (\<forall>i < OMX_SENDQ_ENTRY_NR. entry_user (sq_array mp ! i) = own i)"

datatype sendq_op = Map_get nat rid | Map_put "u16 list"

fun sendq_step :: "sendq_op \<Rightarrow> omx__sendq_map \<Rightarrow> omx__sendq_map option" where
  "sendq_step (Map_get nr user) mp = map_option snd (omx__endpoint_sendq_map_get nr user mp)"
| "sendq_step (Map_put xs) mp = omx__endpoint_sendq_map_put (length xs) xs mp"

fun abs_sendq_step :: "sendq_op \<Rightarrow> abs_sendq_map \<Rightarrow> abs_sendq_map" where
  "abs_sendq_step (Map_get nr user) (F, own) =
    (if length F < nr then (F, own)
     else (drop nr F, (\<lambda>i. if i \<in> set (take nr F) then Some user else own i)))"
| "abs_sendq_step (Map_put xs) (F, own) =
    (rev (map unat xs) @ F, (\<lambda>i. if i \<in> set (map unat xs) then None else own i))"

text \<open>A caller gives back at least one slot, each of them once, and only slots that are owned.\<close>

fun sendq_op_ok :: "abs_sendq_map \<Rightarrow> sendq_op \<Rightarrow> bool" where
  "sendq_op_ok (F, own) (Map_get nr user) \<longleftrightarrow> True"
| "sendq_op_ok (F, own) (Map_put xs) \<longleftrightarrow> xs \<noteq> [] \<and> distinct xs \<and> set (map unat xs) \<subseteq> dom own"

lemma sendq_map_get_loop_rel:
  assumes "free_chain (\<lambda>i. entry_next_free (array ! i)) f F" "distinct F" "set F \<subseteq> {..<length array}"
    and "length array \<le> 65536" "n \<le> length F"
  shows "\<exists>f' array'. sendq_map_get_loop n f user array = Some (f', array', map of_nat (take n F)) \<and>
    length array' = length array \<and> free_chain (\<lambda>i. entry_next_free (array' ! i)) f' (drop n F) \<and>
    (\<forall>i < length array. entry_user (array' ! i) = (if i \<in> set (take n F) then Some user else entry_user (array ! i)))"
  using assms
proof (induction n arbitrary: f F array)
  case (Suc n)
  then obtain x xs where F: "F = x # xs" by (cases F) auto
  let ?a = "array[x := (array ! x)\<lparr>entry_user := Some user\<rparr>]"
  have x: "x < length array" "f = int x" "x \<notin> set xs" using Suc.prems F by auto
  have nf: "(\<lambda>i. entry_next_free (?a ! i)) = (\<lambda>i. entry_next_free (array ! i))"
    using x(1) by (auto simp: nth_list_update)
  have "\<exists>f' array'. sendq_map_get_loop n (entry_next_free (array ! x)) user ?a = Some (f', array', map of_nat (take n xs)) \<and>
    length array' = length ?a \<and> free_chain (\<lambda>i. entry_next_free (array' ! i)) f' (drop n xs) \<and>
    (\<forall>i < length ?a. entry_user (array' ! i) = (if i \<in> set (take n xs) then Some user else entry_user (?a ! i)))"
    using Suc.prems F by (intro Suc.IH) (auto simp: nf simp del: list_update.simps)
  with x F show ?case by (auto simp: Let_def nth_list_update)
qed auto

lemma sendq_map_put_loop_rel:
  assumes "free_chain (\<lambda>i. entry_next_free (array ! i)) prev G" "distinct xs"
    and "set (map unat xs) \<subseteq> {..<length array}" "set (map unat xs) \<inter> set G = {}"
  shows "\<exists>array'. sendq_map_put_loop xs prev array = Some array' \<and> length array' = length array \<and>
    free_chain (\<lambda>i. entry_next_free (array' ! i)) (if xs = [] then prev else uint (last xs)) (rev (map unat xs) @ G) \<and>
    (\<forall>i < length array. entry_user (array' ! i) = (if i \<in> set (map unat xs) then None else entry_user (array ! i)))"
  using assms
proof (induction xs arbitrary: prev array G)
  case (Cons x xs)
  let ?a = "array[unat x := \<lparr>entry_next_free = prev, entry_user = None\<rparr>]"
  have x: "unat x < length array" "unat x \<notin> set G" "unat x \<notin> set (map unat xs)"
    using Cons.prems by (auto simp flip: word_unat_eq_iff)
  have "free_chain (\<lambda>i. entry_next_free (?a ! i)) prev G"
    using Cons.prems(1) x by (subst free_chain_cong [of G _ "\<lambda>i. entry_next_free (array ! i)"]) (auto simp: nth_list_update)
  then have ch: "free_chain (\<lambda>i. entry_next_free (?a ! i)) (uint x) (unat x # G)"
    using x(1) by simp
  have p: "distinct xs" "set (map unat xs) \<subseteq> {..<length ?a}" "set (map unat xs) \<inter> set (unat x # G) = {}"
    using Cons.prems(2-4) x(3) by (simp, simp, simp add: disjoint_iff)
  obtain array' where r: "sendq_map_put_loop xs (uint x) ?a = Some array'" "length array' = length ?a"
    "free_chain (\<lambda>i. entry_next_free (array' ! i)) (if xs = [] then uint x else uint (last xs)) (rev (map unat xs) @ unat x # G)"
    "\<forall>i < length ?a. entry_user (array' ! i) = (if i \<in> set (map unat xs) then None else entry_user (?a ! i))"
    using Cons.IH [OF ch p] by blast
  have "sendq_map_put_loop (x # xs) prev array = Some array'" "length array' = length array"
    using x(1) r(1,2) by simp_all
  moreover have "free_chain (\<lambda>i. entry_next_free (array' ! i)) (uint (last (x # xs))) (rev (map unat (x # xs)) @ G)"
    using r(3) by (cases xs) simp_all
  moreover have "\<forall>i < length array. entry_user (array' ! i) = (if i \<in> set (map unat (x # xs)) then None else entry_user (array ! i))"
    using r(4) x(1) by (simp add: nth_list_update)
  ultimately show ?case by simp
qed simp

lemma sendq_map_relD:
  assumes "sendq_map_rel mp (F, own)"
  shows "length (sq_array mp) = OMX_SENDQ_ENTRY_NR" "sq_nr_free mp = int (length F)"
    "free_chain (\<lambda>i. entry_next_free (sq_array mp ! i)) (sq_first_free mp) F" "distinct F"
    "set F \<union> dom own = {..<OMX_SENDQ_ENTRY_NR}" "set F \<inter> dom own = {}"
    "\<And>i. i < OMX_SENDQ_ENTRY_NR \<Longrightarrow> entry_user (sq_array mp ! i) = own i"
    "set F \<subseteq> {..<length (sq_array mp)}" "dom own \<subseteq> {..<length (sq_array mp)}"
  using assms by auto

lemma sendq_map_get_rel:
  assumes "sendq_map_rel mp (F, own)"
  shows "\<exists>mp'. omx__endpoint_sendq_map_get nr user mp =
      Some (if length F < nr then None else Some (map of_nat (take nr F)), mp') \<and>
    sendq_map_rel mp' (abs_sendq_step (Map_get nr user) (F, own))"
proof (cases "length F < nr")
  case True
  with assms show ?thesis by (auto simp: omx__endpoint_sendq_map_get_def)
next
  case False
  note D = sendq_map_relD [OF assms]
  have nr: "OMX_SENDQ_ENTRY_NR \<le> 65536" by (simp add: OMX_SENDQ_ENTRY_NR_def)
  obtain f' array' where
    r: "sendq_map_get_loop nr (sq_first_free mp) user (sq_array mp) = Some (f', array', map of_nat (take nr F))"
    "length array' = length (sq_array mp)" "free_chain (\<lambda>i. entry_next_free (array' ! i)) f' (drop nr F)"
    "\<forall>i < length (sq_array mp). entry_user (array' ! i) =
      (if i \<in> set (take nr F) then Some user else entry_user (sq_array mp ! i))"
    using sendq_map_get_loop_rel [OF D(3,4,8), of nr user] nr False unfolding D(1) by (meson not_less)
  have F: "set F = set (take nr F) \<union> set (drop nr F)" "set (take nr F) \<inter> set (drop nr F) = {}"
    using set_append [of "take nr F" "drop nr F"] set_take_disj_set_drop_if_distinct [OF D(4), of nr nr] by simp_all
  have part: "set (drop nr F) \<union> (set (take nr F) \<union> dom own) = {..<OMX_SENDQ_ENTRY_NR}"
    "set (drop nr F) \<inter> (set (take nr F) \<union> dom own) = {}"
    using F D(5,6) by blast+
  have own: "dom (\<lambda>i. if i \<in> set (take nr F) then Some user else own i) = set (take nr F) \<union> dom own"
    by (auto split: if_splits)
  have "sendq_map_rel (mp\<lparr>sq_array := array', sq_first_free := f', sq_nr_free := sq_nr_free mp - int nr\<rparr>)
      (drop nr F, \<lambda>i. if i \<in> set (take nr F) then Some user else own i)"
    unfolding sendq_map_rel.simps own using r D(1,2,4,7) part False by (simp add: of_nat_diff)
  then show ?thesis
    using r(1) D(2) False by (simp add: omx__endpoint_sendq_map_get_def del: sendq_map_rel.simps)
qed

lemma sendq_map_put_rel:
  assumes "sendq_map_rel mp (F, own)" "sendq_op_ok (F, own) (Map_put xs)"
  shows "\<exists>mp'. omx__endpoint_sendq_map_put (length xs) xs mp = Some mp' \<and>
    sendq_map_rel mp' (abs_sendq_step (Map_put xs) (F, own))"
proof -
  note D = sendq_map_relD [OF assms(1)]
  have ok: "xs \<noteq> []" "distinct xs" "set (map unat xs) \<subseteq> dom own" using assms(2) by auto
  have len: "set (map unat xs) \<subseteq> {..<length (sq_array mp)}" "set (map unat xs) \<inter> set F = {}"
    using D(9) ok(3) by (rule order_trans [rotated]) (use D(6) ok(3) in blast)
  obtain array' where
    r: "sendq_map_put_loop xs (sq_first_free mp) (sq_array mp) = Some array'"
    "length array' = length (sq_array mp)"
    "free_chain (\<lambda>i. entry_next_free (array' ! i)) (if xs = [] then sq_first_free mp else uint (last xs))
      (rev (map unat xs) @ F)"
    "\<forall>i < length (sq_array mp). entry_user (array' ! i) =
      (if i \<in> set (map unat xs) then None else entry_user (sq_array mp ! i))"
    using sendq_map_put_loop_rel [OF D(3) ok(2) len] by blast
  have own: "dom (\<lambda>i. if i \<in> set (map unat xs) then None else own i) = dom own - set (map unat xs)"
    by (auto split: if_splits)
  have dist: "distinct (rev (map unat xs) @ F)"
    using ok(2) len(2) D(4) by (auto simp: distinct_map inj_on_def word_unat_eq_iff)
  have part: "set (rev (map unat xs) @ F) \<union> (dom own - set (map unat xs)) = {..<OMX_SENDQ_ENTRY_NR}"
    "set (rev (map unat xs) @ F) \<inter> (dom own - set (map unat xs)) = {}"
    unfolding set_append set_rev using D(5,6) ok(3) by blast+
  have "sendq_map_rel (mp\<lparr>sq_array := array', sq_first_free := uint (last xs), sq_nr_free := sq_nr_free mp + int (length xs)\<rparr>)
      (rev (map unat xs) @ F, \<lambda>i. if i \<in> set (map unat xs) then None else own i)"
    unfolding sendq_map_rel.simps own using r D(1,2,7) ok(1) dist part by simp
  then show ?thesis
    using r(1) ok(1) by (simp add: omx__endpoint_sendq_map_put_def last_conv_nth del: sendq_map_rel.simps)
qed

interpretation sendq: partial_simulation sendq_step abs_sendq_step sendq_op_ok sendq_map_rel
proof
  fix mp q x assume rel: "sendq_map_rel mp q" and ok: "sendq_op_ok q x"
  obtain F own where q: "q = (F, own)" by (cases q)
  show "\<exists>mp'. sendq_step x mp = Some mp' \<and> sendq_map_rel mp' (abs_sendq_step x q)"
  proof (cases x)
    case (Map_get nr user)
    with sendq_map_get_rel [OF rel [unfolded q], of nr user] show ?thesis
      unfolding q by (auto simp del: sendq_map_rel.simps abs_sendq_step.simps)
  next
    case (Map_put xs)
    with sendq_map_put_rel [OF rel [unfolded q] ok [unfolded q Map_put]] show ?thesis
      unfolding q by simp
  qed
qed

lemma sendq_map_init_rel:
  assumes "omx__endpoint_sendq_map_init ep = (OMX_SUCCESS, ep')"
  shows "sendq_map_rel (sendq_map ep') ([0..<OMX_SENDQ_ENTRY_NR], Map.empty)"
proof -
  let ?a = "map (\<lambda>i. \<lparr>entry_next_free = int i + 1, entry_user = None\<rparr>) [0..<OMX_SENDQ_ENTRY_NR]"
  let ?b = "?a[OMX_SENDQ_ENTRY_NR - 1 := (?a ! (OMX_SENDQ_ENTRY_NR - 1))\<lparr>entry_next_free := -1\<rparr>]"
  have "sendq_map ep' = \<lparr>sq_first_free = 0, sq_nr_free = int OMX_SENDQ_ENTRY_NR, sq_array = ?b\<rparr>"
    using assms by (auto simp: omx__endpoint_sendq_map_init_def omx_malloc_ep_def Let_def split: option.splits)
  moreover have "0 < OMX_SENDQ_ENTRY_NR" by (simp add: OMX_SENDQ_ENTRY_NR_def)
  then have "free_chain (\<lambda>i. entry_next_free (?b ! i)) (int 0) [0..<OMX_SENDQ_ENTRY_NR]"
    by (intro free_chain_upt) (auto simp: nth_list_update)
  moreover have "\<forall>i < OMX_SENDQ_ENTRY_NR. entry_user (?b ! i) = None"
    by (auto simp: nth_list_update)
  ultimately show ?thesis
    by (simp add: atLeast0LessThan)
qed

subsection \<open>Properties\<close>

text \<open>
  C17: The send queue map is a correct allocator. From the map that initialisation builds, any sequence
  of gets, and of puts that give back owned slots once, never accesses the array out of bounds and
  leaves a map whose free chain and owners are those of the abstract allocator: the free slots are
  distinct, free and owned slots partition the 1024 slots, and a get that is refused changes
  nothing.
\<close>

theorem sendq_map_allocator:
  assumes "omx__endpoint_sendq_map_init ep = (OMX_SUCCESS, ep')"
    and "run_ok sendq_op_ok abs_sendq_step ops ([0..<OMX_SENDQ_ENTRY_NR], Map.empty)"
  shows "\<exists>mp. run_partial sendq_step ops (sendq_map ep') = Some mp \<and>
    sendq_map_rel mp (run_steps abs_sendq_step ops ([0..<OMX_SENDQ_ENTRY_NR], Map.empty))"
  by (rule sendq.run_progress [OF sendq_map_init_rel [OF assms(1)] assms(2)])

theorem sendq_map_allocator_witness:
  "\<exists>mp. run_partial sendq_step [Map_get 3 7, Map_put [2, 0], Map_get 1 8]
      (sendq_map (snd (omx__endpoint_sendq_map_init (blank_endpoint\<lparr>malloc_answer := \<lambda>_. Some 4096\<rparr>)))) = Some mp \<and>
    sendq_map_rel mp ([2] @ [3..<OMX_SENDQ_ENTRY_NR],
      (\<lambda>i. if i = 0 then Some 8 else if i = 1 then Some 7 else None))"
proof -
  let ?ep = "blank_endpoint\<lparr>malloc_answer := \<lambda>_. Some 4096\<rparr>"
  let ?ops = "[Map_get 3 7, Map_put [2, 0], Map_get 1 8]"
  let ?q = "([0..<OMX_SENDQ_ENTRY_NR], Map.empty)"
  have nr: "2 < OMX_SENDQ_ENTRY_NR" by (simp add: OMX_SENDQ_ENTRY_NR_def)
  then have upt: "[0..<OMX_SENDQ_ENTRY_NR] = 0 # 1 # 2 # [3..<OMX_SENDQ_ENTRY_NR]"
    using upt_conv_Cons [of 0 OMX_SENDQ_ENTRY_NR] upt_conv_Cons [of 1 OMX_SENDQ_ENTRY_NR]
      upt_conv_Cons [of 2 OMX_SENDQ_ENTRY_NR] nr by (simp add: numeral_eq_Suc)
  have init: "omx__endpoint_sendq_map_init ?ep = (OMX_SUCCESS, snd (omx__endpoint_sendq_map_init ?ep))"
    by (simp add: omx__endpoint_sendq_map_init_def omx_malloc_ep_def Let_def)
  have ok: "run_ok sendq_op_ok abs_sendq_step ?ops ?q"
    unfolding upt by (auto split: if_splits)
  have steps: "run_steps abs_sendq_step ?ops ?q =
      ([2] @ [3..<OMX_SENDQ_ENTRY_NR], (\<lambda>i. if i = 0 then Some 8 else if i = 1 then Some 7 else None))"
    unfolding upt by (auto simp: fun_eq_iff)
  show ?thesis
    using sendq_map_allocator [OF init ok] unfolding steps .
qed

end
