(* ===== verification/Requests.thy ===== *)
theory Requests
  imports Segments
begin

text \<open>
  Error reporting (\<^verbatim>\<open>libopen-mx/omx_error.c\<close>, \<^verbatim>\<open>omx_misc.c\<close>), request allocation and the done queue
  (\<^verbatim>\<open>omx_request.h\<close>), and the completion of requests by the application: test, forget, peek, probe and
  cancel (\<^verbatim>\<open>omx_test.c\<close>, \<^verbatim>\<open>omx_misc.c\<close>).

  A request can be reported to the application before the network is done with it; it then lives
  on as a zombie until the network is done too. The invariant at the end of the theory says that
  the done queue and the zombie counter always account for exactly the right requests.
\<close>

subsection \<open>Errors\<close>

fun omx__errno_to_return :: "omx_errno \<Rightarrow> omx_return" where
  "omx__errno_to_return EINVAL = OMX_INTERNAL_MISC_EINVAL"
| "omx__errno_to_return EACCES = OMX_ACCESS_DENIED"
| "omx__errno_to_return EPERM = OMX_ACCESS_DENIED"
| "omx__errno_to_return EMFILE = OMX_NO_SYSTEM_RESOURCES"
| "omx__errno_to_return ENFILE = OMX_NO_SYSTEM_RESOURCES"
| "omx__errno_to_return ENOMEM = OMX_NO_SYSTEM_RESOURCES"
| "omx__errno_to_return ENODEV = OMX_INTERNAL_MISC_ENODEV"
| "omx__errno_to_return EBADF = OMX_BAD_ENDPOINT"
| "omx__errno_to_return ENOENT = OMX_NO_DEVICE_FILE"
| "omx__errno_to_return EBUSY = OMX_BUSY"
| "omx__errno_to_return EFAULT = OMX_INTERNAL_MISC_EFAULT"
| "omx__errno_to_return EOTHER = OMX_INTERNAL_UNEXPECTED_ERRNO"

text \<open>The accepted codes are the arguments before \<^verbatim>\<open>OMX_SUCCESS\<close>; any other code aborts.\<close>

fun omx__ioctl_errno_to_return_checked :: "omx_return list \<Rightarrow> omx_errno \<Rightarrow> omx_return option" where
  "omx__ioctl_errno_to_return_checked [] e = None"
| "omx__ioctl_errno_to_return_checked (ok # oks) e =
    (if omx__errno_to_return e = ok then Some (omx__errno_to_return e)
     else omx__ioctl_errno_to_return_checked oks e)"

definition OMX_ERRORS_ARE_FATAL :: omx_error_handler_t where
  "OMX_ERRORS_ARE_FATAL ret = None"

definition OMX_ERRORS_RETURN :: omx_error_handler_t where
  "OMX_ERRORS_RETURN ret = Some ret"

text \<open>The message only goes to the handler, which is not told it here.\<close>

definition omx__error_with_ep :: "omx_endpoint \<Rightarrow> omx_return \<Rightarrow> omx_return option" where
  "omx__error_with_ep ep ret =
    (if ret = OMX_SUCCESS then Some OMX_SUCCESS
     else (case error_handler ep of Some h \<Rightarrow> h ret | None \<Rightarrow> default_error_handler ep ret))"

definition omx__error_with_req :: "omx_endpoint \<Rightarrow> rid \<Rightarrow> omx_return \<Rightarrow> omx_return option" where
  "omx__error_with_req ep req code =
    (if code = OMX_SUCCESS then Some OMX_SUCCESS
     else (case error_handler ep of Some h \<Rightarrow> h code | None \<Rightarrow> default_error_handler ep code))"

subsection \<open>Waking up\<close>

definition OMX_CMD_WAIT_EVENT_STATUS_EVENT :: u32 where
  "OMX_CMD_WAIT_EVENT_STATUS_EVENT = 1"

definition OMX_CMD_WAIT_EVENT_STATUS_WAKEUP :: u32 where
  "OMX_CMD_WAIT_EVENT_STATUS_WAKEUP = 6"

definition omx__wakeup :: "u32 \<Rightarrow> omx_endpoint \<Rightarrow> omx_endpoint option" where
  "omx__wakeup st ep =
    (if g_waitspin (globals ep) then Some (ep\<lparr>sleepers := map (\<lambda>_. True) (sleepers ep)\<rparr>)
     else if sleepers ep \<noteq> [] then
       (let (err, ep) = ioctl (OMX_CMD_WAKEUP st) ep in
        case err of
          Some e \<Rightarrow> do { _ \<leftarrow> omx__ioctl_errno_to_return_checked [] e; Some ep }
        | None \<Rightarrow> Some ep)
     else Some ep)"

definition omx__notify_user_event :: "omx_endpoint \<Rightarrow> omx_endpoint option" where
  "omx__notify_user_event ep =
    (let ep = ep\<lparr>desc := (desc ep)\<lparr>desc_user_event_index := desc_user_event_index (desc ep) + 1\<rparr>\<rparr>
     in omx__wakeup OMX_CMD_WAIT_EVENT_STATUS_EVENT ep)"

subsection \<open>Request allocation\<close>

definition omx__request_alloc :: "omx_endpoint \<Rightarrow> rid option \<times> omx_endpoint" where
  "omx__request_alloc ep =
    (let (blk, ep) = omx_malloc_ep ep in
     case blk of
       None \<Rightarrow> (None, ep)
     | Some _ \<Rightarrow>
         (let r = next_rid ep;
              ep = ep\<lparr>next_rid := Suc r, live_reqs := insert r (live_reqs ep)\<rparr>;
              ep = upd_req r (\<lambda>rq. rq\<lparr>state := {}\<rparr>) ep;
              ep = upd_req r (\<lambda>rq. rq\<lparr>status := (status rq)\<lparr>st_code := OMX_SUCCESS\<rparr>\<rparr>) ep
          in (Some r, ep)))"

definition omx__request_free :: "rid \<Rightarrow> omx_endpoint \<Rightarrow> omx_endpoint" where
  "omx__request_free r ep = ep\<lparr>live_reqs := live_reqs ep - {r}\<rparr>"

subsection \<open>Context ids\<close>

definition HAS_CTXIDS :: "omx_endpoint \<Rightarrow> bool" where
  "HAS_CTXIDS ep \<longleftrightarrow> ctxid_bits ep > 0"

definition MATCHING_CROSS_CTXIDS :: "omx_endpoint \<Rightarrow> u64 \<Rightarrow> bool" where
  "MATCHING_CROSS_CTXIDS ep m \<longleftrightarrow> m AND ctxid_mask ep \<noteq> 0"

definition CTXID_FROM_MATCHING :: "omx_endpoint \<Rightarrow> u64 \<Rightarrow> u32" where
  "CTXID_FROM_MATCHING ep m = ucast (drop_bit (unat (ctxid_shift ep)) m AND ucast (ctxid_max ep - 1))"

abbreviation status_ctxid :: "omx_endpoint \<Rightarrow> rid \<Rightarrow> u32" where
  "status_ctxid ep r \<equiv> CTXID_FROM_MATCHING ep (st_match_info (status (reqs ep r)))"

subsection \<open>The done queue\<close>

definition enqueue_done :: "u32 \<Rightarrow> rid \<Rightarrow> omx_endpoint \<Rightarrow> omx_endpoint" where
  "enqueue_done ctxid r ep =
    (let ep = ep\<lparr>anyctxid_done_req_q := anyctxid_done_req_q ep @ [r]\<rparr>
     in if HAS_CTXIDS ep
        then ep\<lparr>ctxid_done_req_q := (ctxid_done_req_q ep)(ctxid := ctxid_done_req_q ep ctxid @ [r])\<rparr>
        else ep)"

definition omx__notify_request_done_early :: "u32 \<Rightarrow> rid \<Rightarrow> omx_endpoint \<Rightarrow> omx_endpoint option" where
  "omx__notify_request_done_early ctxid r ep =
    (if zombies ep \<ge> zombie_max ep then Some ep
     else
       (let ep = upd_req r (set_state_flag OMX_REQUEST_STATE_DONE) ep;
            ep = (if OMX_REQUEST_STATE_ZOMBIE \<notin> state (reqs ep r) then enqueue_done ctxid r ep else ep)
        in omx__notify_user_event ep))"

definition omx__notify_request_done :: "u32 \<Rightarrow> rid \<Rightarrow> omx_endpoint \<Rightarrow> omx_endpoint" where
  "omx__notify_request_done ctxid r ep =
    (if OMX_REQUEST_STATE_INTERNAL \<in> state (reqs ep r) then
       upd_req r (set_state_flag OMX_REQUEST_STATE_DONE) ep
     else if OMX_REQUEST_STATE_ZOMBIE \<in> state (reqs ep r) then
       (let ep = omx__request_free r ep in ep\<lparr>zombies := zombies ep - 1\<rparr>)
     else if OMX_REQUEST_STATE_DONE \<notin> state (reqs ep r) then
       (let ep = upd_req r (set_state_flag OMX_REQUEST_STATE_DONE) ep in enqueue_done ctxid r ep)
     else ep)"

text \<open>The request is on the queue of its own context id: \<^verbatim>\<open>list_del\<close> takes it off whichever that is.\<close>

definition omx__dequeue_done_request :: "rid \<Rightarrow> omx_endpoint \<Rightarrow> omx_endpoint" where
  "omx__dequeue_done_request r ep =
    (let ep = ep\<lparr>anyctxid_done_req_q := remove1 r (anyctxid_done_req_q ep)\<rparr>
     in if HAS_CTXIDS ep then ep\<lparr>ctxid_done_req_q := (\<lambda>c. remove1 r (ctxid_done_req_q ep c))\<rparr> else ep)"

subsection \<open>Completion by the application\<close>

definition omx__test_success :: "rid \<Rightarrow> omx_endpoint \<Rightarrow> omx_status \<times> omx_endpoint" where
  "omx__test_success r ep =
    (let st = status (reqs ep r);
         ep = omx__dequeue_done_request r ep
     in if state (reqs ep r) \<noteq> {OMX_REQUEST_STATE_DONE} then
          (let ep = upd_req r (clear_state_flag OMX_REQUEST_STATE_DONE) ep;
               ep = upd_req r (set_state_flag OMX_REQUEST_STATE_ZOMBIE) ep
           in (st, ep\<lparr>zombies := zombies ep + 1\<rparr>))
        else (st, omx__request_free r ep))"

text \<open>\<open>None\<close> is the result 0, \<open>Some st\<close> the result 1 with the status of the completed request.\<close>

definition omx__test_common :: "rid \<Rightarrow> omx_endpoint \<Rightarrow> omx_status option \<times> omx_endpoint" where
  "omx__test_common r ep =
    (if OMX_REQUEST_STATE_DONE \<in> state (reqs ep r)
     then (let (st, ep) = omx__test_success r ep in (Some st, ep))
     else (None, ep))"

definition omx__forget :: "rid \<Rightarrow> omx_endpoint \<Rightarrow> omx_endpoint" where
  "omx__forget r ep =
    (if state (reqs ep r) = {OMX_REQUEST_STATE_DONE} then
       (let ep = omx__dequeue_done_request r ep in omx__request_free r ep)
     else
       (let ep = (if OMX_REQUEST_STATE_DONE \<in> state (reqs ep r)
                  then (let ep = upd_req r (clear_state_flag OMX_REQUEST_STATE_DONE) ep
                        in omx__dequeue_done_request r ep)
                  else ep);
            ep = upd_req r (set_state_flag OMX_REQUEST_STATE_ZOMBIE) ep
        in ep\<lparr>zombies := zombies ep + 1\<rparr>))"

definition omx_forget :: "rid \<Rightarrow> omx_endpoint \<Rightarrow> omx_endpoint" where
  "omx_forget r ep = (if OMX_REQUEST_STATE_ZOMBIE \<notin> state (reqs ep r) then omx__forget r ep else ep)"

text \<open>The searches through a queue for the first request whose match info is the one asked for.\<close>

definition status_matches :: "u64 \<Rightarrow> u64 \<Rightarrow> omx_request \<Rightarrow> bool" where
  "status_matches info msk rq \<longleftrightarrow> st_match_info (status rq) AND msk = info"

definition omx__test_any_common :: "u64 \<Rightarrow> u64 \<Rightarrow> omx_endpoint \<Rightarrow> omx_status option \<times> omx_endpoint" where
  "omx__test_any_common info msk ep =
    (let q = (if \<not> HAS_CTXIDS ep \<or> MATCHING_CROSS_CTXIDS ep msk then anyctxid_done_req_q ep
              else ctxid_done_req_q ep (CTXID_FROM_MATCHING ep info))
     in case find (\<lambda>r. status_matches info msk (reqs ep r)) q of
          Some r \<Rightarrow> (let (st, ep) = omx__test_success r ep in (Some st, ep))
        | None \<Rightarrow> (None, ep))"

definition omx__ipeek_common :: "omx_endpoint \<Rightarrow> rid option" where
  "omx__ipeek_common ep = (case anyctxid_done_req_q ep of [] \<Rightarrow> None | r # _ \<Rightarrow> Some r)"

definition omx__iprobe_common :: "u64 \<Rightarrow> u64 \<Rightarrow> omx_endpoint \<Rightarrow> omx_status option" where
  "omx__iprobe_common info msk ep =
    (let q = (if \<not> HAS_CTXIDS ep \<or> MATCHING_CROSS_CTXIDS ep msk then anyctxid_unexp_req_q ep
              else ctxid_unexp_req_q ep (CTXID_FROM_MATCHING ep info))
     in map_option (\<lambda>r. status (reqs ep r)) (find (\<lambda>r. status_matches info msk (reqs ep r)) q))"

subsection \<open>Cancelling\<close>

text \<open>The return code, whether the request was cancelled, and the endpoint.\<close>

definition omx__cancel_common :: "rid \<Rightarrow> omx_endpoint \<Rightarrow> (omx_return \<times> bool \<times> omx_endpoint) option" where
  "omx__cancel_common r ep =
    (case rtype (reqs ep r) of
       OMX_REQUEST_TYPE_RECV \<Rightarrow>
         (if OMX_REQUEST_STATE_RECV_NEED_MATCHING \<in> state (reqs ep r) then
            (let ctxid = CTXID_FROM_MATCHING ep (match_info (reqs ep r));
                 ep = ep\<lparr>ctxid_recv_req_q := (ctxid_recv_req_q ep)(ctxid := remove1 r (ctxid_recv_req_q ep ctxid))\<rparr>;
                 ep = omx_free_segments (segs (reqs ep r)) ep;
                 ep = upd_req r (clear_state_flag OMX_REQUEST_STATE_RECV_NEED_MATCHING) ep
             in Some (OMX_SUCCESS, True, ep))
          else Some (OMX_SUCCESS, False, ep))
     | OMX_REQUEST_TYPE_RECV_LARGE \<Rightarrow> Some (OMX_SUCCESS, False, ep)
     | OMX_REQUEST_TYPE_CONNECT \<Rightarrow>
         (if OMX_REQUEST_STATE_NEED_REPLY \<in> state (reqs ep r) then
            (let ep = ep\<lparr>connect_req_q := remove1 r (connect_req_q ep)\<rparr>;
                 ep = upd_partner (rpartner (reqs ep r)) (\<lambda>pt. pt\<lparr>p_connect_req_q := remove1 r (p_connect_req_q pt)\<rparr>) ep;
                 ep = upd_req r (clear_state_flag OMX_REQUEST_STATE_NEED_REPLY) ep
             in Some (OMX_SUCCESS, True, ep))
          else Some (OMX_SUCCESS, False, ep))
     | _ \<Rightarrow> do { ret \<leftarrow> omx__error_with_ep ep OMX_BAD_REQUEST; Some (ret, False, ep) })"

subsection \<open>Accounting of done requests and zombies\<close>

lemma upd_req_sel [simp]:
  "reqs (upd_req r f ep) = (reqs ep)(r := f (reqs ep r))"
  by (simp add: upd_req_def)

definition done_queued :: "omx_endpoint \<Rightarrow> rid \<Rightarrow> bool" where
  "done_queued ep r \<longleftrightarrow> r \<in> live_reqs ep \<and> OMX_REQUEST_STATE_DONE \<in> state (reqs ep r) \<and>
    OMX_REQUEST_STATE_ZOMBIE \<notin> state (reqs ep r) \<and> OMX_REQUEST_STATE_INTERNAL \<notin> state (reqs ep r)"

definition zombie_reqs :: "omx_endpoint \<Rightarrow> rid set" where
  "zombie_reqs ep = {r \<in> live_reqs ep. OMX_REQUEST_STATE_ZOMBIE \<in> state (reqs ep r)}"

text \<open>
  The done queue holds each live request that is done and neither a zombie nor internal, once; the
  queue of each context id is the part of it with that context id; the counter counts the zombies.
\<close>

definition completion_inv :: "omx_endpoint \<Rightarrow> bool" where
  "completion_inv ep \<longleftrightarrow>
    finite (live_reqs ep) \<and> (\<forall>r \<in> live_reqs ep. r < next_rid ep) \<and>
    distinct (anyctxid_done_req_q ep) \<and> (\<forall>r. r \<in> set (anyctxid_done_req_q ep) \<longleftrightarrow> done_queued ep r) \<and>
    (HAS_CTXIDS ep \<longrightarrow> (\<forall>c. ctxid_done_req_q ep c = filter (\<lambda>r. status_ctxid ep r = c) (anyctxid_done_req_q ep))) \<and>
    zombies ep = of_nat (card (zombie_reqs ep)) \<and>
    (\<forall>r \<in> zombie_reqs ep. OMX_REQUEST_STATE_INTERNAL \<notin> state (reqs ep r))"

text \<open>
  What happens to requests between two completions: the network and the pending queues change
  their other flags, never those of completion.
\<close>

definition completion_flags :: "omx__request_state set" where
  "completion_flags = {OMX_REQUEST_STATE_DONE, OMX_REQUEST_STATE_ZOMBIE, OMX_REQUEST_STATE_INTERNAL}"

inductive completion_step :: "omx_endpoint \<Rightarrow> omx_endpoint \<Rightarrow> bool" where
  alloc: "omx__request_alloc ep = (Some r, ep') \<Longrightarrow> completion_step ep ep'"
| pending: "r \<in> live_reqs ep \<Longrightarrow> S \<inter> completion_flags = state (reqs ep r) \<inter> completion_flags \<Longrightarrow>
    completion_step ep (upd_req r (\<lambda>rq. rq\<lparr>state := S\<rparr>) ep)"
| early: "r \<in> live_reqs ep \<Longrightarrow> OMX_REQUEST_STATE_INTERNAL \<notin> state (reqs ep r) \<Longrightarrow>
    OMX_REQUEST_STATE_DONE \<notin> state (reqs ep r) \<Longrightarrow>
    omx__notify_request_done_early (status_ctxid ep r) r ep = Some ep' \<Longrightarrow> completion_step ep ep'"
| really_done: "r \<in> live_reqs ep \<Longrightarrow> completion_step ep (omx__notify_request_done (status_ctxid ep r) r ep)"
| test: "done_queued ep r \<Longrightarrow> completion_step ep (snd (omx__test_common r ep))"
| test_any: "completion_step ep (snd (omx__test_any_common info msk ep))"
| forget: "r \<in> live_reqs ep \<Longrightarrow> OMX_REQUEST_STATE_INTERNAL \<notin> state (reqs ep r) \<Longrightarrow>
    completion_step ep (omx_forget r ep)"

lemma notify_user_event_frame:
  "omx__notify_user_event ep = Some ep' \<Longrightarrow> ep' = ep\<lparr>desc := desc ep', sleepers := sleepers ep', cmds := cmds ep'\<rparr>"
  by (auto simp: omx__notify_user_event_def omx__wakeup_def ioctl_def Let_def split: if_splits option.splits)

lemma completion_invD:
  assumes "completion_inv ep"
  shows "finite (live_reqs ep)" "\<And>r. r \<in> live_reqs ep \<Longrightarrow> r < next_rid ep" "distinct (anyctxid_done_req_q ep)"
    "\<And>r. r \<in> set (anyctxid_done_req_q ep) \<longleftrightarrow> done_queued ep r"
    "\<And>c. HAS_CTXIDS ep \<Longrightarrow> ctxid_done_req_q ep c = filter (\<lambda>r. status_ctxid ep r = c) (anyctxid_done_req_q ep)"
    "zombies ep = of_nat (card (zombie_reqs ep))" "finite (zombie_reqs ep)"
    "\<And>r. r \<in> zombie_reqs ep \<Longrightarrow> OMX_REQUEST_STATE_INTERNAL \<notin> state (reqs ep r)"
  using assms by (auto simp: completion_inv_def zombie_reqs_def)

lemma completion_inv_cong:
  assumes "completion_inv ep" "live_reqs ep' = live_reqs ep" "next_rid ep' = next_rid ep"
    and "anyctxid_done_req_q ep' = anyctxid_done_req_q ep" "ctxid_done_req_q ep' = ctxid_done_req_q ep"
    and "zombies ep' = zombies ep" "ctxid_bits ep' = ctxid_bits ep" "ctxid_shift ep' = ctxid_shift ep"
    and "ctxid_max ep' = ctxid_max ep"
    and "\<And>r. r \<in> live_reqs ep \<Longrightarrow> state (reqs ep' r) \<inter> completion_flags = state (reqs ep r) \<inter> completion_flags"
    and "\<And>r. r \<in> live_reqs ep \<Longrightarrow> st_match_info (status (reqs ep' r)) = st_match_info (status (reqs ep r))"
  shows "completion_inv ep'"
proof -
  have fl: "OMX_REQUEST_STATE_DONE \<in> state (reqs ep' r) \<longleftrightarrow> OMX_REQUEST_STATE_DONE \<in> state (reqs ep r)"
    "OMX_REQUEST_STATE_ZOMBIE \<in> state (reqs ep' r) \<longleftrightarrow> OMX_REQUEST_STATE_ZOMBIE \<in> state (reqs ep r)"
    "OMX_REQUEST_STATE_INTERNAL \<in> state (reqs ep' r) \<longleftrightarrow> OMX_REQUEST_STATE_INTERNAL \<in> state (reqs ep r)"
    if "r \<in> live_reqs ep" for r
    using assms(10) [OF that] by (auto simp: completion_flags_def)
  have q: "done_queued ep' r = done_queued ep r" for r
    using fl by (auto simp: done_queued_def assms(2))
  have z: "zombie_reqs ep' = zombie_reqs ep"
    using fl by (auto simp: zombie_reqs_def assms(2))
  have c: "filter (\<lambda>r. status_ctxid ep' r = c) (anyctxid_done_req_q ep) =
      filter (\<lambda>r. status_ctxid ep r = c) (anyctxid_done_req_q ep)" for c
    using assms(1,8,9,11) by (intro filter_cong) (auto simp: completion_inv_def done_queued_def CTXID_FROM_MATCHING_def)
  show ?thesis
    using assms(1) fl(3) q z c by (auto simp: completion_inv_def assms(2-7) HAS_CTXIDS_def zombie_reqs_def)
qed

text \<open>A request gets done: it joins the queues.\<close>

lemma completion_inv_enqueue:
  assumes "completion_inv ep" "r \<in> live_reqs ep" "OMX_REQUEST_STATE_DONE \<notin> state (reqs ep r)"
    and "OMX_REQUEST_STATE_ZOMBIE \<notin> state (reqs ep r)" "OMX_REQUEST_STATE_INTERNAL \<notin> state (reqs ep r)"
  shows "completion_inv (enqueue_done (status_ctxid ep r) r (upd_req r (set_state_flag OMX_REQUEST_STATE_DONE) ep))"
proof -
  note D = completion_invD [OF assms(1)]
  let ?ep = "enqueue_done (status_ctxid ep r) r (upd_req r (set_state_flag OMX_REQUEST_STATE_DONE) ep)"
  have z: "zombie_reqs ?ep = zombie_reqs ep"
    by (auto simp: zombie_reqs_def enqueue_done_def upd_req_def Let_def)
  have q: "done_queued ?ep x \<longleftrightarrow> done_queued ep x \<or> x = r" for x
    using assms(2-5) by (auto simp: done_queued_def enqueue_done_def upd_req_def Let_def)
  have sc: "status_ctxid ?ep x = status_ctxid ep x" for x
    by (simp add: CTXID_FROM_MATCHING_def enqueue_done_def upd_req_def Let_def)
  have sel: "live_reqs ?ep = live_reqs ep" "next_rid ?ep = next_rid ep" "zombies ?ep = zombies ep"
    "anyctxid_done_req_q ?ep = anyctxid_done_req_q ep @ [r]" "HAS_CTXIDS ?ep = HAS_CTXIDS ep"
    "HAS_CTXIDS ep \<Longrightarrow> ctxid_done_req_q ?ep =
      (ctxid_done_req_q ep)(status_ctxid ep r := ctxid_done_req_q ep (status_ctxid ep r) @ [r])"
    "x \<noteq> r \<Longrightarrow> reqs ?ep x = reqs ep x" for x
    by (auto simp: enqueue_done_def upd_req_def Let_def HAS_CTXIDS_def)
  have r: "r \<notin> set (anyctxid_done_req_q ep)" "r \<notin> zombie_reqs ep"
    using D(4) assms(3,4) by (auto simp: done_queued_def zombie_reqs_def)
  have f: "HAS_CTXIDS ep \<Longrightarrow> ctxid_done_req_q ?ep c = filter (\<lambda>x. status_ctxid ep x = c) (anyctxid_done_req_q ep @ [r])" for c
    using D(5) sel(6) by simp
  have l: "reqs ?ep x = reqs ep x" if "x \<in> zombie_reqs ep" for x
    using that r(2) by (intro sel(7)) auto
  show ?thesis
    unfolding completion_inv_def z sc q sel(1-5)
    using D r f l by (simp add: disj_commute del: filter_append upd_req_sel)
qed

text \<open>A request leaves the done queue and becomes a zombie.\<close>

lemma completion_inv_zombify:
  assumes "completion_inv ep" "r \<in> live_reqs ep" "OMX_REQUEST_STATE_ZOMBIE \<notin> state (reqs ep r)"
    and "OMX_REQUEST_STATE_INTERNAL \<notin> state (reqs ep r)"
    and "live_reqs ep' = live_reqs ep" "next_rid ep' = next_rid ep"
    and "anyctxid_done_req_q ep' = remove1 r (anyctxid_done_req_q ep)"
    and "HAS_CTXIDS ep \<Longrightarrow> ctxid_done_req_q ep' = (\<lambda>c. remove1 r (ctxid_done_req_q ep c))"
    and "zombies ep' = zombies ep + 1" "ctxid_bits ep' = ctxid_bits ep" "ctxid_shift ep' = ctxid_shift ep"
    and "ctxid_max ep' = ctxid_max ep"
    and "reqs ep' = (reqs ep)(r := (reqs ep r)\<lparr>state := insert OMX_REQUEST_STATE_ZOMBIE (state (reqs ep r) - {OMX_REQUEST_STATE_DONE})\<rparr>)"
  shows "completion_inv ep'"
proof -
  note D = completion_invD [OF assms(1)]
  have z: "zombie_reqs ep' = insert r (zombie_reqs ep)" "r \<notin> zombie_reqs ep"
    using assms(2,3) by (auto simp: zombie_reqs_def assms(5,13))
  have q: "done_queued ep' x \<longleftrightarrow> done_queued ep x \<and> x \<noteq> r" for x
    by (auto simp: done_queued_def assms(5,13))
  have sc: "status_ctxid ep' x = status_ctxid ep x" for x
    by (simp add: CTXID_FROM_MATCHING_def assms(11-13))
  have h: "HAS_CTXIDS ep' = HAS_CTXIDS ep" by (simp add: HAS_CTXIDS_def assms(10))
  have f: "HAS_CTXIDS ep \<Longrightarrow> ctxid_done_req_q ep' c =
      filter (\<lambda>x. status_ctxid ep x = c) (remove1 r (anyctxid_done_req_q ep))" for c
    using D(5) assms(8) by (simp add: filter_remove1)
  show ?thesis
    unfolding completion_inv_def z(1) sc q assms(5-7) h
    using D z(2) f assms(4,9) by (simp add: assms(13) conj_commute)
qed

text \<open>A request is freed, which is either done or a zombie before.\<close>

lemma completion_inv_free:
  assumes "completion_inv ep" "r \<in> live_reqs ep"
    and "live_reqs ep' = live_reqs ep - {r}" "next_rid ep' = next_rid ep" "reqs ep' = reqs ep"
    and "anyctxid_done_req_q ep' = remove1 r (anyctxid_done_req_q ep)"
    and "HAS_CTXIDS ep \<Longrightarrow> ctxid_done_req_q ep' = (\<lambda>c. remove1 r (ctxid_done_req_q ep c))"
    and "zombies ep' = (if OMX_REQUEST_STATE_ZOMBIE \<in> state (reqs ep r) then zombies ep - 1 else zombies ep)"
    and "ctxid_bits ep' = ctxid_bits ep" "ctxid_shift ep' = ctxid_shift ep" "ctxid_max ep' = ctxid_max ep"
  shows "completion_inv ep'"
proof -
  note D = completion_invD [OF assms(1)]
  have z: "zombie_reqs ep' = zombie_reqs ep - {r}"
    by (auto simp: zombie_reqs_def assms(3,5))
  have q: "done_queued ep' x \<longleftrightarrow> done_queued ep x \<and> x \<noteq> r" for x
    by (auto simp: done_queued_def assms(3,5))
  have sc: "status_ctxid ep' x = status_ctxid ep x" for x
    by (simp add: CTXID_FROM_MATCHING_def assms(5,10,11))
  have n: "zombies ep' = of_nat (card (zombie_reqs ep - {r}))"
  proof (cases "r \<in> zombie_reqs ep")
    case True
    then have "card (zombie_reqs ep) = Suc (card (zombie_reqs ep - {r}))"
      by (rule card_Suc_Diff1 [OF D(7), symmetric])
    with True D(6) assms(8) show ?thesis by (simp add: zombie_reqs_def)
  next
    case False
    with assms(2,8) D(6) show ?thesis by (simp add: zombie_reqs_def)
  qed
  have h: "HAS_CTXIDS ep' = HAS_CTXIDS ep" by (simp add: HAS_CTXIDS_def assms(9))
  have f: "HAS_CTXIDS ep \<Longrightarrow> ctxid_done_req_q ep' c =
      filter (\<lambda>x. status_ctxid ep x = c) (remove1 r (anyctxid_done_req_q ep))" for c
    using D(5) assms(7) by (simp add: filter_remove1)
  show ?thesis
    unfolding completion_inv_def z n sc q assms(3,4,6) h
    using D f by (auto simp: conj_commute assms(5))
qed

lemma completion_inv_test_success:
  assumes "completion_inv ep" "done_queued ep r"
  shows "completion_inv (snd (omx__test_success r ep))"
proof (cases "state (reqs ep r) = {OMX_REQUEST_STATE_DONE}")
  case True
  then show ?thesis
    using assms(2)
    by (intro completion_inv_free [OF assms(1), of r])
      (auto simp: omx__test_success_def omx__dequeue_done_request_def omx__request_free_def Let_def done_queued_def HAS_CTXIDS_def)
next
  case False
  then show ?thesis
    using assms(2)
    by (intro completion_inv_zombify [OF assms(1), of r])
      (auto simp: omx__test_success_def omx__dequeue_done_request_def upd_req_def Let_def done_queued_def HAS_CTXIDS_def)
qed

lemma completion_inv_forget:
  assumes "completion_inv ep" "r \<in> live_reqs ep" "OMX_REQUEST_STATE_INTERNAL \<notin> state (reqs ep r)"
  shows "completion_inv (omx_forget r ep)"
proof -
  note D = completion_invD [OF assms(1)]
  have nq: "remove1 r (anyctxid_done_req_q ep) = anyctxid_done_req_q ep"
    "HAS_CTXIDS ep \<Longrightarrow> remove1 r (ctxid_done_req_q ep c) = ctxid_done_req_q ep c"
    if "OMX_REQUEST_STATE_DONE \<notin> state (reqs ep r)" for c
    using that D(4,5) by (auto simp: done_queued_def intro!: remove1_idem)
  consider "OMX_REQUEST_STATE_ZOMBIE \<in> state (reqs ep r)"
    | "state (reqs ep r) = {OMX_REQUEST_STATE_DONE}"
    | "OMX_REQUEST_STATE_ZOMBIE \<notin> state (reqs ep r)" "state (reqs ep r) \<noteq> {OMX_REQUEST_STATE_DONE}"
    by blast
  then show ?thesis
  proof cases
    case 1
    with assms(1) show ?thesis by (simp add: omx_forget_def)
  next
    case 2
    then show ?thesis
      using assms(2)
      by (intro completion_inv_free [OF assms(1), of r])
        (auto simp: omx_forget_def omx__forget_def omx__dequeue_done_request_def omx__request_free_def Let_def HAS_CTXIDS_def)
  next
    case 3
    then show ?thesis
      using assms(2,3) nq
      by (intro completion_inv_zombify [OF assms(1), of r])
        (auto simp: omx_forget_def omx__forget_def omx__dequeue_done_request_def upd_req_def Let_def HAS_CTXIDS_def)
  qed
qed

lemma completion_inv_done:
  assumes "completion_inv ep" "r \<in> live_reqs ep"
  shows "completion_inv (omx__notify_request_done (status_ctxid ep r) r ep)"
proof -
  note D = completion_invD [OF assms(1)]
  let ?s = "state (reqs ep r)"
  consider "OMX_REQUEST_STATE_INTERNAL \<in> ?s"
    | "OMX_REQUEST_STATE_INTERNAL \<notin> ?s" "OMX_REQUEST_STATE_ZOMBIE \<in> ?s"
    | "OMX_REQUEST_STATE_INTERNAL \<notin> ?s" "OMX_REQUEST_STATE_ZOMBIE \<notin> ?s" "OMX_REQUEST_STATE_DONE \<notin> ?s"
    | "OMX_REQUEST_STATE_INTERNAL \<notin> ?s" "OMX_REQUEST_STATE_ZOMBIE \<notin> ?s" "OMX_REQUEST_STATE_DONE \<in> ?s"
    by blast
  then show ?thesis
  proof cases
    case 1
    let ?ep = "upd_req r (set_state_flag OMX_REQUEST_STATE_DONE) ep"
    have q: "done_queued ?ep x = done_queued ep x" and z: "zombie_reqs ?ep = zombie_reqs ep"
      and sc: "status_ctxid ?ep x = status_ctxid ep x" for x
      using 1 by (auto simp: done_queued_def zombie_reqs_def upd_req_def CTXID_FROM_MATCHING_def)
    show ?thesis
      using 1 D by (simp add: omx__notify_request_done_def completion_inv_def q z sc del: upd_req_sel)
        (auto simp: upd_req_def HAS_CTXIDS_def)
  next
    case 2
    then have "remove1 r (anyctxid_done_req_q ep) = anyctxid_done_req_q ep"
      "HAS_CTXIDS ep \<Longrightarrow> remove1 r (ctxid_done_req_q ep c) = ctxid_done_req_q ep c" for c
      using D(4,5) by (auto simp: done_queued_def intro!: remove1_idem)
    with 2 show ?thesis
      using assms(2)
      by (intro completion_inv_free [OF assms(1), of r])
        (auto simp: omx__notify_request_done_def omx__request_free_def Let_def)
  next
    case 3
    then show ?thesis
      using completion_inv_enqueue [OF assms(1,2)] by (simp add: omx__notify_request_done_def Let_def)
  next
    case 4
    then show ?thesis using assms(1) by (simp add: omx__notify_request_done_def)
  qed
qed

lemma completion_inv_early:
  assumes "completion_inv ep" "r \<in> live_reqs ep" "OMX_REQUEST_STATE_INTERNAL \<notin> state (reqs ep r)"
    and "OMX_REQUEST_STATE_DONE \<notin> state (reqs ep r)"
    and "omx__notify_request_done_early (status_ctxid ep r) r ep = Some ep'"
  shows "completion_inv ep'"
proof (cases "zombies ep \<ge> zombie_max ep")
  case True
  with assms(1,5) show ?thesis by (simp add: omx__notify_request_done_early_def)
next
  case False
  note D = completion_invD [OF assms(1)]
  let ?u = "upd_req r (set_state_flag OMX_REQUEST_STATE_DONE) ep"
  let ?n = "if OMX_REQUEST_STATE_ZOMBIE \<notin> state (reqs ep r) then enqueue_done (status_ctxid ep r) r ?u else ?u"
  have "omx__notify_user_event ?n = Some ep'"
    using assms(5) False by (simp add: omx__notify_request_done_early_def Let_def)
  then have ep': "ep' = ?n\<lparr>desc := desc ep', sleepers := sleepers ep', cmds := cmds ep'\<rparr>"
    by (rule notify_user_event_frame)
  have "completion_inv ?n"
  proof (cases "OMX_REQUEST_STATE_ZOMBIE \<in> state (reqs ep r)")
    case True
    have q: "done_queued ?u x = done_queued ep x" and z: "zombie_reqs ?u = zombie_reqs ep"
      and sc: "status_ctxid ?u x = status_ctxid ep x" for x
      using True by (auto simp: done_queued_def zombie_reqs_def upd_req_def CTXID_FROM_MATCHING_def)
    show ?thesis
      using True D assms(3) by (simp add: completion_inv_def q z sc del: upd_req_sel)
        (auto simp: upd_req_def HAS_CTXIDS_def)
  next
    case False
    then show ?thesis using completion_inv_enqueue [OF assms(1,2,4) _ assms(3)] by simp
  qed
  then show ?thesis
    by (rule completion_inv_cong) (subst ep', simp)+
qed

lemma completion_inv_alloc:
  assumes "completion_inv ep" "omx__request_alloc ep = (Some r, ep')"
  shows "completion_inv ep'"
proof -
  note D = completion_invD [OF assms(1)]
  have new: "next_rid ep \<notin> live_reqs ep" using D(2) by blast
  have sel: "live_reqs ep' = insert (next_rid ep) (live_reqs ep)" "next_rid ep' = Suc (next_rid ep)"
    "anyctxid_done_req_q ep' = anyctxid_done_req_q ep" "ctxid_done_req_q ep' = ctxid_done_req_q ep"
    "zombies ep' = zombies ep" "HAS_CTXIDS ep' = HAS_CTXIDS ep"
    "reqs ep' (next_rid ep) = (reqs ep (next_rid ep))\<lparr>state := {}, status := (status (reqs ep (next_rid ep)))\<lparr>st_code := OMX_SUCCESS\<rparr>\<rparr>"
    "x \<noteq> next_rid ep \<Longrightarrow> reqs ep' x = reqs ep x" "status_ctxid ep' x = status_ctxid ep x" for x
    using assms(2)
    by (auto simp: omx__request_alloc_def omx_malloc_ep_def Let_def upd_req_def HAS_CTXIDS_def CTXID_FROM_MATCHING_def
        split: option.splits)
  have q: "done_queued ep' x = done_queued ep x" for x
    using new by (cases "x = next_rid ep") (auto simp: done_queued_def sel)
  have z: "zombie_reqs ep' = zombie_reqs ep"
    using new by (auto simp: zombie_reqs_def sel) (metis sel(8))+
  have l: "reqs ep' x = reqs ep x" if "x \<in> zombie_reqs ep" for x
    using that new by (intro sel(8)) (auto simp: zombie_reqs_def)
  show ?thesis
    unfolding completion_inv_def q z sel(1-6,9) using D l less_Suc_eq by auto
qed

lemma completion_inv_step: "completion_step ep ep' \<Longrightarrow> completion_inv ep \<Longrightarrow> completion_inv ep'"
proof (induction rule: completion_step.induct)
  case (pending r ep S)
  then show ?case
    by (elim completion_inv_cong) (auto simp: upd_req_def)
next
  case (test ep r)
  then show ?case
    using completion_inv_test_success [of ep r]
    by (simp add: omx__test_common_def done_queued_def case_prod_beta)
next
  case (test_any ep info msk)
  let ?q = "if \<not> HAS_CTXIDS ep \<or> MATCHING_CROSS_CTXIDS ep msk then anyctxid_done_req_q ep
      else ctxid_done_req_q ep (CTXID_FROM_MATCHING ep info)"
  have q: "set ?q \<subseteq> set (anyctxid_done_req_q ep)"
    using completion_invD(5) [OF test_any] by auto
  show ?case
  proof (cases "find (\<lambda>r. status_matches info msk (reqs ep r)) ?q")
    case (Some r)
    then have "done_queued ep r"
      using find_in_set [OF Some] q completion_invD(4) [OF test_any] by blast
    with Some completion_inv_test_success [OF test_any] show ?thesis
      by (simp add: omx__test_any_common_def Let_def case_prod_beta)
  qed (simp add: omx__test_any_common_def Let_def test_any)
qed (auto intro: completion_inv_alloc completion_inv_early completion_inv_done completion_inv_forget)

subsection \<open>Properties\<close>

text \<open>
  C12: Completion accounting. Whatever sequence of allocations, early and final completions by the network,
  tests and forgets by the application takes place, the done queue holds exactly the live requests
  that are done and not yet taken by the application, each once; the per-context queues partition
  it; and the zombie counter is the number of requests the application is done with and the
  network is not.
\<close>

theorem completion_accounting:
  assumes "rtranclp completion_step ep0 ep" "completion_inv ep0"
  shows "completion_inv ep"
  using assms by (induction rule: rtranclp_induct) (auto intro: completion_inv_step)

theorem completion_accounting_witness:
  "completion_inv (omx__notify_request_done 0 0 (snd (omx__request_alloc (blank_endpoint\<lparr>malloc_answer := \<lambda>_. Some 4096\<rparr>))))"
proof -
  let ?ep = "blank_endpoint\<lparr>malloc_answer := \<lambda>_. Some 4096\<rparr>"
  let ?a = "snd (omx__request_alloc ?ep)"
  have alloc: "omx__request_alloc ?ep = (Some 0, ?a)"
    by (simp add: omx__request_alloc_def omx_malloc_ep_def Let_def blank_defs)
  have "status_ctxid ?a 0 = 0" "0 \<in> live_reqs ?a"
    by (simp_all add: omx__request_alloc_def omx_malloc_ep_def Let_def upd_req_def blank_defs CTXID_FROM_MATCHING_def)
  then have "completion_step ?a (omx__notify_request_done 0 0 ?a)"
    using completion_step.really_done [of 0 ?a] by simp
  moreover have "rtranclp completion_step ?ep ?a"
    using completion_step.alloc [OF alloc] by (rule r_into_rtranclp)
  ultimately have "rtranclp completion_step ?ep (omx__notify_request_done 0 0 ?a)"
    by (rule rtranclp.rtrancl_into_rtrancl [rotated])
  then show ?thesis
    by (rule completion_accounting)
      (simp add: completion_inv_def zombie_reqs_def done_queued_def HAS_CTXIDS_def blank_defs)
qed

end
