(* ===== verification/Partner_Ack.thy ===== *)
theory Partner_Ack
  imports Requests
begin

text \<open>
  The partner helpers of \<^verbatim>\<open>libopen-mx/omx_lib.h\<close>: timeouts, partner lookup, and the lists of the partners
  that wait for an ack from us or whose sends are throttled. \<^verbatim>\<open>list_del\<close> takes a partner off
  whichever list its element is linked in.
\<close>

subsection \<open>Timeouts\<close>

definition RESEND_PER_SECOND :: u32 where
  "RESEND_PER_SECOND = 2"

definition omx__timeout_ms_to_resends :: "u32 \<Rightarrow> u32" where
  "omx__timeout_ms_to_resends ms = (ms * RESEND_PER_SECOND + 1023) div 1024"

definition OMX_TIMEOUT_INFINITE :: u32 where
  "OMX_TIMEOUT_INFINITE = -1"

definition OMX_CMD_WAIT_EVENT_TIMEOUT_INFINITE :: u64 where
  "OMX_CMD_WAIT_EVENT_TIMEOUT_INFINITE = -1"

definition omx__timeout_ms_to_relative_jiffies :: "omx_endpoint \<Rightarrow> u32 \<Rightarrow> u64" where
  "omx__timeout_ms_to_relative_jiffies ep ms =
    (if ms = OMX_TIMEOUT_INFINITE then OMX_CMD_WAIT_EVENT_TIMEOUT_INFINITE
     else ucast ((ms * hz (driver_desc ep) + 1023) div 1024))"

definition omx__timeout_ms_to_absolute_jiffies :: "omx_endpoint \<Rightarrow> u32 \<Rightarrow> u64" where
  "omx__timeout_ms_to_absolute_jiffies ep ms =
    (let now = jiffies (driver_desc ep) in
     if ms = OMX_TIMEOUT_INFINITE then OMX_CMD_WAIT_EVENT_TIMEOUT_INFINITE
     else now + ucast ((ms * hz (driver_desc ep) + 1023) div 1024))"

subsection \<open>Partners\<close>

definition omx__partner_session_to_addr :: "pid \<Rightarrow> u32 \<Rightarrow> omx__endpoint_addr" where
  "omx__partner_session_to_addr p session_id = \<lparr>addr_partner = p, addr_session_id = session_id\<rparr>"

definition omx__partner_recv_to_addr :: "omx_endpoint \<Rightarrow> pid \<Rightarrow> omx__endpoint_addr" where
  "omx__partner_recv_to_addr ep p = omx__partner_session_to_addr p (back_session_id (partners ep p))"

definition omx__partner_localization_shared :: "omx__partner \<Rightarrow> bool" where
  "omx__partner_localization_shared pt \<longleftrightarrow> localization pt = OMX__PARTNER_LOCALIZATION_LOCAL"

definition omx__partner_recv_lookup :: "omx_endpoint \<Rightarrow> u16 \<Rightarrow> u8 \<Rightarrow> pid option" where
  "omx__partner_recv_lookup ep peer_idx endpoint_idx =
    partner_table ep (ucast endpoint_idx + ucast peer_idx * endpoint_max (driver_desc ep))"

subsection \<open>Acks to send\<close>

definition omx__mark_partner_need_ack_delayed :: "pid \<Rightarrow> omx_endpoint \<Rightarrow> omx_endpoint" where
  "omx__mark_partner_need_ack_delayed p ep =
    (if need_ack (partners ep p) = OMX__PARTNER_NEED_NO_ACK then
       (let ep = upd_partner p (\<lambda>pt. pt\<lparr>need_ack := OMX__PARTNER_NEED_ACK_DELAYED\<rparr>) ep;
            ep = upd_partner p (\<lambda>pt. pt\<lparr>oldest_recv_time_not_acked := jiffies (driver_desc ep)\<rparr>) ep
        in ep\<lparr>partners_to_ack_delayed_list := partners_to_ack_delayed_list ep @ [p]\<rparr>)
     else ep)"

definition omx__mark_partner_need_ack_immediate :: "pid \<Rightarrow> omx_endpoint \<Rightarrow> omx_endpoint" where
  "omx__mark_partner_need_ack_immediate p ep =
    (if need_ack (partners ep p) \<noteq> OMX__PARTNER_NEED_ACK_IMMEDIATE then
       (let ep = (if need_ack (partners ep p) = OMX__PARTNER_NEED_ACK_DELAYED
                  then (let ep = ep\<lparr>partners_to_ack_delayed_list := remove1 p (partners_to_ack_delayed_list ep)\<rparr>
                        in ep\<lparr>partners_to_ack_immediate_list := p # partners_to_ack_immediate_list ep\<rparr>)
                  else ep\<lparr>partners_to_ack_immediate_list := partners_to_ack_immediate_list ep @ [p]\<rparr>)
        in upd_partner p (\<lambda>pt. pt\<lparr>need_ack := OMX__PARTNER_NEED_ACK_IMMEDIATE\<rparr>) ep)
     else ep)"

definition omx__get_partner_needed_ack :: "omx_endpoint \<Rightarrow> pid \<Rightarrow> omx__seqnum_t" where
  "omx__get_partner_needed_ack ep p = next_frag_recv_seq (partners ep p)"

definition omx__mark_partner_ack_sent :: "pid \<Rightarrow> omx_endpoint \<Rightarrow> omx_endpoint" where
  "omx__mark_partner_ack_sent p ep =
    (let ep = (if need_ack (partners ep p) \<noteq> OMX__PARTNER_NEED_NO_ACK
               then (let ep = upd_partner p (\<lambda>pt. pt\<lparr>need_ack := OMX__PARTNER_NEED_NO_ACK\<rparr>) ep
                     in ep\<lparr>partners_to_ack_immediate_list := remove1 p (partners_to_ack_immediate_list ep),
                          partners_to_ack_delayed_list := remove1 p (partners_to_ack_delayed_list ep)\<rparr>)
               else ep)
     in upd_partner p (\<lambda>pt. pt\<lparr>last_acked_recv_seq := next_frag_recv_seq pt\<rparr>) ep)"

subsection \<open>Throttled partners\<close>

definition omx__mark_partner_throttling :: "pid \<Rightarrow> omx_endpoint \<Rightarrow> omx_endpoint" where
  "omx__mark_partner_throttling p ep =
    (let old = throttling_sends_nr (partners ep p);
         ep = upd_partner p (\<lambda>pt. pt\<lparr>throttling_sends_nr := old + 1\<rparr>) ep
     in if old = 0 then ep\<lparr>throttling_partners_list := throttling_partners_list ep @ [p]\<rparr> else ep)"

definition omx__update_partner_throttling :: "pid \<Rightarrow> nat \<Rightarrow> omx_endpoint \<Rightarrow> omx_endpoint" where
  "omx__update_partner_throttling p nr ep =
    (if nr \<noteq> 0 then
       (let new = throttling_sends_nr (partners ep p) - of_nat nr;
            ep = upd_partner p (\<lambda>pt. pt\<lparr>throttling_sends_nr := new\<rparr>) ep
        in if new = 0 then ep\<lparr>throttling_partners_list := remove1 p (throttling_partners_list ep)\<rparr> else ep)
     else ep)"

subsection \<open>The lists hold the partners that need them\<close>

lemma upd_partner_sel [simp]: "partners (upd_partner p f ep) = (partners ep)(p := f (partners ep p))"
  by (simp add: upd_partner_def)

definition ack_lists_inv :: "omx_endpoint \<Rightarrow> bool" where
  "ack_lists_inv ep \<longleftrightarrow>
    distinct (partners_to_ack_immediate_list ep) \<and> distinct (partners_to_ack_delayed_list ep) \<and>
    (\<forall>p. (p \<in> set (partners_to_ack_immediate_list ep) \<longleftrightarrow> need_ack (partners ep p) = OMX__PARTNER_NEED_ACK_IMMEDIATE) \<and>
      (p \<in> set (partners_to_ack_delayed_list ep) \<longleftrightarrow> need_ack (partners ep p) = OMX__PARTNER_NEED_ACK_DELAYED))"

definition throttling_inv :: "omx_endpoint \<Rightarrow> bool" where
  "throttling_inv ep \<longleftrightarrow> distinct (throttling_partners_list ep) \<and>
    (\<forall>p. p \<in> set (throttling_partners_list ep) \<longleftrightarrow> throttling_sends_nr (partners ep p) \<noteq> 0)"

text \<open>
  C32: The ack lists are exact: after any of the marking operations, a partner is on the immediate (the
  delayed) list exactly when its state says it needs an immediate (a delayed) ack, and once.
  A request for an immediate ack overrides a delayed one; sending an ack cancels both.
\<close>

theorem ack_lists_exact:
  assumes "ack_lists_inv ep"
  shows "ack_lists_inv (omx__mark_partner_need_ack_delayed p ep) \<and>
    ack_lists_inv (omx__mark_partner_need_ack_immediate p ep) \<and>
    ack_lists_inv (omx__mark_partner_ack_sent p ep) \<and>
    p \<in> set (partners_to_ack_immediate_list (omx__mark_partner_need_ack_immediate p ep)) \<and>
    p \<notin> set (partners_to_ack_immediate_list (omx__mark_partner_ack_sent p ep)) \<union>
      set (partners_to_ack_delayed_list (omx__mark_partner_ack_sent p ep))"
proof (intro conjI)
  show "ack_lists_inv (omx__mark_partner_need_ack_delayed p ep)"
    using assms by (auto simp: ack_lists_inv_def omx__mark_partner_need_ack_delayed_def upd_partner_def Let_def)
  show "ack_lists_inv (omx__mark_partner_need_ack_immediate p ep)"
    using assms
    by (cases "need_ack (partners ep p)")
      (auto simp: ack_lists_inv_def omx__mark_partner_need_ack_immediate_def upd_partner_def Let_def)
  show "p \<in> set (partners_to_ack_immediate_list (omx__mark_partner_need_ack_immediate p ep))"
    using assms
    by (cases "need_ack (partners ep p)")
      (auto simp: ack_lists_inv_def omx__mark_partner_need_ack_immediate_def upd_partner_def Let_def)
  show "ack_lists_inv (omx__mark_partner_ack_sent p ep)"
    "p \<notin> set (partners_to_ack_immediate_list (omx__mark_partner_ack_sent p ep)) \<union>
      set (partners_to_ack_delayed_list (omx__mark_partner_ack_sent p ep))"
    using assms by (auto simp: ack_lists_inv_def omx__mark_partner_ack_sent_def upd_partner_def Let_def)
qed

theorem ack_lists_exact_witness:
  "ack_lists_inv (omx__mark_partner_need_ack_delayed 3 blank_endpoint) \<and>
    3 \<in> set (partners_to_ack_immediate_list
      (omx__mark_partner_need_ack_immediate 3 (omx__mark_partner_need_ack_delayed 3 blank_endpoint)))"
proof -
  have "ack_lists_inv blank_endpoint" by (simp add: ack_lists_inv_def)
  from ack_lists_exact [OF this, of 3] show ?thesis
    using ack_lists_exact [of "omx__mark_partner_need_ack_delayed 3 blank_endpoint" 3] by blast
qed






end
