(* ===== verification/Regions.thy ===== *)
theory Regions
  imports Slot_Map Partner_Ack
begin

text \<open>
  The large regions of an endpoint and the registration cache (\<^verbatim>\<open>libopen-mx/omx_large.c\<close>). A region is a
  slot of a map of 256 slots, registered with the driver under its index. Regions of one segment
  are on \<^verbatim>\<open>reg_list\<close>, the others on \<^verbatim>\<open>reg_vect_list\<close>; with the cache, a contiguous region that is not used
  any more stays registered, on \<^verbatim>\<open>reg_unused_list\<close> too, until its slot is needed.

  A function that gives a region returns \<open>Inr\<close> with its slot index, or \<open>Inl\<close> with an error code.
\<close>

definition OMX_USER_REGION_MAX :: nat where
  "OMX_USER_REGION_MAX = 256"

lemma region_max_pos: "0 < OMX_USER_REGION_MAX"
  by (simp add: OMX_USER_REGION_MAX_def)

definition region_of :: "omx_endpoint \<Rightarrow> nat \<Rightarrow> omx__large_region" where
  "region_of ep i = slot_region (lr_array (large_region_map ep) ! i)"

definition upd_slot :: "nat \<Rightarrow> (omx__large_region_slot \<Rightarrow> omx__large_region_slot) \<Rightarrow> omx_endpoint \<Rightarrow> omx_endpoint" where
  "upd_slot i f ep = ep\<lparr>large_region_map := (large_region_map ep)\<lparr>
    lr_array := (lr_array (large_region_map ep))[i := f (lr_array (large_region_map ep) ! i)]\<rparr>\<rparr>"

definition upd_region :: "nat \<Rightarrow> (omx__large_region \<Rightarrow> omx__large_region) \<Rightarrow> omx_endpoint \<Rightarrow> omx_endpoint" where
  "upd_region i f = upd_slot i (\<lambda>s. s\<lparr>slot_region := f (slot_region s)\<rparr>)"

subsection \<open>The region map\<close>

text \<open>\<open>content\<close> is what the allocated array holds before it is written to.\<close>

definition omx__endpoint_large_region_map_init ::
  "(nat \<Rightarrow> omx__large_region) \<Rightarrow> omx_endpoint \<Rightarrow> omx_return \<times> omx_endpoint" where
  "omx__endpoint_large_region_map_init content ep =
    (let (blk, ep) = omx_malloc_ep ep in
     case blk of
       None \<Rightarrow> (OMX_NO_RESOURCES, ep)
     | Some _ \<Rightarrow>
         (let array = map (\<lambda>i. \<lparr>slot_next_free = int i + 1,
                slot_region = (content i)\<lparr>reg_id := of_nat i, reg_last_seqnum := 23\<rparr>\<rparr>) [0..<OMX_USER_REGION_MAX];
              array = array[OMX_USER_REGION_MAX - 1 := (array ! (OMX_USER_REGION_MAX - 1))\<lparr>slot_next_free := -1\<rparr>]
          in (OMX_SUCCESS,
              ep\<lparr>large_region_map := \<lparr>lr_first_free = 0, lr_nr_free = int OMX_USER_REGION_MAX, lr_array = array\<rparr>,
                reg_list := [], reg_unused_list := [], reg_vect_list := [],
                large_sends_avail_nr := int (OMX_USER_REGION_MAX div 2)\<rparr>)))"

definition omx__endpoint_large_region_try_alloc :: "omx_endpoint \<Rightarrow> ((omx_return + nat) \<times> omx_endpoint) option" where
  "omx__endpoint_large_region_try_alloc ep =
    (let index = lr_first_free (large_region_map ep) in
     if index = -1 then Some (Inl OMX_INTERNAL_MISSING_RESOURCES, ep)
     else if 0 \<le> index \<and> nat index < length (lr_array (large_region_map ep)) then
       (let next_free = slot_next_free (lr_array (large_region_map ep) ! nat index);
            ep = upd_region (nat index) (\<lambda>rg. rg\<lparr>reg_use_count := 0\<rparr>) ep
        in Some (Inr (nat index),
             ep\<lparr>large_region_map := (large_region_map ep)\<lparr>lr_first_free := next_free,
               lr_nr_free := lr_nr_free (large_region_map ep) - 1\<rparr>\<rparr>))
     else None)"

definition omx__endpoint_large_region_free :: "nat \<Rightarrow> omx_endpoint \<Rightarrow> omx_endpoint option" where
  "omx__endpoint_large_region_free i ep =
    (let index = unat (reg_id (region_of ep i)) in
     if index < length (lr_array (large_region_map ep)) then
       (let ep = upd_slot index (\<lambda>s. s\<lparr>slot_next_free := lr_first_free (large_region_map ep)\<rparr>) ep
        in Some (ep\<lparr>large_region_map := (large_region_map ep)\<lparr>lr_first_free := int index,
             lr_nr_free := lr_nr_free (large_region_map ep) + 1\<rparr>\<rparr>))
     else None)"

subsection \<open>Registration\<close>

definition omx__check_driver_pinning_error :: "omx_return \<Rightarrow> unit option" where
  "omx__check_driver_pinning_error ret = (if ret = OMX_INTERNAL_MISC_EFAULT then None else Some ())"

definition omx__register_region :: "nat \<Rightarrow> omx_endpoint \<Rightarrow> (omx_return \<times> omx_endpoint) option" where
  "omx__register_region i ep =
    (let rg = region_of ep i;
         reg = \<lparr>reg_cmd_nr_segments = segs_nseg (reg_segs rg), reg_cmd_id = ucast (reg_id rg), reg_cmd_seqnum = 0,
           reg_cmd_segments = reg_segs rg\<rparr>;
         (err, ep) = ioctl (OMX_CMD_CREATE_USER_REGION reg) ep
     in case err of
          Some e \<Rightarrow> do {
            ret \<leftarrow> omx__ioctl_errno_to_return_checked [OMX_NO_SYSTEM_RESOURCES, OMX_INTERNAL_MISC_EFAULT] e;
            _ \<leftarrow> omx__check_driver_pinning_error ret;
            Some (OMX_INTERNAL_MISSING_RESOURCES, ep)
          }
        | None \<Rightarrow> Some (OMX_SUCCESS, ep))"

definition omx__deregister_region :: "nat \<Rightarrow> omx_endpoint \<Rightarrow> omx_endpoint option" where
  "omx__deregister_region i ep =
    (let (err, ep) = ioctl (OMX_CMD_DESTROY_USER_REGION (ucast (reg_id (region_of ep i)))) ep
     in case err of
          Some e \<Rightarrow> do { _ \<leftarrow> omx__ioctl_errno_to_return_checked [] e; Some ep }
        | None \<Rightarrow> Some ep)"

subsection \<open>The registration cache\<close>

text \<open>\<^verbatim>\<open>list_del\<close> takes the region off the list its \<^verbatim>\<open>reg_elt\<close> is linked in, \<^verbatim>\<open>reg_list\<close> or \<^verbatim>\<open>reg_vect_list\<close>.\<close>

definition omx__destroy_region :: "nat \<Rightarrow> omx_endpoint \<Rightarrow> omx_endpoint option" where
  "omx__destroy_region i ep = do {
     ep \<leftarrow> omx__deregister_region i ep;
     let ep = ep\<lparr>reg_list := remove1 i (reg_list ep), reg_vect_list := remove1 i (reg_vect_list ep)\<rparr>;
     omx__endpoint_large_region_free i ep
   }"

fun map_exit_reg_loop :: "nat list \<Rightarrow> omx_endpoint \<Rightarrow> omx_endpoint option" where
  "map_exit_reg_loop [] ep = Some ep"
| "map_exit_reg_loop (i # is) ep =
    (let ep = (if reg_use_count (region_of ep i) = 0
               then ep\<lparr>reg_unused_list := remove1 i (reg_unused_list ep)\<rparr> else ep)
     in do { ep \<leftarrow> omx__destroy_region i ep; map_exit_reg_loop is ep })"

fun map_exit_vect_loop :: "nat list \<Rightarrow> omx_endpoint \<Rightarrow> omx_endpoint option" where
  "map_exit_vect_loop [] ep = Some ep"
| "map_exit_vect_loop (i # is) ep = do { ep \<leftarrow> omx__destroy_region i ep; map_exit_vect_loop is ep }"

text \<open>\<open>array\<close> is the address of the array of slots, given back to the allocator at the end.\<close>

definition omx__endpoint_large_region_map_exit :: "u64 \<Rightarrow> omx_endpoint \<Rightarrow> omx_endpoint option" where
  "omx__endpoint_large_region_map_exit array ep = do {
     ep \<leftarrow> map_exit_reg_loop (reg_list ep) ep;
     ep \<leftarrow> map_exit_vect_loop (reg_vect_list ep) ep;
     Some (omx_free_ep array ep)
   }"

definition omx__endpoint_large_region_alloc :: "omx_endpoint \<Rightarrow> ((omx_return + nat) \<times> omx_endpoint) option" where
  "omx__endpoint_large_region_alloc ep = do {
     (ret, ep) \<leftarrow> omx__endpoint_large_region_try_alloc ep;
     (if ret = Inl OMX_INTERNAL_MISSING_RESOURCES \<and> g_regcache (globals ep) then
        (case reg_unused_list ep of
           [] \<Rightarrow> Some (ret, ep)
         | i # is \<Rightarrow> do {
             let ep = ep\<lparr>reg_unused_list := is\<rparr>;
             ep \<leftarrow> omx__destroy_region i ep;
             omx__endpoint_large_region_try_alloc ep
           })
      else Some (ret, ep))
   }"

definition omx__create_region :: "omx__req_segs \<Rightarrow> omx_endpoint \<Rightarrow> ((omx_return + nat) \<times> omx_endpoint) option" where
  "omx__create_region reqsegs ep = do {
     (ret, ep) \<leftarrow> omx__endpoint_large_region_alloc ep;
     (case ret of
        Inl ret \<Rightarrow> Some (Inl ret, ep)
      | Inr i \<Rightarrow> do {
          let ep = upd_region i (\<lambda>rg. rg\<lparr>reg_segs := omx_clone_segments reqsegs\<rparr>) ep;
          (ret, ep) \<leftarrow> omx__register_region i ep;
          (if ret \<noteq> OMX_SUCCESS then do {
             ep \<leftarrow> omx__endpoint_large_region_free i ep;
             Some (Inl ret, ep)
           }
           else Some (Inr i, upd_region i (\<lambda>rg. rg\<lparr>reg_reserver := None\<rparr>) ep))
        })
   }"

definition region_matches :: "omx_endpoint \<Rightarrow> rid option \<Rightarrow> omx_cmd_user_segment \<Rightarrow> nat \<Rightarrow> bool" where
  "region_matches ep reserver seg i \<longleftrightarrow>
    (let rg = region_of ep i in
     (reserver = None \<or> reg_reserver rg = None) \<and>
     (g_parallel_regcache (globals ep) \<or> reg_use_count rg = 0) \<and>
     seg_vaddr (segs_single (reg_segs rg)) = seg_vaddr seg \<and>
     seg_len (segs_single (reg_segs rg)) \<ge> seg_len seg)"

definition reserve_region :: "rid option \<Rightarrow> nat \<Rightarrow> omx_endpoint \<Rightarrow> omx_endpoint" where
  "reserve_region reserver i ep =
    (if reserver \<noteq> None then upd_region i (\<lambda>rg. rg\<lparr>reg_reserver := reserver\<rparr>) ep else ep)"

definition omx__get_contigous_region ::
  "omx__req_segs \<Rightarrow> rid option \<Rightarrow> omx_endpoint \<Rightarrow> ((omx_return + nat) \<times> omx_endpoint) option" where
  "omx__get_contigous_region reqsegs reserver ep =
    (case (if g_regcache (globals ep)
           then find (region_matches ep reserver (segs_single reqsegs)) (reg_list ep) else None) of
       Some i \<Rightarrow>
         (let old = reg_use_count (region_of ep i);
              ep = upd_region i (\<lambda>rg. rg\<lparr>reg_use_count := old + 1\<rparr>) ep;
              ep = (if old = 0 then ep\<lparr>reg_unused_list := remove1 i (reg_unused_list ep)\<rparr> else ep)
          in Some (Inr i, reserve_region reserver i ep))
     | None \<Rightarrow> do {
         (ret, ep) \<leftarrow> omx__create_region reqsegs ep;
         (case ret of
            Inl ret \<Rightarrow> Some (Inl ret, ep)
          | Inr i \<Rightarrow>
              (let ep = ep\<lparr>reg_list := reg_list ep @ [i]\<rparr>;
                   ep = upd_region i (\<lambda>rg. rg\<lparr>reg_use_count := reg_use_count rg + 1\<rparr>) ep
               in Some (Inr i, reserve_region reserver i ep)))
       })"

definition omx__get_vect_region ::
  "omx__req_segs \<Rightarrow> rid option \<Rightarrow> omx_endpoint \<Rightarrow> ((omx_return + nat) \<times> omx_endpoint) option" where
  "omx__get_vect_region reqsegs reserver ep = do {
     (ret, ep) \<leftarrow> omx__create_region reqsegs ep;
     (case ret of
        Inl ret \<Rightarrow> Some (Inl ret, ep)
      | Inr i \<Rightarrow>
          (let ep = ep\<lparr>reg_vect_list := reg_vect_list ep @ [i]\<rparr>;
               ep = upd_region i (\<lambda>rg. rg\<lparr>reg_use_count := reg_use_count rg + 1\<rparr>) ep
           in Some (Inr i, reserve_region reserver i ep)))
   }"

definition omx__get_region ::
  "omx__req_segs \<Rightarrow> rid option \<Rightarrow> omx_endpoint \<Rightarrow> ((omx_return + nat) \<times> omx_endpoint) option" where
  "omx__get_region reqsegs reserver ep =
    (if segs_nseg reqsegs > 1 then omx__get_vect_region reqsegs reserver ep
     else omx__get_contigous_region reqsegs reserver ep)"

text \<open>It always returns \<^verbatim>\<open>OMX_SUCCESS\<close>.\<close>

definition omx__put_region :: "nat \<Rightarrow> rid option \<Rightarrow> omx_endpoint \<Rightarrow> omx_endpoint option" where
  "omx__put_region i reserver ep =
    (let ep = upd_region i (\<lambda>rg. rg\<lparr>reg_use_count := reg_use_count rg - 1\<rparr>) ep;
         ep = (if reserver \<noteq> None then upd_region i (\<lambda>rg. rg\<lparr>reg_reserver := None\<rparr>) ep else ep)
     in if g_regcache (globals ep) \<and> segs_nseg (reg_segs (region_of ep i)) = 1 then
          (if reg_use_count (region_of ep i) = 0
           then Some (ep\<lparr>reg_unused_list := reg_unused_list ep @ [i]\<rparr>) else Some ep)
        else omx__destroy_region i ep)"

subsection \<open>Invalidating the cache\<close>

definition omx__segments_intersect :: "u64 \<Rightarrow> u64 \<Rightarrow> u64 \<Rightarrow> u64 \<Rightarrow> bool" where
  "omx__segments_intersect begin1 end1 begin2 end2 =
    (let min_end = (if end1 > end2 then end2 else end1);
         max_begin = (if begin1 > begin2 then begin1 else begin2)
     in min_end > max_begin)"

fun regcache_clean_loop :: "u64 \<Rightarrow> u64 \<Rightarrow> nat list \<Rightarrow> omx_endpoint \<Rightarrow> omx_endpoint option" where
  "regcache_clean_loop b e [] ep = Some ep"
| "regcache_clean_loop b e (i # is) ep =
    (let reg_begin = seg_vaddr (segs_single (reg_segs (region_of ep i)));
         reg_end = reg_begin + seg_len (segs_single (reg_segs (region_of ep i)))
     in if omx__segments_intersect b e reg_begin reg_end then
          (if reg_use_count (region_of ep i) \<noteq> 0 then None
           else do {
             let ep = ep\<lparr>reg_unused_list := remove1 i (reg_unused_list ep)\<rparr>;
             ep \<leftarrow> omx__destroy_region i ep;
             regcache_clean_loop b e is ep
           })
        else regcache_clean_loop b e is ep)"

definition omx__endpoint_regcache_clean :: "u64 \<Rightarrow> u64 \<Rightarrow> omx_endpoint \<Rightarrow> omx_endpoint option" where
  "omx__endpoint_regcache_clean b e ep = regcache_clean_loop b e (reg_list ep) ep"

text \<open>The endpoints of the process, in the order of their list; they share the globals.\<close>

fun foreach_endpoint :: "(omx_endpoint \<Rightarrow> omx_endpoint option) \<Rightarrow> omx_endpoint list \<Rightarrow> omx_endpoint list option" where
  "foreach_endpoint f [] = Some []"
| "foreach_endpoint f (ep # eps) = do { ep' \<leftarrow> f ep; eps' \<leftarrow> foreach_endpoint f eps; Some (ep' # eps') }"

definition omx__regcache_clean :: "omx__globals \<Rightarrow> u64 \<Rightarrow> u64 \<Rightarrow> omx_endpoint list \<Rightarrow> omx_endpoint list option" where
  "omx__regcache_clean gl ptr sz eps =
    (if \<not> g_regcache gl then Some eps
     else foreach_endpoint (omx__endpoint_regcache_clean ptr (ptr + sz)) eps)"

subsection \<open>What the driver has registered\<close>

text \<open>
  The driver keeps the regions it was asked to create until it is asked to destroy them. \<open>None\<close> is a
  breach of that protocol: creating a region whose id is in use or destroying one that is not.
\<close>

fun drv_step :: "omx_errno option \<Rightarrow> omx_cmd \<Rightarrow> (u32 \<rightharpoonup> omx__req_segs) \<Rightarrow> (u32 \<rightharpoonup> omx__req_segs) option" where
  "drv_step None (OMX_CMD_CREATE_USER_REGION reg) m =
    (if m (reg_cmd_id reg) = None then Some (m(reg_cmd_id reg \<mapsto> reg_cmd_segments reg)) else None)"
| "drv_step _ (OMX_CMD_DESTROY_USER_REGION rid) m = (if m rid = None then None else Some (m(rid := None)))"
| "drv_step _ _ m = Some m"

fun drv_run :: "(omx_errno option \<times> omx_cmd) list \<Rightarrow> (u32 \<rightharpoonup> omx__req_segs) \<Rightarrow> (u32 \<rightharpoonup> omx__req_segs) option" where
  "drv_run [] m = Some m"
| "drv_run ((a, c) # xs) m = Option.bind (drv_step a c m) (drv_run xs)"

definition drv_regions :: "omx_endpoint \<Rightarrow> (u32 \<rightharpoonup> omx__req_segs) option" where
  "drv_regions ep = drv_run (zip (map (ioctl_answer ep) [0..<length (cmds ep)]) (cmds ep)) Map.empty"

lemma drv_run_append: "drv_run (xs @ ys) m = Option.bind (drv_run xs m) (drv_run ys)"
  by (induction xs m rule: drv_run.induct) (auto intro: Option.bind_cong)

lemma drv_regions_ioctl:
  "drv_regions (ep\<lparr>cmds := cmds ep @ [c]\<rparr>) =
    Option.bind (drv_regions ep) (drv_step (ioctl_answer ep (length (cmds ep))) c)"
proof -
  have "drv_run [] = Some" by (rule ext) simp
  then have "drv_run [(a, c)] = drv_step a c" for a by (intro ext) simp
  then show ?thesis by (simp add: drv_regions_def drv_run_append)
qed

lemma drv_regions_cong: "cmds ep' = cmds ep \<Longrightarrow> ioctl_answer ep' = ioctl_answer ep \<Longrightarrow> drv_regions ep' = drv_regions ep"
  by (simp add: drv_regions_def)

subsection \<open>The invariant of the region map\<close>

text \<open>
  \<open>F\<close> lists the free slots in the order they are taken, \<open>X\<close> the slots taken but not on a list yet.
  The driver has registered exactly the regions on the lists, with the segments the library recorded.
\<close>

definition slots_inv :: "nat list \<Rightarrow> nat list \<Rightarrow> omx_endpoint \<Rightarrow> bool" where
  "slots_inv X F ep \<longleftrightarrow>
    length (lr_array (large_region_map ep)) = OMX_USER_REGION_MAX \<and>
    (\<forall>i < OMX_USER_REGION_MAX. reg_id (region_of ep i) = of_nat i) \<and>
    free_chain (\<lambda>i. slot_next_free (lr_array (large_region_map ep) ! i)) (lr_first_free (large_region_map ep)) F \<and>
    lr_nr_free (large_region_map ep) = int (length F) \<and>
    distinct (F @ X @ reg_list ep @ reg_vect_list ep) \<and>
    set (F @ X @ reg_list ep @ reg_vect_list ep) = {..<OMX_USER_REGION_MAX}"

definition registered :: "omx_endpoint \<Rightarrow> u32 \<rightharpoonup> omx__req_segs" where
  "registered ep = (\<lambda>n. if unat n \<in> set (reg_list ep) \<union> set (reg_vect_list ep)
    then Some (reg_segs (region_of ep (unat n))) else None)"

text \<open>
  The use counts: the unused list holds the contiguous regions nobody uses; without the cache there
  is none; a vectorial region has exactly one user.
\<close>

definition counts_inv :: "omx_endpoint \<Rightarrow> bool" where
  "counts_inv ep \<longleftrightarrow>
    distinct (reg_unused_list ep) \<and>
    set (reg_unused_list ep) = {i \<in> set (reg_list ep). reg_use_count (region_of ep i) = 0} \<and>
    (\<forall>i \<in> set (reg_list ep). 0 \<le> reg_use_count (region_of ep i) \<and> segs_nseg (reg_segs (region_of ep i)) = 1 \<and>
      (\<not> g_regcache (globals ep) \<longrightarrow> reg_use_count (region_of ep i) = 1)) \<and>
    (\<forall>i \<in> set (reg_vect_list ep). reg_use_count (region_of ep i) = 1 \<and> segs_nseg (reg_segs (region_of ep i)) > 1)"

definition region_inv :: "omx_endpoint \<Rightarrow> bool" where
  "region_inv ep \<longleftrightarrow> (\<exists>F. slots_inv [] F ep) \<and> drv_regions ep = Some (registered ep) \<and> counts_inv ep"

lemma region_inv_lists:
  assumes "region_inv ep"
  shows "distinct (reg_list ep)" "distinct (reg_vect_list ep)" "set (reg_list ep) \<inter> set (reg_vect_list ep) = {}"
  using assms by (auto simp: region_inv_def slots_inv_def)

text \<open>What the operations of this theory leave alone.\<close>

definition region_frame :: "omx_endpoint \<Rightarrow> omx_endpoint \<Rightarrow> bool" where
  "region_frame ep ep' \<longleftrightarrow> ep' = ep\<lparr>large_region_map := large_region_map ep', reg_list := reg_list ep',
    reg_unused_list := reg_unused_list ep', reg_vect_list := reg_vect_list ep', cmds := cmds ep'\<rparr>"

lemma region_frame_refl [simp]: "region_frame ep ep"
  by (simp add: region_frame_def)

lemma region_frame_cmds: "region_frame ep (ep\<lparr>cmds := c\<rparr>)"
  by (simp add: region_frame_def)

lemma region_frame_trans:
  assumes "region_frame ep ep'" "region_frame ep' ep''"
  shows "region_frame ep ep''"
  unfolding region_frame_def
  by (rule trans [OF assms(2) [unfolded region_frame_def]]) (subst assms(1) [unfolded region_frame_def], simp)

lemma region_frameD:
  assumes "region_frame ep ep'"
  shows "globals ep' = globals ep" "ioctl_answer ep' = ioctl_answer ep"
  by (subst assms [unfolded region_frame_def], simp)+

lemma upd_slot_sel [simp]:
  "reg_list (upd_slot i f ep) = reg_list ep" "reg_vect_list (upd_slot i f ep) = reg_vect_list ep"
  "reg_unused_list (upd_slot i f ep) = reg_unused_list ep" "cmds (upd_slot i f ep) = cmds ep"
  "ioctl_answer (upd_slot i f ep) = ioctl_answer ep" "globals (upd_slot i f ep) = globals ep"
  "lr_first_free (large_region_map (upd_slot i f ep)) = lr_first_free (large_region_map ep)"
  "lr_nr_free (large_region_map (upd_slot i f ep)) = lr_nr_free (large_region_map ep)"
  "lr_array (large_region_map (upd_slot i f ep)) =
    (lr_array (large_region_map ep))[i := f (lr_array (large_region_map ep) ! i)]"
  by (simp_all add: upd_slot_def)

lemma region_of_cong: "lr_array (large_region_map ep') = lr_array (large_region_map ep) \<Longrightarrow> region_of ep' = region_of ep"
  by (auto simp: region_of_def)


lemma slots_invD:
  assumes "slots_inv X F ep"
  shows "length (lr_array (large_region_map ep)) = OMX_USER_REGION_MAX"
    "\<And>i. i < OMX_USER_REGION_MAX \<Longrightarrow> unat (reg_id (region_of ep i)) = i"
    "free_chain (\<lambda>i. slot_next_free (lr_array (large_region_map ep) ! i)) (lr_first_free (large_region_map ep)) F"
    "lr_nr_free (large_region_map ep) = int (length F)"
    "distinct (F @ X @ reg_list ep @ reg_vect_list ep)"
    "set (F @ X @ reg_list ep @ reg_vect_list ep) = {..<OMX_USER_REGION_MAX}"
  using assms by (auto simp: slots_inv_def OMX_USER_REGION_MAX_def unat_of_nat take_bit_nat_eq_self)

lemma region_of_upd_region:
  "i < length (lr_array (large_region_map ep)) \<Longrightarrow>
    region_of (upd_region i f ep) = (region_of ep)(i := f (region_of ep i))"
  by (auto simp: fun_eq_iff region_of_def upd_region_def nth_list_update)

lemma slots_inv_upd_region:
  assumes "slots_inv X F ep" "\<And>rg. reg_id (f rg) = reg_id rg"
  shows "slots_inv X F (upd_region i f ep)"
  using assms by (cases "i < OMX_USER_REGION_MAX")
    (auto simp: slots_inv_def region_of_def upd_region_def nth_list_update list_update_beyond if_distrib cong: if_cong)

lemma slots_inv_cong:
  assumes "slots_inv X F ep" "large_region_map ep' = large_region_map ep"
    and "reg_list ep' = reg_list ep" "reg_vect_list ep' = reg_vect_list ep"
  shows "slots_inv X F ep'"
  using assms by (simp add: slots_inv_def region_of_def)

lemma registered_cong:
  assumes "set (reg_list ep') = set (reg_list ep)" "set (reg_vect_list ep') = set (reg_vect_list ep)"
    and "\<And>i. i \<in> set (reg_list ep) \<union> set (reg_vect_list ep) \<Longrightarrow> reg_segs (region_of ep' i) = reg_segs (region_of ep i)"
  shows "registered ep' = registered ep"
  using assms by (auto simp: registered_def fun_eq_iff)

lemma try_alloc_none:
  "slots_inv X [] ep \<Longrightarrow> omx__endpoint_large_region_try_alloc ep = Some (Inl OMX_INTERNAL_MISSING_RESOURCES, ep)"
  by (simp add: slots_inv_def omx__endpoint_large_region_try_alloc_def)

lemma try_alloc_some:
  assumes "slots_inv [] (i # F) ep"
  shows "\<exists>ep'. omx__endpoint_large_region_try_alloc ep = Some (Inr i, ep') \<and> slots_inv [i] F ep' \<and>
    region_of ep' = (region_of ep)(i := (region_of ep i)\<lparr>reg_use_count := 0\<rparr>) \<and>
    reg_list ep' = reg_list ep \<and> reg_vect_list ep' = reg_vect_list ep \<and>
    reg_unused_list ep' = reg_unused_list ep \<and> cmds ep' = cmds ep \<and> region_frame ep ep'"
proof -
  note D = slots_invD [OF assms]
  have i: "i < OMX_USER_REGION_MAX" using D(6) by auto
  let ?u = "upd_region i (\<lambda>rg. rg\<lparr>reg_use_count := 0\<rparr>) ep"
  let ?ep = "?u\<lparr>large_region_map := (large_region_map ?u)\<lparr>
    lr_first_free := slot_next_free (lr_array (large_region_map ep) ! i),
    lr_nr_free := lr_nr_free (large_region_map ?u) - 1\<rparr>\<rparr>"
  have r: "region_of ?ep = (region_of ep)(i := (region_of ep i)\<lparr>reg_use_count := 0\<rparr>)"
    using region_of_upd_region [of i ep] i D(1) by (auto simp: region_of_def fun_eq_iff)
  have nf: "slot_next_free (lr_array (large_region_map ?ep) ! j) = slot_next_free (lr_array (large_region_map ep) ! j)" for j
    using i D(1) by (simp add: upd_region_def nth_list_update)
  have "slots_inv [i] F ?ep"
    using assms unfolding slots_inv_def nf r by (auto simp: upd_region_def)
  moreover have "omx__endpoint_large_region_try_alloc ep = Some (Inr i, ?ep)"
    using D(1,3) i by (simp add: omx__endpoint_large_region_try_alloc_def Let_def)
  moreover have "region_frame ep ?ep" by (simp add: region_frame_def upd_region_def upd_slot_def)
  ultimately show ?thesis using r by (auto simp: upd_region_def)
qed

lemma region_free_some:
  assumes "slots_inv [i] F ep"
  shows "\<exists>ep'. omx__endpoint_large_region_free i ep = Some ep' \<and> slots_inv [] (i # F) ep' \<and>
    region_of ep' = region_of ep \<and>
    reg_list ep' = reg_list ep \<and> reg_vect_list ep' = reg_vect_list ep \<and>
    reg_unused_list ep' = reg_unused_list ep \<and> cmds ep' = cmds ep \<and> region_frame ep ep'"
proof -
  note D = slots_invD [OF assms]
  have i: "i < OMX_USER_REGION_MAX" "i \<notin> set F" using D(5,6) by auto
  let ?u = "upd_slot i (\<lambda>s. s\<lparr>slot_next_free := lr_first_free (large_region_map ep)\<rparr>) ep"
  let ?ep = "?u\<lparr>large_region_map := (large_region_map ?u)\<lparr>
    lr_first_free := int i, lr_nr_free := lr_nr_free (large_region_map ?u) + 1\<rparr>\<rparr>"
  have r: "region_of ?ep = region_of ep"
    using i D(1) by (auto simp: region_of_def fun_eq_iff nth_list_update)
  have nf: "slot_next_free (lr_array (large_region_map ?ep) ! j) =
      (if j = i then lr_first_free (large_region_map ep) else slot_next_free (lr_array (large_region_map ep) ! j))" for j
    using i D(1) by (simp add: nth_list_update)
  have "free_chain (\<lambda>j. if j = i then lr_first_free (large_region_map ep)
      else slot_next_free (lr_array (large_region_map ep) ! j)) (lr_first_free (large_region_map ep)) F"
    using D(3) i(2) by (subst free_chain_cong [of F _ "\<lambda>j. slot_next_free (lr_array (large_region_map ep) ! j)"]) auto
  then have "slots_inv [] (i # F) ?ep"
    using assms unfolding slots_inv_def nf r by auto
  moreover have "omx__endpoint_large_region_free i ep = Some ?ep"
    using D(1) D(2) [OF i(1)] i by (simp add: omx__endpoint_large_region_free_def Let_def)
  moreover have "region_frame ep ?ep" by (simp add: region_frame_def upd_slot_def)
  ultimately show ?thesis using r by auto
qed


lemma drv_registered_cong:
  assumes "drv_regions ep = Some (registered ep)" "cmds ep' = cmds ep" "ioctl_answer ep' = ioctl_answer ep"
    and "set (reg_list ep') = set (reg_list ep)" "set (reg_vect_list ep') = set (reg_vect_list ep)"
    and "\<And>i. i \<in> set (reg_list ep) \<union> set (reg_vect_list ep) \<Longrightarrow> reg_segs (region_of ep' i) = reg_segs (region_of ep i)"
  shows "drv_regions ep' = Some (registered ep')"
  using assms(1) drv_regions_cong [OF assms(2,3)] registered_cong [OF assms(4-6)] by simp

lemma unat_region_id: "i < OMX_USER_REGION_MAX \<Longrightarrow> unat (n :: u32) = i \<longleftrightarrow> n = of_nat i"
  by (auto simp: OMX_USER_REGION_MAX_def unat_of_nat take_bit_nat_eq_self)

lemma region_cmd_id: "slots_inv X F ep \<Longrightarrow> i < OMX_USER_REGION_MAX \<Longrightarrow> ucast (reg_id (region_of ep i)) = (of_nat i :: u32)"
  using slots_invD(2) [of X F ep i] unat_region_id [of i "ucast (reg_id (region_of ep i))"] by simp

lemma slots_inv_list_mem:
  assumes "slots_inv X F ep" "i \<in> set F \<union> set X \<union> set (reg_list ep) \<union> set (reg_vect_list ep)"
  shows "i < OMX_USER_REGION_MAX" "i < length (lr_array (large_region_map ep))"
  using slots_invD(1,6) [OF assms(1)] assms(2) by auto

lemma destroy_region_some:
  assumes inv: "slots_inv [] F ep" and drv: "drv_regions ep = Some (registered ep)"
    and i: "i \<in> set (reg_list ep) \<union> set (reg_vect_list ep)"
    and run: "omx__destroy_region i ep = Some ep'"
  shows "slots_inv [] (i # F) ep'" "drv_regions ep' = Some (registered ep')" "region_of ep' = region_of ep"
    "reg_list ep' = remove1 i (reg_list ep)" "reg_vect_list ep' = remove1 i (reg_vect_list ep)"
    "reg_unused_list ep' = reg_unused_list ep" "region_frame ep ep'"
proof -
  note D = slots_invD [OF inv]
  have imax: "i < OMX_USER_REGION_MAX" using slots_inv_list_mem [OF inv] i by auto
  let ?n = "of_nat i :: u32"
  let ?c = "ep\<lparr>cmds := cmds ep @ [OMX_CMD_DESTROY_USER_REGION ?n]\<rparr>"
  let ?d = "?c\<lparr>reg_list := remove1 i (reg_list ep), reg_vect_list := remove1 i (reg_vect_list ep)\<rparr>"
  have free: "omx__endpoint_large_region_free i ?d = Some ep'"
    using run by (auto simp: omx__destroy_region_def omx__deregister_region_def ioctl_def Let_def
        region_cmd_id [OF inv imax] split: option.splits)
  have r: "region_of ?d = region_of ep" by (rule region_of_cong) simp
  have "set (remove1 i (reg_list ep)) = set (reg_list ep) - {i}" "set (remove1 i (reg_vect_list ep)) = set (reg_vect_list ep) - {i}"
    using D(5) by (simp_all add: set_remove1_eq)
  then have reg: "registered ?d = (registered ep)(?n := None)"
    using unat_region_id [OF imax] r by (auto simp: registered_def fun_eq_iff)
  have "registered ep ?n \<noteq> None"
    using i imax by (auto simp: registered_def OMX_USER_REGION_MAX_def unat_of_nat take_bit_nat_eq_self)
  then have drvd: "drv_regions ?d = Some (registered ?d)"
    unfolding reg using drv_regions_ioctl [of ep "OMX_CMD_DESTROY_USER_REGION ?n"] drv
    by (simp add: drv_regions_def)
  have "slots_inv [i] F ?d"
    using inv i unfolding slots_inv_def r by (auto simp: set_remove1_eq)
  then obtain ep2 where e: "omx__endpoint_large_region_free i ?d = Some ep2" "slots_inv [] (i # F) ep2"
    "region_of ep2 = region_of ?d" "reg_list ep2 = reg_list ?d" "reg_vect_list ep2 = reg_vect_list ?d"
    "reg_unused_list ep2 = reg_unused_list ?d" "cmds ep2 = cmds ?d" "region_frame ?d ep2"
    using region_free_some by blast
  have "region_frame ep ?d" by (simp add: region_frame_def)
  then show "region_frame ep ep'" using region_frame_trans e(1,8) free by auto
  show "drv_regions ep' = Some (registered ep')"
    using drvd e free region_frameD(2) [OF e(8)] by (intro drv_registered_cong [OF drvd]) auto
  show "slots_inv [] (i # F) ep'" "region_of ep' = region_of ep" "reg_list ep' = remove1 i (reg_list ep)"
    "reg_vect_list ep' = remove1 i (reg_vect_list ep)" "reg_unused_list ep' = reg_unused_list ep"
    using e free r by auto
qed


lemma counts_inv_cong:
  assumes "counts_inv ep" "reg_list ep' = reg_list ep" "reg_vect_list ep' = reg_vect_list ep"
    and "reg_unused_list ep' = reg_unused_list ep" "globals ep' = globals ep"
    and "\<And>i. i \<in> set (reg_list ep) \<union> set (reg_vect_list ep) \<Longrightarrow>
      reg_use_count (region_of ep' i) = reg_use_count (region_of ep i) \<and> reg_segs (region_of ep' i) = reg_segs (region_of ep i)"
  shows "counts_inv ep'"
  using assms unfolding counts_inv_def by auto

lemma counts_inv_remove:
  assumes "counts_inv ep" "reg_list ep' = remove1 i (reg_list ep)" "reg_vect_list ep' = remove1 i (reg_vect_list ep)"
    and "reg_unused_list ep' = remove1 i (reg_unused_list ep)" "globals ep' = globals ep"
    and "\<And>j. j \<noteq> i \<Longrightarrow> region_of ep' j = region_of ep j" "distinct (reg_list ep)" "distinct (reg_vect_list ep)"
  shows "counts_inv ep'"
proof -
  have "set (reg_list ep') = set (reg_list ep) - {i}" "set (reg_vect_list ep') = set (reg_vect_list ep) - {i}"
    "set (reg_unused_list ep') = set (reg_unused_list ep) - {i}" "distinct (reg_unused_list ep')"
    using assms by (simp_all add: set_remove1_eq counts_inv_def)
  then show ?thesis using assms(1,5,6) unfolding counts_inv_def by auto
qed

lemma try_alloc_spec:
  assumes run: "omx__endpoint_large_region_try_alloc ep = Some (ret, ep')" and G: "slots_inv [] (i # G) ep"
    and d: "drv_regions ep = Some (registered ep)" and c: "counts_inv ep"
  shows "region_frame ep ep' \<and> counts_inv ep' \<and> drv_regions ep' = Some (registered ep') \<and>
    (\<exists>F. slots_inv [i] F ep') \<and> reg_use_count (region_of ep' i) = 0 \<and> ret = Inr i"
proof -
  obtain ep3 where e: "omx__endpoint_large_region_try_alloc ep = Some (Inr i, ep3)" "slots_inv [i] G ep3"
    "region_of ep3 = (region_of ep)(i := (region_of ep i)\<lparr>reg_use_count := 0\<rparr>)"
    "reg_list ep3 = reg_list ep" "reg_vect_list ep3 = reg_vect_list ep"
    "reg_unused_list ep3 = reg_unused_list ep" "cmds ep3 = cmds ep" "region_frame ep ep3"
    using try_alloc_some [OF G] by blast
  have notin: "i \<notin> set (reg_list ep) \<union> set (reg_vect_list ep)" using slots_invD(5) [OF G] by auto
  have "counts_inv ep3"
    using e notin region_frameD(1) [OF e(8)] by (intro counts_inv_cong [OF c]) auto
  moreover have "drv_regions ep3 = Some (registered ep3)"
    using e notin region_frameD(2) [OF e(8)] by (intro drv_registered_cong [OF d]) auto
  ultimately show ?thesis using e run by auto
qed

lemma large_region_alloc_spec:
  assumes inv: "region_inv ep" and run: "omx__endpoint_large_region_alloc ep = Some (ret, ep')"
  shows "region_frame ep ep' \<and> counts_inv ep' \<and> drv_regions ep' = Some (registered ep') \<and>
    (case ret of Inl e \<Rightarrow> e = OMX_INTERNAL_MISSING_RESOURCES \<and> ep' = ep
     | Inr i \<Rightarrow> (\<exists>F. slots_inv [i] F ep') \<and> reg_use_count (region_of ep' i) = 0)"
proof -
  obtain F where F: "slots_inv [] F ep" and drv: "drv_regions ep = Some (registered ep)" and cnt: "counts_inv ep"
    using inv by (auto simp: region_inv_def)
  note D = slots_invD [OF F]
  show ?thesis
  proof (cases F)
    case (Cons i G)
    then have "omx__endpoint_large_region_try_alloc ep = Some (ret, ep')"
      using run try_alloc_some [of i G ep] F by (auto simp: omx__endpoint_large_region_alloc_def)
    from try_alloc_spec [OF this F [unfolded Cons] drv cnt] show ?thesis by auto
  next
    case Nil
    note t = try_alloc_none [OF F [unfolded Nil]]
    show ?thesis
    proof (cases "g_regcache (globals ep) \<and> reg_unused_list ep \<noteq> []")
      case False
      then show ?thesis
        using run t drv cnt by (auto simp: omx__endpoint_large_region_alloc_def split: list.splits)
    next
      case True
      then obtain i "is" where u: "reg_unused_list ep = i # is" by (cases "reg_unused_list ep") auto
      have i: "i \<in> set (reg_list ep)" using cnt u by (auto simp: counts_inv_def)
      let ?e = "ep\<lparr>reg_unused_list := is\<rparr>"
      have r: "region_of ?e = region_of ep" by (rule region_of_cong) simp
      obtain ep2 where de: "omx__destroy_region i ?e = Some ep2"
        and tr: "omx__endpoint_large_region_try_alloc ep2 = Some (ret, ep')"
        using run t u True by (auto simp: omx__endpoint_large_region_alloc_def split: bind_splits)
      have "slots_inv [] F ?e" by (rule slots_inv_cong [OF F]) auto
      moreover have "drv_regions ?e = Some (registered ?e)" by (rule drv_registered_cong [OF drv]) (auto simp: r)
      ultimately have e: "slots_inv [] (i # F) ep2" "drv_regions ep2 = Some (registered ep2)" "region_of ep2 = region_of ?e"
        "reg_list ep2 = remove1 i (reg_list ep)" "reg_vect_list ep2 = remove1 i (reg_vect_list ep)"
        "reg_unused_list ep2 = is" "region_frame ?e ep2"
        using destroy_region_some [OF _ _ _ de] i by auto
      have "counts_inv ep2"
        using e u r D(5) region_frameD(1) [OF e(7)] by (intro counts_inv_remove [OF cnt]) auto
      from try_alloc_spec [OF tr e(1,2) this] show ?thesis
        using region_frame_trans [of ep ?e ep2] region_frame_trans [of ep ep2 ep'] e(7)
        by (auto simp: region_frame_def [of ep ?e])
    qed
  qed
qed


text \<open>A slot in hand, filled and registered, but on no list yet.\<close>

definition region_in_hand :: "omx__req_segs \<Rightarrow> nat \<Rightarrow> omx_endpoint \<Rightarrow> bool" where
  "region_in_hand sg i ep \<longleftrightarrow> (\<exists>F. slots_inv [i] F ep) \<and> counts_inv ep \<and>
    drv_regions ep = Some ((registered ep)(of_nat i \<mapsto> sg)) \<and>
    region_of ep i = (region_of ep i)\<lparr>reg_use_count := 0, reg_segs := sg, reg_reserver := None\<rparr>"

lemma register_region_spec:
  assumes inv: "slots_inv [i] F ep" and drv: "drv_regions ep = Some (registered ep)"
    and run: "omx__register_region i ep = Some (ret, ep')"
  shows "ep' = ep\<lparr>cmds := cmds ep'\<rparr>"
    "ret = OMX_SUCCESS \<Longrightarrow> drv_regions ep' = Some ((registered ep)(of_nat i \<mapsto> reg_segs (region_of ep i)))"
    "ret \<noteq> OMX_SUCCESS \<Longrightarrow> ret = OMX_INTERNAL_MISSING_RESOURCES \<and> drv_regions ep' = Some (registered ep)"
proof -
  have m: "i < OMX_USER_REGION_MAX" using slots_inv_list_mem [OF inv, of i] by simp
  have "i \<notin> set (reg_list ep) \<union> set (reg_vect_list ep)" using slots_invD(5) [OF inv] by auto
  then have new: "registered ep (of_nat i) = None"
    using unat_region_id [OF m, of "of_nat i"] by (auto simp: registered_def)
  let ?reg = "\<lparr>reg_cmd_nr_segments = segs_nseg (reg_segs (region_of ep i)), reg_cmd_id = of_nat i, reg_cmd_seqnum = 0,
    reg_cmd_segments = reg_segs (region_of ep i)\<rparr>"
  let ?c = "ep\<lparr>cmds := cmds ep @ [OMX_CMD_CREATE_USER_REGION ?reg]\<rparr>"
  have e: "ep' = ?c" "ret = OMX_SUCCESS \<longleftrightarrow> ioctl_answer ep (length (cmds ep)) = None"
    "ret \<noteq> OMX_SUCCESS \<Longrightarrow> ret = OMX_INTERNAL_MISSING_RESOURCES"
    using run by (auto simp: omx__register_region_def ioctl_def Let_def region_cmd_id [OF inv m] split: option.splits bind_splits)
  have s: "drv_step a (OMX_CMD_CREATE_USER_REGION ?reg) (registered ep) =
      Some (if a = None then (registered ep)(of_nat i \<mapsto> reg_segs (region_of ep i)) else registered ep)" for a
    using new by (cases a) auto
  have "drv_regions ep' = Some (if ioctl_answer ep (length (cmds ep)) = None
      then (registered ep)(of_nat i \<mapsto> reg_segs (region_of ep i)) else registered ep)"
    unfolding e(1) drv_regions_ioctl drv by (simp add: s)
  with e show "ep' = ep\<lparr>cmds := cmds ep'\<rparr>"
    "ret = OMX_SUCCESS \<Longrightarrow> drv_regions ep' = Some ((registered ep)(of_nat i \<mapsto> reg_segs (region_of ep i)))"
    "ret \<noteq> OMX_SUCCESS \<Longrightarrow> ret = OMX_INTERNAL_MISSING_RESOURCES \<and> drv_regions ep' = Some (registered ep)"
    by auto
qed

lemma register_in_hand:
  assumes inv: "slots_inv [i] F ep" and cnt: "counts_inv ep" and drv: "drv_regions ep = Some (registered ep)"
    and u: "reg_use_count (region_of ep i) = 0" and run: "omx__register_region i ep = Some (OMX_SUCCESS, ep2)"
  shows "region_in_hand (reg_segs (region_of ep i)) i (upd_region i (\<lambda>rg. rg\<lparr>reg_reserver := None\<rparr>) ep2)"
proof -
  note R = register_region_spec [OF inv drv run]
  let ?e = "upd_region i (\<lambda>rg. rg\<lparr>reg_reserver := None\<rparr>) ep2"
  have sel: "large_region_map ep2 = large_region_map ep" "reg_list ep2 = reg_list ep" "reg_vect_list ep2 = reg_vect_list ep"
    "reg_unused_list ep2 = reg_unused_list ep" "globals ep2 = globals ep"
    by (subst R(1), simp)+
  have s2: "slots_inv [i] F ep2" by (rule slots_inv_cong [OF inv]) (simp_all add: sel)
  have r2: "region_of ep2 = region_of ep" by (rule region_of_cong) (simp add: sel)
  have notin: "i \<notin> set (reg_list ep) \<union> set (reg_vect_list ep)" using slots_invD(5) [OF inv] by auto
  have r: "region_of ?e = (region_of ep)(i := (region_of ep i)\<lparr>reg_reserver := None\<rparr>)"
    using region_of_upd_region [OF slots_inv_list_mem(2) [OF s2]] by (simp add: r2)
  have "slots_inv [i] F ?e" by (rule slots_inv_upd_region [OF s2]) simp
  moreover have "counts_inv ?e"
    by (rule counts_inv_cong [OF cnt]) (use notin in \<open>auto simp: r sel, auto simp: upd_region_def sel\<close>)
  moreover have "registered ?e = registered ep"
    by (rule registered_cong) (auto simp: r, auto simp: upd_region_def sel)
  moreover have "drv_regions ?e = drv_regions ep2" by (rule drv_regions_cong) (simp_all add: upd_region_def)
  ultimately show ?thesis using R(2) u r by (auto simp: region_in_hand_def)
qed

lemma register_failed:
  assumes inv: "slots_inv [i] F ep" and cnt: "counts_inv ep" and drv: "drv_regions ep = Some (registered ep)"
    and run: "omx__register_region i ep = Some (ret, ep2)" "ret \<noteq> OMX_SUCCESS"
    and free: "omx__endpoint_large_region_free i ep2 = Some ep'"
  shows "region_frame ep2 ep' \<and> region_inv ep'"
proof -
  note R = register_region_spec [OF inv drv run(1)]
  have sel: "large_region_map ep2 = large_region_map ep" "reg_list ep2 = reg_list ep" "reg_vect_list ep2 = reg_vect_list ep"
    "reg_unused_list ep2 = reg_unused_list ep" "globals ep2 = globals ep"
    by (subst R(1), simp)+
  have s2: "slots_inv [i] F ep2" by (rule slots_inv_cong [OF inv]) (simp_all add: sel)
  have r2: "region_of ep2 = region_of ep" by (rule region_of_cong) (simp add: sel)
  have e: "slots_inv [] (i # F) ep'" "region_of ep' = region_of ep2" "reg_list ep' = reg_list ep2"
    "reg_vect_list ep' = reg_vect_list ep2" "reg_unused_list ep' = reg_unused_list ep2" "cmds ep' = cmds ep2"
    "region_frame ep2 ep'"
    using region_free_some [OF s2] free by auto
  have "counts_inv ep'"
    by (rule counts_inv_cong [OF cnt]) (simp_all add: e sel r2 region_frameD(1) [OF e(7)])
  moreover have "registered ep' = registered ep" by (rule registered_cong) (simp_all add: e sel r2)
  moreover have "drv_regions ep' = drv_regions ep2"
    by (rule drv_regions_cong) (simp_all add: e region_frameD(2) [OF e(7)])
  ultimately show ?thesis using R(3) [OF run(2)] e(1,7) by (auto simp: region_inv_def)
qed

lemma create_region_spec:
  assumes inv: "region_inv ep" and run: "omx__create_region sg ep = Some (ret, ep')"
  shows "region_frame ep ep' \<and>
    (case ret of Inl e \<Rightarrow> e = OMX_INTERNAL_MISSING_RESOURCES \<and> region_inv ep'
     | Inr i \<Rightarrow> region_in_hand (omx_clone_segments sg) i ep')"
proof -
  obtain ar ep1 where al: "omx__endpoint_large_region_alloc ep = Some (ar, ep1)"
    using run by (auto simp: omx__create_region_def split: bind_splits)
  note A = large_region_alloc_spec [OF inv al]
  show ?thesis
  proof (cases ar)
    case (Inl e)
    then show ?thesis using run al A inv by (auto simp: omx__create_region_def)
  next
    case (Inr i)
    then obtain F where F: "slots_inv [i] F ep1" and u: "reg_use_count (region_of ep1 i) = 0"
      and fr: "region_frame ep ep1" and cnt: "counts_inv ep1" and drv: "drv_regions ep1 = Some (registered ep1)"
      using A by auto
    let ?sg = "omx_clone_segments sg"
    let ?e = "upd_region i (\<lambda>rg. rg\<lparr>reg_segs := ?sg\<rparr>) ep1"
    note m = slots_inv_list_mem [OF F, of i, simplified]
    have notin: "i \<notin> set (reg_list ep1) \<union> set (reg_vect_list ep1)" using slots_invD(5) [OF F] by auto
    have r: "region_of ?e = (region_of ep1)(i := (region_of ep1 i)\<lparr>reg_segs := ?sg\<rparr>)"
      by (rule region_of_upd_region [OF m(2)])
    have sl: "slots_inv [i] F ?e" by (rule slots_inv_upd_region [OF F]) simp
    have ce: "counts_inv ?e" using notin by (intro counts_inv_cong [OF cnt]) (auto simp: r, auto simp: upd_region_def)
    have de: "drv_regions ?e = Some (registered ?e)"
      using notin by (intro drv_registered_cong [OF drv]) (auto simp: r, auto simp: upd_region_def)
    have fe: "region_frame ep ?e"
      by (rule region_frame_trans [OF fr]) (simp add: region_frame_def upd_region_def upd_slot_def)
    obtain rr ep2 where reg: "omx__register_region i ?e = Some (rr, ep2)"
      using run al Inr by (auto simp: omx__create_region_def split: bind_splits)
    note R = register_region_spec [OF sl de reg]
    have f2: "region_frame ep ep2"
      by (rule region_frame_trans [OF fe]) (subst R(1), rule region_frame_cmds)
    show ?thesis
    proof (cases "rr = OMX_SUCCESS")
      case True
      then have "ret = Inr i" "ep' = upd_region i (\<lambda>rg. rg\<lparr>reg_reserver := None\<rparr>) ep2"
        using run al Inr reg by (auto simp: omx__create_region_def)
      moreover have "region_frame ep ep'"
        unfolding calculation by (rule region_frame_trans [OF f2]) (simp add: region_frame_def upd_region_def upd_slot_def)
      ultimately show ?thesis
        using register_in_hand [OF sl ce de _ reg [unfolded True]] u r by auto
    next
      case False
      then have "omx__endpoint_large_region_free i ep2 = Some ep'" "ret = Inl rr"
        using run al Inr reg by (auto simp: omx__create_region_def split: bind_splits)
      then show ?thesis
        using register_failed [OF sl ce de reg False] R(3) [OF False] region_frame_trans [OF f2] by auto
    qed
  qed
qed


subsection \<open>Getting and putting regions\<close>

text \<open>What a caller gets: a region on the lists, in use, that covers the segments it asked for.\<close>

definition region_covers :: "omx_endpoint \<Rightarrow> omx__req_segs \<Rightarrow> nat \<Rightarrow> bool" where
  "region_covers ep sg i \<longleftrightarrow>
    (if segs_nseg sg > 1 then i \<in> set (reg_vect_list ep) \<and> reg_segs (region_of ep i) = sg
     else i \<in> set (reg_list ep) \<and>
       seg_vaddr (segs_single (reg_segs (region_of ep i))) = seg_vaddr (segs_single sg) \<and>
       seg_len (segs_single sg) \<le> seg_len (segs_single (reg_segs (region_of ep i)))) \<and>
    reg_use_count (region_of ep i) > 0"

lemma reserve_region_sel [simp]:
  "reg_list (reserve_region w i ep) = reg_list ep" "reg_vect_list (reserve_region w i ep) = reg_vect_list ep"
  "reg_unused_list (reserve_region w i ep) = reg_unused_list ep" "cmds (reserve_region w i ep) = cmds ep"
  "ioctl_answer (reserve_region w i ep) = ioctl_answer ep" "globals (reserve_region w i ep) = globals ep"
  by (simp_all add: reserve_region_def upd_region_def)

lemma region_of_reserve_region:
  "i < length (lr_array (large_region_map ep)) \<Longrightarrow>
    region_of (reserve_region w i ep) = (region_of ep)(i := (region_of ep i)\<lparr>reg_reserver :=
      (if w = None then reg_reserver (region_of ep i) else w)\<rparr>)"
  by (auto simp: reserve_region_def region_of_upd_region)

lemma region_inv_reserve:
  assumes "region_inv ep"
  shows "region_inv (reserve_region w i ep)"
proof (cases "i < length (lr_array (large_region_map ep))")
  case True
  note r = region_of_reserve_region [OF True]
  obtain F where F: "slots_inv [] F ep" and drv: "drv_regions ep = Some (registered ep)" and cnt: "counts_inv ep"
    using assms by (auto simp: region_inv_def)
  have "slots_inv [] F (reserve_region w i ep)"
    using F slots_inv_upd_region [OF F] by (simp add: reserve_region_def)
  moreover have "counts_inv (reserve_region w i ep)" by (rule counts_inv_cong [OF cnt]) (auto simp: r)
  moreover have "drv_regions (reserve_region w i ep) = Some (registered (reserve_region w i ep))"
    by (rule drv_registered_cong [OF drv]) (auto simp: r)
  ultimately show ?thesis by (auto simp: region_inv_def)
next
  case False
  then have "reserve_region w i ep = ep"
    by (simp add: reserve_region_def upd_region_def upd_slot_def list_update_beyond)
  with assms show ?thesis by simp
qed


lemma region_inv_hit:
  assumes "region_inv ep" "i \<in> set (reg_list ep)" "g_regcache (globals ep)"
  defines "u \<equiv> upd_region i (\<lambda>rg. rg\<lparr>reg_use_count := reg_use_count (region_of ep i) + 1\<rparr>) ep"
  shows "region_inv (if reg_use_count (region_of ep i) = 0
    then u\<lparr>reg_unused_list := remove1 i (reg_unused_list u)\<rparr> else u)" (is "region_inv ?e")
proof -
  obtain F where F: "slots_inv [] F ep" and drv: "drv_regions ep = Some (registered ep)" and cnt: "counts_inv ep"
    using assms(1) by (auto simp: region_inv_def)
  have sel: "reg_list ?e = reg_list ep" "reg_vect_list ?e = reg_vect_list ep" "globals ?e = globals ep" "cmds ?e = cmds ep"
    "ioctl_answer ?e = ioctl_answer ep" "large_region_map ?e = large_region_map u"
    "reg_unused_list ?e = (if reg_use_count (region_of ep i) = 0 then remove1 i (reg_unused_list ep) else reg_unused_list ep)"
    by (simp_all add: u_def upd_region_def)
  have r: "region_of ?e = (region_of ep)(i := (region_of ep i)\<lparr>reg_use_count := reg_use_count (region_of ep i) + 1\<rparr>)"
    using region_of_upd_region [OF slots_inv_list_mem(2) [OF F]] assms(2) region_of_cong [of ?e u] unfolding sel(6)
    by (auto simp: u_def)
  have v: "i \<notin> set (reg_vect_list ep)" using slots_invD(5) [OF F] assms(2) by auto
  have "slots_inv [] F u" unfolding u_def by (rule slots_inv_upd_region [OF F]) simp
  then have "slots_inv [] F ?e" by (rule slots_inv_cong) (simp_all add: u_def upd_region_def)
  moreover have "counts_inv ?e"
    using cnt assms(2,3) v unfolding counts_inv_def sel r by (auto simp: set_remove1_eq)
  moreover have "drv_regions ?e = Some (registered ?e)" by (rule drv_registered_cong [OF drv]) (simp_all add: sel r)
  ultimately show ?thesis by (auto simp: region_inv_def)
qed

lemma in_hand_listed:
  assumes hand: "region_in_hand sg i ep"
    and lists: "reg_list ep' = reg_list ep @ [i] \<and> reg_vect_list ep' = reg_vect_list ep \<and> segs_nseg sg = 1 \<or>
      reg_list ep' = reg_list ep \<and> reg_vect_list ep' = reg_vect_list ep @ [i] \<and> segs_nseg sg > 1"
    and same: "large_region_map ep' = large_region_map ep" "reg_unused_list ep' = reg_unused_list ep"
      "cmds ep' = cmds ep" "globals ep' = globals ep" "ioctl_answer ep' = ioctl_answer ep"
  defines "u \<equiv> upd_region i (\<lambda>rg. rg\<lparr>reg_use_count := reg_use_count rg + 1\<rparr>) ep'"
  shows "region_inv u" "region_of u i = (region_of ep i)\<lparr>reg_use_count := 1\<rparr>"
proof -
  obtain F where F: "slots_inv [i] F ep" and cnt: "counts_inv ep"
    and drv: "drv_regions ep = Some ((registered ep)(of_nat i \<mapsto> sg))"
    and ri: "region_of ep i = (region_of ep i)\<lparr>reg_use_count := 0, reg_segs := sg, reg_reserver := None\<rparr>"
    using hand by (auto simp: region_in_hand_def)
  have i: "i < OMX_USER_REGION_MAX" using slots_inv_list_mem [OF F, of i] by simp
  have i0: "reg_use_count (region_of ep i) = 0" "reg_segs (region_of ep i) = sg" by (subst ri, simp)+
  have r': "region_of ep' = region_of ep" by (rule region_of_cong) (simp add: same)
  have "set (F @ [] @ reg_list ep' @ reg_vect_list ep') = set (F @ [i] @ reg_list ep @ reg_vect_list ep)"
    "distinct (F @ [] @ reg_list ep' @ reg_vect_list ep') = distinct (F @ [i] @ reg_list ep @ reg_vect_list ep)"
    using lists by auto
  then have "slots_inv [] F ep'" using F unfolding slots_inv_def r' same by metis
  then have s: "slots_inv [] F u" unfolding u_def by (rule slots_inv_upd_region) simp
  have r: "region_of u = (region_of ep)(i := (region_of ep i)\<lparr>reg_use_count := 1\<rparr>)"
    using region_of_upd_region [of i ep'] slots_inv_list_mem(2) [OF F, of i] i0 r' same by (simp add: u_def)
  then show "region_of u i = (region_of ep i)\<lparr>reg_use_count := 1\<rparr>" by simp
  have sel: "reg_list u = reg_list ep'" "reg_vect_list u = reg_vect_list ep'" "reg_unused_list u = reg_unused_list ep"
    "globals u = globals ep" "cmds u = cmds ep" "ioctl_answer u = ioctl_answer ep"
    by (simp_all add: u_def upd_region_def same)
  have "set (reg_list ep') \<union> set (reg_vect_list ep') = insert i (set (reg_list ep) \<union> set (reg_vect_list ep))"
    using lists by auto
  then have "registered u = (registered ep)(of_nat i \<mapsto> sg)"
    using unat_region_id [OF i] i0 unfolding registered_def sel r by (auto simp: fun_eq_iff)
  then have d: "drv_regions u = Some (registered u)" using drv drv_regions_cong [OF sel(5,6)] by simp
  have n: "i \<notin> set (reg_list ep) \<union> set (reg_vect_list ep)" using slots_invD(5) [OF F] by auto
  have "counts_inv u" using cnt lists n i0 unfolding counts_inv_def sel r by auto
  with s d show "region_inv u" by (auto simp: region_inv_def)
qed


lemma in_hand_segs:
  assumes "region_in_hand sg i ep"
  shows "reg_segs (region_of ep i) = sg"
proof -
  have e: "region_of ep i = (region_of ep i)\<lparr>reg_use_count := 0, reg_segs := sg, reg_reserver := None\<rparr>"
    using assms unfolding region_in_hand_def by blast
  show ?thesis by (subst e) simp
qed

lemma region_coversI:
  assumes "region_of ep' i = (region_of ep i)\<lparr>reg_use_count := c\<rparr>" "0 < c" "segs_nseg sg \<noteq> 0"
    and "reg_segs (region_of ep i) = omx_clone_segments sg"
    and "i \<in> (if segs_nseg sg > 1 then set (reg_vect_list ep') else set (reg_list ep'))"
  shows "region_covers ep' sg i"
  using assms by (auto simp: region_covers_def omx_clone_segments_def split: if_splits)

lemma region_covers_reserve:
  assumes "region_covers ep sg i" "region_inv ep"
  shows "region_covers (reserve_region w i ep) sg i"
proof -
  obtain F where "slots_inv [] F ep" using assms(2) by (auto simp: region_inv_def)
  then have "i < length (lr_array (large_region_map ep))"
    using assms(1) slots_inv_list_mem(2) by (auto simp: region_covers_def split: if_splits)
  from region_of_reserve_region [OF this] assms(1) show ?thesis by (simp add: region_covers_def)
qed

lemma u32_one_of_not_more: "n \<noteq> 0 \<Longrightarrow> \<not> 1 < (n :: u32) \<Longrightarrow> n = 1"
  by unat_arith

lemma get_contigous_region_spec:
  assumes inv: "region_inv ep" and n: "segs_nseg sg = 1"
    and run: "omx__get_contigous_region sg w ep = Some (ret, ep')"
  shows "region_inv ep' \<and> (case ret of Inl e \<Rightarrow> e = OMX_INTERNAL_MISSING_RESOURCES | Inr i \<Rightarrow> region_covers ep' sg i)"
proof (cases "if g_regcache (globals ep) then find (region_matches ep w (segs_single sg)) (reg_list ep) else None")
  case (Some i)
  then have rc: "g_regcache (globals ep)" and i: "i \<in> set (reg_list ep)" "region_matches ep w (segs_single sg) i"
    using find_in_set [of "region_matches ep w (segs_single sg)" "reg_list ep" i] by (auto split: if_splits)
  let ?u = "upd_region i (\<lambda>rg. rg\<lparr>reg_use_count := reg_use_count (region_of ep i) + 1\<rparr>) ep"
  let ?e = "if reg_use_count (region_of ep i) = 0 then ?u\<lparr>reg_unused_list := remove1 i (reg_unused_list ?u)\<rparr> else ?u"
  obtain F where F: "slots_inv [] F ep" and cnt: "counts_inv ep" using inv by (auto simp: region_inv_def)
  note e = region_inv_hit [OF inv i(1) rc]
  have r: "region_of ?e i = (region_of ep i)\<lparr>reg_use_count := reg_use_count (region_of ep i) + 1\<rparr>"
    using region_of_upd_region [OF slots_inv_list_mem(2) [OF F]] i(1) region_of_cong [of ?e ?u] by simp
  have "0 \<le> reg_use_count (region_of ep i)" using cnt i(1) by (auto simp: counts_inv_def)
  then have "region_covers ?e sg i"
    using i(2) n unfolding region_covers_def r by (simp add: region_matches_def upd_region_def i(1) Let_def)
  moreover have "ep' = reserve_region w i ?e" "ret = Inr i"
    using run Some by (simp_all add: omx__get_contigous_region_def Let_def)
  ultimately show ?thesis using region_covers_reserve e region_inv_reserve by auto
next
  case None
  then obtain cr ep1 where cr: "omx__create_region sg ep = Some (cr, ep1)"
    using run by (auto simp: omx__get_contigous_region_def split: bind_splits)
  note C = create_region_spec [OF inv cr]
  show ?thesis
  proof (cases cr)
    case (Inl e)
    then show ?thesis using run None cr C by (auto simp: omx__get_contigous_region_def)
  next
    case (Inr i)
    let ?u = "upd_region i (\<lambda>rg. rg\<lparr>reg_use_count := reg_use_count rg + 1\<rparr>) (ep1\<lparr>reg_list := reg_list ep1 @ [i]\<rparr>)"
    have hand: "region_in_hand (omx_clone_segments sg) i ep1" using C Inr by simp
    have "region_inv ?u" "region_of ?u i = (region_of ep1 i)\<lparr>reg_use_count := 1\<rparr>"
      using in_hand_listed [OF hand, of "ep1\<lparr>reg_list := reg_list ep1 @ [i]\<rparr>"] n by (simp_all add: omx_clone_segments_def)
    moreover note in_hand_segs [OF hand]
    ultimately have "region_covers ?u sg i" "region_inv ?u"
      using n by (auto intro!: region_coversI simp: upd_region_def)
    moreover have "ep' = reserve_region w i ?u" "ret = Inr i"
      using run None cr Inr by (simp_all add: omx__get_contigous_region_def Let_def)
    ultimately show ?thesis using region_covers_reserve region_inv_reserve by auto
  qed
qed


lemma get_vect_region_spec:
  assumes inv: "region_inv ep" and n: "1 < segs_nseg sg"
    and run: "omx__get_vect_region sg w ep = Some (ret, ep')"
  shows "region_inv ep' \<and> (case ret of Inl e \<Rightarrow> e = OMX_INTERNAL_MISSING_RESOURCES | Inr i \<Rightarrow> region_covers ep' sg i)"
proof -
  obtain cr ep1 where cr: "omx__create_region sg ep = Some (cr, ep1)"
    using run by (auto simp: omx__get_vect_region_def split: bind_splits)
  note C = create_region_spec [OF inv cr]
  show ?thesis
  proof (cases cr)
    case (Inl e)
    then show ?thesis using run cr C by (auto simp: omx__get_vect_region_def)
  next
    case (Inr i)
    let ?e = "ep1\<lparr>reg_vect_list := reg_vect_list ep1 @ [i]\<rparr>"
    let ?u = "upd_region i (\<lambda>rg. rg\<lparr>reg_use_count := reg_use_count rg + 1\<rparr>) ?e"
    have n': "segs_nseg sg \<noteq> 1" "segs_nseg sg \<noteq> 0" using n by auto
    have hand: "region_in_hand (omx_clone_segments sg) i ep1" using C Inr by simp
    have "region_inv ?u" "region_of ?u i = (region_of ep1 i)\<lparr>reg_use_count := 1\<rparr>"
      using in_hand_listed [OF hand, of ?e] n n' by (simp_all add: omx_clone_segments_def)
    then have "region_covers ?u sg i" "region_inv ?u"
      using n n' in_hand_segs [OF hand] by (auto intro!: region_coversI simp: upd_region_def)
    moreover have "ep' = reserve_region w i ?u" "ret = Inr i"
      using run cr Inr by (simp_all add: omx__get_vect_region_def Let_def)
    ultimately show ?thesis using region_covers_reserve region_inv_reserve by auto
  qed
qed

lemma get_region_spec:
  assumes "region_inv ep" "segs_nseg sg \<noteq> 0" "omx__get_region sg w ep = Some (ret, ep')"
  shows "region_inv ep' \<and> (case ret of Inl e \<Rightarrow> e = OMX_INTERNAL_MISSING_RESOURCES | Inr i \<Rightarrow> region_covers ep' sg i)"
proof (cases "1 < segs_nseg sg")
  case True
  then show ?thesis using assms get_vect_region_spec [OF assms(1) True] by (auto simp: omx__get_region_def)
next
  case False
  then have "segs_nseg sg = 1" using assms(2) u32_one_of_not_more by auto
  from get_contigous_region_spec [OF assms(1) this] show ?thesis
    using False assms(3) by (auto simp: omx__get_region_def)
qed

text \<open>Destroying a listed region, from a state that differs only by that region and the unused list.\<close>

lemma destroy_region_inv:
  assumes inv: "region_inv ep" and i: "i \<in> set (reg_list ep) \<union> set (reg_vect_list ep)"
    and sl: "\<And>F. slots_inv [] F ep \<Longrightarrow> slots_inv [] F e" and r: "\<And>j. j \<noteq> i \<Longrightarrow> region_of e j = region_of ep j"
    and seg: "reg_segs (region_of e i) = reg_segs (region_of ep i)"
    and sel: "reg_list e = reg_list ep" "reg_vect_list e = reg_vect_list ep" "globals e = globals ep" "cmds e = cmds ep"
      "ioctl_answer e = ioctl_answer ep" "reg_unused_list e = remove1 i (reg_unused_list ep)"
    and run: "omx__destroy_region i e = Some ep'"
  shows "region_inv ep'" "region_of ep' = region_of e" "reg_list ep' = remove1 i (reg_list ep)"
    "reg_vect_list ep' = remove1 i (reg_vect_list ep)" "region_frame e ep'"
proof -
  obtain F where F: "slots_inv [] F ep" and drv: "drv_regions ep = Some (registered ep)" and cnt: "counts_inv ep"
    using inv by (auto simp: region_inv_def)
  have seg': "reg_segs (region_of e j) = reg_segs (region_of ep j)" for j using r seg by (cases "j = i") auto
  have "drv_regions e = Some (registered e)" by (rule drv_registered_cong [OF drv]) (simp_all add: sel seg')
  note d = destroy_region_some [OF sl [OF F] this i [folded sel] run]
  have "counts_inv ep'"
    using d sel r slots_invD(5) [OF F] region_frameD(1) [OF d(7)] by (intro counts_inv_remove [OF cnt]) auto
  with d sel show "region_inv ep'" "region_of ep' = region_of e" "reg_list ep' = remove1 i (reg_list ep)"
    "reg_vect_list ep' = remove1 i (reg_vect_list ep)" "region_frame e ep'"
    by (auto simp: region_inv_def)
qed

text \<open>One user less of a contiguous region that the cache keeps.\<close>

lemma region_inv_keep:
  assumes inv: "region_inv ep" and i: "i \<in> set (reg_list ep)" and u: "0 < reg_use_count (region_of ep i)"
    and rc: "g_regcache (globals ep)" and F: "slots_inv [] F ep'"
    and seg: "\<And>j. reg_segs (region_of ep' j) = reg_segs (region_of ep j)"
    and cnts: "\<And>j. reg_use_count (region_of ep' j) = reg_use_count (region_of ep j) - (if j = i then 1 else 0)"
    and sel: "reg_list ep' = reg_list ep" "reg_vect_list ep' = reg_vect_list ep" "globals ep' = globals ep"
      "cmds ep' = cmds ep" "ioctl_answer ep' = ioctl_answer ep"
      "reg_unused_list ep' = reg_unused_list ep @ (if reg_use_count (region_of ep i) - 1 = 0 then [i] else [])"
  shows "region_inv ep'"
proof -
  have drv: "drv_regions ep = Some (registered ep)" and cnt: "counts_inv ep" and v: "i \<notin> set (reg_vect_list ep)"
    using inv i region_inv_lists [OF inv] by (auto simp: region_inv_def)
  have "drv_regions ep' = Some (registered ep')" by (rule drv_registered_cong [OF drv]) (simp_all add: sel seg)
  moreover have "counts_inv ep'" using cnt i u v rc unfolding counts_inv_def sel seg cnts by auto
  ultimately show ?thesis using F by (auto simp: region_inv_def)
qed

lemma put_region_spec:
  assumes inv: "region_inv ep" and i: "i \<in> set (reg_list ep) \<union> set (reg_vect_list ep)"
    and u: "0 < reg_use_count (region_of ep i)" and run: "omx__put_region i w ep = Some ep'"
  shows "region_inv ep'"
proof -
  obtain F where F: "slots_inv [] F ep" and drv: "drv_regions ep = Some (registered ep)" and cnt: "counts_inv ep"
    using inv by (auto simp: region_inv_def)
  note m = slots_inv_list_mem(2) [OF F, of i] slots_invD(5) [OF F]
  let ?e1 = "upd_region i (\<lambda>rg. rg\<lparr>reg_use_count := reg_use_count rg - 1\<rparr>) ep"
  let ?e = "if w \<noteq> None then upd_region i (\<lambda>rg. rg\<lparr>reg_reserver := None\<rparr>) ?e1 else ?e1"
  have sel: "reg_list ?e = reg_list ep" "reg_vect_list ?e = reg_vect_list ep" "globals ?e = globals ep" "cmds ?e = cmds ep"
    "ioctl_answer ?e = ioctl_answer ep" "reg_unused_list ?e = reg_unused_list ep"
    by (simp_all add: upd_region_def)
  have s1: "slots_inv [] F ?e1" if "slots_inv [] F ep" for F by (rule slots_inv_upd_region [OF that]) simp
  then have sl: "slots_inv [] F ?e" if "slots_inv [] F ep" for F
    using that slots_inv_upd_region [OF s1 [OF that], of "\<lambda>rg. rg\<lparr>reg_reserver := None\<rparr>" i] by simp
  have r1: "region_of ?e1 = (region_of ep)(i := (region_of ep i)\<lparr>reg_use_count := reg_use_count (region_of ep i) - 1\<rparr>)"
    using region_of_upd_region [OF m(1)] i by auto
  have r: "region_of ?e j = region_of ep j" if "j \<noteq> i" for j
    using that r1 region_of_upd_region [of i ?e1] slots_inv_list_mem(2) [OF s1 [OF F], of i] i by (auto simp: upd_region_def)
  have ri: "reg_segs (region_of ?e i) = reg_segs (region_of ep i)"
    "reg_use_count (region_of ?e i) = reg_use_count (region_of ep i) - 1"
    using r1 region_of_upd_region [of i ?e1] slots_inv_list_mem(2) [OF s1 [OF F], of i] i by (auto simp: upd_region_def)
  have run': "(if g_regcache (globals ep) \<and> segs_nseg (reg_segs (region_of ep i)) = 1
      then Some (if reg_use_count (region_of ep i) - 1 = 0 then ?e\<lparr>reg_unused_list := reg_unused_list ep @ [i]\<rparr> else ?e)
      else omx__destroy_region i ?e) = Some ep'"
    using run unfolding omx__put_region_def Let_def sel ri by (auto split: if_splits)
  show ?thesis
  proof (cases "g_regcache (globals ep) \<and> segs_nseg (reg_segs (region_of ep i)) = 1")
    case True
    then have il: "i \<in> set (reg_list ep)" "i \<notin> set (reg_vect_list ep)" using i cnt m(2) by (auto simp: counts_inv_def)
    have ep': "ep' = (if reg_use_count (region_of ep i) - 1 = 0 then ?e\<lparr>reg_unused_list := reg_unused_list ep @ [i]\<rparr> else ?e)"
      using run' True by simp
    have re: "region_of ep' = region_of ?e" unfolding ep' by (auto intro: region_of_cong)
    have sel': "reg_list ep' = reg_list ep" "reg_vect_list ep' = reg_vect_list ep" "globals ep' = globals ep"
      "cmds ep' = cmds ep" "ioctl_answer ep' = ioctl_answer ep" "large_region_map ep' = large_region_map ?e"
      "reg_unused_list ep' = reg_unused_list ep @ (if reg_use_count (region_of ep i) - 1 = 0 then [i] else [])"
      unfolding ep' using sel by auto
    have "reg_segs (region_of ep' j) = reg_segs (region_of ep j)"
      "reg_use_count (region_of ep' j) = reg_use_count (region_of ep j) - (if j = i then 1 else 0)" for j
      using r ri re by (cases "j = i", auto)+
    moreover have "slots_inv [] F ep'" by (rule slots_inv_cong [OF sl [OF F]]) (simp_all only: sel sel')
    ultimately show ?thesis using region_inv_keep [OF inv il(1) u] True sel' by auto
  next
    case False
    have "i \<notin> set (reg_unused_list ep)" using cnt u by (auto simp: counts_inv_def)
    then have "reg_unused_list ?e = remove1 i (reg_unused_list ep)" unfolding sel by (simp add: remove1_idem)
    moreover have "omx__destroy_region i ?e = Some ep'" using run' False by presburger
    ultimately show ?thesis using destroy_region_inv(1) [OF inv i sl r ri(1) sel(1-5)] by blast
  qed
qed


subsection \<open>Cleaning and leaving\<close>

lemma region_inv_evict:
  assumes inv: "region_inv ep" and i: "i \<in> set (reg_list ep) \<union> set (reg_vect_list ep)"
    and run: "omx__destroy_region i (if i \<in> set (reg_unused_list ep)
      then ep\<lparr>reg_unused_list := remove1 i (reg_unused_list ep)\<rparr> else ep) = Some ep'"
  shows "region_inv ep'" "region_of ep' = region_of ep" "reg_list ep' = remove1 i (reg_list ep)"
    "reg_vect_list ep' = remove1 i (reg_vect_list ep)" "region_frame ep ep'"
proof -
  let ?e = "if i \<in> set (reg_unused_list ep) then ep\<lparr>reg_unused_list := remove1 i (reg_unused_list ep)\<rparr> else ep"
  have r: "region_of ?e = region_of ep" by (auto intro: region_of_cong)
  have sl: "slots_inv [] F ?e" if "slots_inv [] F ep" for F using slots_inv_cong [OF that] by auto
  have "reg_list ?e = reg_list ep" "reg_vect_list ?e = reg_vect_list ep" "globals ?e = globals ep" "cmds ?e = cmds ep"
    "ioctl_answer ?e = ioctl_answer ep" "reg_unused_list ?e = remove1 i (reg_unused_list ep)"
    by (simp_all add: remove1_idem)
  note d = destroy_region_inv [OF inv i sl _ _ this run, unfolded r, OF _ refl refl]
  show "region_inv ep'" "region_of ep' = region_of ep" "reg_list ep' = remove1 i (reg_list ep)"
    "reg_vect_list ep' = remove1 i (reg_vect_list ep)" using d by auto
  have "region_frame ep ?e" by (simp add: region_frame_def)
  then show "region_frame ep ep'" using d(5) by (rule region_frame_trans)
qed


definition region_hit :: "omx_endpoint \<Rightarrow> u64 \<Rightarrow> u64 \<Rightarrow> nat \<Rightarrow> bool" where
  "region_hit ep b e i \<longleftrightarrow> omx__segments_intersect b e (seg_vaddr (segs_single (reg_segs (region_of ep i))))
    (seg_vaddr (segs_single (reg_segs (region_of ep i))) + seg_len (segs_single (reg_segs (region_of ep i))))"

lemma regcache_clean_loop_Cons:
  "regcache_clean_loop b e (i # is) ep =
    (if region_hit ep b e i then
       (if reg_use_count (region_of ep i) \<noteq> 0 then None
        else Option.bind (omx__destroy_region i (ep\<lparr>reg_unused_list := remove1 i (reg_unused_list ep)\<rparr>))
          (regcache_clean_loop b e is))
     else regcache_clean_loop b e is ep)"
  by (simp add: region_hit_def Let_def)

declare regcache_clean_loop.simps(2) [simp del]

lemma unused_iff: "region_inv ep \<Longrightarrow> i \<in> set (reg_list ep) \<Longrightarrow>
    i \<in> set (reg_unused_list ep) \<longleftrightarrow> reg_use_count (region_of ep i) = 0"
  by (auto simp: region_inv_def counts_inv_def)

lemma regcache_clean_loop_spec:
  assumes "region_inv ep" "distinct is" "set is \<subseteq> set (reg_list ep)" "regcache_clean_loop b e is ep = Some ep'"
  shows "region_inv ep' \<and> region_of ep' = region_of ep \<and> reg_vect_list ep' = reg_vect_list ep \<and>
    set (reg_list ep') = set (reg_list ep) - {i \<in> set is. region_hit ep b e i}"
  using assms
proof (induction "is" arbitrary: ep)
  case (Cons i "is")
  show ?case
  proof (cases "region_hit ep b e i")
    case False
    then show ?thesis using Cons.IH [of ep] Cons.prems by (auto simp: regcache_clean_loop_Cons)
  next
    case True
    obtain ep1 where d: "omx__destroy_region i (ep\<lparr>reg_unused_list := remove1 i (reg_unused_list ep)\<rparr>) = Some ep1"
      and u: "reg_use_count (region_of ep i) = 0" and k: "regcache_clean_loop b e is ep1 = Some ep'"
      using Cons.prems(4) True by (auto simp: regcache_clean_loop_Cons split: if_splits bind_splits)
    have "i \<in> set (reg_list ep) \<union> set (reg_vect_list ep)" "i \<in> set (reg_unused_list ep)"
      using Cons.prems u unused_iff by auto
    note v = region_inv_evict [OF Cons.prems(1) this(1), of ep1, simplified this(2), simplified, OF d]
    note l = region_inv_lists [OF Cons.prems(1)]
    have "set (reg_list ep1) = set (reg_list ep) - {i}" using v(3) l(1) by simp
    moreover have "reg_vect_list ep1 = reg_vect_list ep" using v(4) l(3) Cons.prems(3) by (auto intro: remove1_idem)
    moreover have "region_hit ep1 b e = region_hit ep b e" using v(2) by (simp add: region_hit_def fun_eq_iff)
    ultimately show ?thesis using Cons.IH [OF v(1) _ _ k] Cons.prems v(2) True by auto
  qed
qed simp

lemma destroy_region_progress:
  assumes "slots_inv X F ep" "i < OMX_USER_REGION_MAX" "ioctl_answer ep (length (cmds ep)) = None"
  shows "\<exists>ep'. omx__destroy_region i ep = Some ep'"
  using assms slots_invD(1,2) [OF assms(1)]
  by (simp add: omx__destroy_region_def omx__deregister_region_def omx__endpoint_large_region_free_def ioctl_def
      region_of_def Let_def)

lemma map_exit_reg_loop_spec:
  assumes "region_inv ep" "reg_list ep = is" "map_exit_reg_loop is ep = Some ep'"
  shows "region_inv ep' \<and> reg_list ep' = [] \<and> reg_vect_list ep' = reg_vect_list ep"
  using assms
proof (induction "is" arbitrary: ep)
  case (Cons i "is")
  obtain ep1 where d: "omx__destroy_region i (if i \<in> set (reg_unused_list ep)
      then ep\<lparr>reg_unused_list := remove1 i (reg_unused_list ep)\<rparr> else ep) = Some ep1"
    and k: "map_exit_reg_loop is ep1 = Some ep'"
    using Cons.prems(3) unused_iff [OF Cons.prems(1), of i] Cons.prems(2) by (auto simp: Let_def split: bind_splits)
  note v = region_inv_evict [OF Cons.prems(1) _ d]
  note l = region_inv_lists [OF Cons.prems(1)]
  have "reg_vect_list ep1 = reg_vect_list ep" using v(4) l(3) Cons.prems(2) by (auto intro: remove1_idem)
  then show ?case using Cons.IH [OF _ _ k] v Cons.prems(2) by auto
qed simp

lemma map_exit_vect_loop_spec:
  assumes "region_inv ep" "reg_list ep = []" "reg_vect_list ep = is" "map_exit_vect_loop is ep = Some ep'"
  shows "region_inv ep' \<and> reg_list ep' = [] \<and> reg_vect_list ep' = []"
  using assms
proof (induction "is" arbitrary: ep)
  case (Cons i "is")
  have n: "i \<notin> set (reg_unused_list ep)" using Cons.prems(1,2) by (auto simp: region_inv_def counts_inv_def)
  obtain ep1 where d: "omx__destroy_region i ep = Some ep1" and k: "map_exit_vect_loop is ep1 = Some ep'"
    using Cons.prems(4) by (auto split: bind_splits)
  note v = region_inv_evict [OF Cons.prems(1), of i ep1, simplified n, simplified, OF _ d]
  show ?case using Cons.IH [OF _ _ _ k] v Cons.prems(2,3) by auto
qed simp

lemma region_map_init_inv:
  assumes "omx__endpoint_large_region_map_init content ep = (OMX_SUCCESS, ep')" "drv_regions ep = Some Map.empty"
  shows "region_inv ep'"
proof -
  let ?a = "map (\<lambda>i. \<lparr>slot_next_free = int i + 1,
    slot_region = (content i)\<lparr>reg_id := of_nat i, reg_last_seqnum := 23\<rparr>\<rparr>) [0..<OMX_USER_REGION_MAX]"
  let ?b = "?a[OMX_USER_REGION_MAX - 1 := (?a ! (OMX_USER_REGION_MAX - 1))\<lparr>slot_next_free := -1\<rparr>]"
  have ep': "ep' = (snd (omx_malloc_ep ep))\<lparr>large_region_map := \<lparr>lr_first_free = 0, lr_nr_free = int OMX_USER_REGION_MAX, lr_array = ?b\<rparr>,
      reg_list := [], reg_unused_list := [], reg_vect_list := [], large_sends_avail_nr := int (OMX_USER_REGION_MAX div 2)\<rparr>"
    using assms(1) by (auto simp: omx__endpoint_large_region_map_init_def omx_malloc_ep_def Let_def split: option.splits)
  have "free_chain (\<lambda>i. slot_next_free (?b ! i)) (int 0) [0..<OMX_USER_REGION_MAX]"
    using region_max_pos by (intro free_chain_upt) (auto simp: nth_list_update)
  moreover have "\<forall>i < OMX_USER_REGION_MAX. reg_id (slot_region (?b ! i)) = of_nat i"
    by (auto simp: nth_list_update)
  ultimately have "slots_inv [] [0..<OMX_USER_REGION_MAX] ep'"
    unfolding slots_inv_def region_of_def ep' by (simp add: atLeast0LessThan)
  moreover have "drv_regions ep' = Some Map.empty" using assms(2) by (simp add: drv_regions_def ep' omx_malloc_ep_def)
  moreover have "registered ep' = Map.empty" "counts_inv ep'" by (auto simp: registered_def counts_inv_def ep')
  ultimately show ?thesis by (auto simp: region_inv_def)
qed


subsection \<open>Progress\<close>

text \<open>A slot can be had: one is free, or the cache can give one up.\<close>

definition slot_available :: "omx_endpoint \<Rightarrow> bool" where
  "slot_available ep \<longleftrightarrow> 0 < lr_nr_free (large_region_map ep) \<or> g_regcache (globals ep) \<and> reg_unused_list ep \<noteq> []"

lemma large_region_alloc_progress:
  assumes inv: "region_inv ep" and drv: "\<forall>n. ioctl_answer ep n = None" and av: "slot_available ep"
  shows "\<exists>i ep'. omx__endpoint_large_region_alloc ep = Some (Inr i, ep')"
proof -
  obtain F where F: "slots_inv [] F ep" and d: "drv_regions ep = Some (registered ep)" and cnt: "counts_inv ep"
    using inv by (auto simp: region_inv_def)
  show ?thesis
  proof (cases F)
    case (Cons i G)
    then show ?thesis using try_alloc_some [of i G ep] F by (auto simp: omx__endpoint_large_region_alloc_def)
  next
    case Nil
    then obtain i "is" where u: "reg_unused_list ep = i # is" and rc: "g_regcache (globals ep)"
      using av slots_invD(4) [OF F] by (cases "reg_unused_list ep") (auto simp: slot_available_def)
    let ?e = "ep\<lparr>reg_unused_list := is\<rparr>"
    have i: "i \<in> set (reg_list ep)" using cnt u by (auto simp: counts_inv_def)
    have Fe: "slots_inv [] F ?e" by (rule slots_inv_cong [OF F]) auto
    obtain ep1 where de: "omx__destroy_region i ?e = Some ep1"
      using destroy_region_progress [OF Fe, of i] slots_inv_list_mem [OF F, of i] i drv by auto
    have "region_of ?e = region_of ep" by (rule region_of_cong) simp
    then have "drv_regions ?e = Some (registered ?e)" by (intro drv_registered_cong [OF d]) auto
    from destroy_region_some(1) [OF Fe this _ de] i obtain ep2 where
      "omx__endpoint_large_region_try_alloc ep1 = Some (Inr i, ep2)"
      using try_alloc_some [of i F ep1] by auto
    then show ?thesis
      using try_alloc_none [OF F [unfolded Nil]] u rc de by (auto simp: omx__endpoint_large_region_alloc_def)
  qed
qed

lemma create_region_progress:
  assumes inv: "region_inv ep" and drv: "\<forall>n. ioctl_answer ep n = None" and av: "slot_available ep"
  shows "\<exists>i ep'. omx__create_region sg ep = Some (Inr i, ep')"
proof -
  obtain i ep1 where a: "omx__endpoint_large_region_alloc ep = Some (Inr i, ep1)"
    using large_region_alloc_progress [OF assms] by blast
  have "region_frame ep ep1" using large_region_alloc_spec [OF inv a] by simp
  from region_frameD(2) [OF this] drv have "ioctl_answer ep1 n = None" for n by simp
  then show ?thesis
    by (simp add: omx__create_region_def a omx__register_region_def ioctl_def upd_region_def Let_def)
qed

lemma get_region_progress:
  assumes inv: "region_inv ep" and drv: "\<forall>n. ioctl_answer ep n = None" and av: "slot_available ep"
  shows "\<exists>i ep'. omx__get_region sg w ep = Some (Inr i, ep')"
proof -
  obtain i ep' where "omx__create_region sg ep = Some (Inr i, ep')" using create_region_progress [OF assms] by blast
  then show ?thesis
    by (auto simp: omx__get_region_def omx__get_vect_region_def omx__get_contigous_region_def Let_def split: option.split)
qed

lemma regcache_clean_loop_progress:
  assumes "region_inv ep" "distinct is" "set is \<subseteq> set (reg_list ep)" "\<forall>n. ioctl_answer ep n = None"
  shows "regcache_clean_loop b e is ep = None \<longleftrightarrow> (\<exists>i \<in> set is. region_hit ep b e i \<and> reg_use_count (region_of ep i) \<noteq> 0)"
  using assms
proof (induction "is" arbitrary: ep)
  case (Cons i "is")
  show ?case
  proof (cases "region_hit ep b e i \<and> reg_use_count (region_of ep i) = 0")
    case False
    then show ?thesis using Cons.IH [of ep] Cons.prems by (auto simp: regcache_clean_loop_Cons)
  next
    case True
    obtain F where "slots_inv [] F ep" using Cons.prems(1) by (auto simp: region_inv_def)
    moreover from this have "slots_inv [] F (ep\<lparr>reg_unused_list := remove1 i (reg_unused_list ep)\<rparr>)"
      by (rule slots_inv_cong) auto
    ultimately obtain ep1 where d: "omx__destroy_region i (ep\<lparr>reg_unused_list := remove1 i (reg_unused_list ep)\<rparr>) = Some ep1"
      using destroy_region_progress [of "[]" F "ep\<lparr>reg_unused_list := remove1 i (reg_unused_list ep)\<rparr>" i] slots_inv_list_mem(1) [of "[]" F ep i] Cons.prems(3,4) by auto
    have i: "i \<in> set (reg_list ep) \<union> set (reg_vect_list ep)" "i \<in> set (reg_unused_list ep)"
      using Cons.prems True unused_iff by auto
    note v = region_inv_evict [OF Cons.prems(1) i(1), of ep1, simplified i(2), simplified, OF d]
    have "set is \<subseteq> set (reg_list ep1)" using v(3) Cons.prems(2,3) region_inv_lists(1) [OF Cons.prems(1)] by auto
    moreover have "\<forall>n. ioctl_answer ep1 n = None" using region_frameD(2) [OF v(5)] Cons.prems(4) by simp
    ultimately show ?thesis
      using Cons.IH [OF v(1)] Cons.prems(2) True d v(2) by (auto simp: regcache_clean_loop_Cons region_hit_def)
  qed
qed simp

subsection \<open>Properties\<close>

inductive region_step :: "omx_endpoint \<Rightarrow> omx_endpoint \<Rightarrow> bool" where
  get: "segs_nseg sg \<noteq> 0 \<Longrightarrow> omx__get_region sg w ep = Some (ret, ep') \<Longrightarrow> region_step ep ep'"
| put: "i \<in> set (reg_list ep) \<union> set (reg_vect_list ep) \<Longrightarrow> 0 < reg_use_count (region_of ep i) \<Longrightarrow>
    omx__put_region i w ep = Some ep' \<Longrightarrow> region_step ep ep'"
| clean: "omx__endpoint_regcache_clean b e ep = Some ep' \<Longrightarrow> region_step ep ep'"

lemma region_step_inv: "region_step ep ep' \<Longrightarrow> region_inv ep \<Longrightarrow> region_inv ep'"
proof (induction rule: region_step.induct)
  case (clean b e ep ep')
  then show ?case
    using regcache_clean_loop_spec [OF clean(2) region_inv_lists(1) [OF clean(2)] subset_refl]
    by (simp add: omx__endpoint_regcache_clean_def)
qed (use get_region_spec put_region_spec in blast)+

lemma region_steps_inv: "region_step\<^sup>*\<^sup>* ep ep' \<Longrightarrow> region_inv ep \<Longrightarrow> region_inv ep'"
  by (induction rule: rtranclp_induct) (auto intro: region_step_inv)

text \<open>
  C8: The registration cache agrees with the driver. From the initial map on, any sequence of gets, puts
  of regions in use and invalidations keeps the invariant: the free chain, the contiguous and the
  vectorial regions partition the 256 slots; the driver never gets a create for an id in use nor a
  destroy for one that is not, and has exactly the listed regions registered, with the recorded
  segments; and the unused list holds exactly the contiguous regions without users.
\<close>

theorem regcache_invariant:
  assumes "omx__endpoint_large_region_map_init content ep = (OMX_SUCCESS, ep1)" "drv_regions ep = Some Map.empty"
    and "region_step\<^sup>*\<^sup>* ep1 ep2"
  shows "(\<exists>F. slots_inv [] F ep2) \<and> drv_regions ep2 = Some (registered ep2) \<and> counts_inv ep2"
  using region_steps_inv [OF assms(3) region_map_init_inv [OF assms(1,2)]] by (simp add: region_inv_def)

abbreviation region_example :: omx_endpoint where
  "region_example \<equiv> blank_endpoint\<lparr>malloc_answer := \<lambda>_. Some 4096, globals := blank_globals\<lparr>g_regcache := True\<rparr>\<rparr>"

abbreviation segs_example :: omx__req_segs where
  "segs_example \<equiv> blank_req_segs\<lparr>segs_nseg := 1, segs_single := \<lparr>seg_vaddr = 8192, seg_len = 65536\<rparr>,
    segs_segs := Segs_single, segs_total_length := 65536\<rparr>"

abbreviation region_content :: "nat \<Rightarrow> omx__large_region" where
  "region_content \<equiv> \<lambda>_. \<lparr>reg_use_count = 77, reg_id = 77, reg_last_seqnum = 77, reg_segs = blank_req_segs, reg_reserver = Some 77\<rparr>"

lemma region_example_init:
  "\<exists>ep. omx__endpoint_large_region_map_init region_content region_example = (OMX_SUCCESS, ep) \<and>
    region_inv ep \<and> ioctl_answer ep = ioctl_answer region_example \<and> slot_available ep \<and>
    reg_list ep = [] \<and> reg_vect_list ep = []"
proof -
  obtain ep where ep: "omx__endpoint_large_region_map_init region_content region_example = (OMX_SUCCESS, ep)"
    by (simp add: omx__endpoint_large_region_map_init_def omx_malloc_ep_def Let_def)
  then have "ioctl_answer ep = ioctl_answer region_example" "slot_available ep" "reg_list ep = []" "reg_vect_list ep = []"
    using region_max_pos by (auto simp: omx__endpoint_large_region_map_init_def omx_malloc_ep_def Let_def slot_available_def)
  with ep show ?thesis using region_map_init_inv [OF ep] by (auto simp: drv_regions_def)
qed


theorem regcache_invariant_witness:
  "\<exists>ep1 i ep2. omx__endpoint_large_region_map_init region_content region_example = (OMX_SUCCESS, ep1) \<and>
    omx__get_region segs_example None ep1 = Some (Inr i, ep2) \<and> drv_regions ep2 = Some (registered ep2)"
proof -
  obtain ep1 where i: "omx__endpoint_large_region_map_init region_content region_example = (OMX_SUCCESS, ep1)"
    "region_inv ep1" "ioctl_answer ep1 = ioctl_answer region_example" "slot_available ep1"
    using region_example_init by blast
  then obtain j ep2 where g: "omx__get_region segs_example None ep1 = Some (Inr j, ep2)"
    using get_region_progress [of ep1 segs_example None] by auto
  then have "region_step ep1 ep2" by (intro region_step.get [of segs_example]) simp_all
  then show ?thesis
    using regcache_invariant [OF i(1)] i(1) g by (auto simp: drv_regions_def)
qed







end
