(* ===== verification/Limits.thy ===== *)
theory Limits
  imports Types
begin

text \<open>
  The sizes the driver and the library agree on (\<^verbatim>\<open>common/omx_io.h\<close>). \<^verbatim>\<open>OMX_MTU\<close> has the value \<^verbatim>\<open>configure\<close> gives it by
  default.
\<close>

definition OMX_TINY_MSG_LENGTH_MAX :: u32 where
  "OMX_TINY_MSG_LENGTH_MAX = 32"

definition OMX_SMALL_MSG_LENGTH_MAX :: u32 where
  "OMX_SMALL_MSG_LENGTH_MAX = 128"

subsection \<open>Fragment sizes\<close>

definition OMX_MTU :: u32 where
  "OMX_MTU = 9000"

definition OMX_MEDIUM_FRAG_PAYLOAD_SIZE_OF_PACKET :: "u32 \<Rightarrow> u32" where
  "OMX_MEDIUM_FRAG_PAYLOAD_SIZE_OF_PACKET x = x - 16 - 32"

definition OMX_MEDIUM_FRAG_PACKET_SIZE_OF_PAYLOAD :: "u32 \<Rightarrow> u32" where
  "OMX_MEDIUM_FRAG_PACKET_SIZE_OF_PAYLOAD x = x + 16 + 32"

definition OMX_MEDIUM_FRAG_LENGTH_MAX :: u32 where
  "OMX_MEDIUM_FRAG_LENGTH_MAX =
    (if OMX_MEDIUM_FRAG_PAYLOAD_SIZE_OF_PACKET OMX_MTU \<le> 4096
     then OMX_MEDIUM_FRAG_PAYLOAD_SIZE_OF_PACKET OMX_MTU
     else if OMX_MEDIUM_FRAG_PACKET_SIZE_OF_PAYLOAD 8192 > OMX_MTU then 4096 else 8192)"

definition OMX_MEDIUM_FRAG_LENGTH_ROUNDUPSHIFT :: nat where
  "OMX_MEDIUM_FRAG_LENGTH_ROUNDUPSHIFT =
    (if OMX_MEDIUM_FRAG_LENGTH_MAX \<le> 1024 then 10
     else if OMX_MEDIUM_FRAG_LENGTH_MAX \<le> 2048 then 11
     else if OMX_MEDIUM_FRAG_LENGTH_MAX \<le> 4096 then 12
     else if OMX_MEDIUM_FRAG_LENGTH_MAX \<le> 8192 then 13 else 14)"

definition OMX_SENDQ_ENTRY_SHIFT :: nat where
  "OMX_SENDQ_ENTRY_SHIFT = OMX_MEDIUM_FRAG_LENGTH_ROUNDUPSHIFT"

definition OMX_SENDQ_ENTRY_SIZE :: nat where
  "OMX_SENDQ_ENTRY_SIZE = 2 ^ OMX_SENDQ_ENTRY_SHIFT"

definition OMX_RECVQ_ENTRY_SHIFT :: nat where
  "OMX_RECVQ_ENTRY_SHIFT = OMX_MEDIUM_FRAG_LENGTH_ROUNDUPSHIFT"

definition OMX_RECVQ_ENTRY_SIZE :: nat where
  "OMX_RECVQ_ENTRY_SIZE = 2 ^ OMX_RECVQ_ENTRY_SHIFT"

definition OMX_MEDIUM_FRAGS_MAX :: nat where
  "OMX_MEDIUM_FRAGS_MAX = 32"

lemma limit_values:
  "OMX_MEDIUM_FRAG_LENGTH_MAX = 8192" "OMX_SENDQ_ENTRY_SHIFT = 13" "OMX_SENDQ_ENTRY_SIZE = 8192"
  "OMX_RECVQ_ENTRY_SHIFT = 13" "OMX_RECVQ_ENTRY_SIZE = 8192"
proof -
  show frag: "OMX_MEDIUM_FRAG_LENGTH_MAX = 8192"
    by (simp add: OMX_MEDIUM_FRAG_LENGTH_MAX_def OMX_MEDIUM_FRAG_PAYLOAD_SIZE_OF_PACKET_def OMX_MTU_def
        OMX_MEDIUM_FRAG_PACKET_SIZE_OF_PAYLOAD_def)
  show "OMX_SENDQ_ENTRY_SHIFT = 13" "OMX_SENDQ_ENTRY_SIZE = 8192" "OMX_RECVQ_ENTRY_SHIFT = 13" "OMX_RECVQ_ENTRY_SIZE = 8192"
    by (simp_all add: OMX_SENDQ_ENTRY_SIZE_def OMX_RECVQ_ENTRY_SIZE_def OMX_SENDQ_ENTRY_SHIFT_def OMX_RECVQ_ENTRY_SHIFT_def
        OMX_MEDIUM_FRAG_LENGTH_ROUNDUPSHIFT_def frag)
qed

end
