(* ===== verification/Send.thy ===== *)
theory Send
  imports Regions Limits
begin

text \<open>
  Sending messages and notifies (\<^verbatim>\<open>libopen-mx/omx_send.c\<close>). Every kind of message has the same three
  stages: \<^verbatim>\<open>alloc_setup\<close> takes the resources and fills the driver command, \<^verbatim>\<open>setup\<close> takes the next sequence
  number of the partner (unless the send is throttled), \<^verbatim>\<open>post\<close> passes the command to the driver and is
  called again for a retransmission.
\<close>

subsection \<open>Completion\<close>

definition omx__send_complete :: "rid \<Rightarrow> omx_return \<Rightarrow> omx_endpoint \<Rightarrow> omx_endpoint option" where
  "omx__send_complete r ret ep = do {
     let ctxid = status_ctxid ep r;
     ep \<leftarrow> (if st_code (status (reqs ep r)) = OMX_SUCCESS then
              (if ret = OMX_SUCCESS then
                 (if st_xfer_length (status (reqs ep r)) < st_msg_length (status (reqs ep r)) then do {
                    code \<leftarrow> omx__error_with_req ep r OMX_MESSAGE_TRUNCATED;
                    Some (upd_req r (\<lambda>rq. rq\<lparr>status := (status rq)\<lparr>st_code := code\<rparr>\<rparr>) ep)
                  }
                  else Some ep)
               else do {
                 code \<leftarrow> omx__error_with_req ep r ret;
                 Some (upd_req r (\<lambda>rq. rq\<lparr>status := (status rq)\<lparr>st_code := code\<rparr>\<rparr>) ep)
               })
            else Some ep);
     ep \<leftarrow> (if OMX_REQUEST_STATE_NEED_SEQNUM \<in> state (reqs ep r) then Some ep
            else (case rtype (reqs ep r) of
                OMX_REQUEST_TYPE_SEND_SMALL \<Rightarrow> Some (omx_free_ep (small_copy (reqs ep r)) ep)
              | OMX_REQUEST_TYPE_SEND_MEDIUMSQ \<Rightarrow> do {
                  mp \<leftarrow> omx__endpoint_sendq_map_put (unat (frags_nr (reqs ep r))) (sendq_map_index (reqs ep r)) (sendq_map ep);
                  Some (ep\<lparr>sendq_map := mp\<rparr>)
                }
              | _ \<Rightarrow> Some ep));
     let ep = omx_free_segments (segs (reqs ep r)) ep;
     Some (omx__notify_request_done ctxid r ep)
   }"

subsection \<open>What all kinds of sends share\<close>

text \<open>The result of the \<^verbatim>\<open>ioctl\<close>: an error that is not expected aborts.\<close>

fun ioctl_checked :: "omx_return list \<Rightarrow> omx_errno option \<Rightarrow> omx_return option" where
  "ioctl_checked oks None = Some OMX_SUCCESS"
| "ioctl_checked oks (Some e) = omx__ioctl_errno_to_return_checked oks e"

text \<open>The end of every \<^verbatim>\<open>post\<close>: \<open>ok\<close> says whether the command was accepted, with its piggyback ack.\<close>

definition posted :: "pid \<Rightarrow> rid \<Rightarrow> bool \<Rightarrow> omx_endpoint \<Rightarrow> omx_endpoint" where
  "posted p r ok ep =
    (let ep = upd_req r (\<lambda>rq. rq\<lparr>resends := resends rq + 1\<rparr>) ep;
         ep = upd_req r (\<lambda>rq. rq\<lparr>last_send_jiffies := jiffies (driver_desc ep)\<rparr>) ep
     in if ok then omx__mark_partner_ack_sent p ep else ep)"

text \<open>The start of every \<^verbatim>\<open>setup\<close>.\<close>

definition take_seqnum :: "pid \<Rightarrow> rid \<Rightarrow> omx_endpoint \<Rightarrow> omx_endpoint" where
  "take_seqnum p r ep =
    (let seqnum = next_send_seq (partners ep p);
         ep = upd_partner p (\<lambda>pt. pt\<lparr>next_send_seq := OMX__SEQNUM_INCREASE (next_send_seq pt)\<rparr>) ep
     in upd_req r (\<lambda>rq. rq\<lparr>send_seqnum := seqnum, resends := 0, resends_max := req_resends_max ep\<rparr>) ep)"

definition omx__enqueue_non_acked :: "pid \<Rightarrow> rid \<Rightarrow> omx_endpoint \<Rightarrow> omx_endpoint" where
  "omx__enqueue_non_acked p r ep =
    (let ep = ep\<lparr>non_acked_req_q := non_acked_req_q ep @ [r]\<rparr>
     in upd_partner p (\<lambda>pt. pt\<lparr>p_non_acked_req_q := p_non_acked_req_q pt @ [r]\<rparr>) ep)"

definition throttled :: "omx_endpoint \<Rightarrow> pid \<Rightarrow> bool" where
  "throttled ep p \<longleftrightarrow>
    OMX__SEQNUM (next_send_seq (partners ep p) - next_acked_send_seq (partners ep p)) \<ge> OMX__THROTTLING_OFFSET_MAX"

definition throttle :: "pid \<Rightarrow> rid \<Rightarrow> omx_endpoint \<Rightarrow> omx_endpoint" where
  "throttle p r ep =
    (let ep = upd_req r (set_state_flag OMX_REQUEST_STATE_NEED_SEQNUM) ep;
         ep = upd_partner p (\<lambda>pt. pt\<lparr>p_need_seqnum_send_req_q := p_need_seqnum_send_req_q pt @ [r]\<rparr>) ep
     in omx__mark_partner_throttling p ep)"

definition delay_send :: "rid \<Rightarrow> omx_endpoint \<Rightarrow> omx_endpoint" where
  "delay_send r ep =
    (let ep = upd_req r (set_state_flag OMX_REQUEST_STATE_NEED_RESOURCES) ep
     in ep\<lparr>need_resources_send_req_q := need_resources_send_req_q ep @ [r]\<rparr>)"

definition set_lengths :: "rid \<Rightarrow> u32 \<Rightarrow> omx_endpoint \<Rightarrow> omx_endpoint" where
  "set_lengths r len = upd_req r (\<lambda>rq. rq\<lparr>status := (status rq)\<lparr>st_msg_length := len, st_xfer_length := len\<rparr>\<rparr>)"

subsection \<open>Tiny messages\<close>

definition omx__post_isend_tiny :: "pid \<Rightarrow> rid \<Rightarrow> omx_endpoint \<Rightarrow> omx_endpoint option" where
  "omx__post_isend_tiny p r ep =
    (let ack_upto = omx__get_partner_needed_ack ep p;
         ep = upd_req r (\<lambda>rq. rq\<lparr>send_tiny_ioctl_param := (send_tiny_ioctl_param rq)\<lparr>tiny_piggyack := ack_upto\<rparr>\<rparr>) ep;
         (err, ep) = ioctl (OMX_CMD_SEND_TINY (send_tiny_ioctl_param (reqs ep r))) ep
     in do { _ \<leftarrow> ioctl_checked [OMX_NO_SYSTEM_RESOURCES] err; Some (posted p r (err = None) ep) })"

definition omx__setup_isend_tiny :: "pid \<Rightarrow> rid \<Rightarrow> omx_endpoint \<Rightarrow> omx_endpoint option" where
  "omx__setup_isend_tiny p r ep = do {
     let ctxid = status_ctxid ep r;
     let ep = take_seqnum p r ep;
     let ep = upd_req r (\<lambda>rq. rq\<lparr>send_tiny_ioctl_param := (send_tiny_ioctl_param rq)\<lparr>tiny_seqnum := send_seqnum rq\<rparr>\<rparr>) ep;
     ep \<leftarrow> omx__post_isend_tiny p r ep;
     let ep = upd_req r (set_state_flag OMX_REQUEST_STATE_NEED_ACK) ep;
     let ep = omx__enqueue_non_acked p r ep;
     omx__notify_request_done_early ctxid r ep
   }"

text \<open>
  \<^verbatim>\<open>omx_copy_from_segments\<close> into the data of the command, which is not part of the process memory in the
  model: the bytes it copies.
\<close>

fun copy_from_segments_bytes_loop :: "omx_cmd_user_segment list \<Rightarrow> u32 \<Rightarrow> memory \<Rightarrow> u8 list option" where
  "copy_from_segments_bytes_loop [] len m = (if len = 0 then Some [] else None)"
| "copy_from_segments_bytes_loop (cseg # rest) len m =
    (if len = 0 then Some []
     else
       (let chunk = seg_chunk (seg_len cseg) len in
        do { bs \<leftarrow> copy_from_segments_bytes_loop rest (len - chunk) m; Some (mem_read m (seg_vaddr cseg) (unat chunk) @ bs) }))"

definition copy_from_segments_bytes :: "omx__req_segs \<Rightarrow> u32 \<Rightarrow> memory \<Rightarrow> u8 list option" where
  "copy_from_segments_bytes srcsegs len m =
    (if segs_nseg srcsegs = 1 then Some (mem_read m (seg_vaddr (segs_single srcsegs)) (unat len))
     else copy_from_segments_bytes_loop (seg_array srcsegs) len m)"

definition omx__alloc_setup_isend_tiny :: "pid \<Rightarrow> rid \<Rightarrow> omx_endpoint \<Rightarrow> omx_endpoint option" where
  "omx__alloc_setup_isend_tiny p r ep = do {
     let len = st_msg_length (status (reqs ep r));
     let pt = partners ep p;
     let ep = upd_req r (\<lambda>rq. rq\<lparr>send_tiny_ioctl_param := (send_tiny_ioctl_param rq)\<lparr>
       tiny_peer_index := p_peer_index pt, tiny_dest_endpoint := p_endpoint_index pt,
       tiny_shared := omx__partner_localization_shared pt, tiny_match_info := st_match_info (status rq),
       tiny_length := ucast len, tiny_session_id := true_session_id pt\<rparr>\<rparr>) ep;
     bytes \<leftarrow> copy_from_segments_bytes (segs (reqs ep r)) len (mem ep);
     let ep = upd_req r (\<lambda>rq. rq\<lparr>send_tiny_ioctl_param := (send_tiny_ioctl_param rq)\<lparr>tiny_data := bytes\<rparr>\<rparr>) ep;
     (if throttled ep p then Some (throttle p r ep) else omx__setup_isend_tiny p r ep)
   }"

definition omx__submit_isend_tiny :: "pid \<Rightarrow> rid \<Rightarrow> omx_endpoint \<Rightarrow> omx_endpoint option" where
  "omx__submit_isend_tiny p r ep =
    (let len = segs_total_length (segs (reqs ep r));
         ep = upd_req r (\<lambda>rq. rq\<lparr>rtype := OMX_REQUEST_TYPE_SEND_TINY\<rparr>) ep;
         ep = set_lengths r len ep
     in if need_resources_send_req_q ep = [] then omx__alloc_setup_isend_tiny p r ep
        else Some (delay_send r ep))"

subsection \<open>Small messages\<close>

definition omx__post_isend_small :: "pid \<Rightarrow> rid \<Rightarrow> omx_endpoint \<Rightarrow> omx_endpoint option" where
  "omx__post_isend_small p r ep =
    (let ack_upto = omx__get_partner_needed_ack ep p;
         ep = upd_req r (\<lambda>rq. rq\<lparr>send_small_ioctl_param := (send_small_ioctl_param rq)\<lparr>small_piggyack := ack_upto\<rparr>\<rparr>) ep;
         (err, ep) = ioctl (OMX_CMD_SEND_SMALL (send_small_ioctl_param (reqs ep r))) ep
     in do { _ \<leftarrow> ioctl_checked [OMX_NO_SYSTEM_RESOURCES] err; Some (posted p r (err = None) ep) })"

definition omx__setup_isend_small :: "pid \<Rightarrow> rid \<Rightarrow> omx_endpoint \<Rightarrow> omx_endpoint option" where
  "omx__setup_isend_small p r ep = do {
     let ctxid = status_ctxid ep r;
     let ep = take_seqnum p r ep;
     let ep = upd_req r (\<lambda>rq. rq\<lparr>send_small_ioctl_param := (send_small_ioctl_param rq)\<lparr>small_seqnum := send_seqnum rq\<rparr>\<rparr>) ep;
     ep \<leftarrow> omx__post_isend_small p r ep;
     let ep = upd_req r (set_state_flag OMX_REQUEST_STATE_NEED_ACK) ep;
     let ep = omx__enqueue_non_acked p r ep;
     omx__notify_request_done_early ctxid r ep
   }"

definition small_set_vaddr :: "rid \<Rightarrow> u64 \<Rightarrow> omx_endpoint \<Rightarrow> omx_endpoint" where
  "small_set_vaddr r a = upd_req r (\<lambda>rq. rq\<lparr>send_small_ioctl_param := (send_small_ioctl_param rq)\<lparr>small_vaddr := a\<rparr>\<rparr>)"

text \<open>It always returns \<^verbatim>\<open>OMX_SUCCESS\<close>.\<close>

definition omx__alloc_setup_isend_small :: "pid \<Rightarrow> rid \<Rightarrow> omx_endpoint \<Rightarrow> omx_endpoint option" where
  "omx__alloc_setup_isend_small p r ep = do {
     let len = st_msg_length (status (reqs ep r));
     let copy = small_copy (reqs ep r);
     let sg = segs (reqs ep r);
     let pt = partners ep p;
     let ep = upd_req r (\<lambda>rq. rq\<lparr>send_small_ioctl_param := (send_small_ioctl_param rq)\<lparr>
       small_peer_index := p_peer_index pt, small_dest_endpoint := p_endpoint_index pt,
       small_shared := omx__partner_localization_shared pt, small_match_info := st_match_info (status rq),
       small_length := ucast len, small_session_id := true_session_id pt\<rparr>\<rparr>) ep;
     ep \<leftarrow> (if segs_nseg sg = 1 then Some (small_set_vaddr r (seg_vaddr (segs_single sg)) ep)
            else do {
              m \<leftarrow> omx_copy_from_segments copy sg len (mem ep);
              Some (small_set_vaddr r copy (ep\<lparr>mem := m\<rparr>))
            });
     ep \<leftarrow> (if throttled ep p then Some (throttle p r ep) else omx__setup_isend_small p r ep);
     (if segs_nseg sg = 1 then do {
        m \<leftarrow> omx_copy_from_segments copy sg len (mem ep);
        Some (small_set_vaddr r copy (ep\<lparr>mem := m\<rparr>))
      }
      else Some ep)
   }"

definition omx__submit_isend_small :: "pid \<Rightarrow> rid \<Rightarrow> omx_endpoint \<Rightarrow> omx_endpoint option" where
  "omx__submit_isend_small p r ep =
    (let len = segs_total_length (segs (reqs ep r));
         ep = upd_req r (\<lambda>rq. rq\<lparr>rtype := OMX_REQUEST_TYPE_SEND_SMALL\<rparr>) ep;
         ep = set_lengths r len ep
     in if need_resources_send_req_q ep \<noteq> [] then Some (delay_send r ep)
        else omx__alloc_setup_isend_small p r ep)"

subsection \<open>Medium messages from the user's memory\<close>

definition omx__post_isend_mediumva :: "pid \<Rightarrow> rid \<Rightarrow> omx_endpoint \<Rightarrow> omx_endpoint option" where
  "omx__post_isend_mediumva p r ep =
    (let ack_upto = omx__get_partner_needed_ack ep p;
         ep = upd_req r (\<lambda>rq. rq\<lparr>send_mediumva_ioctl_param := (send_mediumva_ioctl_param rq)\<lparr>mva_piggyack := ack_upto\<rparr>\<rparr>) ep;
         (err, ep) = ioctl (OMX_CMD_SEND_MEDIUMVA (send_mediumva_ioctl_param (reqs ep r))) ep
     in do { _ \<leftarrow> ioctl_checked [OMX_NO_SYSTEM_RESOURCES] err; Some (posted p r (err = None) ep) })"

definition omx__setup_isend_mediumva :: "pid \<Rightarrow> rid \<Rightarrow> omx_endpoint \<Rightarrow> omx_endpoint option" where
  "omx__setup_isend_mediumva p r ep = do {
     let ep = take_seqnum p r ep;
     let ep = upd_req r (\<lambda>rq. rq\<lparr>send_mediumva_ioctl_param := (send_mediumva_ioctl_param rq)\<lparr>mva_seqnum := send_seqnum rq\<rparr>\<rparr>) ep;
     ep \<leftarrow> omx__post_isend_mediumva p r ep;
     let ep = upd_req r (set_state_flag OMX_REQUEST_STATE_NEED_ACK) ep;
     Some (omx__enqueue_non_acked p r ep)
   }"

text \<open>It always returns \<^verbatim>\<open>OMX_SUCCESS\<close>.\<close>

definition omx__alloc_setup_isend_mediumva :: "pid \<Rightarrow> rid \<Rightarrow> omx_endpoint \<Rightarrow> omx_endpoint option" where
  "omx__alloc_setup_isend_mediumva p r ep =
    (let len = st_msg_length (status (reqs ep r));
         pt = partners ep p;
         ep = upd_req r (\<lambda>rq. rq\<lparr>send_mediumva_ioctl_param := (send_mediumva_ioctl_param rq)\<lparr>
           mva_peer_index := p_peer_index pt, mva_dest_endpoint := p_endpoint_index pt,
           mva_shared := omx__partner_localization_shared pt, mva_match_info := st_match_info (status rq),
           mva_session_id := true_session_id pt, mva_length := len, mva_nr_segments := segs_nseg (segs rq),
           mva_segments := segs_segs (segs rq)\<rparr>\<rparr>) ep
     in if throttled ep p then Some (throttle p r ep) else omx__setup_isend_mediumva p r ep)"

subsection \<open>Medium messages through the send queue\<close>

definition sendq_slot :: "omx_endpoint \<Rightarrow> u16 \<Rightarrow> u64" where
  "sendq_slot ep index = sendq ep + push_bit OMX_SENDQ_ENTRY_SHIFT (ucast index)"

definition frag_chunk :: "u32 \<Rightarrow> u32" where
  "frag_chunk remaining = (if remaining > OMX_MEDIUM_FRAG_LENGTH_MAX then OMX_MEDIUM_FRAG_LENGTH_MAX else remaining)"

definition mediumsq_set_frag :: "rid \<Rightarrow> u32 \<Rightarrow> u32 \<Rightarrow> u16 \<Rightarrow> omx_endpoint \<Rightarrow> omx_endpoint" where
  "mediumsq_set_frag r i chunk index = upd_req r (\<lambda>rq. rq\<lparr>send_mediumsq_frag_ioctl_param :=
    (send_mediumsq_frag_ioctl_param rq)\<lparr>msq_frag_length := ucast chunk, msq_frag_seqnum := ucast i,
      msq_sendq_offset := push_bit OMX_SENDQ_ENTRY_SHIFT (ucast index)\<rparr>\<rparr>)"

text \<open>
  The loops that finish copying the fragments after a failed \<^verbatim>\<open>ioctl\<close>. They increment \<^verbatim>\<open>i\<close> instead of \<^verbatim>\<open>j\<close>,
  so with a fragment left they do not end. The result is the last \<^verbatim>\<open>i\<close> and the memory.
\<close>

partial_function (option) mediumsq_finish_contig ::
  "omx_endpoint \<Rightarrow> u32 \<Rightarrow> u16 list \<Rightarrow> u64 \<Rightarrow> u32 \<Rightarrow> u32 \<Rightarrow> u32 \<Rightarrow> u32 \<Rightarrow> memory \<Rightarrow> (u32 \<times> memory) option" where
  "mediumsq_finish_contig ep nr idx data j i remaining off m =
    (if j < nr then
       (if unat j < length idx then
          (let chunk = frag_chunk remaining;
               m = memcpy (sendq_slot ep (idx ! unat j)) (data + ucast off) (ucast chunk) m
           in mediumsq_finish_contig ep nr idx data j (i + 1) (remaining - chunk) (off + chunk) m)
        else None)
     else Some (i, m))"

partial_function (option) mediumsq_finish_vect ::
  "omx_endpoint \<Rightarrow> u32 \<Rightarrow> u16 list \<Rightarrow> omx__req_segs \<Rightarrow> u32 \<Rightarrow> u32 \<Rightarrow> u32 \<Rightarrow> omx_segscan_state \<Rightarrow> memory \<Rightarrow>
    (u32 \<times> memory) option" where
  "mediumsq_finish_vect ep nr idx sg j i remaining st m =
    (if j < nr then
       (if unat j < length idx then
          (let chunk = frag_chunk remaining in
           do {
             (m, st) \<leftarrow> omx_continue_partial_copy_from_segments (sendq_slot ep (idx ! unat j)) sg chunk st m;
             mediumsq_finish_vect ep nr idx sg j (i + 1) (remaining - chunk) st m
           })
        else None)
     else Some (i, m))"

text \<open>
  The loops over the fragments, \<open>k\<close> of which are left. They return the error of the \<^verbatim>\<open>ioctl\<close> that failed, if
  any, the value of \<^verbatim>\<open>i\<close> after the loop, and the endpoint.
\<close>

fun mediumsq_post_contig ::
  "rid \<Rightarrow> u16 list \<Rightarrow> u64 \<Rightarrow> nat \<Rightarrow> u32 \<Rightarrow> u32 \<Rightarrow> u32 \<Rightarrow> omx_endpoint \<Rightarrow> (omx_errno option \<times> u32 \<times> omx_endpoint) option" where
  "mediumsq_post_contig r idx data 0 i remaining off ep = Some (None, i, ep)"
| "mediumsq_post_contig r idx data (Suc k) i remaining off ep =
    (if unat i < length idx then
       (let chunk = frag_chunk remaining;
            ep = mediumsq_set_frag r i chunk (idx ! unat i) ep;
            ep = (if resends (reqs ep r) = 0
                  then ep\<lparr>mem := memcpy (sendq_slot ep (idx ! unat i)) (data + ucast off) (ucast chunk) (mem ep)\<rparr> else ep);
            (err, ep) = ioctl (OMX_CMD_SEND_MEDIUMSQ_FRAG (send_mediumsq_frag_ioctl_param (reqs ep r))) ep
        in case err of
             Some e \<Rightarrow>
               (if resends (reqs ep r) = 0 then do {
                  (i, m) \<leftarrow> mediumsq_finish_contig ep (frags_nr (reqs ep r)) idx data (i + 1) i remaining off (mem ep);
                  Some (Some e, i, ep\<lparr>mem := m\<rparr>)
                }
                else Some (Some e, i, ep))
           | None \<Rightarrow> mediumsq_post_contig r idx data k (i + 1) (remaining - chunk) (off + chunk) ep)
     else None)"

fun mediumsq_post_vect ::
  "rid \<Rightarrow> u16 list \<Rightarrow> omx__req_segs \<Rightarrow> nat \<Rightarrow> u32 \<Rightarrow> u32 \<Rightarrow> omx_segscan_state \<Rightarrow> omx_endpoint \<Rightarrow>
    (omx_errno option \<times> u32 \<times> omx_endpoint) option" where
  "mediumsq_post_vect r idx sg 0 i remaining st ep = Some (None, i, ep)"
| "mediumsq_post_vect r idx sg (Suc k) i remaining st ep =
    (if unat i < length idx then
       (let chunk = frag_chunk remaining;
            ep = mediumsq_set_frag r i chunk (idx ! unat i) ep
        in do {
          (ep, st) \<leftarrow> (if resends (reqs ep r) = 0 then do {
                (m, st) \<leftarrow> omx_continue_partial_copy_from_segments (sendq_slot ep (idx ! unat i)) sg chunk st (mem ep);
                Some (ep\<lparr>mem := m\<rparr>, st)
              }
              else Some (ep, st));
          let (err, ep) = ioctl (OMX_CMD_SEND_MEDIUMSQ_FRAG (send_mediumsq_frag_ioctl_param (reqs ep r))) ep;
          (case err of
             Some e \<Rightarrow>
               (if resends (reqs ep r) = 0 then do {
                  (i, m) \<leftarrow> mediumsq_finish_vect ep (frags_nr (reqs ep r)) idx sg (i + 1) i remaining st (mem ep);
                  Some (Some e, i, ep\<lparr>mem := m\<rparr>)
                }
                else Some (Some e, i, ep))
           | None \<Rightarrow> mediumsq_post_vect r idx sg k (i + 1) (remaining - chunk) st ep)
        })
     else None)"

definition mediumsq_posted :: "pid \<Rightarrow> rid \<Rightarrow> omx_endpoint \<Rightarrow> omx_endpoint" where
  "mediumsq_posted p r ep =
    (let ep = upd_req r (\<lambda>rq. rq\<lparr>resends := resends rq + 1\<rparr>) ep;
         ep = upd_req r (\<lambda>rq. rq\<lparr>last_send_jiffies := jiffies (driver_desc ep)\<rparr>) ep;
         ep = upd_req r (set_state_flag OMX_REQUEST_STATE_DRIVER_MEDIUMSQ_SENDING) ep
     in omx__mark_partner_ack_sent p ep)"

definition omx__post_isend_mediumsq :: "pid \<Rightarrow> rid \<Rightarrow> omx_endpoint \<Rightarrow> omx_endpoint option" where
  "omx__post_isend_mediumsq p r ep = do {
     let ack_upto = omx__get_partner_needed_ack ep p;
     let len = st_msg_length (status (reqs ep r));
     let idx = sendq_map_index (reqs ep r);
     let nr = frags_nr (reqs ep r);
     let sg = segs (reqs ep r);
     let ep = upd_req r (\<lambda>rq. rq\<lparr>send_mediumsq_frag_ioctl_param := (send_mediumsq_frag_ioctl_param rq)\<lparr>msq_piggyack := ack_upto\<rparr>\<rparr>) ep;
     (err, i, ep) \<leftarrow> (if segs_nseg sg = 1
       then mediumsq_post_contig r idx (seg_vaddr (segs_single sg)) (unat nr) 0 len 0 ep
       else mediumsq_post_vect r idx sg (unat nr) 0 len \<lparr>scan_seg = 0, scan_off = 0\<rparr> ep);
     (case err of
        None \<Rightarrow> (let ep = upd_req r (\<lambda>rq. rq\<lparr>frags_pending_nr := nr\<rparr>) ep in Some (mediumsq_posted p r ep))
      | Some e \<Rightarrow> do {
          _ \<leftarrow> omx__ioctl_errno_to_return_checked [OMX_NO_SYSTEM_RESOURCES] e;
          let ep = upd_req r (\<lambda>rq. rq\<lparr>frags_pending_nr := i\<rparr>) ep;
          let ep = ep\<lparr>avail_exp_events := avail_exp_events ep + (nr - i)\<rparr>;
          (if i \<noteq> 0 then Some (mediumsq_posted p r ep) else Some ep)
        })
   }"

definition omx__setup_isend_mediumsq :: "pid \<Rightarrow> rid \<Rightarrow> omx_endpoint \<Rightarrow> omx_endpoint option" where
  "omx__setup_isend_mediumsq p r ep = do {
     let ctxid = status_ctxid ep r;
     let ep = take_seqnum p r ep;
     let ep = upd_req r (\<lambda>rq. rq\<lparr>send_mediumsq_frag_ioctl_param := (send_mediumsq_frag_ioctl_param rq)\<lparr>msq_seqnum := send_seqnum rq\<rparr>\<rparr>) ep;
     ep \<leftarrow> omx__post_isend_mediumsq p r ep;
     let ep = upd_req r (set_state_flag OMX_REQUEST_STATE_NEED_ACK) ep;
     let ep = (if OMX_REQUEST_STATE_DRIVER_MEDIUMSQ_SENDING \<in> state (reqs ep r)
               then ep\<lparr>driver_mediumsq_sending_req_q := driver_mediumsq_sending_req_q ep @ [r]\<rparr>
               else ep\<lparr>non_acked_req_q := non_acked_req_q ep @ [r]\<rparr>);
     let ep = upd_partner p (\<lambda>pt. pt\<lparr>p_non_acked_req_q := p_non_acked_req_q pt @ [r]\<rparr>) ep;
     omx__notify_request_done_early ctxid r ep
   }"

text \<open>Past the array of slot indexes in the request, the slots are written over other memory.\<close>

definition omx__alloc_setup_isend_mediumsq :: "pid \<Rightarrow> rid \<Rightarrow> omx_endpoint \<Rightarrow> (omx_return \<times> omx_endpoint) option" where
  "omx__alloc_setup_isend_mediumsq p r ep =
    (let len = st_msg_length (status (reqs ep r));
         res = missing_resources (reqs ep r);
         nr = frags_nr (reqs ep r);
         pt = partners ep p
     in if res \<inter> {OMX_REQUEST_RESOURCE_EXP_EVENT, OMX_REQUEST_RESOURCE_SENDQ_SLOT} = {} then None
        else if OMX_REQUEST_RESOURCE_EXP_EVENT \<in> res \<and> avail_exp_events ep < nr
        then Some (OMX_INTERNAL_MISSING_RESOURCES, ep)
        else
          (let ep = (if OMX_REQUEST_RESOURCE_EXP_EVENT \<in> res then
                 (let ep = ep\<lparr>avail_exp_events := avail_exp_events ep - nr\<rparr>
                  in upd_req r (\<lambda>rq. rq\<lparr>missing_resources := missing_resources rq - {OMX_REQUEST_RESOURCE_EXP_EVENT}\<rparr>) ep)
               else ep)
           in do {
             (founds, mp) \<leftarrow> omx__endpoint_sendq_map_get (unat nr) r (sendq_map ep);
             (case founds of
                None \<Rightarrow> Some (OMX_INTERNAL_MISSING_RESOURCES, ep\<lparr>sendq_map := mp\<rparr>)
              | Some idx \<Rightarrow>
                  if length idx > OMX_MEDIUM_FRAGS_MAX then None
                  else do {
                    let ep = ep\<lparr>sendq_map := mp\<rparr>;
                    let ep = upd_req r (\<lambda>rq. rq\<lparr>sendq_map_index := idx,
                      missing_resources := missing_resources rq - {OMX_REQUEST_RESOURCE_SENDQ_SLOT}\<rparr>) ep;
                    let ep = upd_req r (\<lambda>rq. rq\<lparr>send_mediumsq_frag_ioctl_param := (send_mediumsq_frag_ioctl_param rq)\<lparr>
                      msq_peer_index := p_peer_index pt, msq_dest_endpoint := p_endpoint_index pt,
                      msq_shared := omx__partner_localization_shared pt, msq_match_info := st_match_info (status rq),
                      msq_msg_length := len, msq_session_id := true_session_id pt\<rparr>\<rparr>) ep;
                    ep \<leftarrow> (if throttled ep p then Some (throttle p r ep) else omx__setup_isend_mediumsq p r ep);
                    Some (OMX_SUCCESS, ep)
                  })
           }))"

definition omx__submit_isend_medium :: "pid \<Rightarrow> rid \<Rightarrow> omx_endpoint \<Rightarrow> omx_endpoint option" where
  "omx__submit_isend_medium p r ep =
    (let len = segs_total_length (segs (reqs ep r));
         use_sendq = g_medium_sendq (globals ep);
         ep = (if use_sendq then
             upd_req r (\<lambda>rq. rq\<lparr>rtype := OMX_REQUEST_TYPE_SEND_MEDIUMSQ, missing_resources := OMX_REQUEST_SEND_MEDIUMSQ_RESOURCES,
               frags_nr := (len + OMX_MEDIUM_FRAG_LENGTH_MAX - 1) div OMX_MEDIUM_FRAG_LENGTH_MAX\<rparr>) ep
           else upd_req r (\<lambda>rq. rq\<lparr>rtype := OMX_REQUEST_TYPE_SEND_MEDIUMVA\<rparr>) ep);
         ep = set_lengths r len ep
     in if need_resources_send_req_q ep \<noteq> [] then Some (delay_send r ep)
        else if use_sendq then do {
          (ret, ep) \<leftarrow> omx__alloc_setup_isend_mediumsq p r ep;
          Some (if ret \<noteq> OMX_SUCCESS then delay_send r ep else ep)
        }
        else omx__alloc_setup_isend_mediumva p r ep)"

subsection \<open>Large messages\<close>

definition omx__post_isend_rndv :: "pid \<Rightarrow> rid \<Rightarrow> omx_endpoint \<Rightarrow> omx_endpoint option" where
  "omx__post_isend_rndv p r ep =
    (let ack_upto = omx__get_partner_needed_ack ep p;
         ep = upd_req r (\<lambda>rq. rq\<lparr>send_rndv_ioctl_param := (send_rndv_ioctl_param rq)\<lparr>rndv_piggyack := ack_upto\<rparr>\<rparr>) ep;
         (err, ep) = ioctl (OMX_CMD_SEND_RNDV (send_rndv_ioctl_param (reqs ep r))) ep
     in do {
       ret \<leftarrow> ioctl_checked [OMX_NO_SYSTEM_RESOURCES, OMX_INTERNAL_MISC_EFAULT] err;
       _ \<leftarrow> omx__check_driver_pinning_error ret;
       Some (posted p r (err = None) ep)
     })"

definition omx__setup_isend_rndv :: "pid \<Rightarrow> rid \<Rightarrow> omx_endpoint \<Rightarrow> omx_endpoint option" where
  "omx__setup_isend_rndv p r ep = do {
     let ep = take_seqnum p r ep;
     let ep = upd_req r (\<lambda>rq. rq\<lparr>send_rndv_ioctl_param := (send_rndv_ioctl_param rq)\<lparr>rndv_seqnum := send_seqnum rq\<rparr>\<rparr>) ep;
     ep \<leftarrow> omx__post_isend_rndv p r ep;
     let ep = upd_req r (\<lambda>rq. rq\<lparr>state := state rq \<union> {OMX_REQUEST_STATE_NEED_REPLY, OMX_REQUEST_STATE_NEED_ACK}\<rparr>) ep;
     Some (omx__enqueue_non_acked p r ep)
   }"

definition large_setup :: "pid \<Rightarrow> rid \<Rightarrow> nat \<Rightarrow> omx_endpoint \<Rightarrow> omx_endpoint option" where
  "large_setup p r i ep =
    (let pt = partners ep p;
         len = st_msg_length (status (reqs ep r));
         ep = upd_req r (\<lambda>rq. rq\<lparr>missing_resources := missing_resources rq - {OMX_REQUEST_RESOURCE_LARGE_REGION}\<rparr>) ep;
         ep = upd_req r (\<lambda>rq. rq\<lparr>region := i, region_seqnum := reg_last_seqnum (region_of ep i)\<rparr>) ep;
         ep = upd_region i (\<lambda>rg. rg\<lparr>reg_last_seqnum := reg_last_seqnum rg + 1\<rparr>) ep;
         ep = upd_req r (\<lambda>rq. rq\<lparr>send_rndv_ioctl_param := (send_rndv_ioctl_param rq)\<lparr>
           rndv_peer_index := p_peer_index pt, rndv_dest_endpoint := p_endpoint_index pt,
           rndv_shared := omx__partner_localization_shared pt, rndv_match_info := st_match_info (status rq),
           rndv_session_id := true_session_id pt, rndv_msg_length := len,
           rndv_pulled_rdma_id := reg_id (region_of ep i), rndv_pulled_rdma_seqnum := region_seqnum rq\<rparr>\<rparr>) ep
     in if throttled ep p then Some (throttle p r ep) else omx__setup_isend_rndv p r ep)"

definition omx__alloc_setup_isend_large :: "pid \<Rightarrow> rid \<Rightarrow> omx_endpoint \<Rightarrow> (omx_return \<times> omx_endpoint) option" where
  "omx__alloc_setup_isend_large p r ep =
    (let res = missing_resources (reqs ep r) in
     if res \<inter> {OMX_REQUEST_RESOURCE_SEND_LARGE_REGION, OMX_REQUEST_RESOURCE_LARGE_REGION} = {} then None
     else if OMX_REQUEST_RESOURCE_SEND_LARGE_REGION \<in> res \<and> large_sends_avail_nr ep = 0
     then Some (OMX_INTERNAL_MISSING_RESOURCES, ep)
     else
       (let ep = (if OMX_REQUEST_RESOURCE_SEND_LARGE_REGION \<in> res then
              (let ep = upd_req r (\<lambda>rq. rq\<lparr>missing_resources := missing_resources rq - {OMX_REQUEST_RESOURCE_SEND_LARGE_REGION}\<rparr>) ep
               in ep\<lparr>large_sends_avail_nr := large_sends_avail_nr ep - 1\<rparr>)
            else ep)
        in do {
          (got, ep) \<leftarrow> omx__get_region (segs (reqs ep r)) (Some r) ep;
          (case got of
             Inl ret \<Rightarrow> Some (ret, ep)
           | Inr i \<Rightarrow> do { ep \<leftarrow> large_setup p r i ep; Some (OMX_SUCCESS, ep) })
        }))"

definition omx__submit_isend_large :: "pid \<Rightarrow> rid \<Rightarrow> omx_endpoint \<Rightarrow> omx_endpoint option" where
  "omx__submit_isend_large p r ep =
    (let len = segs_total_length (segs (reqs ep r));
         ep = upd_req r (\<lambda>rq. rq\<lparr>rtype := OMX_REQUEST_TYPE_SEND_LARGE, missing_resources := OMX_REQUEST_SEND_LARGE_RESOURCES,
           status := (status rq)\<lparr>st_msg_length := len\<rparr>\<rparr>) ep
     in if need_resources_send_req_q ep \<noteq> [] then Some (delay_send r ep)
        else do {
          (ret, ep) \<leftarrow> omx__alloc_setup_isend_large p r ep;
          Some (if ret \<noteq> OMX_SUCCESS then delay_send r ep else ep)
        })"

subsection \<open>Notifies\<close>

definition omx__post_notify :: "pid \<Rightarrow> rid \<Rightarrow> omx_endpoint \<Rightarrow> omx_endpoint option" where
  "omx__post_notify p r ep =
    (let ack_upto = omx__get_partner_needed_ack ep p;
         ep = upd_req r (\<lambda>rq. rq\<lparr>send_notify_ioctl_param := (send_notify_ioctl_param rq)\<lparr>notify_piggyack := ack_upto\<rparr>\<rparr>) ep;
         (err, ep) = ioctl (OMX_CMD_SEND_NOTIFY (send_notify_ioctl_param (reqs ep r))) ep
     in do { _ \<leftarrow> ioctl_checked [OMX_NO_SYSTEM_RESOURCES] err; Some (posted p r (err = None) ep) })"

definition omx__setup_notify :: "pid \<Rightarrow> rid \<Rightarrow> omx_endpoint \<Rightarrow> omx_endpoint option" where
  "omx__setup_notify p r ep = do {
     let ctxid = status_ctxid ep r;
     let ep = take_seqnum p r ep;
     let ep = upd_req r (\<lambda>rq. rq\<lparr>send_notify_ioctl_param := (send_notify_ioctl_param rq)\<lparr>notify_seqnum := send_seqnum rq\<rparr>\<rparr>) ep;
     ep \<leftarrow> omx__post_notify p r ep;
     let ep = upd_req r (set_state_flag OMX_REQUEST_STATE_NEED_ACK) ep;
     let ep = omx__enqueue_non_acked p r ep;
     omx__notify_request_done_early ctxid r ep
   }"

definition omx__alloc_setup_notify :: "rid \<Rightarrow> omx_endpoint \<Rightarrow> omx_endpoint option" where
  "omx__alloc_setup_notify r ep =
    (let p = rpartner (reqs ep r);
         pt = partners ep p;
         ep = upd_req r (\<lambda>rq. rq\<lparr>send_notify_ioctl_param := (send_notify_ioctl_param rq)\<lparr>
           notify_peer_index := p_peer_index pt, notify_dest_endpoint := p_endpoint_index pt,
           notify_shared := omx__partner_localization_shared pt, notify_total_length := st_xfer_length (status rq),
           notify_session_id := back_session_id pt, notify_pulled_rdma_id := pulled_rdma_id rq,
           notify_pulled_rdma_seqnum := pulled_rdma_seqnum rq\<rparr>\<rparr>) ep
     in if throttled ep p then Some (throttle p r ep) else omx__setup_notify p r ep)"

definition omx__submit_notify :: "rid \<Rightarrow> bool \<Rightarrow> omx_endpoint \<Rightarrow> omx_endpoint option" where
  "omx__submit_notify r delayed ep =
    (if need_resources_send_req_q ep \<noteq> [] \<or> delayed then
       (let ep = upd_req r (set_state_flag OMX_REQUEST_STATE_NEED_RESOURCES) ep
        in Some (ep\<lparr>need_resources_send_req_q := r # need_resources_send_req_q ep\<rparr>))
     else omx__alloc_setup_notify r ep)"

subsection \<open>Throttled sends\<close>

fun setup_throttled :: "pid \<Rightarrow> rid \<Rightarrow> omx_endpoint \<Rightarrow> omx_endpoint option" where
  "setup_throttled p r ep =
    (case rtype (reqs ep r) of
       OMX_REQUEST_TYPE_SEND_TINY \<Rightarrow> omx__setup_isend_tiny p r ep
     | OMX_REQUEST_TYPE_SEND_SMALL \<Rightarrow> omx__setup_isend_small p r ep
     | OMX_REQUEST_TYPE_SEND_MEDIUMSQ \<Rightarrow> omx__setup_isend_mediumsq p r ep
     | OMX_REQUEST_TYPE_SEND_MEDIUMVA \<Rightarrow> omx__setup_isend_mediumva p r ep
     | OMX_REQUEST_TYPE_SEND_LARGE \<Rightarrow> omx__setup_isend_rndv p r ep
     | OMX_REQUEST_TYPE_RECV_LARGE \<Rightarrow> omx__setup_notify p r ep
     | _ \<Rightarrow> None)"

text \<open>The loop, \<open>k\<close> more requests of which may be sent: the number of requests sent.\<close>

fun throttling_loop :: "pid \<Rightarrow> nat \<Rightarrow> nat \<Rightarrow> omx_endpoint \<Rightarrow> (nat \<times> omx_endpoint) option" where
  "throttling_loop p 0 sent ep = Some (sent, ep)"
| "throttling_loop p (Suc k) sent ep =
    (case p_need_seqnum_send_req_q (partners ep p) of
       [] \<Rightarrow> Some (sent, ep)
     | r # rs \<Rightarrow> do {
         let ep = upd_partner p (\<lambda>pt. pt\<lparr>p_need_seqnum_send_req_q := rs\<rparr>) ep;
         let ep = upd_req r (clear_state_flag OMX_REQUEST_STATE_NEED_SEQNUM) ep;
         ep \<leftarrow> setup_throttled p r ep;
         throttling_loop p k (Suc sent) ep
       })"

definition omx__process_throttling_requests :: "pid \<Rightarrow> nat \<Rightarrow> omx_endpoint \<Rightarrow> omx_endpoint option" where
  "omx__process_throttling_requests p nr ep = do {
     (sent, ep) \<leftarrow> throttling_loop p nr 0 ep;
     Some (omx__update_partner_throttling p sent ep)
   }"

end
