(* ===== verification/Ack.thy ===== *)
theory Ack
  imports Send
begin

text \<open>
  Acks (\<^verbatim>\<open>libopen-mx/omx_ack.c\<close>): what an ack or a nack does to a request, received acks, and the acks to
  send back; with the completion of receives (\<^verbatim>\<open>omx_recv.c\<close>), of connects (\<^verbatim>\<open>omx_partner.c\<close>) and of requests
  that were never sent (\<^verbatim>\<open>omx_send.c\<close>).

  Unlinking a request from \<^verbatim>\<open>non_acked_req_q\<close> or \<^verbatim>\<open>connect_req_q\<close> takes it off \<^verbatim>\<open>tmp_req_q\<close> when that is where it is.
\<close>

subsection \<open>Completion\<close>

definition omx__recv_complete :: "rid \<Rightarrow> omx_return \<Rightarrow> omx_endpoint \<Rightarrow> omx_endpoint option" where
  "omx__recv_complete r ret ep = do {
     let ctxid = status_ctxid ep r;
     ep \<leftarrow> (if st_code (status (reqs ep r)) = OMX_SUCCESS then
              (if ret = OMX_SUCCESS then
                 (if st_xfer_length (status (reqs ep r)) < st_msg_length (status (reqs ep r)) then do {
                    code \<leftarrow> omx__error_with_req ep r OMX_MESSAGE_TRUNCATED;
                    Some (upd_req r (\<lambda>rq. rq\<lparr>status := (status rq)\<lparr>st_code := code\<rparr>\<rparr>) ep)
                  }
                  else Some ep)
               else do {
                 code \<leftarrow> omx__error_with_req ep r ret;
                 Some (upd_req r (\<lambda>rq. rq\<lparr>status := (status rq)\<lparr>st_code := code\<rparr>\<rparr>) ep)
               })
            else Some ep);
     let ep = omx_free_segments (segs (reqs ep r)) ep;
     Some (omx__notify_request_done ctxid r ep)
   }"

definition dequeue_non_acked :: "rid \<Rightarrow> omx_endpoint \<Rightarrow> omx_endpoint" where
  "dequeue_non_acked r ep =
    ep\<lparr>non_acked_req_q := remove1 r (non_acked_req_q ep), tmp_req_q := remove1 r (tmp_req_q ep)\<rparr>"

definition omx__connect_complete :: "rid \<Rightarrow> omx_return \<Rightarrow> u32 \<Rightarrow> omx_endpoint \<Rightarrow> omx_endpoint option" where
  "omx__connect_complete r ret session_id ep = do {
     let p = rpartner (reqs ep r);
     let ctxid = status_ctxid ep r;
     let ep = ep\<lparr>connect_req_q := remove1 r (connect_req_q ep), tmp_req_q := remove1 r (tmp_req_q ep)\<rparr>;
     let ep = upd_partner p (\<lambda>pt. pt\<lparr>p_connect_req_q := remove1 r (p_connect_req_q pt)\<rparr>) ep;
     let ep = upd_req r (clear_state_flag OMX_REQUEST_STATE_NEED_REPLY) ep;
     ep \<leftarrow> (if st_code (status (reqs ep r)) = OMX_SUCCESS then
              (if OMX_REQUEST_STATE_INTERNAL \<notin> state (reqs ep r) then do {
                 code \<leftarrow> omx__error_with_req ep r ret;
                 Some (upd_req r (\<lambda>rq. rq\<lparr>status := (status rq)\<lparr>st_code := code\<rparr>\<rparr>) ep)
               }
               else Some (upd_req r (\<lambda>rq. rq\<lparr>status := (status rq)\<lparr>st_code := ret\<rparr>\<rparr>) ep))
            else Some ep);
     let ep = (if ret = OMX_SUCCESS
               then upd_req r (\<lambda>rq. rq\<lparr>status := (status rq)\<lparr>st_addr := omx__partner_session_to_addr p session_id\<rparr>\<rparr>) ep
               else ep);
     Some (omx__notify_request_done ctxid r ep)
   }"

subsection \<open>Requests that were never sent\<close>

definition omx__release_unsent_send_resources :: "rid \<Rightarrow> omx_endpoint \<Rightarrow> omx_endpoint option" where
  "omx__release_unsent_send_resources r ep =
    (let res = missing_resources (reqs ep r) in
     case rtype (reqs ep r) of
       OMX_REQUEST_TYPE_SEND_MEDIUMSQ \<Rightarrow>
         (let ep = (if OMX_REQUEST_RESOURCE_EXP_EVENT \<notin> res
                    then ep\<lparr>avail_exp_events := avail_exp_events ep + frags_nr (reqs ep r)\<rparr> else ep)
          in Some (if OMX_REQUEST_RESOURCE_SENDQ_SLOT \<in> res then upd_req r (\<lambda>rq. rq\<lparr>frags_nr := 0\<rparr>) ep else ep))
     | OMX_REQUEST_TYPE_SEND_LARGE \<Rightarrow>
         (let ep = (if OMX_REQUEST_RESOURCE_SEND_LARGE_REGION \<notin> res
                    then ep\<lparr>large_sends_avail_nr := large_sends_avail_nr ep + 1\<rparr> else ep)
          in if OMX_REQUEST_RESOURCE_LARGE_REGION \<notin> res then omx__put_region (region (reqs ep r)) (Some r) ep else Some ep)
     | OMX_REQUEST_TYPE_RECV_LARGE \<Rightarrow>
         (if OMX_REQUEST_STATE_RECV_PARTIAL \<in> state (reqs ep r) then
            (let ep = (if OMX_REQUEST_RESOURCE_EXP_EVENT \<notin> res
                       then ep\<lparr>avail_exp_events := avail_exp_events ep + 1\<rparr> else ep)
             in if OMX_REQUEST_RESOURCE_LARGE_REGION \<notin> res then omx__put_region (local_region (reqs ep r)) None ep else Some ep)
          else Some ep)
     | _ \<Rightarrow> Some ep)"

definition omx__complete_unsent_send_request :: "rid \<Rightarrow> omx_endpoint \<Rightarrow> omx_endpoint option" where
  "omx__complete_unsent_send_request r ep =
    (if rtype (reqs ep r) \<in> {OMX_REQUEST_TYPE_SEND_TINY, OMX_REQUEST_TYPE_SEND_SMALL, OMX_REQUEST_TYPE_SEND_MEDIUMSQ,
         OMX_REQUEST_TYPE_SEND_MEDIUMVA, OMX_REQUEST_TYPE_SEND_LARGE} then do {
       ep \<leftarrow> omx__release_unsent_send_resources r ep;
       omx__send_complete r OMX_REMOTE_ENDPOINT_UNREACHABLE ep
     }
     else if rtype (reqs ep r) = OMX_REQUEST_TYPE_RECV_LARGE then do {
       ep \<leftarrow> (if OMX_REQUEST_STATE_RECV_PARTIAL \<in> state (reqs ep r)
              then Some (upd_req r (\<lambda>rq. rq\<lparr>state := state rq \<inter> {OMX_REQUEST_STATE_RECV_PARTIAL}\<rparr>) ep)
              else omx__release_unsent_send_resources r ep);
       omx__recv_complete r OMX_REMOTE_ENDPOINT_UNREACHABLE ep
     }
     else None)"

subsection \<open>Acking and nacking a request\<close>

definition omx__mark_request_acked :: "rid \<Rightarrow> omx_return \<Rightarrow> omx_endpoint \<Rightarrow> omx_endpoint option" where
  "omx__mark_request_acked r ret ep =
    (let ep = upd_req r (clear_state_flag OMX_REQUEST_STATE_NEED_ACK) ep in
     if rtype (reqs ep r) \<in> {OMX_REQUEST_TYPE_SEND_TINY, OMX_REQUEST_TYPE_SEND_SMALL, OMX_REQUEST_TYPE_SEND_MEDIUMVA} then
       omx__send_complete r ret (dequeue_non_acked r ep)
     else if rtype (reqs ep r) = OMX_REQUEST_TYPE_SEND_MEDIUMSQ then
       (if OMX_REQUEST_STATE_DRIVER_MEDIUMSQ_SENDING \<in> state (reqs ep r) then
          (if st_code (status (reqs ep r)) = OMX_SUCCESS then do {
             code \<leftarrow> omx__error_with_req ep r ret;
             Some (upd_req r (\<lambda>rq. rq\<lparr>status := (status rq)\<lparr>st_code := code\<rparr>\<rparr>) ep)
           }
           else Some ep)
        else omx__send_complete r ret (dequeue_non_acked r ep))
     else if rtype (reqs ep r) = OMX_REQUEST_TYPE_SEND_LARGE then
       (let ep = dequeue_non_acked r ep in
        if ret \<noteq> OMX_SUCCESS then do {
          let ep = upd_req r (clear_state_flag OMX_REQUEST_STATE_NEED_REPLY) ep;
          ep \<leftarrow> omx__put_region (region (reqs ep r)) (Some r) ep;
          let ep = ep\<lparr>large_sends_avail_nr := large_sends_avail_nr ep + 1\<rparr>;
          omx__send_complete r ret ep
        }
        else if OMX_REQUEST_STATE_NEED_REPLY \<in> state (reqs ep r) then
          Some (ep\<lparr>large_send_need_reply_req_q := large_send_need_reply_req_q ep @ [r]\<rparr>)
        else omx__send_complete r ret ep)
     else if rtype (reqs ep r) = OMX_REQUEST_TYPE_RECV_LARGE then
       omx__recv_complete r ret (dequeue_non_acked r ep)
     else None)"

subsection \<open>Received acks\<close>

text \<open>The index of a sequence number in the window that starts at the next one to be acked.\<close>

definition ack_index :: "omx_endpoint \<Rightarrow> pid \<Rightarrow> omx__seqnum_t \<Rightarrow> omx__seqnum_t" where
  "ack_index ep p seqnum = OMX__SEQNUM (seqnum - next_acked_send_seq (partners ep p))"

fun handle_ack_loop :: "pid \<Rightarrow> omx__seqnum_t \<Rightarrow> rid list \<Rightarrow> omx_endpoint \<Rightarrow> omx_endpoint option" where
  "handle_ack_loop p new_acks [] ep = Some ep"
| "handle_ack_loop p new_acks (r # rs) ep =
    (if ack_index ep p (send_seqnum (reqs ep r)) \<ge> new_acks then Some ep
     else do {
       let ep = upd_partner p (\<lambda>pt. pt\<lparr>p_non_acked_req_q := remove1 r (p_non_acked_req_q pt)\<rparr>) ep;
       ep \<leftarrow> omx__mark_request_acked r OMX_SUCCESS ep;
       handle_ack_loop p new_acks rs ep
     })"

definition omx__handle_ack :: "pid \<Rightarrow> omx__seqnum_t \<Rightarrow> omx_endpoint \<Rightarrow> omx_endpoint option" where
  "omx__handle_ack p ack_before ep =
    (let missing_acks = ack_index ep p (next_send_seq (partners ep p));
         new_acks = ack_index ep p ack_before
     in if new_acks = 0 \<or> new_acks > missing_acks then Some ep
        else do {
          ep \<leftarrow> handle_ack_loop p new_acks (p_non_acked_req_q (partners ep p)) ep;
          let ep = upd_partner p (\<lambda>pt. pt\<lparr>next_acked_send_seq := ack_before\<rparr>) ep;
          omx__process_throttling_requests p (unat new_acks) ep
        })"

definition omx__handle_liback :: "pid \<Rightarrow> omx_evt_recv_liback \<Rightarrow> omx_endpoint \<Rightarrow> omx_endpoint option" where
  "omx__handle_liback p liback ep =
    (let ack = lb_lib_seqnum liback;
         acknum = lb_acknum liback
     in if OMX__SESNUM (ack XOR next_send_seq (partners ep p)) \<noteq> 0 then Some ep
        else if acknum \<le> last_recv_acknum (partners ep p) then Some ep
        else omx__handle_ack p ack (upd_partner p (\<lambda>pt. pt\<lparr>last_recv_acknum := acknum\<rparr>) ep))"

subsection \<open>Received nacks\<close>

text \<open>The search through the non-acked requests: the request to nack, if any.\<close>

fun nack_find :: "omx_endpoint \<Rightarrow> pid \<Rightarrow> omx__seqnum_t \<Rightarrow> rid list \<Rightarrow> rid option" where
  "nack_find ep p nack_index [] = None"
| "nack_find ep p nack_index (r # rs) =
    (let req_index = ack_index ep p (send_seqnum (reqs ep r)) in
     if nack_index < req_index then None
     else if nack_index = req_index then Some r
     else nack_find ep p nack_index rs)"

definition omx__handle_nack :: "pid \<Rightarrow> omx__seqnum_t \<Rightarrow> omx_return \<Rightarrow> omx_endpoint \<Rightarrow> omx_endpoint option" where
  "omx__handle_nack p seqnum ret ep =
    (let nack_index = ack_index ep p seqnum;
         found = (if OMX__SESNUM (seqnum XOR next_send_seq (partners ep p)) \<noteq> 0 then None
                  else nack_find ep p nack_index (p_non_acked_req_q (partners ep p)))
     in case found of
          Some r \<Rightarrow>
            (let ep = upd_partner p (\<lambda>pt. pt\<lparr>p_non_acked_req_q := remove1 r (p_non_acked_req_q pt)\<rparr>) ep
             in omx__mark_request_acked r ret ep)
        | None \<Rightarrow>
            (case p_connect_req_q (partners ep p) of
               r # _ \<Rightarrow> omx__connect_complete r ret (-1) ep
             | [] \<Rightarrow> Some ep))"

subsection \<open>Acks to send\<close>

definition omx__submit_send_liback :: "pid \<Rightarrow> omx_endpoint \<Rightarrow> (omx_return \<times> omx_endpoint) option" where
  "omx__submit_send_liback p ep =
    (let ack_upto = omx__get_partner_needed_ack ep p;
         ep = upd_partner p (\<lambda>pt. pt\<lparr>last_send_acknum := last_send_acknum pt + 1\<rparr>) ep;
         pt = partners ep p;
         liback_param = \<lparr>liback_peer_index = p_peer_index pt, liback_dest_endpoint = p_endpoint_index pt,
           liback_shared = omx__partner_localization_shared pt, liback_session_id = back_session_id pt,
           liback_acknum = last_send_acknum pt, liback_lib_seqnum = ack_upto, liback_send_seq = ack_upto,
           liback_resent = False\<rparr>;
         (err, ep) = ioctl (OMX_CMD_SEND_LIBACK liback_param) ep
     in do { ret \<leftarrow> ioctl_checked [OMX_NO_SYSTEM_RESOURCES] err; Some (ret, ep) })"

fun ack_immediate_loop :: "pid list \<Rightarrow> omx_endpoint \<Rightarrow> omx_endpoint option" where
  "ack_immediate_loop [] ep = Some ep"
| "ack_immediate_loop (p # ps) ep = do {
     (ret, ep) \<leftarrow> omx__submit_send_liback p ep;
     (if ret \<noteq> OMX_SUCCESS then Some ep else ack_immediate_loop ps (omx__mark_partner_ack_sent p ep))
   }"

fun ack_delayed_loop :: "u64 \<Rightarrow> pid list \<Rightarrow> omx_endpoint \<Rightarrow> omx_endpoint option" where
  "ack_delayed_loop now [] ep = Some ep"
| "ack_delayed_loop now (p # ps) ep =
    (if now - oldest_recv_time_not_acked (partners ep p) < ucast (g_ack_delay_jiffies (globals ep)) then Some ep
     else do {
       (ret, ep) \<leftarrow> omx__submit_send_liback p ep;
       (if ret \<noteq> OMX_SUCCESS then Some ep else ack_delayed_loop now ps (omx__mark_partner_ack_sent p ep))
     })"

definition omx__process_partners_to_ack :: "omx_endpoint \<Rightarrow> omx_endpoint option" where
  "omx__process_partners_to_ack ep = do {
     let now = jiffies (driver_desc ep);
     ep \<leftarrow> ack_immediate_loop (partners_to_ack_immediate_list ep) ep;
     (if now = last_partners_acking_jiffies ep then Some ep
      else do {
        let ep = ep\<lparr>last_partners_acking_jiffies := now\<rparr>;
        ack_delayed_loop now (partners_to_ack_delayed_list ep) ep
      })
   }"

fun flush_acks_loop :: "pid list \<Rightarrow> omx_endpoint \<Rightarrow> omx_endpoint option" where
  "flush_acks_loop [] ep = Some ep"
| "flush_acks_loop (p # ps) ep = do {
     (ret, ep) \<leftarrow> omx__submit_send_liback p ep;
     flush_acks_loop ps (if ret \<noteq> OMX_SUCCESS then ep else omx__mark_partner_ack_sent p ep)
   }"

definition omx__flush_partners_to_ack :: "omx_endpoint \<Rightarrow> omx_endpoint option" where
  "omx__flush_partners_to_ack ep = flush_acks_loop (partners_to_ack_delayed_list ep) ep"

definition OMX_NO_WAKEUP_JIFFIES :: u64 where
  "OMX_NO_WAKEUP_JIFFIES = 0"

definition earlier_wakeup :: "u64 \<Rightarrow> u64 \<Rightarrow> u64" where
  "earlier_wakeup tmp wakeup_jiffies =
    (if tmp < wakeup_jiffies \<or> wakeup_jiffies = OMX_NO_WAKEUP_JIFFIES then tmp else wakeup_jiffies)"

definition omx__prepare_progress_wakeup :: "omx_endpoint \<Rightarrow> omx_endpoint" where
  "omx__prepare_progress_wakeup ep =
    (let w = OMX_NO_WAKEUP_JIFFIES;
         w = (case partners_to_ack_delayed_list ep of [] \<Rightarrow> w
              | p # _ \<Rightarrow> earlier_wakeup (oldest_recv_time_not_acked (partners ep p) + ucast (g_ack_delay_jiffies (globals ep))) w);
         w = (case non_acked_req_q ep of [] \<Rightarrow> w
              | r # _ \<Rightarrow> earlier_wakeup (last_send_jiffies (reqs ep r) + ucast (g_resend_delay_jiffies (globals ep))) w);
         w = (case connect_req_q ep of [] \<Rightarrow> w
              | r # _ \<Rightarrow> earlier_wakeup (last_send_jiffies (reqs ep r) + ucast (g_resend_delay_jiffies (globals ep))) w)
     in ep\<lparr>desc := (desc ep)\<lparr>desc_wakeup_jiffies := w\<rparr>\<rparr>)"

subsection \<open>Timeouts of the application\<close>

definition omx_set_request_timeout :: "rid option \<Rightarrow> u32 \<Rightarrow> omx_endpoint \<Rightarrow> omx_endpoint" where
  "omx_set_request_timeout request ms ep =
    (let jif = ucast (omx__timeout_ms_to_relative_jiffies ep ms) :: u32;
         rsd = omx__timeout_ms_to_resends ms
     in case request of
          Some r \<Rightarrow> upd_req r (\<lambda>rq. rq\<lparr>resends_max := rsd\<rparr>) ep
        | None \<Rightarrow> ep\<lparr>omx_endpoint.pull_resend_timeout_jiffies := jif, req_resends_max := rsd\<rparr>)"

end
