(* ===== verification/Partner.thy ===== *)
theory Partner
  imports Ack
begin

text \<open>
  Partners (\<^verbatim>\<open>libopen-mx/omx_partner.c\<close>): creation, sessions and sequence numbers through the connect
  handshake, and cleaning up after a partner that is gone.

  The driver's table of peers is given by two functions of its answers, \<open>driver_peer_from_addr\<close> and
  \<open>driver_peer_from_index\<close> (both \<open>Inl\<close> an error code or \<open>Inr\<close> the answer).
\<close>

subsection \<open>Endpoint addresses\<close>

definition omx_get_endpoint_addr :: "omx_endpoint \<Rightarrow> omx__endpoint_addr" where
  "omx_get_endpoint_addr ep = omx__partner_session_to_addr (myself ep) (desc_session_id (desc ep))"

definition omx_decompose_endpoint_addr :: "omx_endpoint \<Rightarrow> omx__endpoint_addr \<Rightarrow> u64 \<times> u32" where
  "omx_decompose_endpoint_addr ep addr =
    (p_board_addr (partners ep (addr_partner addr)), ucast (p_endpoint_index (partners ep (addr_partner addr))))"

definition omx_decompose_endpoint_addr_with_session :: "omx_endpoint \<Rightarrow> omx__endpoint_addr \<Rightarrow> u64 \<times> u32 \<times> u32" where
  "omx_decompose_endpoint_addr_with_session ep addr =
    (p_board_addr (partners ep (addr_partner addr)), ucast (p_endpoint_index (partners ep (addr_partner addr))),
     addr_session_id addr)"

definition omx_set_endpoint_addr_context :: "omx__endpoint_addr \<Rightarrow> u64 \<Rightarrow> omx_endpoint \<Rightarrow> omx_endpoint" where
  "omx_set_endpoint_addr_context addr ctx = upd_partner (addr_partner addr) (\<lambda>pt. pt\<lparr>user_context := ctx\<rparr>)"

definition omx_get_endpoint_addr_context :: "omx_endpoint \<Rightarrow> omx__endpoint_addr \<Rightarrow> u64" where
  "omx_get_endpoint_addr_context ep addr = user_context (partners ep (addr_partner addr))"

subsection \<open>Creating partners\<close>

definition omx__partner_reset :: "pid \<Rightarrow> omx_endpoint \<Rightarrow> omx_endpoint" where
  "omx__partner_reset p ep =
    (let ep = upd_partner p (\<lambda>pt. pt\<lparr>p_non_acked_req_q := [], p_connect_req_q := [], p_partial_medium_recv_req_q := [],
           early_recv_q := [], p_need_seqnum_send_req_q := [],
           true_session_id := -1, back_session_id := -1, next_send_seq := -1, next_acked_send_seq := -1\<rparr>) ep;
         ep = upd_partner p (\<lambda>pt. pt\<lparr>next_match_recv_seq := OMX__SEQNUM_RESET (next_match_recv_seq pt)\<rparr>) ep;
         ep = upd_partner p (\<lambda>pt. pt\<lparr>next_frag_recv_seq := next_match_recv_seq pt\<rparr>) ep;
         ep = upd_partner p (\<lambda>pt. pt\<lparr>last_acked_recv_seq := next_frag_recv_seq pt, p_connect_seqnum := 0,
           last_send_acknum := 0, last_recv_acknum := 0, throttling_sends_nr := 0\<rparr>) ep
     in if need_ack (partners ep p) \<noteq> OMX__PARTNER_NEED_NO_ACK
        then (let ep = upd_partner p (\<lambda>pt. pt\<lparr>need_ack := OMX__PARTNER_NEED_NO_ACK\<rparr>) ep
              in ep\<lparr>partners_to_ack_immediate_list := remove1 p (partners_to_ack_immediate_list ep),
                   partners_to_ack_delayed_list := remove1 p (partners_to_ack_delayed_list ep)\<rparr>)
        else ep)"

definition partner_table_index :: "omx_endpoint \<Rightarrow> u16 \<Rightarrow> u8 \<Rightarrow> u32" where
  "partner_table_index ep peer_idx endpoint_idx = ucast endpoint_idx + ucast peer_idx * endpoint_max (driver_desc ep)"

definition omx__partner_create :: "u16 \<Rightarrow> u64 \<Rightarrow> u8 \<Rightarrow> omx_endpoint \<Rightarrow> (omx_return + pid) \<times> omx_endpoint" where
  "omx__partner_create peer_idx addr endpoint_idx ep =
    (let (blk, ep) = omx_malloc_ep ep in
     case blk of
       None \<Rightarrow> (Inl OMX_NO_RESOURCES, ep)
     | Some _ \<Rightarrow>
         (let p = next_pid ep;
              ep = ep\<lparr>next_pid := Suc p\<rparr>;
              ep = upd_partner p (\<lambda>pt. pt\<lparr>p_board_addr := addr, p_endpoint_index := endpoint_idx, p_peer_index := peer_idx,
                localization := OMX__PARTNER_LOCALIZATION_UNKNOWN, next_match_recv_seq := 0,
                need_ack := OMX__PARTNER_NEED_NO_ACK, user_context := 0\<rparr>) ep;
              ep = omx__partner_reset p ep;
              ep = ep\<lparr>partner_table := (partner_table ep)(partner_table_index ep peer_idx endpoint_idx \<mapsto> p)\<rparr>
          in (Inr p, ep)))"

definition omx__partner_check_localization :: "pid \<Rightarrow> bool \<Rightarrow> omx_endpoint \<Rightarrow> omx_endpoint" where
  "omx__partner_check_localization p shared ep =
    (let loc = (if shared then OMX__PARTNER_LOCALIZATION_LOCAL else OMX__PARTNER_LOCALIZATION_REMOTE) in
     if localization (partners ep p) = OMX__PARTNER_LOCALIZATION_UNKNOWN then
       upd_partner p (\<lambda>pt. pt\<lparr>localization := loc,
         rndv_threshold := (if shared then g_shared_rndv_threshold (globals ep) else g_rndv_threshold (globals ep))\<rparr>) ep
     else ep)"

definition omx__peer_addr_to_index :: "(u64 \<Rightarrow> omx_return + u32) \<Rightarrow> u64 \<Rightarrow> omx_return + u16" where
  "omx__peer_addr_to_index driver_peer_from_addr addr = map_sum id ucast (driver_peer_from_addr addr)"

definition omx__peer_index_to_addr :: "(u16 \<Rightarrow> omx_return + u64) \<Rightarrow> u16 \<Rightarrow> omx_return + u64" where
  "omx__peer_index_to_addr driver_peer_from_index idx = driver_peer_from_index idx"

definition omx__partner_lookup ::
  "(u16 \<Rightarrow> omx_return + u64) \<Rightarrow> u16 \<Rightarrow> u8 \<Rightarrow> omx_endpoint \<Rightarrow> (omx_return + pid) \<times> omx_endpoint" where
  "omx__partner_lookup driver_peer_from_index peer_idx endpoint_idx ep =
    (case partner_table ep (partner_table_index ep peer_idx endpoint_idx) of
       None \<Rightarrow>
         (case omx__peer_index_to_addr driver_peer_from_index peer_idx of
            Inl ret \<Rightarrow> (Inl ret, ep)
          | Inr addr \<Rightarrow> omx__partner_create peer_idx addr endpoint_idx ep)
     | Some p \<Rightarrow> (Inr p, ep))"

definition omx__partner_lookup_by_addr ::
  "(u64 \<Rightarrow> omx_return + u32) \<Rightarrow> u64 \<Rightarrow> u8 \<Rightarrow> omx_endpoint \<Rightarrow> (omx_return + pid) \<times> omx_endpoint" where
  "omx__partner_lookup_by_addr driver_peer_from_addr addr endpoint_idx ep =
    (case omx__peer_addr_to_index driver_peer_from_addr addr of
       Inl ret \<Rightarrow> (Inl ret, ep)
     | Inr peer_idx \<Rightarrow>
         (case partner_table ep (partner_table_index ep peer_idx endpoint_idx) of
            None \<Rightarrow> omx__partner_create peer_idx addr endpoint_idx ep
          | Some p \<Rightarrow> (Inr p, ep)))"

definition omx__connect_myself :: "(u64 \<Rightarrow> omx_return + u32) \<Rightarrow> omx_endpoint \<Rightarrow> omx_return \<times> omx_endpoint" where
  "omx__connect_myself driver_peer_from_addr ep =
    (case omx__peer_addr_to_index driver_peer_from_addr (board_addr ep) of
       Inl ret \<Rightarrow> (ret, ep)
     | Inr peer_idx \<Rightarrow>
         (case omx__partner_create peer_idx (board_addr ep) (endpoint_index ep) ep of
            (Inl ret, ep) \<Rightarrow> (ret, ep)
          | (Inr p, ep) \<Rightarrow>
              (let ep = ep\<lparr>myself := p\<rparr>;
                   ep = upd_partner p (\<lambda>pt. pt\<lparr>next_send_seq := OMX__SEQNUM 1, next_acked_send_seq := OMX__SEQNUM 1,
                     next_match_recv_seq := OMX__SEQNUM 1, next_frag_recv_seq := OMX__SEQNUM 1,
                     true_session_id := desc_session_id (desc ep), back_session_id := desc_session_id (desc ep)\<rparr>) ep;
                   loc = g_selfcomms (globals ep) \<or> g_sharedcomms (globals ep);
                   ep = upd_partner p (\<lambda>pt. pt\<lparr>
                     localization := (if loc then OMX__PARTNER_LOCALIZATION_LOCAL else OMX__PARTNER_LOCALIZATION_REMOTE),
                     rndv_threshold := (if loc then g_shared_rndv_threshold (globals ep) else g_rndv_threshold (globals ep))\<rparr>) ep
               in (OMX_SUCCESS, ep))))"

subsection \<open>Cleaning up\<close>

fun cleanup_non_acked :: "pid \<Rightarrow> rid list \<Rightarrow> omx_endpoint \<Rightarrow> omx_endpoint option" where
  "cleanup_non_acked p [] ep = Some ep"
| "cleanup_non_acked p (r # rs) ep = do {
     let ep = upd_partner p (\<lambda>pt. pt\<lparr>p_non_acked_req_q := remove1 r (p_non_acked_req_q pt)\<rparr>) ep;
     ep \<leftarrow> omx__mark_request_acked r OMX_REMOTE_ENDPOINT_UNREACHABLE ep;
     cleanup_non_acked p rs ep
   }"

fun cleanup_need_reply :: "pid \<Rightarrow> rid list \<Rightarrow> omx_endpoint \<Rightarrow> omx_endpoint option" where
  "cleanup_need_reply p [] ep = Some ep"
| "cleanup_need_reply p (r # rs) ep =
    (if rpartner (reqs ep r) \<noteq> p then cleanup_need_reply p rs ep
     else do {
       let ep = ep\<lparr>large_send_need_reply_req_q := remove1 r (large_send_need_reply_req_q ep)\<rparr>;
       let ep = upd_req r (clear_state_flag OMX_REQUEST_STATE_NEED_REPLY) ep;
       ep \<leftarrow> omx__send_complete r OMX_REMOTE_ENDPOINT_UNREACHABLE ep;
       cleanup_need_reply p rs ep
     })"

fun cleanup_need_resources :: "pid \<Rightarrow> rid list \<Rightarrow> omx_endpoint \<Rightarrow> omx_endpoint option" where
  "cleanup_need_resources p [] ep = Some ep"
| "cleanup_need_resources p (r # rs) ep =
    (if rpartner (reqs ep r) \<noteq> p then cleanup_need_resources p rs ep
     else do {
       let ep = ep\<lparr>need_resources_send_req_q := remove1 r (need_resources_send_req_q ep)\<rparr>;
       let ep = upd_req r (clear_state_flag OMX_REQUEST_STATE_NEED_RESOURCES) ep;
       ep \<leftarrow> omx__complete_unsent_send_request r ep;
       cleanup_need_resources p rs ep
     })"

fun cleanup_need_seqnum :: "pid \<Rightarrow> rid list \<Rightarrow> omx_endpoint \<Rightarrow> omx_endpoint option" where
  "cleanup_need_seqnum p [] ep = Some ep"
| "cleanup_need_seqnum p (r # rs) ep = do {
     let ep = upd_partner p (\<lambda>pt. pt\<lparr>p_need_seqnum_send_req_q := remove1 r (p_need_seqnum_send_req_q pt)\<rparr>) ep;
     ep \<leftarrow> omx__complete_unsent_send_request r ep;
     cleanup_need_seqnum p rs ep
   }"

fun cleanup_connect :: "rid list \<Rightarrow> omx_endpoint \<Rightarrow> omx_endpoint option" where
  "cleanup_connect [] ep = Some ep"
| "cleanup_connect (r # rs) ep = do {
     ep \<leftarrow> omx__connect_complete r OMX_REMOTE_ENDPOINT_UNREACHABLE (-1) ep;
     cleanup_connect rs ep
   }"

fun cleanup_partial :: "pid \<Rightarrow> rid list \<Rightarrow> omx_endpoint \<Rightarrow> omx_endpoint option" where
  "cleanup_partial p [] ep = Some ep"
| "cleanup_partial p (r # rs) ep = do {
     let ctxid = status_ctxid ep r;
     let ep = upd_partner p (\<lambda>pt. pt\<lparr>p_partial_medium_recv_req_q := remove1 r (p_partial_medium_recv_req_q pt)\<rparr>) ep;
     let ep = (if OMX_REQUEST_STATE_UNEXPECTED_RECV \<in> state (reqs ep r) then
         (let ep = ep\<lparr>anyctxid_unexp_req_q := remove1 r (anyctxid_unexp_req_q ep)\<rparr>
          in if HAS_CTXIDS ep
             then ep\<lparr>ctxid_unexp_req_q := (ctxid_unexp_req_q ep)(ctxid := remove1 r (ctxid_unexp_req_q ep ctxid))\<rparr>
             else ep)
       else ep);
     let ep = upd_req r (clear_state_flag OMX_REQUEST_STATE_RECV_PARTIAL) ep;
     ep \<leftarrow> omx__recv_complete r OMX_REMOTE_ENDPOINT_UNREACHABLE ep;
     cleanup_partial p rs ep
   }"

text \<open>A \<^verbatim>\<open>NULL\<close> buffer is not given back to the allocator.\<close>

fun cleanup_early :: "pid \<Rightarrow> omx__early_packet list \<Rightarrow> omx_endpoint \<Rightarrow> omx_endpoint" where
  "cleanup_early p [] ep = ep"
| "cleanup_early p (e # es) ep =
    (let ep = upd_partner p (\<lambda>pt. pt\<lparr>early_recv_q := remove1 e (early_recv_q pt)\<rparr>) ep;
         ep = (if early_data e \<noteq> 0 then omx_free_ep (early_data e) ep else ep);
         ep = omx_free_ep (early_addr e) ep
     in cleanup_early p es ep)"

fun cleanup_unexp :: "pid \<Rightarrow> rid list \<Rightarrow> omx_endpoint \<Rightarrow> omx_endpoint" where
  "cleanup_unexp p [] ep = ep"
| "cleanup_unexp p (r # rs) ep =
    (if rpartner (reqs ep r) \<noteq> p then cleanup_unexp p rs ep
     else
       (let ep = ep\<lparr>anyctxid_unexp_req_q := remove1 r (anyctxid_unexp_req_q ep)\<rparr>;
            ep = (if rtype (reqs ep r) \<noteq> OMX_REQUEST_TYPE_RECV_LARGE \<and> st_msg_length (status (reqs ep r)) > 0
                  then omx_free_ep (seg_vaddr (segs_single (segs (reqs ep r)))) ep else ep);
            ep = omx__request_free r ep
        in cleanup_unexp p rs ep))"

definition omx__partner_cleanup :: "pid \<Rightarrow> nat \<Rightarrow> omx_endpoint \<Rightarrow> omx_endpoint option" where
  "omx__partner_cleanup p disconnect ep = do {
     ep \<leftarrow> cleanup_non_acked p (p_non_acked_req_q (partners ep p)) ep;
     ep \<leftarrow> cleanup_need_reply p (large_send_need_reply_req_q ep) ep;
     ep \<leftarrow> cleanup_need_resources p (need_resources_send_req_q ep) ep;
     ep \<leftarrow> cleanup_need_seqnum p (p_need_seqnum_send_req_q (partners ep p)) ep;
     ep \<leftarrow> cleanup_connect (p_connect_req_q (partners ep p)) ep;
     ep \<leftarrow> cleanup_partial p (p_partial_medium_recv_req_q (partners ep p)) ep;
     let ep = cleanup_early p (early_recv_q (partners ep p)) ep;
     let ep = cleanup_unexp p (anyctxid_unexp_req_q ep) ep;
     let ep = omx__partner_reset p ep;
     (if disconnect > 0 then
        (let ep = upd_partner p (\<lambda>pt. pt\<lparr>next_match_recv_seq := next_match_recv_seq pt XOR OMX__SEQNUM 0xb0f0,
               next_frag_recv_seq := next_frag_recv_seq pt XOR OMX__SEQNUM 0xcf0f\<rparr>) ep;
             ep = upd_partner p (\<lambda>pt. pt\<lparr>next_match_recv_seq := next_match_recv_seq pt + OMX__SESNUM_ONE,
               next_frag_recv_seq := next_frag_recv_seq pt + OMX__SESNUM_ONE\<rparr>) ep
         in if disconnect > 1
            then Some (ep\<lparr>partner_table := (partner_table ep)
              (partner_table_index ep (p_peer_index (partners ep p)) (p_endpoint_index (partners ep p)) := None)\<rparr>)
            else Some ep)
      else Some ep)
   }"

subsection \<open>Connecting\<close>

definition omx__post_connect_request :: "pid \<Rightarrow> rid \<Rightarrow> omx_endpoint \<Rightarrow> omx_endpoint option" where
  "omx__post_connect_request p r ep =
    (let ep = upd_req r (\<lambda>rq. rq\<lparr>send_connect_request_ioctl_param := (send_connect_request_ioctl_param rq)\<lparr>
           conn_target_recv_seqnum_start := next_match_recv_seq (partners ep p)\<rparr>\<rparr>) ep;
         (err, ep) = ioctl (OMX_CMD_SEND_CONNECT_REQUEST (send_connect_request_ioctl_param (reqs ep r))) ep
     in do { _ \<leftarrow> ioctl_checked [OMX_NO_SYSTEM_RESOURCES] err; Some (posted p r False ep) })"

definition OMX_CONNECT_STATUS_SUCCESS :: u8 where
  "OMX_CONNECT_STATUS_SUCCESS = 0"

definition OMX_CONNECT_STATUS_BAD_KEY :: u8 where
  "OMX_CONNECT_STATUS_BAD_KEY = 11"

definition omx__handle_connect_reply ::
  "pid \<Rightarrow> rid \<Rightarrow> omx_evt_recv_connect_reply \<Rightarrow> omx_endpoint \<Rightarrow> omx_endpoint option" where
  "omx__handle_connect_reply p r event ep =
    (let target_session_id = crep_target_session_id event;
         start = crep_target_recv_seqnum_start event;
         code = crep_connect_status_code event;
         known = code = OMX_CONNECT_STATUS_SUCCESS \<or> code = OMX_CONNECT_STATUS_BAD_KEY;
         status_code = (if code = OMX_CONNECT_STATUS_SUCCESS then OMX_SUCCESS else OMX_REMOTE_ENDPOINT_BAD_CONNECTION_KEY)
     in if \<not> known then Some ep
        else do {
          ep \<leftarrow> omx__connect_complete r status_code target_session_id ep;
          (if status_code = OMX_SUCCESS then do {
             ep \<leftarrow> (if back_session_id (partners ep p) \<noteq> target_session_id \<and> back_session_id (partners ep p) \<noteq> -1
                    then omx__partner_cleanup p 0 ep else Some ep);
             let ep = (if true_session_id (partners ep p) \<noteq> target_session_id
                       then upd_partner p (\<lambda>pt. pt\<lparr>next_send_seq := start, next_acked_send_seq := start\<rparr>) ep else ep);
             Some (upd_partner p (\<lambda>pt. pt\<lparr>true_session_id := target_session_id\<rparr>) ep)
           }
           else Some ep)
        })"

definition omx__process_recv_connect_reply ::
  "(u16 \<Rightarrow> omx_return + u64) \<Rightarrow> omx_evt_recv_connect_reply \<Rightarrow> omx_endpoint \<Rightarrow> omx_endpoint option" where
  "omx__process_recv_connect_reply driver_peer_from_index event ep =
    (case omx__partner_lookup driver_peer_from_index (crep_peer_index event) (crep_src_endpoint event) ep of
       (Inl _, ep) \<Rightarrow> Some ep
     | (Inr p, ep) \<Rightarrow>
         (let ep = omx__partner_check_localization p (crep_shared event) ep in
          case find (\<lambda>r. crep_src_session_id event = desc_session_id (desc ep) \<and>
              crep_connect_seqnum event = connect_seqnum (reqs ep r)) (p_connect_req_q (partners ep p)) of
            Some r \<Rightarrow> omx__handle_connect_reply p r event ep
          | None \<Rightarrow> Some ep))"

definition omx__process_recv_connect_request ::
  "(u16 \<Rightarrow> omx_return + u64) \<Rightarrow> omx_evt_recv_connect_request \<Rightarrow> omx_endpoint \<Rightarrow> omx_endpoint option" where
  "omx__process_recv_connect_request driver_peer_from_index event ep =
    (case omx__partner_lookup driver_peer_from_index (creq_peer_index event) (creq_src_endpoint event) ep of
       (Inl _, ep) \<Rightarrow> Some ep
     | (Inr p, ep) \<Rightarrow> do {
         let ep = omx__partner_check_localization p (creq_shared event) ep;
         let src_session_id = creq_src_session_id event;
         let start = creq_target_recv_seqnum_start event;
         let code = (if creq_app_key event = app_key ep then OMX_CONNECT_STATUS_SUCCESS else OMX_CONNECT_STATUS_BAD_KEY);
         ep \<leftarrow> (if back_session_id (partners ep p) \<noteq> src_session_id then do {
               ep \<leftarrow> (if back_session_id (partners ep p) \<noteq> -1 then omx__partner_cleanup p 0 ep else Some ep);
               Some (upd_partner p (\<lambda>pt. pt\<lparr>next_match_recv_seq := OMX__SEQNUM_RESET (next_match_recv_seq pt),
                 next_frag_recv_seq := OMX__SEQNUM_RESET (next_frag_recv_seq pt)\<rparr>) ep)
             }
             else Some ep);
         let ep = (if true_session_id (partners ep p) \<noteq> src_session_id
                   then upd_partner p (\<lambda>pt. pt\<lparr>next_send_seq := start, next_acked_send_seq := start\<rparr>) ep else ep);
         let ep = upd_partner p (\<lambda>pt. pt\<lparr>true_session_id := src_session_id, back_session_id := src_session_id\<rparr>) ep;
         let pt = partners ep p;
         let (err, ep) = ioctl (OMX_CMD_SEND_CONNECT_REPLY \<lparr>reply_peer_index = p_peer_index pt,
           reply_dest_endpoint = p_endpoint_index pt, reply_shared_disabled = \<not> g_sharedcomms (globals ep), reply_seqnum = 0,
           reply_src_session_id = src_session_id, reply_target_session_id = desc_session_id (desc ep),
           reply_target_recv_seqnum_start = next_match_recv_seq pt, reply_connect_seqnum = creq_connect_seqnum event,
           reply_connect_status_code = code\<rparr>) ep;
         _ \<leftarrow> ioctl_checked [OMX_NO_SYSTEM_RESOURCES] err;
         Some ep
       })"

end
