(* ===== verification/Large.thy ===== *)
theory Large
  imports Ack
begin

text \<open>
  Large messages on the receiving side (the end of \<^verbatim>\<open>libopen-mx/omx_large.c\<close>): pulling the data from the sender,
  and the notify that tells the sender it is done.
\<close>

subsection \<open>Pulling\<close>

definition pull_dequeue_resource :: "rid \<Rightarrow> omx__request_resource \<Rightarrow> omx_endpoint \<Rightarrow> omx_endpoint" where
  "pull_dequeue_resource r res = upd_req r (\<lambda>rq. rq\<lparr>missing_resources := missing_resources rq - {res}\<rparr>)"

text \<open>The part of \<^verbatim>\<open>omx__alloc_setup_pull\<close> from the label \<^verbatim>\<open>need_pull\<close> on, with the region \<open>i\<close>.\<close>

definition setup_pull :: "rid \<Rightarrow> nat \<Rightarrow> omx_endpoint \<Rightarrow> (omx_return \<times> omx_endpoint) option" where
  "setup_pull r i ep =
    (let rq = reqs ep r;
         pt = partners ep (rpartner rq);
         pull_param = \<lparr>pull_peer_index = p_peer_index pt, pull_dest_endpoint = p_endpoint_index pt,
           pull_shared = omx__partner_localization_shared pt, pull_session_id = back_session_id pt,
           pull_length = st_xfer_length (status rq),
           pull_resend_timeout_jiffies = omx_endpoint.pull_resend_timeout_jiffies ep,
           pull_puller_rdma_id = ucast (reg_id (region_of ep i)), pull_pulled_rdma_offset = ucast (pulled_rdma_offset rq),
           pull_pulled_rdma_id = ucast (pulled_rdma_id rq), pull_pulled_rdma_seqnum = ucast (pulled_rdma_seqnum rq),
           pull_lib_cookie = r\<rparr>;
         (err, ep) = ioctl (OMX_CMD_PULL pull_param) ep
     in case err of
          Some e \<Rightarrow> do {
            ret \<leftarrow> omx__ioctl_errno_to_return_checked [OMX_NO_SYSTEM_RESOURCES, OMX_INTERNAL_MISC_EFAULT] e;
            _ \<leftarrow> omx__check_driver_pinning_error ret;
            Some (OMX_INTERNAL_MISSING_RESOURCES, ep)
          }
        | None \<Rightarrow>
            (let ep = pull_dequeue_resource r OMX_REQUEST_RESOURCE_PULL_HANDLE ep;
                 ep = upd_req r (\<lambda>rq. rq\<lparr>local_region := i\<rparr>) ep;
                 ep = upd_req r (set_state_flag OMX_REQUEST_STATE_DRIVER_PULLING) ep
             in Some (OMX_SUCCESS, ep\<lparr>driver_pulling_req_q := driver_pulling_req_q ep @ [r]\<rparr>)))"

definition setup_pull_region :: "rid \<Rightarrow> omx_endpoint \<Rightarrow> (omx_return \<times> omx_endpoint) option" where
  "setup_pull_region r ep = do {
     (got, ep) \<leftarrow> omx__get_region (segs (reqs ep r)) None ep;
     (case got of
        Inl ret \<Rightarrow> Some (ret, ep)
      | Inr i \<Rightarrow> setup_pull r i (pull_dequeue_resource r OMX_REQUEST_RESOURCE_LARGE_REGION ep))
   }"

text \<open>
  When only the pull handle is missing, the code jumps to \<^verbatim>\<open>need_pull\<close> with the local variable \<^verbatim>\<open>region\<close> not
  initialised, and reads through it: undefined.
\<close>

definition omx__alloc_setup_pull :: "rid \<Rightarrow> omx_endpoint \<Rightarrow> (omx_return \<times> omx_endpoint) option" where
  "omx__alloc_setup_pull r ep =
    (let res = missing_resources (reqs ep r) in
     if OMX_REQUEST_RESOURCE_EXP_EVENT \<in> res then
       (if avail_exp_events ep < 1 then Some (OMX_INTERNAL_MISSING_RESOURCES, ep)
        else
          (let ep = ep\<lparr>avail_exp_events := avail_exp_events ep - 1\<rparr>
           in setup_pull_region r (pull_dequeue_resource r OMX_REQUEST_RESOURCE_EXP_EVENT ep)))
     else if OMX_REQUEST_RESOURCE_LARGE_REGION \<in> res then setup_pull_region r ep
     else if OMX_REQUEST_RESOURCE_PULL_HANDLE \<in> res then None
     else None)"

definition omx__submit_pull :: "rid \<Rightarrow> omx_endpoint \<Rightarrow> omx_endpoint option" where
  "omx__submit_pull r ep =
    (if st_xfer_length (status (reqs ep r)) \<noteq> 0 then do {
       let ep = upd_req r (\<lambda>rq. rq\<lparr>missing_resources := OMX_REQUEST_PULL_RESOURCES\<rparr>) ep;
       (ret, ep) \<leftarrow> omx__alloc_setup_pull r ep;
       Some (if ret \<noteq> OMX_SUCCESS then delay_send r ep else ep)
     }
     else omx__submit_notify r True (upd_req r (clear_state_flag OMX_REQUEST_STATE_RECV_PARTIAL) ep))"

fun pull_status :: "omx_evt_pull_done_status \<Rightarrow> omx_return option" where
  "pull_status OMX_EVT_PULL_DONE_SUCCESS = Some OMX_SUCCESS"
| "pull_status OMX_EVT_PULL_DONE_BAD_ENDPT = Some OMX_REMOTE_ENDPOINT_BAD_ID"
| "pull_status OMX_EVT_PULL_DONE_ENDPT_CLOSED = Some OMX_REMOTE_ENDPOINT_CLOSED"
| "pull_status OMX_EVT_PULL_DONE_BAD_SESSION = Some OMX_REMOTE_ENDPOINT_BAD_SESSION"
| "pull_status OMX_EVT_PULL_DONE_BAD_RDMAWIN = Some OMX_REMOTE_RDMA_WINDOW_BAD_ID"
| "pull_status OMX_EVT_PULL_DONE_ABORTED = Some OMX_MESSAGE_ABORTED"
| "pull_status OMX_EVT_PULL_DONE_TIMEOUT = Some OMX_REMOTE_ENDPOINT_UNREACHABLE"
| "pull_status Pull_done_unknown = None"

definition omx__process_pull_done :: "omx_evt_pull_done \<Rightarrow> omx_endpoint \<Rightarrow> omx_endpoint option" where
  "omx__process_pull_done event ep = do {
     let r = pd_lib_cookie event;
     let i = unat (pd_puller_rdma_id event);
     st \<leftarrow> pull_status (pd_status event);
     ep \<leftarrow> (if st \<noteq> OMX_SUCCESS then do {
           code \<leftarrow> omx__error_with_req ep r st;
           Some (upd_req r (\<lambda>rq. rq\<lparr>status := (status rq)\<lparr>st_code := code, st_xfer_length := 0\<rparr>\<rparr>) ep)
         }
         else Some ep);
     ep \<leftarrow> (if i < length (lr_array (large_region_map ep)) then omx__put_region i None ep else None);
     let ep = ep\<lparr>driver_pulling_req_q := remove1 r (driver_pulling_req_q ep)\<rparr>;
     let ep = upd_req r (\<lambda>rq. rq\<lparr>state := state rq - {OMX_REQUEST_STATE_DRIVER_PULLING, OMX_REQUEST_STATE_RECV_PARTIAL}\<rparr>) ep;
     omx__submit_notify r False ep
   }"

text \<open>It always returns \<^verbatim>\<open>OMX_SUCCESS\<close>.\<close>

definition omx__submit_discarded_notify :: "pid \<Rightarrow> u8 \<Rightarrow> u8 \<Rightarrow> u16 \<Rightarrow> omx_endpoint \<Rightarrow> omx_endpoint option" where
  "omx__submit_discarded_notify p rdma_id rdma_seqnum rdma_offset ep =
    (case omx__request_alloc ep of
       (None, ep) \<Rightarrow> None
     | (Some r, ep) \<Rightarrow>
         (let ep = upd_req r (\<lambda>rq. rq\<lparr>segs := omx_cache_single_segment (segs rq) 0 0, rpartner := p,
                rtype := OMX_REQUEST_TYPE_RECV_LARGE, state := {OMX_REQUEST_STATE_ZOMBIE},
                status := (status rq)\<lparr>st_xfer_length := 0\<rparr>,
                pulled_rdma_id := rdma_id, pulled_rdma_seqnum := rdma_seqnum, pulled_rdma_offset := rdma_offset\<rparr>) ep;
              ep = ep\<lparr>zombies := zombies ep + 1\<rparr>
          in omx__submit_notify r True ep))"

subsection \<open>Receiving a notify\<close>

definition omx__process_recv_notify :: "omx_evt_recv_msg \<Rightarrow> u32 \<Rightarrow> omx_endpoint \<Rightarrow> omx_endpoint option" where
  "omx__process_recv_notify msg xfer_length ep =
    (case msg_specific msg of
       Msg_notify _ region_id region_seq \<Rightarrow>
         (case reg_reserver (region_of ep (unat region_id)) of
            None \<Rightarrow> Some ep
          | Some r \<Rightarrow>
              if region_seq \<noteq> region_seqnum (reqs ep r) then Some ep
              else do {
                ep \<leftarrow> omx__put_region (region (reqs ep r)) (Some r) ep;
                let ep = ep\<lparr>large_sends_avail_nr := large_sends_avail_nr ep + 1\<rparr>;
                let ep = upd_req r (\<lambda>rq. rq\<lparr>status := (status rq)\<lparr>st_xfer_length := xfer_length\<rparr>\<rparr>) ep;
                let ep = upd_req r (clear_state_flag OMX_REQUEST_STATE_NEED_REPLY) ep;
                (if OMX_REQUEST_STATE_NEED_ACK \<in> state (reqs ep r) then Some ep
                 else
                   (let ep = ep\<lparr>large_send_need_reply_req_q := remove1 r (large_send_need_reply_req_q ep)\<rparr>
                    in omx__send_complete r OMX_SUCCESS ep))
              })
     | _ \<Rightarrow> None)"

end
