(* ===== verification/Views.thy ===== *)
theory Views
  imports Ack
begin

text \<open>
  What the operations leave alone. A view of the endpoint is made of what some function \<open>pv\<close> sees of each
  partner and what some function \<open>rv\<close> sees of each request. Completing requests (the locale
  \<open>completion_view\<close>) and sending (the locale \<open>sending_view\<close>) do not change a view that ignores the fields they
  write to; the lemmas are proved once for all such views. The interpretation \<open>send_seq\<close> is the view of the
  sender side of the protocol, \<open>recv_seq\<close> that of the receiver side.
\<close>

definition view :: "(omx__partner \<Rightarrow> 'p) \<Rightarrow> (omx_request \<Rightarrow> 'r) \<Rightarrow> omx_endpoint \<Rightarrow> (pid \<Rightarrow> 'p) \<times> (rid \<Rightarrow> 'r)" where
  "view pv rv ep = (\<lambda>p. pv (partners ep p), \<lambda>r. rv (reqs ep r))"

lemma view_cong: "partners ep' = partners ep \<Longrightarrow> reqs ep' = reqs ep \<Longrightarrow> view pv rv ep' = view pv rv ep"
  by (simp add: view_def)

lemma view_upd_req: "(\<And>rq. rv (f rq) = rv rq) \<Longrightarrow> view pv rv (upd_req r f ep) = view pv rv ep"
  by (auto simp: view_def upd_req_def fun_eq_iff)

lemma view_upd_partner: "(\<And>pt. pv (f pt) = pv pt) \<Longrightarrow> view pv rv (upd_partner p f ep) = view pv rv ep"
  by (auto simp: view_def upd_partner_def fun_eq_iff)

lemma upd_other [simp]: "reqs (upd_partner p f ep) = reqs ep" "partners (upd_req r g ep) = partners ep"
  by (simp_all add: upd_partner_def upd_req_def)

lemma view_fields [simp]:
  "view pv rv (ep\<lparr>mem := m\<rparr>) = view pv rv ep"
  "view pv rv (ep\<lparr>freed := fr\<rparr>) = view pv rv ep"
  "view pv rv (ep\<lparr>malloc_nr := n\<rparr>) = view pv rv ep"
  "view pv rv (ep\<lparr>cmds := cs\<rparr>) = view pv rv ep"
  "view pv rv (ep\<lparr>sendq_map := sm\<rparr>) = view pv rv ep"
  "view pv rv (ep\<lparr>large_region_map := lm\<rparr>) = view pv rv ep"
  "view pv rv (ep\<lparr>reg_list := l1\<rparr>) = view pv rv ep"
  "view pv rv (ep\<lparr>reg_unused_list := l1\<rparr>) = view pv rv ep"
  "view pv rv (ep\<lparr>reg_vect_list := l1\<rparr>) = view pv rv ep"
  "view pv rv (ep\<lparr>anyctxid_done_req_q := q\<rparr>) = view pv rv ep"
  "view pv rv (ep\<lparr>ctxid_done_req_q := cq\<rparr>) = view pv rv ep"
  "view pv rv (ep\<lparr>anyctxid_unexp_req_q := q\<rparr>) = view pv rv ep"
  "view pv rv (ep\<lparr>ctxid_unexp_req_q := cq\<rparr>) = view pv rv ep"
  "view pv rv (ep\<lparr>ctxid_recv_req_q := cq\<rparr>) = view pv rv ep"
  "view pv rv (ep\<lparr>zombies := z\<rparr>) = view pv rv ep"
  "view pv rv (ep\<lparr>live_reqs := lr\<rparr>) = view pv rv ep"
  "view pv rv (ep\<lparr>desc := d\<rparr>) = view pv rv ep"
  "view pv rv (ep\<lparr>sleepers := sl\<rparr>) = view pv rv ep"
  "view pv rv (ep\<lparr>non_acked_req_q := q\<rparr>) = view pv rv ep"
  "view pv rv (ep\<lparr>tmp_req_q := q\<rparr>) = view pv rv ep"
  "view pv rv (ep\<lparr>connect_req_q := q\<rparr>) = view pv rv ep"
  "view pv rv (ep\<lparr>need_resources_send_req_q := q\<rparr>) = view pv rv ep"
  "view pv rv (ep\<lparr>driver_mediumsq_sending_req_q := q\<rparr>) = view pv rv ep"
  "view pv rv (ep\<lparr>driver_pulling_req_q := q\<rparr>) = view pv rv ep"
  "view pv rv (ep\<lparr>large_send_need_reply_req_q := q\<rparr>) = view pv rv ep"
  "view pv rv (ep\<lparr>large_sends_avail_nr := i\<rparr>) = view pv rv ep"
  "view pv rv (ep\<lparr>avail_exp_events := av\<rparr>) = view pv rv ep"
  "view pv rv (ep\<lparr>partners_to_ack_immediate_list := ps\<rparr>) = view pv rv ep"
  "view pv rv (ep\<lparr>partners_to_ack_delayed_list := ps\<rparr>) = view pv rv ep"
  "view pv rv (ep\<lparr>throttling_partners_list := ps\<rparr>) = view pv rv ep"
  by (simp_all add: view_def)

lemma view_small_ops [simp]:
  "view pv rv (omx_free_ep a ep) = view pv rv ep"
  "view pv rv (omx_free_segments sg ep) = view pv rv ep"
  "view pv rv (omx__request_free r ep) = view pv rv ep"
  "view pv rv (enqueue_done c r ep) = view pv rv ep"
  "view pv rv (dequeue_non_acked r ep) = view pv rv ep"
  "view pv rv (upd_slot i sf ep) = view pv rv ep"
  "view pv rv (upd_region i rf ep) = view pv rv ep"
  "view pv rv (reserve_region w i ep) = view pv rv ep"
  by (simp_all add: omx_free_ep_def omx_free_segments_def omx__request_free_def enqueue_done_def
      dequeue_non_acked_def upd_slot_def upd_region_def reserve_region_def Let_def split: segs_ptr.split)

text \<open>A view that ignores what completing a request writes to.\<close>

locale completion_view =
  fixes pv :: "omx__partner \<Rightarrow> 'p" and rv :: "omx_request \<Rightarrow> 'r"
  assumes rv_status [simp]: "rv (status_update f1 rq) = rv rq"
    and rv_state [simp]: "rv (state_update f2 rq) = rv rq"
    and rv_frags_nr [simp]: "rv (frags_nr_update f3 rq) = rv rq"
    and pv_connect [simp]: "pv (p_connect_req_q_update f4 pt) = pv pt"
begin

abbreviation V :: "omx_endpoint \<Rightarrow> (pid \<Rightarrow> 'p) \<times> (rid \<Rightarrow> 'r)" where
  "V \<equiv> view pv rv"

lemma view_ioctl: "ioctl c ep = (err, ep') \<Longrightarrow> V ep' = V ep"
  by (auto simp: ioctl_def)

lemma view_notify_user_event: "omx__notify_user_event ep = Some ep' \<Longrightarrow> V ep' = V ep"
  by (auto simp: omx__notify_user_event_def omx__wakeup_def ioctl_def Let_def split: if_splits option.splits)

lemma view_large_region_free: "omx__endpoint_large_region_free i ep = Some ep' \<Longrightarrow> V ep' = V ep"
  by (auto simp: omx__endpoint_large_region_free_def Let_def split: if_splits)

lemma view_destroy_region: "omx__destroy_region i ep = Some ep' \<Longrightarrow> V ep' = V ep"
  by (auto simp: omx__destroy_region_def omx__deregister_region_def Let_def bind_eq_Some_conv
      split: prod.split_asm option.split_asm dest!: view_large_region_free view_ioctl)

lemma view_put_region: "omx__put_region i w ep = Some ep' \<Longrightarrow> V ep' = V ep"
  by (auto simp: omx__put_region_def Let_def split: if_split_asm dest!: view_destroy_region)

lemma view_try_alloc: "omx__endpoint_large_region_try_alloc ep = Some (ret, ep') \<Longrightarrow> V ep' = V ep"
  by (auto simp: omx__endpoint_large_region_try_alloc_def Let_def split: if_split_asm)

lemma view_region_alloc: "omx__endpoint_large_region_alloc ep = Some (ret, ep') \<Longrightarrow> V ep' = V ep"
  by (auto simp: omx__endpoint_large_region_alloc_def Let_def bind_eq_Some_conv
      split: if_split_asm list.split_asm dest!: view_try_alloc view_destroy_region)

lemma view_register_region: "omx__register_region i ep = Some (ret, ep') \<Longrightarrow> V ep' = V ep"
  by (auto simp: omx__register_region_def Let_def bind_eq_Some_conv
      split: prod.split_asm option.split_asm dest!: view_ioctl)

lemma view_create_region:
  assumes "omx__create_region sg ep = Some (ret, ep')"
  shows "V ep' = V ep"
proof -
  obtain a b where ab: "omx__endpoint_large_region_alloc ep = Some (a, b)"
    using assms by (auto simp: omx__create_region_def bind_eq_Some_conv)
  have "V ep' = V b"
    using assms
    by (cases a) (auto simp: omx__create_region_def ab Let_def bind_eq_Some_conv
      split: if_split_asm dest!: view_register_region view_large_region_free)
  with view_region_alloc [OF ab] show ?thesis by simp
qed

lemma view_listed_region:
  assumes "do { (ret, ep) \<leftarrow> omx__create_region sg ep; (case ret of Inl ret \<Rightarrow> Some (Inl ret, ep) | Inr i \<Rightarrow> f i ep) } = Some (ret, ep')"
    and "\<And>i ep ret ep'. f i ep = Some (ret, ep') \<Longrightarrow> V ep' = V ep"
  shows "V ep' = V ep"
proof -
  obtain a b where ab: "omx__create_region sg ep = Some (a, b)"
    using assms(1) by (auto simp: bind_eq_Some_conv)
  have "V ep' = V b" using assms by (cases a) (auto simp: ab)
  with view_create_region [OF ab] show ?thesis by simp
qed

lemma view_get_region: "omx__get_region sg w ep = Some (ret, ep') \<Longrightarrow> V ep' = V ep"
  by (auto simp: omx__get_region_def omx__get_contigous_region_def omx__get_vect_region_def Let_def
      split: if_split_asm option.split_asm elim!: view_listed_region)

lemma view_notify_request_done [simp]: "V (omx__notify_request_done c r ep) = V ep"
  by (simp add: omx__notify_request_done_def view_upd_req Let_def)

lemma view_notify_request_done_early: "omx__notify_request_done_early c r ep = Some ep' \<Longrightarrow> V ep' = V ep"
  by (auto simp: omx__notify_request_done_early_def Let_def view_upd_req
      split: if_split_asm dest!: view_notify_user_event)

lemma view_send_complete: "omx__send_complete r ret ep = Some ep' \<Longrightarrow> V ep' = V ep"
  by (auto simp: omx__send_complete_def Let_def bind_eq_Some_conv view_upd_req
      split: if_split_asm omx__request_type.split_asm)

lemma view_recv_complete: "omx__recv_complete r ret ep = Some ep' \<Longrightarrow> V ep' = V ep"
  by (auto simp: omx__recv_complete_def Let_def bind_eq_Some_conv view_upd_req split: if_split_asm)

lemma view_connect_complete: "omx__connect_complete r ret sid ep = Some ep' \<Longrightarrow> V ep' = V ep"
  by (auto simp: omx__connect_complete_def Let_def bind_eq_Some_conv view_upd_req view_upd_partner split: if_split_asm)

lemma view_mark_request_acked: "omx__mark_request_acked r ret ep = Some ep' \<Longrightarrow> V ep' = V ep"
  by (auto simp: omx__mark_request_acked_def Let_def bind_eq_Some_conv view_upd_req
      split: if_split_asm dest!: view_send_complete view_recv_complete view_put_region)

lemma view_complete_unsent: "omx__complete_unsent_send_request r ep = Some ep' \<Longrightarrow> V ep' = V ep"
  by (auto simp: omx__complete_unsent_send_request_def omx__release_unsent_send_resources_def Let_def bind_eq_Some_conv
      view_upd_req split: if_split_asm omx__request_type.split_asm dest!: view_send_complete view_recv_complete view_put_region)

end

subsection \<open>Posting\<close>

text \<open>A view that also ignores what passing a command to the driver writes to.\<close>

locale posting_view = completion_view pv rv
  for pv :: "omx__partner \<Rightarrow> 'p" and rv :: "omx_request \<Rightarrow> 'r" +
  assumes rv_post [simp]: "rv (resends_update g1 rq) = rv rq" "rv (last_send_jiffies_update g2 rq) = rv rq"
      "rv (frags_pending_nr_update g3 rq) = rv rq"
    and rv_params [simp]: "rv (send_tiny_ioctl_param_update h1 rq) = rv rq"
      "rv (send_small_ioctl_param_update h2 rq) = rv rq"
      "rv (send_mediumsq_frag_ioctl_param_update h3 rq) = rv rq"
      "rv (send_mediumva_ioctl_param_update h4 rq) = rv rq" "rv (send_rndv_ioctl_param_update h5 rq) = rv rq"
      "rv (send_notify_ioctl_param_update h6 rq) = rv rq"
    and pv_ack [simp]: "pv (need_ack_update k1 pt) = pv pt" "pv (last_acked_recv_seq_update k2 pt) = pv pt"
begin

lemma view_mark_partner_ack_sent [simp]: "V (omx__mark_partner_ack_sent p ep) = V ep"
  by (simp add: omx__mark_partner_ack_sent_def Let_def view_upd_partner)

lemma view_posted [simp]: "V (posted p r ok ep) = V ep" "V (mediumsq_posted p r ep) = V ep"
  by (simp_all add: posted_def mediumsq_posted_def Let_def view_upd_req)

lemma view_post_isend_tiny: "omx__post_isend_tiny p r ep = Some ep' \<Longrightarrow> V ep' = V ep"
  by (auto simp: omx__post_isend_tiny_def Let_def bind_eq_Some_conv view_upd_req split: prod.split_asm dest!: view_ioctl)

lemma view_post_isend_small: "omx__post_isend_small p r ep = Some ep' \<Longrightarrow> V ep' = V ep"
  by (auto simp: omx__post_isend_small_def Let_def bind_eq_Some_conv view_upd_req split: prod.split_asm dest!: view_ioctl)

lemma view_post_isend_mediumva: "omx__post_isend_mediumva p r ep = Some ep' \<Longrightarrow> V ep' = V ep"
  by (auto simp: omx__post_isend_mediumva_def Let_def bind_eq_Some_conv view_upd_req split: prod.split_asm dest!: view_ioctl)

lemma view_post_isend_rndv: "omx__post_isend_rndv p r ep = Some ep' \<Longrightarrow> V ep' = V ep"
  by (auto simp: omx__post_isend_rndv_def Let_def bind_eq_Some_conv view_upd_req split: prod.split_asm dest!: view_ioctl)

lemma view_post_notify: "omx__post_notify p r ep = Some ep' \<Longrightarrow> V ep' = V ep"
  by (auto simp: omx__post_notify_def Let_def bind_eq_Some_conv view_upd_req split: prod.split_asm dest!: view_ioctl)

lemma view_mediumsq_set_frag [simp]: "V (mediumsq_set_frag r i c x ep) = V ep"
  by (simp add: mediumsq_set_frag_def view_upd_req)

lemma view_mediumsq_post_contig:
  "mediumsq_post_contig r idx data k i remaining off ep = Some (err, j, ep') \<Longrightarrow> V ep' = V ep"
proof (induction k arbitrary: i remaining off ep)
  case (Suc k)
  from Suc.prems show ?case
    by (auto simp: Let_def bind_eq_Some_conv split: if_split_asm prod.split_asm option.split_asm
      dest!: Suc.IH view_ioctl)
qed simp

lemma view_mediumsq_post_vect:
  "mediumsq_post_vect r idx sg k i remaining st ep = Some (err, j, ep') \<Longrightarrow> V ep' = V ep"
proof (induction k arbitrary: i remaining st ep)
  case (Suc k)
  from Suc.prems show ?case
    by - (clarsimp simp: Let_def bind_eq_Some_conv ioctl_def split: if_split_asm;
      auto simp: bind_eq_Some_conv split: if_split_asm option.split_asm dest!: Suc.IH)
qed simp

lemma view_post_isend_mediumsq: "omx__post_isend_mediumsq p r ep = Some ep' \<Longrightarrow> V ep' = V ep"
  by (auto simp: omx__post_isend_mediumsq_def Let_def bind_eq_Some_conv view_upd_req
      split: if_split_asm option.split_asm dest!: view_mediumsq_post_contig view_mediumsq_post_vect)

end

subsection \<open>Sending\<close>

text \<open>A view that also ignores what numbering, throttling and queueing a send, and acks, write to.\<close>

locale sending_view = posting_view pv rv
  for pv :: "omx__partner \<Rightarrow> 'p" and rv :: "omx_request \<Rightarrow> 'r" +
  assumes rv_send [simp]: "rv (send_seqnum_update g1 rq) = rv rq" "rv (resends_max_update g2 rq) = rv rq"
      "rv (missing_resources_update g3 rq) = rv rq" "rv (sendq_map_index_update g4 rq) = rv rq"
      "rv (region_update g5 rq) = rv rq" "rv (region_seqnum_update g6 rq) = rv rq"
    and pv_send [simp]: "pv (next_send_seq_update k1 pt) = pv pt" "pv (next_acked_send_seq_update k2 pt) = pv pt"
      "pv (p_non_acked_req_q_update k3 pt) = pv pt" "pv (p_need_seqnum_send_req_q_update k4 pt) = pv pt"
      "pv (throttling_sends_nr_update k5 pt) = pv pt" "pv (last_recv_acknum_update k6 pt) = pv pt"
begin

lemma view_take_seqnum [simp]: "V (take_seqnum p r ep) = V ep"
  by (simp add: take_seqnum_def Let_def view_upd_req view_upd_partner)

lemma view_enqueue_non_acked [simp]: "V (omx__enqueue_non_acked p r ep) = V ep"
  by (simp add: omx__enqueue_non_acked_def Let_def view_upd_partner)

lemma view_throttle [simp]: "V (throttle p r ep) = V ep"
  by (simp add: throttle_def omx__mark_partner_throttling_def Let_def view_upd_req view_upd_partner)

lemma view_delay_send [simp]: "V (delay_send r ep) = V ep"
  by (simp add: delay_send_def Let_def view_upd_req)

lemmas view_posts = view_post_isend_tiny view_post_isend_small view_post_isend_mediumva view_post_isend_rndv
  view_post_notify view_post_isend_mediumsq

lemma view_setup_isend_tiny: "omx__setup_isend_tiny p r ep = Some ep' \<Longrightarrow> V ep' = V ep"
  by (auto simp: omx__setup_isend_tiny_def Let_def bind_eq_Some_conv view_upd_req
      dest!: view_posts view_notify_request_done_early)

lemma view_setup_isend_small: "omx__setup_isend_small p r ep = Some ep' \<Longrightarrow> V ep' = V ep"
  by (auto simp: omx__setup_isend_small_def Let_def bind_eq_Some_conv view_upd_req
      dest!: view_posts view_notify_request_done_early)

lemma view_setup_isend_mediumva: "omx__setup_isend_mediumva p r ep = Some ep' \<Longrightarrow> V ep' = V ep"
  by (auto simp: omx__setup_isend_mediumva_def Let_def bind_eq_Some_conv view_upd_req dest!: view_posts)

lemma view_setup_isend_mediumsq: "omx__setup_isend_mediumsq p r ep = Some ep' \<Longrightarrow> V ep' = V ep"
  by (auto simp: omx__setup_isend_mediumsq_def Let_def bind_eq_Some_conv view_upd_req view_upd_partner
      split: if_split_asm dest!: view_posts view_notify_request_done_early)

lemma view_setup_isend_rndv: "omx__setup_isend_rndv p r ep = Some ep' \<Longrightarrow> V ep' = V ep"
  by (auto simp: omx__setup_isend_rndv_def Let_def bind_eq_Some_conv view_upd_req dest!: view_posts)

lemma view_setup_notify: "omx__setup_notify p r ep = Some ep' \<Longrightarrow> V ep' = V ep"
  by (auto simp: omx__setup_notify_def Let_def bind_eq_Some_conv view_upd_req
      dest!: view_posts view_notify_request_done_early)

lemmas view_setups = view_setup_isend_tiny view_setup_isend_small view_setup_isend_mediumva
  view_setup_isend_mediumsq view_setup_isend_rndv view_setup_notify

lemma view_setup_throttled: "setup_throttled p r ep = Some ep' \<Longrightarrow> V ep' = V ep"
  by (auto split: omx__request_type.split_asm dest!: view_setups)

lemma view_throttling_loop: "throttling_loop p k sent ep = Some (n, ep') \<Longrightarrow> V ep' = V ep"
proof (induction k arbitrary: sent ep)
  case (Suc k)
  from Suc.prems show ?case
    by (auto simp: Let_def bind_eq_Some_conv view_upd_req view_upd_partner simp del: setup_throttled.simps
      split: list.split_asm dest!: Suc.IH view_setup_throttled)
qed simp

lemma view_process_throttling: "omx__process_throttling_requests p nr ep = Some ep' \<Longrightarrow> V ep' = V ep"
  by (auto simp: omx__process_throttling_requests_def omx__update_partner_throttling_def Let_def bind_eq_Some_conv
      view_upd_partner split: if_split_asm dest!: view_throttling_loop)

lemma view_handle_ack_loop: "handle_ack_loop p n rs ep = Some ep' \<Longrightarrow> V ep' = V ep"
proof (induction rs arbitrary: ep)
  case (Cons r rs)
  from Cons.prems show ?case
    by (auto simp: Let_def bind_eq_Some_conv view_upd_partner split: if_split_asm dest!: Cons.IH view_mark_request_acked)
qed simp

lemma view_handle_ack: "omx__handle_ack p a ep = Some ep' \<Longrightarrow> V ep' = V ep"
  by (auto simp: omx__handle_ack_def Let_def bind_eq_Some_conv view_upd_partner
      split: if_split_asm dest!: view_handle_ack_loop view_process_throttling)

lemma view_alloc_setup_notify: "omx__alloc_setup_notify r ep = Some ep' \<Longrightarrow> V ep' = V ep"
  by (auto simp: omx__alloc_setup_notify_def Let_def view_upd_req split: if_split_asm dest!: view_setup_notify)

lemma view_submit_notify: "omx__submit_notify r d ep = Some ep' \<Longrightarrow> V ep' = V ep"
  by (auto simp: omx__submit_notify_def Let_def view_upd_req split: if_split_asm dest!: view_alloc_setup_notify)

end

end
