(* ===== verification/Send_Window.thy ===== *)
theory Send_Window
  imports Views
begin

text \<open>
  The sender side of the protocol: every message that waits for its ack has its own sequence number, the
  numbers increase along the queue of the partner, and at most \<^verbatim>\<open>OMX__THROTTLING_OFFSET_MAX\<close> of them are
  out, whatever the order of sends and acks.
\<close>

definition send_pv :: "omx__partner \<Rightarrow> u16 \<times> u16 \<times> rid list \<times> rid list" where
  "send_pv pt = (next_send_seq pt, next_acked_send_seq pt, p_non_acked_req_q pt, p_need_seqnum_send_req_q pt)"

interpretation send_seq: posting_view send_pv send_seqnum
  by unfold_locales (simp_all add: send_pv_def)

abbreviation send_view :: "omx_endpoint \<Rightarrow> (pid \<Rightarrow> u16 \<times> u16 \<times> rid list \<times> rid list) \<times> (rid \<Rightarrow> u16)" where
  "send_view \<equiv> view send_pv send_seqnum"

lemma send_viewD:
  assumes "send_view ep' = send_view ep"
  shows "next_send_seq (partners ep' p) = next_send_seq (partners ep p)"
    "next_acked_send_seq (partners ep' p) = next_acked_send_seq (partners ep p)"
    "p_non_acked_req_q (partners ep' p) = p_non_acked_req_q (partners ep p)"
    "p_need_seqnum_send_req_q (partners ep' p) = p_need_seqnum_send_req_q (partners ep p)"
    "send_seqnum (reqs ep' r) = send_seqnum (reqs ep r)"
  using assms by (auto simp: view_def send_pv_def fun_eq_iff)

lemma send_view_eqI:
  assumes "\<And>p. next_send_seq (partners ep' p) = next_send_seq (partners ep p)"
    "\<And>p. next_acked_send_seq (partners ep' p) = next_acked_send_seq (partners ep p)"
    "\<And>p. p_non_acked_req_q (partners ep' p) = p_non_acked_req_q (partners ep p)"
    "\<And>p. p_need_seqnum_send_req_q (partners ep' p) = p_need_seqnum_send_req_q (partners ep p)"
    "\<And>r. send_seqnum (reqs ep' r) = send_seqnum (reqs ep r)"
  shows "send_view ep' = send_view ep"
  using assms by (auto simp: view_def send_pv_def fun_eq_iff)

subsection \<open>Numbering a message\<close>

text \<open>What every \<^verbatim>\<open>setup\<close> does to the view: take the next number and join the queue.\<close>

definition numbered :: "pid \<Rightarrow> rid \<Rightarrow> omx_endpoint \<Rightarrow> omx_endpoint" where
  "numbered p r ep = omx__enqueue_non_acked p r (take_seqnum p r ep)"

lemma enqueue_non_acked_cong:
  assumes "send_view ep' = send_view ep"
  shows "send_view (omx__enqueue_non_acked p r ep') = send_view (omx__enqueue_non_acked p r ep)"
  by (rule send_view_eqI) (simp_all add: omx__enqueue_non_acked_def upd_partner_def Let_def send_viewD [OF assms])

lemma numbered_cong:
  assumes "send_view ep' = send_view ep"
  shows "send_view (numbered p r ep') = send_view (numbered p r ep)"
  unfolding numbered_def
  by (rule send_view_eqI)
    (simp_all add: omx__enqueue_non_acked_def take_seqnum_def upd_partner_def upd_req_def Let_def send_viewD [OF assms])

lemma enqueue_partner_non_acked:
  "send_view (upd_partner p (\<lambda>pt. pt\<lparr>p_non_acked_req_q := p_non_acked_req_q pt @ [r]\<rparr>) ep) =
    send_view (omx__enqueue_non_acked p r ep)"
  by (rule send_view_eqI) (simp_all add: omx__enqueue_non_acked_def upd_partner_def Let_def)

lemma setup_isend_tiny_numbered:
  "omx__setup_isend_tiny p r ep = Some ep' \<Longrightarrow> send_view ep' = send_view (numbered p r ep)"
  by (auto simp: omx__setup_isend_tiny_def numbered_def Let_def bind_eq_Some_conv view_upd_req
      intro!: enqueue_non_acked_cong dest!: send_seq.view_post_isend_tiny send_seq.view_notify_request_done_early)

lemma setup_isend_small_numbered:
  "omx__setup_isend_small p r ep = Some ep' \<Longrightarrow> send_view ep' = send_view (numbered p r ep)"
  by (auto simp: omx__setup_isend_small_def numbered_def Let_def bind_eq_Some_conv view_upd_req
      intro!: enqueue_non_acked_cong dest!: send_seq.view_post_isend_small send_seq.view_notify_request_done_early)

lemma setup_isend_mediumva_numbered:
  "omx__setup_isend_mediumva p r ep = Some ep' \<Longrightarrow> send_view ep' = send_view (numbered p r ep)"
  by (auto simp: omx__setup_isend_mediumva_def numbered_def Let_def bind_eq_Some_conv view_upd_req
      intro!: enqueue_non_acked_cong dest!: send_seq.view_post_isend_mediumva)

lemma setup_isend_mediumsq_numbered:
  "omx__setup_isend_mediumsq p r ep = Some ep' \<Longrightarrow> send_view ep' = send_view (numbered p r ep)"
  by (auto simp: omx__setup_isend_mediumsq_def numbered_def Let_def bind_eq_Some_conv view_upd_req enqueue_partner_non_acked
      split: if_split_asm
      intro!: enqueue_non_acked_cong dest!: send_seq.view_post_isend_mediumsq send_seq.view_notify_request_done_early)

lemma setup_isend_rndv_numbered:
  "omx__setup_isend_rndv p r ep = Some ep' \<Longrightarrow> send_view ep' = send_view (numbered p r ep)"
  by (auto simp: omx__setup_isend_rndv_def numbered_def Let_def bind_eq_Some_conv view_upd_req
      intro!: enqueue_non_acked_cong dest!: send_seq.view_post_isend_rndv)

lemma setup_notify_numbered:
  "omx__setup_notify p r ep = Some ep' \<Longrightarrow> send_view ep' = send_view (numbered p r ep)"
  by (auto simp: omx__setup_notify_def numbered_def Let_def bind_eq_Some_conv view_upd_req
      intro!: enqueue_non_acked_cong dest!: send_seq.view_post_notify send_seq.view_notify_request_done_early)

lemmas setups_numbered = setup_isend_tiny_numbered setup_isend_small_numbered setup_isend_mediumva_numbered
  setup_isend_mediumsq_numbered setup_isend_rndv_numbered setup_notify_numbered

lemma setup_throttled_numbered: "setup_throttled p r ep = Some ep' \<Longrightarrow> send_view ep' = send_view (numbered p r ep)"
  by (auto split: omx__request_type.split_asm dest!: setups_numbered)

subsection \<open>The window\<close>

definition send_index :: "omx_endpoint \<Rightarrow> pid \<Rightarrow> rid \<Rightarrow> nat" where
  "send_index ep p r = seq_index (next_acked_send_seq (partners ep p)) (send_seqnum (reqs ep r))"

definition window_size :: "omx_endpoint \<Rightarrow> pid \<Rightarrow> nat" where
  "window_size ep p = seq_index (next_acked_send_seq (partners ep p)) (next_send_seq (partners ep p))"

definition window_inv :: "omx_endpoint \<Rightarrow> pid \<Rightarrow> bool" where
  "window_inv ep p \<longleftrightarrow>
    (let q = p_non_acked_req_q (partners ep p); nq = p_need_seqnum_send_req_q (partners ep p) in
     distinct (q @ nq) \<and> sorted_wrt (<) (map (send_index ep p) q) \<and>
     (\<forall>r \<in> set q. send_index ep p r < window_size ep p) \<and> window_size ep p \<le> unat OMX__THROTTLING_OFFSET_MAX)"

lemma window_cong:
  assumes "send_view ep' = send_view ep"
  shows "window_inv ep' p = window_inv ep p" "window_size ep' p = window_size ep p" "send_index ep' p r = send_index ep p r"
  by (simp_all add: window_inv_def window_size_def send_index_def [abs_def] send_viewD [OF assms])

lemma throttled_window: "throttled ep p \<longleftrightarrow> unat OMX__THROTTLING_OFFSET_MAX \<le> window_size ep p"
  by (simp add: throttled_def window_size_def seq_index_def word_le_nat_alt)

lemma numbered_sel:
  "next_acked_send_seq (partners (numbered p r ep) p') = next_acked_send_seq (partners ep p')"
  "next_send_seq (partners (numbered p r ep) p') =
    (if p' = p then OMX__SEQNUM_INCREASE (next_send_seq (partners ep p)) else next_send_seq (partners ep p'))"
  "p_non_acked_req_q (partners (numbered p r ep) p') =
    (if p' = p then p_non_acked_req_q (partners ep p) @ [r] else p_non_acked_req_q (partners ep p'))"
  "p_need_seqnum_send_req_q (partners (numbered p r ep) p') = p_need_seqnum_send_req_q (partners ep p')"
  "send_seqnum (reqs (numbered p r ep) r') = (if r' = r then next_send_seq (partners ep p) else send_seqnum (reqs ep r'))"
  by (simp_all add: numbered_def omx__enqueue_non_acked_def take_seqnum_def upd_partner_def upd_req_def Let_def)

lemma numbered_window:
  assumes "window_inv ep p" "\<not> throttled ep p" "r \<notin> set (p_non_acked_req_q (partners ep p))"
    and "r \<notin> set (p_need_seqnum_send_req_q (partners ep p))"
  shows "window_inv (numbered p r ep) p" "window_size (numbered p r ep) p = Suc (window_size ep p)"
proof -
  let ?q = "p_non_acked_req_q (partners ep p)"
  have w: "window_size ep p < 8191"
    using assms(2) by (simp add: throttled_window throttling_max_val)
  then show sz: "window_size (numbered p r ep) p = Suc (window_size ep p)"
    by (simp add: window_size_def numbered_sel seq_index_increase)
  have i: "send_index (numbered p r ep) p x = send_index ep p x" if "x \<in> set ?q" for x
    using that assms(3) by (auto simp: send_index_def numbered_sel)
  have r: "send_index (numbered p r ep) p r = window_size ep p"
    by (simp add: send_index_def window_size_def numbered_sel)
  have m: "map (send_index (numbered p r ep) p) ?q = map (send_index ep p) ?q"
    using i by simp
  show "window_inv (numbered p r ep) p"
    using assms(1,3,4) w i by (auto simp: window_inv_def Let_def numbered_sel sz r m sorted_wrt_append throttling_max_val)
qed

text \<open>Queueing a send for later leaves the window alone.\<close>

lemma throttle_window:
  assumes "window_inv ep p" "r \<notin> set (p_non_acked_req_q (partners ep p))"
    and "r \<notin> set (p_need_seqnum_send_req_q (partners ep p))"
  shows "window_inv (throttle p r ep) p"
proof -
  have s: "next_acked_send_seq (partners (throttle p r ep) p) = next_acked_send_seq (partners ep p)"
    "next_send_seq (partners (throttle p r ep) p) = next_send_seq (partners ep p)"
    "p_non_acked_req_q (partners (throttle p r ep) p) = p_non_acked_req_q (partners ep p)"
    "p_need_seqnum_send_req_q (partners (throttle p r ep) p) = p_need_seqnum_send_req_q (partners ep p) @ [r]"
    "send_seqnum (reqs (throttle p r ep) x) = send_seqnum (reqs ep x)" for x
    by (simp_all add: throttle_def omx__mark_partner_throttling_def upd_partner_def upd_req_def Let_def)
  from assms show ?thesis
    by (auto simp: window_inv_def window_size_def send_index_def [abs_def] s Let_def)
qed

subsection \<open>Throttled sends\<close>

lemma take_head_window:
  assumes "window_inv ep p" "p_need_seqnum_send_req_q (partners ep p) = r # rs" "window_size ep p < 8191"
  defines "ep1 \<equiv> upd_req r (clear_state_flag OMX_REQUEST_STATE_NEED_SEQNUM)
    (upd_partner p (\<lambda>pt. pt\<lparr>p_need_seqnum_send_req_q := rs\<rparr>) ep)"
  shows "window_inv (numbered p r ep1) p" "window_size (numbered p r ep1) p = Suc (window_size ep p)"
    "p_need_seqnum_send_req_q (partners (numbered p r ep1) p) = rs"
    "p_non_acked_req_q (partners (numbered p r ep1) p) = p_non_acked_req_q (partners ep p) @ [r]"
proof -
  have s: "next_acked_send_seq (partners ep1 p) = next_acked_send_seq (partners ep p)"
    "next_send_seq (partners ep1 p) = next_send_seq (partners ep p)"
    "p_non_acked_req_q (partners ep1 p) = p_non_acked_req_q (partners ep p)"
    "p_need_seqnum_send_req_q (partners ep1 p) = rs" "send_seqnum (reqs ep1 x) = send_seqnum (reqs ep x)" for x
    by (simp_all add: ep1_def upd_partner_def upd_req_def)
  have inv: "window_inv ep1 p" and sz: "window_size ep1 p = window_size ep p"
    using assms(1,2) by (auto simp: window_inv_def window_size_def send_index_def [abs_def] s Let_def)
  have "\<not> throttled ep1 p" using assms(3) by (simp add: throttled_window sz throttling_max_val)
  moreover have "r \<notin> set (p_non_acked_req_q (partners ep1 p))" "r \<notin> set (p_need_seqnum_send_req_q (partners ep1 p))"
    using assms(1,2) by (auto simp: window_inv_def s Let_def)
  ultimately show "window_inv (numbered p r ep1) p" "window_size (numbered p r ep1) p = Suc (window_size ep p)"
    using numbered_window [OF inv] by (simp_all add: sz)
  show "p_need_seqnum_send_req_q (partners (numbered p r ep1) p) = rs"
    "p_non_acked_req_q (partners (numbered p r ep1) p) = p_non_acked_req_q (partners ep p) @ [r]"
    by (simp_all add: numbered_sel s)
qed

lemma throttling_loop_window:
  assumes "window_inv ep p" "window_size ep p + k \<le> 8191" "throttling_loop p k sent ep = Some (n, ep')"
  shows "window_inv ep' p \<and>
    p_non_acked_req_q (partners ep' p) =
      p_non_acked_req_q (partners ep p) @ take k (p_need_seqnum_send_req_q (partners ep p)) \<and>
    p_need_seqnum_send_req_q (partners ep' p) = drop k (p_need_seqnum_send_req_q (partners ep p)) \<and>
    next_acked_send_seq (partners ep' p) = next_acked_send_seq (partners ep p) \<and>
    n = sent + min k (length (p_need_seqnum_send_req_q (partners ep p)))"
  using assms
proof (induction k arbitrary: sent ep)
  case (Suc k)
  show ?case
  proof (cases "p_need_seqnum_send_req_q (partners ep p)")
    case Nil
    with Suc.prems show ?thesis by auto
  next
    case (Cons r rs)
    define ep1 where "ep1 = upd_req r (clear_state_flag OMX_REQUEST_STATE_NEED_SEQNUM)
      (upd_partner p (\<lambda>pt. pt\<lparr>p_need_seqnum_send_req_q := rs\<rparr>) ep)"
    obtain ep2 where ep2: "setup_throttled p r ep1 = Some ep2" "throttling_loop p k (Suc sent) ep2 = Some (n, ep')"
      using Suc.prems(3) Cons by (auto simp: bind_eq_Some_conv Let_def ep1_def simp del: setup_throttled.simps)
    note v = setup_throttled_numbered [OF ep2(1)]
    have "window_size ep p < 8191" using Suc.prems(2) by simp
    note h = take_head_window [OF Suc.prems(1) Cons this, folded ep1_def]
    have "window_inv ep2 p" "window_size ep2 p + k \<le> 8191"
      using h(1,2) Suc.prems(2) by (simp_all add: window_cong [OF v])
    note ih = Suc.IH [OF this ep2(2)]
    have "next_acked_send_seq (partners ep2 p) = next_acked_send_seq (partners ep p)"
      by (simp add: send_viewD [OF v] numbered_sel ep1_def upd_partner_def upd_req_def)
    with ih h(3,4) show ?thesis by (simp add: send_viewD [OF v] Cons)
  qed
qed simp

lemma process_throttling_window:
  assumes "window_inv ep p" "window_size ep p + k \<le> 8191" "omx__process_throttling_requests p k ep = Some ep'"
  shows "window_inv ep' p \<and>
    p_non_acked_req_q (partners ep' p) =
      p_non_acked_req_q (partners ep p) @ take k (p_need_seqnum_send_req_q (partners ep p)) \<and>
    p_need_seqnum_send_req_q (partners ep' p) = drop k (p_need_seqnum_send_req_q (partners ep p)) \<and>
    next_acked_send_seq (partners ep' p) = next_acked_send_seq (partners ep p)"
proof -
  obtain n ep1 where ep1: "throttling_loop p k 0 ep = Some (n, ep1)" "ep' = omx__update_partner_throttling p n ep1"
    using assms(3) by (auto simp: omx__process_throttling_requests_def bind_eq_Some_conv)
  have v: "send_view ep' = send_view ep1"
    by (simp add: ep1(2) omx__update_partner_throttling_def Let_def view_upd_partner send_pv_def)
  show ?thesis
    using throttling_loop_window [OF assms(1,2) ep1(1)] by (simp add: window_cong [OF v] send_viewD [OF v])
qed

subsection \<open>Acks\<close>

lemma mark_request_acked_view: "omx__mark_request_acked r ret ep = Some ep' \<Longrightarrow> send_view ep' = send_view ep"
  by (rule send_seq.view_mark_request_acked)

text \<open>The loop takes the requests with an index below \<open>n\<close> off the front of the queue.\<close>

lemma handle_ack_loop_view:
  assumes "handle_ack_loop p n rs ep = Some ep'" "p_non_acked_req_q (partners ep p) = rs"
  shows "send_view ep' =
    send_view (upd_partner p (\<lambda>pt. pt\<lparr>p_non_acked_req_q := dropWhile (\<lambda>r. send_index ep p r < unat n) rs\<rparr>) ep)"
  using assms
proof (induction rs arbitrary: ep)
  case Nil
  then show ?case by (auto intro!: send_view_eqI)
next
  case (Cons r rs)
  have lt: "ack_index ep p (send_seqnum (reqs ep r)) \<ge> n \<longleftrightarrow> unat n \<le> send_index ep p r"
    by (simp add: ack_index_def send_index_def seq_index_def word_le_nat_alt)
  show ?case
  proof (cases "unat n \<le> send_index ep p r")
    case True
    with Cons.prems lt show ?thesis by (auto intro!: send_view_eqI)
  next
    case False
    let ?ep1 = "upd_partner p (\<lambda>pt. pt\<lparr>p_non_acked_req_q := remove1 r (p_non_acked_req_q pt)\<rparr>) ep"
    obtain ep2 where ep2: "omx__mark_request_acked r OMX_SUCCESS ?ep1 = Some ep2" "handle_ack_loop p n rs ep2 = Some ep'"
      using Cons.prems(1) False lt by (auto simp: bind_eq_Some_conv Let_def)
    note v = mark_request_acked_view [OF ep2(1)]
    have q: "p_non_acked_req_q (partners ep2 p) = rs"
      using Cons.prems(2) by (simp add: send_viewD [OF v])
    have i: "send_index ep2 p = send_index ep p"
      by (simp add: fun_eq_iff send_index_def send_viewD [OF v])
    have "send_view ep' = send_view (upd_partner p (\<lambda>pt. pt\<lparr>p_non_acked_req_q := dropWhile (\<lambda>r. send_index ep p r < unat n) rs\<rparr>) ep2)"
      using Cons.IH [OF ep2(2) q] by (simp add: i)
    also have "\<dots> = send_view (upd_partner p (\<lambda>pt. pt\<lparr>p_non_acked_req_q := dropWhile (\<lambda>r. send_index ep p r < unat n) rs\<rparr>) ep)"
      by (rule send_view_eqI) (simp_all add: send_viewD [OF v])
    finally show ?thesis using False by simp
  qed
qed

lemma sorted_dropWhile_filter:
  "sorted_wrt (<) (map f xs) \<Longrightarrow> dropWhile (\<lambda>x. f x < (n :: nat)) xs = filter (\<lambda>x. n \<le> f x) xs"
proof (induction xs)
  case (Cons x xs)
  show ?case
  proof (cases "f x < n")
    case False
    with Cons.prems have "\<forall>y \<in> set xs. n \<le> f y" by auto
    with False show ?thesis by (simp add: filter_id_conv)
  qed (use Cons in auto)
qed simp

text \<open>Moving the start of the window to a number within it.\<close>

lemma shift_window:
  assumes inv: "window_inv ep p" and n: "seq_index (next_acked_send_seq (partners ep p)) a \<le> window_size ep p"
  defines "m \<equiv> seq_index (next_acked_send_seq (partners ep p)) a"
  defines "ep1 \<equiv> upd_partner p (\<lambda>pt. pt\<lparr>p_non_acked_req_q := filter (\<lambda>r. m \<le> send_index ep p r) (p_non_acked_req_q pt),
    next_acked_send_seq := a\<rparr>) ep"
  shows "window_inv ep1 p" "window_size ep1 p = window_size ep p - m"
proof -
  let ?q = "p_non_acked_req_q (partners ep p)"
  show sz: "window_size ep1 p = window_size ep p - m"
    using seq_index_between [OF n [unfolded window_size_def]] by (simp add: window_size_def ep1_def m_def)
  have i: "send_index ep1 p r = send_index ep p r - m" if "m \<le> send_index ep p r" for r
    using that seq_index_between [of "next_acked_send_seq (partners ep p)" a "send_seqnum (reqs ep r)"]
    by (simp add: send_index_def ep1_def m_def)
  let ?f = "filter (\<lambda>r. m \<le> send_index ep p r) ?q"
  have e: "map (send_index ep1 p) ?f = map (\<lambda>r. send_index ep p r - m) ?f"
    using i by simp
  have "sorted_wrt (<) (map (send_index ep p) ?f)"
    using inv by (auto simp: window_inv_def Let_def sorted_wrt_map intro: sorted_wrt_filter)
  then have "sorted_wrt (<) (map (\<lambda>r. send_index ep p r - m) ?f)"
    unfolding sorted_wrt_map by (rule sorted_wrt_mono_rel [rotated]) auto
  moreover have "p_non_acked_req_q (partners ep1 p) = ?f"
    "p_need_seqnum_send_req_q (partners ep1 p) = p_need_seqnum_send_req_q (partners ep p)"
    by (simp_all add: ep1_def)
  moreover have "\<forall>r \<in> set ?f. send_index ep1 p r < window_size ep1 p"
    using inv i sz by (auto simp: window_inv_def Let_def)
  ultimately show "window_inv ep1 p"
    using inv sz by (auto simp: window_inv_def Let_def e)
qed

lemma handle_ack_effect:
  assumes inv: "window_inv ep p" and run: "omx__handle_ack p a ep = Some ep'"
  shows "let n = unat (OMX__SEQNUM (a - next_acked_send_seq (partners ep p))) in
    if n = 0 \<or> window_size ep p < n then ep' = ep
    else window_inv ep' p \<and> next_acked_send_seq (partners ep' p) = a \<and>
      p_non_acked_req_q (partners ep' p) =
        filter (\<lambda>r. n \<le> send_index ep p r) (p_non_acked_req_q (partners ep p)) @
        take n (p_need_seqnum_send_req_q (partners ep p)) \<and>
      p_need_seqnum_send_req_q (partners ep' p) = drop n (p_need_seqnum_send_req_q (partners ep p))"
proof -
  define n where "n = seq_index (next_acked_send_seq (partners ep p)) a"
  have n': "unat (ack_index ep p a) = n" "unat (OMX__SEQNUM (a - next_acked_send_seq (partners ep p))) = n"
    "unat (ack_index ep p (next_send_seq (partners ep p))) = window_size ep p"
    by (simp_all add: n_def ack_index_def seq_index_def window_size_def)
  have obs: "ack_index ep p a = 0 \<or> ack_index ep p a > ack_index ep p (next_send_seq (partners ep p)) \<longleftrightarrow>
      n = 0 \<or> window_size ep p < n"
    by (simp add: word_less_nat_alt n' flip: unat_eq_zero)
  show ?thesis
  proof (cases "n = 0 \<or> window_size ep p < n")
    case True
    with run obs have "ep' = ep" by (simp add: omx__handle_ack_def Let_def split: if_splits)
    with True show ?thesis by (simp add: Let_def n')
  next
    case False
    obtain ep1 where ep1: "handle_ack_loop p (ack_index ep p a) (p_non_acked_req_q (partners ep p)) ep = Some ep1"
      "omx__process_throttling_requests p n (upd_partner p (\<lambda>pt. pt\<lparr>next_acked_send_seq := a\<rparr>) ep1) = Some ep'"
      using run False obs by (auto simp: omx__handle_ack_def Let_def bind_eq_Some_conv n')
    let ?e = "upd_partner p (\<lambda>pt. pt\<lparr>p_non_acked_req_q := filter (\<lambda>r. n \<le> send_index ep p r) (p_non_acked_req_q pt),
      next_acked_send_seq := a\<rparr>) ep"
    let ?e1 = "upd_partner p (\<lambda>pt. pt\<lparr>next_acked_send_seq := a\<rparr>) ep1"
    have d: "dropWhile (\<lambda>r. send_index ep p r < n) (p_non_acked_req_q (partners ep p)) =
        filter (\<lambda>r. n \<le> send_index ep p r) (p_non_acked_req_q (partners ep p))"
      using inv by (intro sorted_dropWhile_filter) (auto simp: window_inv_def Let_def)
    note v1 = handle_ack_loop_view [OF ep1(1) refl, unfolded n' d]
    have v: "send_view ?e1 = send_view ?e"
      by (rule send_view_eqI) (simp_all add: send_viewD [OF v1])
    have "window_inv ?e p" "window_size ?e p = window_size ep p - n"
      using shift_window [OF inv, of a] False by (simp_all add: n_def)
    moreover have "window_size ep p \<le> 8191"
      using inv by (simp add: window_inv_def Let_def throttling_max_val)
    ultimately have "window_inv ?e1 p" "window_size ?e1 p + n \<le> 8191"
      using False by (simp_all add: window_cong [OF v])
    from process_throttling_window [OF this ep1(2)] False show ?thesis
      by (simp add: send_viewD [OF v1] n')
  qed
qed

lemma handle_ack_window:
  assumes "window_inv ep p" "omx__handle_ack p a ep = Some ep'"
  shows "window_inv ep' p"
  using handle_ack_effect [OF assms] assms(1) by (auto simp: Let_def split: if_split_asm)

text \<open>
  C7: An ack up to \<open>a\<close> that is obsolete, or that acks more than was sent, changes nothing. Otherwise exactly
  the requests with a number before \<open>a\<close> leave the queue of the partner, the others stay in order, the start
  of the window moves to \<open>a\<close>, and as many throttled sends as there are new acks follow in their order; the
  window is in order again.
\<close>

theorem handle_ack_exact:
  assumes inv: "window_inv ep p" and run: "omx__handle_ack p a ep = Some ep'"
  shows "let n = unat (OMX__SEQNUM (a - next_acked_send_seq (partners ep p))) in
    if n = 0 \<or> window_size ep p < n then ep' = ep
    else window_inv ep' p \<and> next_acked_send_seq (partners ep' p) = a \<and>
      p_non_acked_req_q (partners ep' p) =
        filter (\<lambda>r. n \<le> send_index ep p r) (p_non_acked_req_q (partners ep p)) @
        take n (p_need_seqnum_send_req_q (partners ep p)) \<and>
      p_need_seqnum_send_req_q (partners ep' p) = drop n (p_need_seqnum_send_req_q (partners ep p))"
  using inv run by (rule handle_ack_effect)

subsection \<open>Submitting a message\<close>

text \<open>
  What submitting a request, or trying a delayed one again, does to the view: nothing yet, or it takes the
  next number, or the window is full and it joins the throttled requests.
\<close>

definition one_send :: "pid \<Rightarrow> rid \<Rightarrow> omx_endpoint \<Rightarrow> omx_endpoint \<Rightarrow> bool" where
  "one_send p r ep ep' \<longleftrightarrow> send_view ep' = send_view ep \<or>
    throttled ep p \<and> send_view ep' = send_view (throttle p r ep) \<or>
    \<not> throttled ep p \<and> send_view ep' = send_view (numbered p r ep)"

lemma throttle_cong:
  assumes "send_view ep' = send_view ep"
  shows "send_view (throttle p r ep') = send_view (throttle p r ep)"
  by (rule send_view_eqI)
    (simp_all add: throttle_def omx__mark_partner_throttling_def upd_partner_def upd_req_def Let_def send_viewD [OF assms])

lemma one_send_cong:
  assumes "one_send p r ep1 ep2" and v: "send_view ep1 = send_view ep" and "send_view ep' = send_view ep2"
  shows "one_send p r ep ep'"
  using assms(1,3) unfolding one_send_def
  by (simp add: v numbered_cong [OF v] throttle_cong [OF v] throttled_def send_viewD [OF v])

lemma one_send_setup:
  assumes "(if throttled ep1 p then Some (throttle p r ep1) else do_setup p r ep1) = Some ep2" "send_view ep1 = send_view ep"
    and "\<And>ep ep'. do_setup p r ep = Some ep' \<Longrightarrow> send_view ep' = send_view (numbered p r ep)" "send_view ep' = send_view ep2"
  shows "one_send p r ep ep'"
proof (rule one_send_cong [OF _ assms(2) refl])
  show "one_send p r ep1 ep'" using assms(1,3,4) by (auto simp: one_send_def split: if_splits)
qed

lemma one_send_same: "send_view ep' = send_view ep \<Longrightarrow> one_send p r ep ep'"
  by (simp add: one_send_def)

lemma alloc_setup_isend_tiny_one_send: "omx__alloc_setup_isend_tiny p r ep = Some ep' \<Longrightarrow> one_send p r ep ep'"
  by (auto simp: omx__alloc_setup_isend_tiny_def Let_def bind_eq_Some_conv view_upd_req
      elim!: one_send_setup [where do_setup = omx__setup_isend_tiny] dest: setups_numbered)

lemma alloc_setup_isend_small_one_send: "omx__alloc_setup_isend_small p r ep = Some ep' \<Longrightarrow> one_send p r ep ep'"
  by (cases "segs_nseg (segs (reqs ep r)) = 1")
    (auto simp: omx__alloc_setup_isend_small_def small_set_vaddr_def Let_def bind_eq_Some_conv view_upd_req
      elim!: one_send_setup [where do_setup = omx__setup_isend_small] dest: setups_numbered)

lemma alloc_setup_isend_mediumva_one_send: "omx__alloc_setup_isend_mediumva p r ep = Some ep' \<Longrightarrow> one_send p r ep ep'"
  by (auto simp: omx__alloc_setup_isend_mediumva_def Let_def view_upd_req
      elim!: one_send_setup [where do_setup = omx__setup_isend_mediumva] dest: setups_numbered)

lemma alloc_setup_notify_one_send:
  "omx__alloc_setup_notify r ep = Some ep' \<Longrightarrow> one_send (rpartner (reqs ep r)) r ep ep'"
  by (auto simp: omx__alloc_setup_notify_def Let_def view_upd_req
      elim!: one_send_setup [where do_setup = omx__setup_notify] dest: setups_numbered)

lemma sendq_slots_one_send:
  assumes "do { (founds, mp) \<leftarrow> get;
      (case founds of None \<Rightarrow> Some (ret0, ep1\<lparr>sendq_map := mp\<rparr>)
       | Some idx \<Rightarrow> if bad idx then None else do { ep \<leftarrow> do_setup idx (ep1\<lparr>sendq_map := mp\<rparr>); Some (OMX_SUCCESS, ep) }) } = Some (ret, ep')"
    and "send_view ep1 = send_view ep" "\<And>idx ep ep'. do_setup idx ep = Some ep' \<Longrightarrow> one_send p r ep ep'"
  shows "one_send p r ep ep'"
proof -
  obtain founds mp where g: "get = Some (founds, mp)"
    using assms(1) by (auto simp: bind_eq_Some_conv)
  have "one_send p r (ep1\<lparr>sendq_map := mp\<rparr>) ep'"
    using assms(1,3) by (cases founds) (auto simp: g bind_eq_Some_conv intro: one_send_same split: if_split_asm)
  then show ?thesis by (rule one_send_cong) (simp_all add: assms(2))
qed

lemma alloc_setup_isend_mediumsq_one_send:
  "omx__alloc_setup_isend_mediumsq p r ep = Some (ret, ep') \<Longrightarrow> one_send p r ep ep'"
  unfolding omx__alloc_setup_isend_mediumsq_def Let_def
  by (simp only: split: if_split_asm)
    (auto simp: view_upd_req intro: one_send_same elim!: sendq_slots_one_send [where bad = "\<lambda>idx. OMX_MEDIUM_FRAGS_MAX < length idx"]
      one_send_setup [where do_setup = omx__setup_isend_mediumsq] dest: setups_numbered)

lemma large_setup_one_send: "large_setup p r i ep = Some ep' \<Longrightarrow> one_send p r ep ep'"
  by (auto simp: large_setup_def Let_def view_upd_req
      elim!: one_send_setup [where do_setup = omx__setup_isend_rndv] dest: setups_numbered)

lemma get_region_one_send:
  assumes "do { (got, ep) \<leftarrow> omx__get_region sg w ep1;
      (case got of Inl ret \<Rightarrow> Some (ret, ep) | Inr i \<Rightarrow> do { ep \<leftarrow> large_setup p r i ep; Some (OMX_SUCCESS, ep) }) } = Some (ret, ep')"
    and "send_view ep1 = send_view ep"
  shows "one_send p r ep ep'"
proof -
  obtain got ep2 where g: "omx__get_region sg w ep1 = Some (got, ep2)"
    using assms(1) by (auto simp: bind_eq_Some_conv)
  have "one_send p r ep2 ep'"
    using assms(1) by (cases got) (auto simp: g bind_eq_Some_conv intro: one_send_same dest: large_setup_one_send)
  then show ?thesis by (rule one_send_cong) (simp_all add: send_seq.view_get_region [OF g] assms(2))
qed

lemma alloc_setup_isend_large_one_send:
  "omx__alloc_setup_isend_large p r ep = Some (ret, ep') \<Longrightarrow> one_send p r ep ep'"
  by (auto simp: omx__alloc_setup_isend_large_def Let_def view_upd_req
      split: if_split_asm intro: one_send_same elim!: get_region_one_send)

lemmas alloc_setups_one_send = alloc_setup_isend_tiny_one_send alloc_setup_isend_small_one_send
  alloc_setup_isend_mediumva_one_send alloc_setup_isend_mediumsq_one_send alloc_setup_isend_large_one_send

lemma submit_one_send:
  "omx__submit_isend_tiny p r ep = Some ep' \<Longrightarrow> one_send p r ep ep'"
  "omx__submit_isend_small p r ep = Some ep' \<Longrightarrow> one_send p r ep ep'"
  "omx__submit_isend_medium p r ep = Some ep' \<Longrightarrow> one_send p r ep ep'"
  "omx__submit_isend_large p r ep = Some ep' \<Longrightarrow> one_send p r ep ep'"
  by (auto simp: omx__submit_isend_tiny_def omx__submit_isend_small_def omx__submit_isend_medium_def
      omx__submit_isend_large_def set_lengths_def delay_send_def Let_def view_upd_req bind_eq_Some_conv
      split: if_split_asm intro: one_send_same dest!: alloc_setups_one_send elim!: one_send_cong)

lemma one_send_window:
  assumes "one_send p r ep ep'" "window_inv ep p" "r \<notin> set (p_non_acked_req_q (partners ep p))"
    and "r \<notin> set (p_need_seqnum_send_req_q (partners ep p))"
  shows "window_inv ep' p"
  using assms(1) unfolding one_send_def
proof (elim disjE conjE)
  assume "send_view ep' = send_view ep"
  from window_cong(1) [OF this] assms(2) show ?thesis by simp
next
  assume "send_view ep' = send_view (throttle p r ep)"
  from window_cong(1) [OF this] throttle_window [OF assms(2-4)] show ?thesis by simp
next
  assume "send_view ep' = send_view (numbered p r ep)" "\<not> throttled ep p"
  from window_cong(1) [OF this(1)] numbered_window(1) [OF assms(2) this(2) assms(3,4)] show ?thesis by simp
qed

subsection \<open>Nacks\<close>

lemma sorted_wrt_remove1: "sorted_wrt P xs \<Longrightarrow> sorted_wrt P (remove1 x xs)"
  by (induction xs) (auto dest: notin_set_remove1)

lemma remove_window:
  assumes "window_inv ep p"
  shows "window_inv (upd_partner p (\<lambda>pt. pt\<lparr>p_non_acked_req_q := remove1 r (p_non_acked_req_q pt)\<rparr>) ep) p"
    (is "window_inv ?ep p")
proof -
  have "send_index ?ep p x = send_index ep p x" "window_size ?ep p = window_size ep p" for x
    by (simp_all add: send_index_def window_size_def)
  with assms show ?thesis
    by (auto simp: window_inv_def Let_def sorted_wrt_map sorted_wrt_remove1 dest: notin_set_remove1)
qed

lemma nack_window:
  assumes "window_inv ep p" "omx__handle_nack p s ret ep = Some ep'"
  shows "window_inv ep' p"
proof -
  let ?f = "if OMX__SESNUM (s XOR next_send_seq (partners ep p)) \<noteq> 0 then None
    else nack_find ep p (ack_index ep p s) (p_non_acked_req_q (partners ep p))"
  show ?thesis
  proof (cases ?f)
    case None
    with assms(2) have "send_view ep' = send_view ep"
      by (auto simp: omx__handle_nack_def Let_def split: list.split_asm dest!: send_seq.view_connect_complete)
    from window_cong(1) [OF this] assms(1) show ?thesis by simp
  next
    case (Some r)
    with assms(2) have "omx__mark_request_acked r ret
        (upd_partner p (\<lambda>pt. pt\<lparr>p_non_acked_req_q := remove1 r (p_non_acked_req_q pt)\<rparr>) ep) = Some ep'"
      by (simp add: omx__handle_nack_def Let_def)
    from window_cong(1) [OF mark_request_acked_view [OF this]] remove_window [OF assms(1)] show ?thesis by simp
  qed
qed

lemma liback_window:
  assumes "window_inv ep p" "omx__handle_liback p liback ep = Some ep'"
  shows "window_inv ep' p"
proof -
  let ?e = "upd_partner p (\<lambda>pt. pt\<lparr>last_recv_acknum := lb_acknum liback\<rparr>) ep"
  have "send_view ?e = send_view ep" by (simp add: view_upd_partner send_pv_def)
  from window_cong(1) [OF this] assms(1) have "window_inv ?e p" by simp
  with assms show ?thesis
    by (auto simp: omx__handle_liback_def Let_def split: if_split_asm dest: handle_ack_window)
qed

subsection \<open>Any order of sends, retries, acks and nacks\<close>

definition unqueued :: "pid \<Rightarrow> rid \<Rightarrow> omx_endpoint \<Rightarrow> bool" where
  "unqueued p r ep \<longleftrightarrow>
    r \<notin> set (p_non_acked_req_q (partners ep p)) \<and> r \<notin> set (p_need_seqnum_send_req_q (partners ep p))"

inductive window_step :: "pid \<Rightarrow> omx_endpoint \<Rightarrow> omx_endpoint \<Rightarrow> bool" for p where
  Submit: "unqueued p r ep \<Longrightarrow>
    Some ep' \<in> {omx__submit_isend_tiny p r ep, omx__submit_isend_small p r ep, omx__submit_isend_medium p r ep,
      omx__submit_isend_large p r ep} \<Longrightarrow> window_step p ep ep'"
| Retry: "unqueued p r ep \<Longrightarrow>
    Some ep' \<in> {omx__alloc_setup_isend_tiny p r ep, omx__alloc_setup_isend_small p r ep,
      omx__alloc_setup_isend_mediumva p r ep} \<Longrightarrow> window_step p ep ep'"
| Retry_resources: "unqueued p r ep \<Longrightarrow>
    Some (ret, ep') \<in> {omx__alloc_setup_isend_mediumsq p r ep, omx__alloc_setup_isend_large p r ep} \<Longrightarrow>
    window_step p ep ep'"
| Notify: "unqueued p r ep \<Longrightarrow> rpartner (reqs ep r) = p \<Longrightarrow> omx__alloc_setup_notify r ep = Some ep' \<Longrightarrow> window_step p ep ep'"
| Post: "Some ep' \<in> {omx__post_isend_tiny p r ep, omx__post_isend_small p r ep, omx__post_isend_mediumva p r ep,
      omx__post_isend_mediumsq p r ep, omx__post_isend_rndv p r ep, omx__post_notify p r ep} \<Longrightarrow> window_step p ep ep'"
| Piggyack: "omx__handle_ack p a ep = Some ep' \<Longrightarrow> window_step p ep ep'"
| Liback: "omx__handle_liback p liback ep = Some ep' \<Longrightarrow> window_step p ep ep'"
| Nack: "omx__handle_nack p seqnum nret ep = Some ep' \<Longrightarrow> window_step p ep ep'"

lemmas post_views = send_seq.view_post_isend_tiny send_seq.view_post_isend_small send_seq.view_post_isend_mediumva
  send_seq.view_post_isend_mediumsq send_seq.view_post_isend_rndv send_seq.view_post_notify

lemma window_step_inv:
  assumes "window_step p ep ep'" "window_inv ep p"
  shows "window_inv ep' p"
  using assms(1)
proof cases
  case (Post r)
  then have "send_view ep' = send_view ep" by (auto dest!: sym [of "Some _"] post_views)
  from window_cong(1) [OF this] assms(2) show ?thesis by simp
qed (use assms(2) in \<open>auto simp: unqueued_def dest!: sym [of "Some _"]
    dest: submit_one_send alloc_setups_one_send alloc_setup_notify_one_send
    intro: one_send_window handle_ack_window liback_window nack_window\<close>)

lemma window_steps_inv: "(window_step p)\<^sup>*\<^sup>* ep ep' \<Longrightarrow> window_inv ep p \<Longrightarrow> window_inv ep' p"
  by (induction rule: rtranclp_induct) (auto intro: window_step_inv)

lemma window_numbers:
  assumes "window_inv ep p"
  defines "q \<equiv> p_non_acked_req_q (partners ep p)"
  shows "distinct (map (\<lambda>r. send_seqnum (reqs ep r)) q)" "length q \<le> window_size ep p"
proof -
  have s: "sorted_wrt (<) (map (send_index ep p) q)" and b: "\<forall>r \<in> set q. send_index ep p r < window_size ep p"
    using assms by (simp_all add: window_inv_def Let_def)
  then have d: "distinct (map (send_index ep p) q)" using strict_sorted_iff by blast
  then show "distinct (map (\<lambda>r. send_seqnum (reqs ep r)) q)"
    by (auto simp: distinct_map inj_on_def send_index_def)
  have "length q = card (set (map (send_index ep p) q))" using distinct_card [OF d] by simp
  also have "\<dots> \<le> card {..<window_size ep p}" by (rule card_mono) (use b in auto)
  finally show "length q \<le> window_size ep p" by simp
qed

text \<open>
  C3: In every order of sends of any kind, retries, retransmissions, acks and nacks, a partner that starts with
  its window in order keeps it in order: the requests waiting for an ack are distinct and have different
  sequence numbers that increase along the queue, all between the next number to be acked and the next
  one to send, and no more than \<^verbatim>\<open>OMX__THROTTLING_OFFSET_MAX\<close> numbers are ever out.
\<close>

theorem send_window_invariant:
  assumes "window_inv ep p" "(window_step p)\<^sup>*\<^sup>* ep ep'"
  shows "let q = p_non_acked_req_q (partners ep' p);
      number = \<lambda>r. OMX__SEQNUM (send_seqnum (reqs ep' r) - next_acked_send_seq (partners ep' p));
      out = OMX__SEQNUM (next_send_seq (partners ep' p) - next_acked_send_seq (partners ep' p))
    in distinct q \<and> distinct (map (\<lambda>r. send_seqnum (reqs ep' r)) q) \<and> sorted_wrt (<) (map number q) \<and>
      (\<forall>r \<in> set q. number r < out) \<and> length q \<le> unat out \<and> out \<le> OMX__THROTTLING_OFFSET_MAX"
proof -
  note inv = window_steps_inv [OF assms(2,1)]
  from window_numbers [OF inv] inv show ?thesis
    by (auto simp: window_inv_def Let_def send_index_def [abs_def] window_size_def seq_index_def sorted_wrt_map
      word_less_nat_alt word_le_nat_alt)
qed

subsection \<open>Examples\<close>

text \<open>Two tiny messages to partner 0 are waiting, and the first one is acked.\<close>

definition two_waiting :: omx_endpoint where
  "two_waiting = blank_endpoint\<lparr>partners := (\<lambda>_. blank_partner\<lparr>next_send_seq := 2, p_non_acked_req_q := [1, 2]\<rparr>),
    non_acked_req_q := [1, 2],
    reqs := (\<lambda>r. blank_request\<lparr>rtype := OMX_REQUEST_TYPE_SEND_TINY, state := {OMX_REQUEST_STATE_NEED_ACK},
      send_seqnum := if r = 1 then 0 else 1\<rparr>)\<rparr>"

lemma seqnum_small: "OMX__SEQNUM 0 = 0" "OMX__SEQNUM 1 = 1" "OMX__SEQNUM 2 = 2"
  by (code_simp, code_simp, code_simp)

lemma two_waiting_window: "window_inv two_waiting 0"
  by (simp add: window_inv_def window_size_def send_index_def seq_index_def two_waiting_def throttling_max_val seqnum_small)

lemma two_waiting_sel:
  "next_acked_send_seq (partners two_waiting p) = 0" "next_send_seq (partners two_waiting p) = 2"
  "p_non_acked_req_q (partners two_waiting p) = [1, 2]" "p_need_seqnum_send_req_q (partners two_waiting p) = []"
  "send_seqnum (reqs two_waiting r) = (if r = 1 then 0 else 1)"
  by (simp_all add: two_waiting_def blank_partner_def)

lemma mark_tiny_acked:
  assumes "rtype (reqs ep r) = OMX_REQUEST_TYPE_SEND_TINY" "st_code (status (reqs ep r)) = OMX_SUCCESS"
    "st_msg_length (status (reqs ep r)) = st_xfer_length (status (reqs ep r))"
  shows "\<exists>ep'. omx__mark_request_acked r OMX_SUCCESS ep = Some ep'"
  using assms by (simp add: omx__mark_request_acked_def omx__send_complete_def Let_def dequeue_non_acked_def upd_req_def)

lemma two_waiting_acked: "\<exists>ep. omx__handle_ack 0 1 two_waiting = Some ep"
proof -
  let ?e = "upd_partner 0 (\<lambda>pt. pt\<lparr>p_non_acked_req_q := remove1 1 (p_non_acked_req_q pt)\<rparr>) two_waiting"
  obtain e1 where e1: "omx__mark_request_acked 1 OMX_SUCCESS ?e = Some e1"
    using mark_tiny_acked [of ?e 1] by (auto simp: two_waiting_def)
  note v = send_viewD [OF mark_request_acked_view [OF e1]]
  show ?thesis
    using e1 by (simp add: omx__handle_ack_def ack_index_def omx__process_throttling_requests_def v Let_def
      two_waiting_sel seqnum_small)
qed

theorem handle_ack_exact_witness:
  "\<exists>ep. omx__handle_ack 0 1 two_waiting = Some ep \<and> p_non_acked_req_q (partners ep 0) = [2] \<and>
    next_acked_send_seq (partners ep 0) = 1"
proof -
  obtain ep where ep: "omx__handle_ack 0 1 two_waiting = Some ep" using two_waiting_acked by blast
  from handle_ack_exact [OF two_waiting_window ep] show ?thesis
    by (simp add: ep two_waiting_sel seqnum_small window_size_def send_index_def seq_index_def)
qed

theorem send_window_invariant_witness:
  "\<exists>ep. omx__handle_ack 0 1 two_waiting = Some ep \<and> distinct (p_non_acked_req_q (partners ep 0))"
proof -
  obtain ep where ep: "omx__handle_ack 0 1 two_waiting = Some ep" using two_waiting_acked by blast
  have "(window_step 0)\<^sup>*\<^sup>* two_waiting ep" using window_step.Piggyack [OF ep] by blast
  from send_window_invariant [OF two_waiting_window this] ep show ?thesis by (auto simp: Let_def)
qed

end
