(* ===== verification/Recv.thy ===== *)
theory Recv
  imports Large Partner
begin

text \<open>
  Receiving messages (\<^verbatim>\<open>libopen-mx/omx_recv.c\<close>): ordering by sequence numbers, early packets, matching with the
  posted receives, reassembly of medium messages, unexpected messages and messages to oneself.

  \<open>data\<close> is an address, 0 for \<^verbatim>\<open>NULL\<close>. The data of a tiny message is in the event itself. The unexpected
  handler of the application, if any, is the argument \<open>handler\<close>: it sees the source, the match info, the
  length and the data, and may call the library, which is why it also maps the endpoint.
\<close>

subsection \<open>Early packets\<close>

text \<open>
  The fragment number of a packet. The code reads the field in any packet with the same sequence number
  as a new fragment; such a packet is a fragment of the same message.
\<close>

fun frag_seqnum_of :: "omx_evt_recv_msg_specific \<Rightarrow> u8" where
  "frag_seqnum_of (Msg_medium_frag _ _ _ fs _ _) = fs"
| "frag_seqnum_of _ = 0"

fun is_medium_frag :: "omx_evt_recv_msg_specific \<Rightarrow> bool" where
  "is_medium_frag (Msg_medium_frag _ _ _ _ _ _) = True"
| "is_medium_frag _ = False"

text \<open>
  The search from the end of the queue (the list is reversed). The result is the number of packets in front
  of the place where to insert, or None for a duplicate.
\<close>

fun early_search :: "omx__seqnum_t \<Rightarrow> omx_evt_recv_msg \<Rightarrow> omx__early_packet list \<Rightarrow> nat option" where
  "early_search next_match msg [] = Some 0"
| "early_search next_match msg (current # rest) =
    (let new_index = OMX__SEQNUM (msg_seqnum msg - next_match);
         current_index = OMX__SEQNUM (msg_seqnum (early_msg current) - next_match)
     in if new_index > current_index then Some (Suc (length rest))
        else if new_index < current_index then early_search next_match msg rest
        else if is_medium_frag (msg_specific msg) then
          (let new_frag = frag_seqnum_of (msg_specific msg);
               current_frag = frag_seqnum_of (msg_specific (early_msg current))
           in if new_frag > current_frag then Some (Suc (length rest))
              else if new_frag < current_frag then early_search next_match msg rest
              else None)
        else None)"

definition omx__find_previous_early_packet :: "omx_endpoint \<Rightarrow> pid \<Rightarrow> omx_evt_recv_msg \<Rightarrow> nat option" where
  "omx__find_previous_early_packet ep p msg =
    early_search (next_match_recv_seq (partners ep p)) msg (rev (early_recv_q (partners ep p)))"

text \<open>
  The buffer of a packet with data: None when it cannot be allocated. A notify has no message length; the
  field of the packet is not set then, and not used.
\<close>

definition early_copy :: "u64 \<Rightarrow> u16 \<Rightarrow> omx_endpoint \<Rightarrow> u64 option \<times> omx_endpoint" where
  "early_copy data len ep =
    (let (blk, ep) = omx_malloc_ep ep in
     case blk of
       None \<Rightarrow> (None, ep)
     | Some b \<Rightarrow> (Some b, ep\<lparr>mem := memcpy b data (ucast len) (mem ep)\<rparr>))"

definition early_buffer :: "omx_evt_recv_msg \<Rightarrow> u64 \<Rightarrow> omx_endpoint \<Rightarrow> (u64 \<times> u32) option \<times> omx_endpoint" where
  "early_buffer msg data ep =
    (case msg_specific msg of
       Msg_tiny _ len _ \<Rightarrow> (Some (0, ucast len), ep)
     | Msg_small _ len _ \<Rightarrow> (let (b, ep) = early_copy data len ep in (map_option (\<lambda>b. (b, ucast len)) b, ep))
     | Msg_medium_frag _ mlen len _ _ _ \<Rightarrow> (let (b, ep) = early_copy data len ep in (map_option (\<lambda>b. (b, mlen)) b, ep))
     | Msg_rndv mlen _ _ _ _ \<Rightarrow> (Some (0, mlen), ep)
     | Msg_notify _ _ _ \<Rightarrow> (Some (0, 0), ep))"

definition omx__postpone_early_packet ::
  "pid \<Rightarrow> omx_evt_recv_msg \<Rightarrow> u64 \<Rightarrow> omx__process_recv_func_t \<Rightarrow> omx_endpoint \<Rightarrow> omx_endpoint" where
  "omx__postpone_early_packet p msg data recv_func ep =
    (case omx__find_previous_early_packet ep p msg of
       None \<Rightarrow> ep
     | Some n \<Rightarrow>
         (let (blk, ep) = omx_malloc_ep ep in
          case blk of
            None \<Rightarrow> ep
          | Some b \<Rightarrow>
              (case early_buffer msg data ep of
                 (None, ep) \<Rightarrow> omx_free_ep b ep
               | (Some (edata, mlen), ep) \<Rightarrow>
                   upd_partner p (\<lambda>pt. pt\<lparr>early_recv_q := take n (early_recv_q pt) @
                     \<lparr>early_addr = b, early_msg = msg, early_recv_func = recv_func, early_data = edata, early_msg_length = mlen\<rparr> #
                     drop n (early_recv_q pt)\<rparr>) ep)))"

subsection \<open>Receive callbacks\<close>

definition enqueue_unexp :: "u32 \<Rightarrow> rid \<Rightarrow> omx_endpoint \<Rightarrow> omx_endpoint" where
  "enqueue_unexp ctxid r ep =
    (let ep = ep\<lparr>anyctxid_unexp_req_q := anyctxid_unexp_req_q ep @ [r]\<rparr>
     in if HAS_CTXIDS ep
        then ep\<lparr>ctxid_unexp_req_q := (ctxid_unexp_req_q ep)(ctxid := ctxid_unexp_req_q ep ctxid @ [r])\<rparr>
        else ep)"

text \<open>\<^verbatim>\<open>omx_copy_to_segments\<close> from the data of the event, which is not part of the process memory in the model.\<close>

fun copy_to_segments_bytes_loop :: "omx_cmd_user_segment list \<Rightarrow> u8 list \<Rightarrow> u32 \<Rightarrow> memory \<Rightarrow> memory option" where
  "copy_to_segments_bytes_loop [] bs len m = (if len = 0 then Some m else None)"
| "copy_to_segments_bytes_loop (cseg # rest) bs len m =
    (if len = 0 then Some m
     else
       (let chunk = seg_chunk (seg_len cseg) len in
        copy_to_segments_bytes_loop rest (drop (unat chunk) bs) (len - chunk)
          (mem_write (seg_vaddr cseg) (take (unat chunk) bs) m)))"

definition copy_to_segments_bytes :: "omx__req_segs \<Rightarrow> u8 list \<Rightarrow> u32 \<Rightarrow> memory \<Rightarrow> memory option" where
  "copy_to_segments_bytes dstsegs bs len m =
    (if segs_nseg dstsegs = 1 then Some (mem_write (seg_vaddr (segs_single dstsegs)) (take (unat len) bs) m)
     else copy_to_segments_bytes_loop (seg_array dstsegs) bs len m)"

definition omx__process_recv_tiny :: "rid \<Rightarrow> omx_evt_recv_msg \<Rightarrow> u32 \<Rightarrow> omx_endpoint \<Rightarrow> omx_endpoint option" where
  "omx__process_recv_tiny r msg xfer_length ep = do {
     let ctxid = CTXID_FROM_MATCHING ep (msg_match_info msg);
     m \<leftarrow> (case msg_specific msg of
            Msg_tiny _ _ bs \<Rightarrow> copy_to_segments_bytes (segs (reqs ep r)) bs xfer_length (mem ep)
          | _ \<Rightarrow> None);
     let ep = ep\<lparr>mem := m\<rparr>;
     (if OMX_REQUEST_STATE_UNEXPECTED_RECV \<in> state (reqs ep r) then Some (enqueue_unexp ctxid r ep)
      else omx__recv_complete r OMX_SUCCESS ep)
   }"

definition omx__process_recv_small :: "rid \<Rightarrow> omx_evt_recv_msg \<Rightarrow> u64 \<Rightarrow> u32 \<Rightarrow> omx_endpoint \<Rightarrow> omx_endpoint option" where
  "omx__process_recv_small r msg data xfer_length ep = do {
     let ctxid = CTXID_FROM_MATCHING ep (msg_match_info msg);
     m \<leftarrow> omx_copy_to_segments (segs (reqs ep r)) data xfer_length (mem ep);
     let ep = ep\<lparr>mem := m\<rparr>;
     (if OMX_REQUEST_STATE_UNEXPECTED_RECV \<in> state (reqs ep r) then Some (enqueue_unexp ctxid r ep)
      else omx__recv_complete r OMX_SUCCESS ep)
   }"

definition omx__init_process_recv_medium :: "rid \<Rightarrow> omx_endpoint \<Rightarrow> omx_endpoint" where
  "omx__init_process_recv_medium r = upd_req r (\<lambda>rq. rq\<lparr>frags_received_mask := 0, accumulated_length := 0,
    scan_offset := 0, scan_state := \<lparr>scan_seg = 0, scan_off = 0\<rparr>\<rparr>)"

definition frag_bit :: "u8 \<Rightarrow> u32" where
  "frag_bit frag_seq = push_bit (unat frag_seq) 1"

definition medium_xfer_chunk :: "u64 \<Rightarrow> u64 \<Rightarrow> u64 \<Rightarrow> u64" where
  "medium_xfer_chunk off chunk xfer_length =
    (if off + chunk \<le> xfer_length then chunk
     else if off \<le> xfer_length then xfer_length - off
     else 0)"

definition medium_copy :: "rid \<Rightarrow> u64 \<Rightarrow> u64 \<Rightarrow> u64 \<Rightarrow> omx_endpoint \<Rightarrow> omx_endpoint option" where
  "medium_copy r data xfer_chunk off ep =
    (if segs_nseg (segs (reqs ep r)) = 1 then
       Some (ep\<lparr>mem := memcpy (seg_vaddr (segs_single (segs (reqs ep r))) + off) data xfer_chunk (mem ep)\<rparr>)
     else do {
       (m, st, so) \<leftarrow> omx_partial_copy_to_segments (segs (reqs ep r)) data (ucast xfer_chunk) (ucast off)
         (scan_state (reqs ep r)) (scan_offset (reqs ep r)) (mem ep);
       Some (upd_req r (\<lambda>rq. rq\<lparr>scan_state := st, scan_offset := so\<rparr>) (ep\<lparr>mem := m\<rparr>))
     })"

text \<open>The shift of 1 by a fragment number of 32 or more is undefined.\<close>

definition omx__process_recv_medium_frag ::
  "pid \<Rightarrow> rid \<Rightarrow> omx_evt_recv_msg \<Rightarrow> u64 \<Rightarrow> u32 \<Rightarrow> omx_endpoint \<Rightarrow> omx_endpoint option" where
  "omx__process_recv_medium_frag p r msg data xfer_length ep =
    (case msg_specific msg of
       Msg_medium_frag _ msg_length frag_length frag_seq _ _ \<Rightarrow>
         (let ctxid = CTXID_FROM_MATCHING ep (msg_match_info msg);
              chunk = ucast frag_length :: u64;
              off = ucast frag_seq * ucast OMX_MEDIUM_FRAG_LENGTH_MAX :: u64;
              new = frags_received_mask (reqs ep r) = 0
          in if unat frag_seq \<ge> 32 then None
             else if frags_received_mask (reqs ep r) AND frag_bit frag_seq \<noteq> 0 then Some ep
             else do {
               ep \<leftarrow> medium_copy r data (medium_xfer_chunk off chunk (ucast xfer_length)) off ep;
               let ep = upd_req r (\<lambda>rq. rq\<lparr>frags_received_mask := frags_received_mask rq OR frag_bit frag_seq,
                 accumulated_length := accumulated_length rq + ucast frag_length\<rparr>) ep;
               let ep = (if new then
                   (let ep = (if OMX_REQUEST_STATE_UNEXPECTED_RECV \<in> state (reqs ep r) then enqueue_unexp ctxid r ep else ep);
                        ep = upd_req r (set_state_flag OMX_REQUEST_STATE_RECV_PARTIAL) ep
                    in upd_partner p (\<lambda>pt. pt\<lparr>p_partial_medium_recv_req_q := p_partial_medium_recv_req_q pt @ [r]\<rparr>) ep)
                 else ep);
               (if accumulated_length (reqs ep r) = msg_length then
                  (let ep = upd_req r (clear_state_flag OMX_REQUEST_STATE_RECV_PARTIAL) ep;
                       ep = upd_partner p (\<lambda>pt. pt\<lparr>p_partial_medium_recv_req_q := remove1 r (p_partial_medium_recv_req_q pt)\<rparr>) ep
                   in if OMX_REQUEST_STATE_UNEXPECTED_RECV \<notin> state (reqs ep r) then omx__recv_complete r OMX_SUCCESS ep
                      else Some ep)
                else Some ep)
             })
     | _ \<Rightarrow> None)"

definition omx__process_recv_rndv :: "rid \<Rightarrow> omx_evt_recv_msg \<Rightarrow> omx_endpoint \<Rightarrow> omx_endpoint option" where
  "omx__process_recv_rndv r msg ep =
    (case msg_specific msg of
       Msg_rndv _ rdma_id rdma_seqnum rdma_offset cs \<Rightarrow>
         (let ctxid = CTXID_FROM_MATCHING ep (msg_match_info msg);
              ep = upd_req r (\<lambda>rq. rq\<lparr>recv_checksum := cs, pulled_rdma_id := rdma_id, pulled_rdma_seqnum := rdma_seqnum,
                pulled_rdma_offset := rdma_offset, rtype := OMX_REQUEST_TYPE_RECV_LARGE\<rparr>) ep;
              ep = upd_req r (set_state_flag OMX_REQUEST_STATE_RECV_PARTIAL) ep
          in if OMX_REQUEST_STATE_UNEXPECTED_RECV \<in> state (reqs ep r) then Some (enqueue_unexp ctxid r ep)
             else omx__submit_pull r ep)
     | _ \<Rightarrow> None)"

text \<open>The call through the function pointer, which only ignores the request for a notify.\<close>

fun call_recv_func ::
  "omx__process_recv_func_t \<Rightarrow> pid \<Rightarrow> rid \<Rightarrow> omx_evt_recv_msg \<Rightarrow> u64 \<Rightarrow> u32 \<Rightarrow> omx_endpoint \<Rightarrow> omx_endpoint option" where
  "call_recv_func Process_recv_tiny p r msg data len ep = omx__process_recv_tiny r msg len ep"
| "call_recv_func Process_recv_small p r msg data len ep = omx__process_recv_small r msg data len ep"
| "call_recv_func Process_recv_medium_frag p r msg data len ep = omx__process_recv_medium_frag p r msg data len ep"
| "call_recv_func Process_recv_rndv p r msg data len ep = omx__process_recv_rndv r msg ep"
| "call_recv_func Process_recv_notify p r msg data len ep = omx__process_recv_notify msg len ep"

subsection \<open>Matching\<close>

definition recv_matches :: "omx_endpoint \<Rightarrow> u64 \<Rightarrow> rid \<Rightarrow> bool" where
  "recv_matches ep info r \<longleftrightarrow> match_info (reqs ep r) = match_mask (reqs ep r) AND info"

definition omx__match_recv :: "u64 \<Rightarrow> omx_endpoint \<Rightarrow> rid option \<times> omx_endpoint" where
  "omx__match_recv info ep =
    (let ctxid = CTXID_FROM_MATCHING ep info in
     case find (recv_matches ep info) (ctxid_recv_req_q ep ctxid) of
       None \<Rightarrow> (None, ep)
     | Some r \<Rightarrow> (Some r, ep\<lparr>ctxid_recv_req_q := (ctxid_recv_req_q ep)(ctxid := remove1 r (ctxid_recv_req_q ep ctxid))\<rparr>))"

datatype omx_unexp_handler_action =
  OMX_UNEXP_HANDLER_RECV_CONTINUE | OMX_UNEXP_HANDLER_RECV_FINISHED | Unexp_handler_other

datatype handler_data = Handler_no_data | Handler_data_at u64 | Handler_data_bytes "u8 list"

type_synonym omx_unexp_handler_t =
  "omx__endpoint_addr \<Rightarrow> u64 \<Rightarrow> u32 \<Rightarrow> handler_data \<Rightarrow> omx_endpoint \<Rightarrow> (omx_unexp_handler_action \<times> omx_endpoint) option"

text \<open>Calling the handler with progression disabled.\<close>

definition call_handler ::
  "omx_unexp_handler_t \<Rightarrow> omx__endpoint_addr \<Rightarrow> u64 \<Rightarrow> u32 \<Rightarrow> handler_data \<Rightarrow> omx_endpoint \<Rightarrow>
    (omx_unexp_handler_action \<times> omx_endpoint) option" where
  "call_handler handler source info len hdata ep = do {
     let ep = ep\<lparr>progression_disabled := {OMX_PROGRESSION_DISABLED_IN_HANDLER}\<rparr>;
     (act, ep) \<leftarrow> handler source info len hdata ep;
     Some (act, ep\<lparr>progression_disabled := {}\<rparr>)
   }"

definition data_if_available :: "omx_evt_recv_msg \<Rightarrow> u64 \<Rightarrow> u32 \<Rightarrow> handler_data" where
  "data_if_available msg data msg_length =
    (case msg_specific msg of
       Msg_tiny _ _ bs \<Rightarrow> Handler_data_bytes bs
     | Msg_small _ _ _ \<Rightarrow> Handler_data_at data
     | Msg_medium_frag _ _ frag_length _ _ _ \<Rightarrow> if msg_length = ucast frag_length then Handler_data_at data else Handler_no_data
     | _ \<Rightarrow> Handler_no_data)"

definition matched_set :: "pid \<Rightarrow> rid \<Rightarrow> omx__seqnum_t \<Rightarrow> omx__endpoint_addr \<Rightarrow> u64 \<Rightarrow> omx_endpoint \<Rightarrow> omx_endpoint" where
  "matched_set p r seqnum source info = upd_req r (\<lambda>rq. rq\<lparr>rpartner := p, recv_seqnum := seqnum,
    status := (status rq)\<lparr>st_addr := source, st_match_info := info\<rparr>\<rparr>)"

text \<open>A message that matched the receive \<open>r\<close>.\<close>

definition recv_expected ::
  "pid \<Rightarrow> rid \<Rightarrow> omx__seqnum_t \<Rightarrow> omx__endpoint_addr \<Rightarrow> omx_evt_recv_msg \<Rightarrow> u64 \<Rightarrow> u32 \<Rightarrow> omx__process_recv_func_t \<Rightarrow>
    omx_endpoint \<Rightarrow> omx_endpoint option" where
  "recv_expected p r seqnum source msg data msg_length recv_func ep =
    (let ep = matched_set p r seqnum source (msg_match_info msg) ep;
         ep = upd_req r (clear_state_flag OMX_REQUEST_STATE_RECV_NEED_MATCHING) ep;
         total = segs_total_length (segs (reqs ep r));
         xfer_length = (if total < msg_length then total else msg_length);
         ep = upd_req r (\<lambda>rq. rq\<lparr>status := (status rq)\<lparr>st_msg_length := msg_length, st_xfer_length := xfer_length\<rparr>\<rparr>) ep;
         ep = (if is_medium_frag (msg_specific msg) then omx__init_process_recv_medium r ep else ep)
     in call_recv_func recv_func p r msg data xfer_length ep)"

text \<open>
  A message nobody waits for: it gets a request and, except for a rndv, a buffer. The position saved by
  \<^verbatim>\<open>omx__init_process_recv_medium\<close> is taken from the segments of the request before they are set: \<open>wild_seg\<close>,
  which is no position in any segment array.
\<close>

definition wild_seg :: nat where
  "wild_seg = 65536"

definition is_rndv :: "omx_evt_recv_msg_specific \<Rightarrow> bool" where
  "is_rndv sp \<longleftrightarrow> (case sp of Msg_rndv _ _ _ _ _ \<Rightarrow> True | _ \<Rightarrow> False)"

definition unexp_buffer_alloc :: "omx_evt_recv_msg \<Rightarrow> u32 \<Rightarrow> rid \<Rightarrow> omx_endpoint \<Rightarrow> bool \<times> omx_endpoint" where
  "unexp_buffer_alloc msg msg_length r ep =
    (if is_rndv (msg_specific msg) then (True, ep)
     else
       (let (buf, ep) = (if msg_length \<noteq> 0 then omx_malloc_ep ep else (Some 0, ep)) in
        case buf of
          None \<Rightarrow> (False, omx__request_free r ep)
        | Some b \<Rightarrow> (True, upd_req r (\<lambda>rq. rq\<lparr>segs := omx_cache_single_segment (segs rq) b msg_length\<rparr>) ep)))"

definition recv_unexpected ::
  "pid \<Rightarrow> omx__seqnum_t \<Rightarrow> omx__endpoint_addr \<Rightarrow> omx_evt_recv_msg \<Rightarrow> u64 \<Rightarrow> u32 \<Rightarrow> omx__process_recv_func_t \<Rightarrow>
    omx_endpoint \<Rightarrow> (omx_return \<times> omx_endpoint) option" where
  "recv_unexpected p seqnum source msg data msg_length recv_func ep =
    (case omx__request_alloc ep of
       (None, ep) \<Rightarrow> Some (OMX_NO_RESOURCES, ep)
     | (Some r, ep) \<Rightarrow>
         (let ep = upd_req r (\<lambda>rq. rq\<lparr>rtype := OMX_REQUEST_TYPE_RECV, state := {OMX_REQUEST_STATE_UNEXPECTED_RECV}\<rparr>) ep;
              ep = (if is_medium_frag (msg_specific msg)
                    then upd_req r (\<lambda>rq. rq\<lparr>scan_state := \<lparr>scan_seg = wild_seg, scan_off = 0\<rparr>\<rparr>) (omx__init_process_recv_medium r ep)
                    else ep);
              (ok, ep) = unexp_buffer_alloc msg msg_length r ep
          in if \<not> ok then Some (OMX_NO_RESOURCES, ep)
             else do {
               let ep = matched_set p r seqnum source (msg_match_info msg) ep;
               let ep = upd_req r (\<lambda>rq. rq\<lparr>status := (status rq)\<lparr>st_msg_length := msg_length, st_xfer_length := msg_length\<rparr>\<rparr>) ep;
               ep \<leftarrow> call_recv_func recv_func p r msg data msg_length ep;
               Some (OMX_SUCCESS, ep)
             }))"

definition recv_matched_or_not ::
  "rid option \<Rightarrow> pid \<Rightarrow> omx__seqnum_t \<Rightarrow> omx__endpoint_addr \<Rightarrow> omx_evt_recv_msg \<Rightarrow> u64 \<Rightarrow> u32 \<Rightarrow> omx__process_recv_func_t \<Rightarrow>
    omx_endpoint \<Rightarrow> (omx_return \<times> omx_endpoint) option" where
  "recv_matched_or_not req p seqnum source msg data msg_length recv_func ep =
    (case req of
       Some r \<Rightarrow> do { ep \<leftarrow> recv_expected p r seqnum source msg data msg_length recv_func ep; Some (OMX_SUCCESS, ep) }
     | None \<Rightarrow> recv_unexpected p seqnum source msg data msg_length recv_func ep)"

definition omx__try_match_next_recv ::
  "omx_unexp_handler_t option \<Rightarrow> pid \<Rightarrow> omx__seqnum_t \<Rightarrow> omx_evt_recv_msg \<Rightarrow> u64 \<Rightarrow> u32 \<Rightarrow> omx__process_recv_func_t \<Rightarrow>
    omx_endpoint \<Rightarrow> (omx_return \<times> omx_endpoint) option" where
  "omx__try_match_next_recv handler p seqnum msg data msg_length recv_func ep =
    (let source = omx__partner_recv_to_addr ep p;
         (req, ep) = omx__match_recv (msg_match_info msg) ep
     in case (handler, req) of
          (Some h, None) \<Rightarrow> do {
            (act, ep) \<leftarrow> call_handler h source (msg_match_info msg) msg_length (data_if_available msg data msg_length) ep;
            (case act of
               OMX_UNEXP_HANDLER_RECV_FINISHED \<Rightarrow>
                 (case msg_specific msg of
                    Msg_rndv _ rdma_id rdma_seqnum rdma_offset _ \<Rightarrow> do {
                      ep \<leftarrow> omx__submit_discarded_notify p rdma_id rdma_seqnum rdma_offset ep;
                      Some (OMX_SUCCESS, ep)
                    }
                  | _ \<Rightarrow> Some (OMX_SUCCESS, ep))
             | OMX_UNEXP_HANDLER_RECV_CONTINUE \<Rightarrow>
                 (let (req, ep) = omx__match_recv (msg_match_info msg) ep
                  in recv_matched_or_not req p seqnum source msg data msg_length recv_func ep)
             | Unexp_handler_other \<Rightarrow> None)
          }
        | _ \<Rightarrow> recv_matched_or_not req p seqnum source msg data msg_length recv_func ep)"

subsection \<open>Ordering\<close>

definition omx__update_partner_next_frag_recv_seq :: "pid \<Rightarrow> omx_endpoint \<Rightarrow> omx_endpoint" where
  "omx__update_partner_next_frag_recv_seq p ep =
    (let old = next_frag_recv_seq (partners ep p);
         new = (case p_partial_medium_recv_req_q (partners ep p) of
                  [] \<Rightarrow> next_match_recv_seq (partners ep p)
                | r # _ \<Rightarrow> recv_seqnum (reqs ep r))
     in if new \<noteq> old then
          (let ep = upd_partner p (\<lambda>pt. pt\<lparr>next_frag_recv_seq := new\<rparr>) ep in
           if ucast (OMX__SEQNUM (new - last_acked_recv_seq (partners ep p))) \<ge> g_not_acked_max (globals ep)
           then omx__mark_partner_need_ack_immediate p ep
           else omx__mark_partner_need_ack_delayed p ep)
        else ep)"

fun continue_partial_loop ::
  "pid \<Rightarrow> omx__seqnum_t \<Rightarrow> omx_evt_recv_msg \<Rightarrow> u64 \<Rightarrow> rid list \<Rightarrow> omx_endpoint \<Rightarrow> omx_endpoint option" where
  "continue_partial_loop p new_index msg data [] ep = Some ep"
| "continue_partial_loop p new_index msg data (r # rs) ep =
    (let req_index = OMX__SEQNUM (recv_seqnum (reqs ep r) - next_frag_recv_seq (partners ep p)) in
     if req_index = new_index then do {
       ep \<leftarrow> omx__process_recv_medium_frag p r msg data (st_xfer_length (status (reqs ep r))) ep;
       Some (omx__update_partner_next_frag_recv_seq p ep)
     }
     else if req_index > new_index then Some ep
     else continue_partial_loop p new_index msg data rs ep)"

definition omx__continue_partial_request ::
  "pid \<Rightarrow> omx__seqnum_t \<Rightarrow> omx_evt_recv_msg \<Rightarrow> u64 \<Rightarrow> omx_endpoint \<Rightarrow> omx_endpoint option" where
  "omx__continue_partial_request p seqnum msg data ep =
    (let new_index = OMX__SEQNUM (seqnum - next_frag_recv_seq (partners ep p))
     in continue_partial_loop p new_index msg data (p_partial_medium_recv_req_q (partners ep p)) ep)"

definition omx__process_partner_ordered_recv ::
  "omx_unexp_handler_t option \<Rightarrow> pid \<Rightarrow> omx__seqnum_t \<Rightarrow> omx_evt_recv_msg \<Rightarrow> u64 \<Rightarrow> u32 \<Rightarrow> omx__process_recv_func_t \<Rightarrow>
    omx_endpoint \<Rightarrow> (omx_return \<times> omx_endpoint) option" where
  "omx__process_partner_ordered_recv handler p seqnum msg data msg_length recv_func ep =
    (let match_index = OMX__SEQNUM (seqnum - next_match_recv_seq (partners ep p));
         frag_index = OMX__SEQNUM (seqnum - next_frag_recv_seq (partners ep p));
         frag_index_max = OMX__SEQNUM (next_match_recv_seq (partners ep p) - next_frag_recv_seq (partners ep p))
     in if match_index = 0 then do {
          (ret, ep) \<leftarrow> (case msg_specific msg of
              Msg_notify len _ _ \<Rightarrow> do { ep \<leftarrow> call_recv_func recv_func p 0 msg 0 len ep; Some (OMX_SUCCESS, ep) }
            | _ \<Rightarrow> omx__try_match_next_recv handler p seqnum msg data msg_length recv_func ep);
          (if ret = OMX_SUCCESS then
             (let ep = upd_partner p (\<lambda>pt. pt\<lparr>next_match_recv_seq := OMX__SEQNUM_INCREASE (next_match_recv_seq pt)\<rparr>) ep
              in Some (ret, omx__update_partner_next_frag_recv_seq p ep))
           else Some (ret, ep))
        }
        else if is_medium_frag (msg_specific msg) \<and> frag_index < frag_index_max then do {
          ep \<leftarrow> omx__continue_partial_request p seqnum msg data ep;
          Some (OMX_SUCCESS, ep)
        }
        else Some (OMX_SUCCESS, ep))"

text \<open>The early packets that may now match, with \<open>old\<close> and \<open>early_index_max\<close> as computed before the loop.\<close>

fun process_early_loop ::
  "omx_unexp_handler_t option \<Rightarrow> pid \<Rightarrow> omx__seqnum_t \<Rightarrow> omx__seqnum_t \<Rightarrow> omx__early_packet list \<Rightarrow> omx_endpoint \<Rightarrow>
    omx_endpoint option" where
  "process_early_loop handler p old early_index_max [] ep = Some ep"
| "process_early_loop handler p old early_index_max (e # es) ep =
    (if OMX__SEQNUM (msg_seqnum (early_msg e) - old) \<le> early_index_max then do {
       let ep = upd_partner p (\<lambda>pt. pt\<lparr>early_recv_q := remove1 e (early_recv_q pt)\<rparr>) ep;
       (ret, ep) \<leftarrow> omx__process_partner_ordered_recv handler p (msg_seqnum (early_msg e)) (early_msg e) (early_data e)
         (early_msg_length e) (early_recv_func e) ep;
       let ep = (if early_data e \<noteq> 0 then omx_free_ep (early_data e) ep else ep);
       let ep = omx_free_ep (early_addr e) ep;
       process_early_loop handler p old early_index_max es ep
     }
     else process_early_loop handler p old early_index_max es ep)"

definition omx__process_recv ::
  "omx_unexp_handler_t option \<Rightarrow> omx_evt_recv_msg \<Rightarrow> u64 \<Rightarrow> u32 \<Rightarrow> omx__process_recv_func_t \<Rightarrow> omx_endpoint \<Rightarrow>
    omx_endpoint option" where
  "omx__process_recv handler msg data msg_length recv_func ep =
    (case omx__partner_recv_lookup ep (msg_peer_index msg) (msg_src_endpoint msg) of
       None \<Rightarrow> Some ep
     | Some p \<Rightarrow>
         if OMX__SESNUM (msg_seqnum msg XOR next_frag_recv_seq (partners ep p)) \<noteq> 0 then Some ep
         else if OMX__SESNUM (msg_piggyack msg XOR next_send_seq (partners ep p)) \<noteq> 0 then Some ep
         else do {
           ep \<leftarrow> omx__handle_ack p (msg_piggyack msg) ep;
           let old = next_match_recv_seq (partners ep p);
           let frag_index = OMX__SEQNUM (msg_seqnum msg - next_frag_recv_seq (partners ep p));
           let frag_index_max = OMX__SEQNUM (old - next_frag_recv_seq (partners ep p));
           (if frag_index \<le> frag_index_max then do {
              (ret, ep) \<leftarrow> omx__process_partner_ordered_recv handler p (msg_seqnum msg) msg data msg_length recv_func ep;
              (if old \<noteq> next_match_recv_seq (partners ep p) then
                 process_early_loop handler p old (OMX__SEQNUM (next_match_recv_seq (partners ep p) - old))
                   (early_recv_q (partners ep p)) ep
               else Some ep)
            }
            else if (ucast frag_index :: u32) \<le> ucast frag_index_max + ucast OMX__EARLY_PACKET_OFFSET_MAX then
              Some (omx__postpone_early_packet p msg data recv_func ep)
            else if frag_index = OMX__SEQNUM (-1) then Some (omx__mark_partner_need_ack_immediate p ep)
            else Some ep)
         })"

subsection \<open>Acks and nacks\<close>

definition omx__process_recv_liback :: "omx_evt_recv_liback \<Rightarrow> omx_endpoint \<Rightarrow> omx_endpoint option" where
  "omx__process_recv_liback liback ep =
    (case omx__partner_recv_lookup ep (lb_peer_index liback) (lb_src_endpoint liback) of
       None \<Rightarrow> Some ep
     | Some p \<Rightarrow> omx__handle_liback p liback ep)"

fun nack_status :: "omx_evt_nack_lib_type \<Rightarrow> omx_return option" where
  "nack_status OMX_EVT_NACK_LIB_BAD_ENDPT = Some OMX_REMOTE_ENDPOINT_BAD_ID"
| "nack_status OMX_EVT_NACK_LIB_ENDPT_CLOSED = Some OMX_REMOTE_ENDPOINT_CLOSED"
| "nack_status OMX_EVT_NACK_LIB_BAD_SESSION = Some OMX_REMOTE_ENDPOINT_BAD_SESSION"
| "nack_status Nack_lib_unknown = None"

definition omx__process_recv_nack_lib :: "omx_evt_recv_nack_lib \<Rightarrow> omx_endpoint \<Rightarrow> omx_endpoint option" where
  "omx__process_recv_nack_lib nack_lib ep =
    (case omx__partner_recv_lookup ep (nack_peer_index nack_lib) (nack_src_endpoint nack_lib) of
       None \<Rightarrow> Some ep
     | Some p \<Rightarrow> do {
         st \<leftarrow> nack_status (nack_nack_type nack_lib);
         omx__handle_nack p (nack_seqnum nack_lib) st ep
       })"

subsection \<open>Messages to oneself\<close>

definition self_matched :: "rid \<Rightarrow> rid \<Rightarrow> omx_endpoint \<Rightarrow> omx_endpoint option" where
  "self_matched sreq rreq ep = do {
     let info = st_match_info (status (reqs ep sreq));
     let msg_length = segs_total_length (segs (reqs ep sreq));
     let ep = upd_req rreq (\<lambda>rq. rq\<lparr>rpartner := myself ep,
       status := (status rq)\<lparr>st_addr := st_addr (status (reqs ep sreq)), st_match_info := info\<rparr>\<rparr>) ep;
     let ep = upd_req rreq (clear_state_flag OMX_REQUEST_STATE_RECV_NEED_MATCHING) ep;
     let total = segs_total_length (segs (reqs ep rreq));
     let xfer_length = (if total < msg_length then total else msg_length);
     let status_code = (if total < msg_length then OMX_MESSAGE_TRUNCATED else OMX_SUCCESS);
     let ep = upd_req rreq (\<lambda>rq. rq\<lparr>status := (status rq)\<lparr>st_msg_length := msg_length, st_xfer_length := xfer_length\<rparr>\<rparr>) ep;
     let ep = upd_req sreq (\<lambda>rq. rq\<lparr>status := (status rq)\<lparr>st_xfer_length := xfer_length\<rparr>\<rparr>) ep;
     m \<leftarrow> omx_copy_from_to_segments (segs (reqs ep rreq)) (segs (reqs ep sreq)) xfer_length (mem ep);
     let ep = ep\<lparr>mem := m\<rparr>;
     ep \<leftarrow> omx__send_complete sreq status_code ep;
     ep \<leftarrow> omx__recv_complete rreq status_code ep;
     omx__notify_user_event ep
   }"

definition self_failed :: "rid \<Rightarrow> omx_return \<Rightarrow> omx_endpoint \<Rightarrow> omx_endpoint option" where
  "self_failed sreq status_code ep = do {
     let ep = upd_req sreq (\<lambda>rq. rq\<lparr>state := {}\<rparr>) ep;
     ep \<leftarrow> omx__send_complete sreq status_code ep;
     omx__notify_user_event ep
   }"

definition self_unexpected :: "rid \<Rightarrow> omx_endpoint \<Rightarrow> omx_endpoint option" where
  "self_unexpected sreq ep =
    (let info = st_match_info (status (reqs ep sreq));
         ctxid = CTXID_FROM_MATCHING ep info;
         msg_length = segs_total_length (segs (reqs ep sreq))
     in case omx__request_alloc ep of
          (None, ep) \<Rightarrow> do { code \<leftarrow> omx__error_with_ep ep OMX_NO_RESOURCES; self_failed sreq code ep }
        | (Some rreq, ep) \<Rightarrow>
            (let (buf, ep) = (if msg_length \<noteq> 0 then omx_malloc_ep ep else (Some 0, ep)) in
             case buf of
               None \<Rightarrow> do {
                 let ep = omx__request_free rreq ep;
                 code \<leftarrow> omx__error_with_ep ep OMX_NO_RESOURCES;
                 self_failed sreq code ep
               }
             | Some b \<Rightarrow> do {
                 let ep = upd_req rreq (\<lambda>rq. rq\<lparr>rtype := OMX_REQUEST_TYPE_RECV_SELF_UNEXPECTED,
                   state := {OMX_REQUEST_STATE_UNEXPECTED_RECV}, segs := omx_cache_single_segment (segs rq) b msg_length,
                   rpartner := myself ep, status := (status rq)\<lparr>st_addr := st_addr (status (reqs ep sreq)),
                     st_match_info := info, st_msg_length := msg_length\<rparr>, self_unexp_sreq := sreq\<rparr>) ep;
                 m \<leftarrow> omx_copy_from_segments b (segs (reqs ep sreq)) msg_length (mem ep);
                 let ep = ep\<lparr>mem := m\<rparr>;
                 let ep = upd_req rreq (\<lambda>rq. rq\<lparr>recv_checksum := omx_checksum_segments (mem ep) (segs rq) msg_length\<rparr>) ep;
                 let ep = enqueue_unexp ctxid rreq ep;
                 let ep = upd_req sreq (set_state_flag OMX_REQUEST_STATE_UNEXPECTED_SELF_SEND) ep;
                 Some (ep\<lparr>unexp_self_send_req_q := unexp_self_send_req_q ep @ [sreq]\<rparr>)
               }))"

definition self_matched_or_not :: "rid option \<Rightarrow> rid \<Rightarrow> omx_endpoint \<Rightarrow> omx_endpoint option" where
  "self_matched_or_not rreq sreq ep =
    (case rreq of Some r \<Rightarrow> self_matched sreq r ep | None \<Rightarrow> self_unexpected sreq ep)"

definition omx__process_self_send :: "omx_unexp_handler_t option \<Rightarrow> rid \<Rightarrow> omx_endpoint \<Rightarrow> omx_endpoint option" where
  "omx__process_self_send handler sreq ep =
    (let info = st_match_info (status (reqs ep sreq));
         msg_length = segs_total_length (segs (reqs ep sreq));
         ep = upd_req sreq (\<lambda>rq. rq\<lparr>rtype := OMX_REQUEST_TYPE_SEND_SELF, rpartner := myself ep,
           status := (status rq)\<lparr>st_match_info := info, st_msg_length := msg_length\<rparr>\<rparr>) ep;
         (rreq, ep) = omx__match_recv info ep
     in case (handler, rreq) of
          (Some h, None) \<Rightarrow> do {
            let sg = segs (reqs ep sreq);
            let hdata = (if segs_nseg sg = 1 then Handler_data_at (seg_vaddr (segs_single sg)) else Handler_no_data);
            (act, ep) \<leftarrow> call_handler h (st_addr (status (reqs ep sreq))) info msg_length hdata ep;
            (case act of
               OMX_UNEXP_HANDLER_RECV_FINISHED \<Rightarrow>
                 omx__send_complete sreq OMX_SUCCESS
                   (upd_req sreq (\<lambda>rq. rq\<lparr>status := (status rq)\<lparr>st_xfer_length := msg_length\<rparr>\<rparr>) ep)
             | OMX_UNEXP_HANDLER_RECV_CONTINUE \<Rightarrow>
                 (let (rreq, ep) = omx__match_recv info ep in self_matched_or_not rreq sreq ep)
             | Unexp_handler_other \<Rightarrow> None)
          }
        | _ \<Rightarrow> self_matched_or_not rreq sreq ep)"

subsection \<open>Unexpected messages the application asks for\<close>

definition omx__complete_unexp_req_as_irecv ::
  "rid \<Rightarrow> omx__req_segs \<Rightarrow> u64 \<Rightarrow> omx_endpoint \<Rightarrow> omx_endpoint option" where
  "omx__complete_unexp_req_as_irecv r reqsegs ctx ep =
    (let ep = ep\<lparr>anyctxid_unexp_req_q := remove1 r (anyctxid_unexp_req_q ep)\<rparr>;
         ep = (if HAS_CTXIDS ep then ep\<lparr>ctxid_unexp_req_q := (\<lambda>c. remove1 r (ctxid_unexp_req_q ep c))\<rparr> else ep);
         unexp_buffer = seg_vaddr (segs_single (segs (reqs ep r)));
         ep = upd_req r (\<lambda>rq. rq\<lparr>segs := omx_clone_segments reqsegs\<rparr>) ep;
         msg_length = st_msg_length (status (reqs ep r));
         total = segs_total_length (segs (reqs ep r));
         xfer_length = (if total < msg_length then total else msg_length);
         ep = upd_req r (\<lambda>rq. rq\<lparr>status := (status rq)\<lparr>st_xfer_length := xfer_length\<rparr>\<rparr>) ep;
         ep = upd_req r (clear_state_flag OMX_REQUEST_STATE_UNEXPECTED_RECV) ep;
         ep = upd_req r (\<lambda>rq. rq\<lparr>status := (status rq)\<lparr>st_context := ctx\<rparr>\<rparr>) ep
     in if rtype (reqs ep r) = OMX_REQUEST_TYPE_RECV_LARGE then omx__submit_pull r ep
        else if rtype (reqs ep r) = OMX_REQUEST_TYPE_RECV_SELF_UNEXPECTED then do {
          let sreq = self_unexp_sreq (reqs ep r);
          let status_code = (if xfer_length < msg_length then OMX_MESSAGE_TRUNCATED else OMX_SUCCESS);
          m \<leftarrow> omx_copy_to_segments reqsegs unexp_buffer xfer_length (mem ep);
          let ep = ep\<lparr>mem := m\<rparr>;
          let ep = (if msg_length \<noteq> 0 then omx_free_ep unexp_buffer ep else ep);
          ep \<leftarrow> omx__recv_complete r status_code ep;
          let ep = upd_req sreq (clear_state_flag OMX_REQUEST_STATE_UNEXPECTED_SELF_SEND) ep;
          let ep = ep\<lparr>unexp_self_send_req_q := remove1 sreq (unexp_self_send_req_q ep)\<rparr>;
          let ep = upd_req sreq (\<lambda>rq. rq\<lparr>status := (status rq)\<lparr>st_xfer_length := xfer_length\<rparr>\<rparr>) ep;
          ep \<leftarrow> omx__send_complete sreq status_code ep;
          omx__notify_user_event ep
        }
        else do {
          m \<leftarrow> omx_copy_to_segments reqsegs unexp_buffer xfer_length (mem ep);
          let ep = ep\<lparr>mem := m\<rparr>;
          let ep = (if msg_length \<noteq> 0 then omx_free_ep unexp_buffer ep else ep);
          (if state (reqs ep r) \<noteq> {} then Some ep
           else do {
             ep \<leftarrow> omx__recv_complete r OMX_SUCCESS ep;
             omx__notify_user_event ep
           })
        })"

end
