(* ===== verification/Recv_Order.thy ===== *)
theory Recv_Order
  imports Recv Views
begin

text \<open>
  The receiver side of the protocol: the next sequence number to match and the queue of the packets that came too
  early. Every message is matched once, in the order of the sequence numbers, whatever the network does to
  the order of the packets, and the early packets stay sorted and without duplicates.
\<close>

text \<open>A view of the partners only: nothing is seen of the requests.\<close>

definition recv_pv :: "omx__partner \<Rightarrow> u16 \<times> omx__early_packet list" where
  "recv_pv pt = (next_match_recv_seq pt, early_recv_q pt)"

definition no_rv :: "omx_request \<Rightarrow> nat" where
  "no_rv rq = 0"

interpretation recv_seq: sending_view recv_pv no_rv
  by unfold_locales (simp_all add: recv_pv_def no_rv_def)

abbreviation recv_view :: "omx_endpoint \<Rightarrow> (pid \<Rightarrow> u16 \<times> omx__early_packet list) \<times> (rid \<Rightarrow> nat)" where
  "recv_view \<equiv> view recv_pv no_rv"

lemma recv_view_iff:
  "recv_view ep' = recv_view ep \<longleftrightarrow>
    (\<forall>p. next_match_recv_seq (partners ep' p) = next_match_recv_seq (partners ep p) \<and>
         early_recv_q (partners ep' p) = early_recv_q (partners ep p))"
  by (auto simp: view_def recv_pv_def no_rv_def fun_eq_iff)

lemma recv_viewD:
  assumes "recv_view ep' = recv_view ep"
  shows "next_match_recv_seq (partners ep' p) = next_match_recv_seq (partners ep p)"
    "early_recv_q (partners ep' p) = early_recv_q (partners ep p)"
  using assms by (simp_all add: recv_view_iff)

subsection \<open>What processing a message leaves alone\<close>

lemma view_recv_fields [simp]:
  "view pv rv (ep\<lparr>progression_disabled := d\<rparr>) = view pv rv ep"
  "view pv rv (ep\<lparr>next_rid := n\<rparr>) = view pv rv ep"
  "view pv rv (enqueue_unexp c r ep) = view pv rv ep"
  by (simp_all add: view_def enqueue_unexp_def Let_def)

lemma recv_view_upd_req [simp]: "recv_view (upd_req r f ep) = recv_view ep"
  by (simp add: view_upd_req no_rv_def)

lemma recv_view_request_alloc: "omx__request_alloc ep = (r, ep') \<Longrightarrow> recv_view ep' = recv_view ep"
  by (auto simp: omx__request_alloc_def omx_malloc_ep_def Let_def split: option.split_asm)

lemma recv_view_setup_pull: "setup_pull r i ep = Some (ret, ep') \<Longrightarrow> recv_view ep' = recv_view ep"
  by (auto simp: setup_pull_def pull_dequeue_resource_def ioctl_def Let_def bind_eq_Some_conv split: option.split_asm)

lemma recv_view_setup_pull_region:
  assumes "setup_pull_region r ep = Some (ret, ep')"
  shows "recv_view ep' = recv_view ep"
proof -
  obtain got ep1 where g: "omx__get_region (segs (reqs ep r)) None ep = Some (got, ep1)"
    using assms by (auto simp: setup_pull_region_def bind_eq_Some_conv)
  have "recv_view ep' = recv_view ep1"
    using assms by (cases got) (auto simp: setup_pull_region_def g pull_dequeue_resource_def dest!: recv_view_setup_pull)
  with recv_seq.view_get_region [OF g] show ?thesis by simp
qed

lemma recv_view_alloc_setup_pull: "omx__alloc_setup_pull r ep = Some (ret, ep') \<Longrightarrow> recv_view ep' = recv_view ep"
  by (auto simp: omx__alloc_setup_pull_def pull_dequeue_resource_def Let_def split: if_split_asm
      dest!: recv_view_setup_pull_region)

lemma recv_view_submit_pull: "omx__submit_pull r ep = Some ep' \<Longrightarrow> recv_view ep' = recv_view ep"
  by (auto simp: omx__submit_pull_def Let_def bind_eq_Some_conv split: if_split_asm
      dest!: recv_view_alloc_setup_pull recv_seq.view_submit_notify)

lemma recv_view_discarded_notify:
  "omx__submit_discarded_notify p i s off ep = Some ep' \<Longrightarrow> recv_view ep' = recv_view ep"
  by (auto simp: omx__submit_discarded_notify_def Let_def split: prod.split_asm option.split_asm
      dest!: recv_view_request_alloc recv_seq.view_submit_notify)

lemma recv_view_process_recv_notify: "omx__process_recv_notify msg len ep = Some ep' \<Longrightarrow> recv_view ep' = recv_view ep"
  by (auto simp: omx__process_recv_notify_def Let_def bind_eq_Some_conv
      split: omx_evt_recv_msg_specific.split_asm option.split_asm if_split_asm
      dest!: recv_seq.view_put_region recv_seq.view_send_complete)

lemma recv_view_medium_copy: "medium_copy r data c off ep = Some ep' \<Longrightarrow> recv_view ep' = recv_view ep"
  by (auto simp: medium_copy_def bind_eq_Some_conv split: if_split_asm)

lemma recv_view_partial_queue [simp]:
  "recv_view (upd_partner p (\<lambda>pt. pt\<lparr>p_partial_medium_recv_req_q := f pt\<rparr>) ep) = recv_view ep"
  by (simp add: view_upd_partner recv_pv_def)

lemma recv_view_process_recv_medium_frag:
  "omx__process_recv_medium_frag p r msg data len ep = Some ep' \<Longrightarrow> recv_view ep' = recv_view ep"
  by (auto simp: omx__process_recv_medium_frag_def Let_def bind_eq_Some_conv
      split: omx_evt_recv_msg_specific.split_asm if_split_asm
      dest!: recv_view_medium_copy recv_seq.view_recv_complete)

lemma recv_view_call_recv_func: "call_recv_func f p r msg data len ep = Some ep' \<Longrightarrow> recv_view ep' = recv_view ep"
  by (cases f) (auto simp: omx__process_recv_tiny_def omx__process_recv_small_def omx__process_recv_rndv_def Let_def
      bind_eq_Some_conv split: omx_evt_recv_msg_specific.split_asm if_split_asm
      dest!: recv_seq.view_recv_complete recv_view_process_recv_medium_frag recv_view_submit_pull recv_view_process_recv_notify)

lemma recv_view_match_recv: "omx__match_recv info ep = (r, ep') \<Longrightarrow> recv_view ep' = recv_view ep"
  by (auto simp: omx__match_recv_def Let_def split: option.split_asm)

lemma recv_view_expected:
  "recv_expected p r s source msg data len f ep = Some ep' \<Longrightarrow> recv_view ep' = recv_view ep"
  by (auto simp: recv_expected_def matched_set_def omx__init_process_recv_medium_def Let_def split: if_split_asm
      dest!: recv_view_call_recv_func)

lemma recv_view_unexp_buffer_alloc: "unexp_buffer_alloc msg len r ep = (ok, ep') \<Longrightarrow> recv_view ep' = recv_view ep"
  by (auto simp: unexp_buffer_alloc_def omx_malloc_ep_def Let_def split: if_split_asm option.split_asm)

lemma recv_view_unexpected:
  "recv_unexpected p s source msg data len f ep = Some (ret, ep') \<Longrightarrow> recv_view ep' = recv_view ep"
  by (auto simp: recv_unexpected_def matched_set_def omx__init_process_recv_medium_def Let_def bind_eq_Some_conv
      split: prod.split_asm option.split_asm if_split_asm
      dest!: recv_view_request_alloc recv_view_unexp_buffer_alloc recv_view_call_recv_func)

lemma recv_view_matched_or_not:
  "recv_matched_or_not req p s source msg data len f ep = Some (ret, ep') \<Longrightarrow> recv_view ep' = recv_view ep"
  by (auto simp: recv_matched_or_not_def bind_eq_Some_conv split: option.split_asm
      dest!: recv_view_expected recv_view_unexpected)

end
