(* ===== verification/Event_Ring.thy ===== *)
theory Event_Ring
  imports Types
begin

text \<open>
  The rings of event slots shared by the driver and the library (\<^verbatim>\<open>common/omx_io.h\<close>). Both count the events with
  32-bit indexes: the index gives the slot, and the id the slot has once the event of that index is in it.
\<close>

definition OMX_EVENTQ_ENTRY_NR :: nat where
  "OMX_EVENTQ_ENTRY_NR = 1024"

definition OMX_EVENT_ID_MAX :: nat where
  "OMX_EVENT_ID_MAX = 255"

definition OMX_RELEASE_SLOTS_BATCH_NR :: nat where
  "OMX_RELEASE_SLOTS_BATCH_NR = OMX_EVENTQ_ENTRY_NR div 4"

text \<open>The slot of an index, and whether its event is the one the library waits for.\<close>

definition event_slot :: "(u32 \<Rightarrow> omx_evt_slot list) \<Rightarrow> u32 \<Rightarrow> omx_evt_slot option" where
  "event_slot ring index =
    (let n = unat index mod OMX_EVENTQ_ENTRY_NR in if n < length (ring index) then Some (ring index ! n) else None)"

definition expected_id :: "u32 \<Rightarrow> nat" where
  "expected_id index = 1 + unat index mod OMX_EVENT_ID_MAX"

end
