(* ===== verification/Progress.thy ===== *)
theory Progress
  imports Recv Event_Ring
begin

text \<open>
  Progression (\<^verbatim>\<open>libopen-mx/omx_lib.c\<close>): the events of the two rings shared with the driver, then the requests to
  send again, the delayed requests, the acks and the status of the endpoint (with the two loops over
  requests from \<^verbatim>\<open>omx_send.c\<close>).

  What the library gets from outside while it progresses is the record \<open>omx_env\<close>. The driver fills the
  rings at any time: \<open>env_unexp_eventq index\<close> is the content of the ring when the library has reached
  \<open>index\<close>. A loop that never ends is \<open>None\<close>, like a process that aborts.
\<close>

record omx_env =
  env_handler :: "omx_unexp_handler_t option"
  env_peer_from_index :: "u16 \<Rightarrow> omx_return + u64"
  env_peer_from_addr :: "u64 \<Rightarrow> omx_return + u32"
  env_unexp_eventq :: "u32 \<Rightarrow> omx_evt_slot list"
  env_exp_eventq :: "u32 \<Rightarrow> omx_evt_slot list"

subsection \<open>Delayed requests\<close>

text \<open>The request at the head of the queue gets another try, according to its type.\<close>

definition retry_delayed :: "rid \<Rightarrow> omx_endpoint \<Rightarrow> (omx_return \<times> omx_endpoint) option" where
  "retry_delayed r ep =
    (let p = rpartner (reqs ep r);
         success = map_option (\<lambda>ep. (OMX_SUCCESS, ep))
     in case rtype (reqs ep r) of
          OMX_REQUEST_TYPE_SEND_TINY \<Rightarrow> success (omx__alloc_setup_isend_tiny p r ep)
        | OMX_REQUEST_TYPE_SEND_SMALL \<Rightarrow> success (omx__alloc_setup_isend_small p r ep)
        | OMX_REQUEST_TYPE_SEND_MEDIUMSQ \<Rightarrow> omx__alloc_setup_isend_mediumsq p r ep
        | OMX_REQUEST_TYPE_SEND_MEDIUMVA \<Rightarrow> success (omx__alloc_setup_isend_mediumva p r ep)
        | OMX_REQUEST_TYPE_SEND_LARGE \<Rightarrow> omx__alloc_setup_isend_large p r ep
        | OMX_REQUEST_TYPE_RECV_LARGE \<Rightarrow>
            (if OMX_REQUEST_STATE_RECV_PARTIAL \<in> state (reqs ep r) then omx__alloc_setup_pull r ep
             else success (omx__alloc_setup_notify r ep))
        | _ \<Rightarrow> None)"

fun delayed_loop :: "rid list \<Rightarrow> omx_endpoint \<Rightarrow> omx_endpoint option" where
  "delayed_loop [] ep = Some ep"
| "delayed_loop (r # rs) ep = do {
     let ep = upd_req r (clear_state_flag OMX_REQUEST_STATE_NEED_RESOURCES) ep;
     let ep = ep\<lparr>need_resources_send_req_q := remove1 r (need_resources_send_req_q ep)\<rparr>;
     (ret, ep) \<leftarrow> retry_delayed r ep;
     (if ret \<noteq> OMX_SUCCESS then
        (let ep = upd_req r (set_state_flag OMX_REQUEST_STATE_NEED_RESOURCES) ep
         in Some (ep\<lparr>need_resources_send_req_q := r # need_resources_send_req_q ep\<rparr>))
      else delayed_loop rs ep)
   }"

definition omx__process_delayed_requests :: "omx_endpoint \<Rightarrow> omx_endpoint option" where
  "omx__process_delayed_requests ep = delayed_loop (need_resources_send_req_q ep) ep"

subsection \<open>Requests to send again\<close>

definition resend_due :: "u64 \<Rightarrow> omx_endpoint \<Rightarrow> rid \<Rightarrow> bool" where
  "resend_due now ep r \<longleftrightarrow> \<not> now - last_send_jiffies (reqs ep r) < ucast (g_resend_delay_jiffies (globals ep))"

definition repost :: "rid \<Rightarrow> omx_endpoint \<Rightarrow> omx_endpoint option" where
  "repost r ep =
    (let p = rpartner (reqs ep r) in
     case rtype (reqs ep r) of
       OMX_REQUEST_TYPE_SEND_TINY \<Rightarrow> omx__post_isend_tiny p r ep
     | OMX_REQUEST_TYPE_SEND_SMALL \<Rightarrow> omx__post_isend_small p r ep
     | OMX_REQUEST_TYPE_SEND_MEDIUMSQ \<Rightarrow>
         omx__post_isend_mediumsq p r (ep\<lparr>avail_exp_events := avail_exp_events ep - frags_nr (reqs ep r)\<rparr>)
     | OMX_REQUEST_TYPE_SEND_MEDIUMVA \<Rightarrow> omx__post_isend_mediumva p r ep
     | OMX_REQUEST_TYPE_SEND_LARGE \<Rightarrow> omx__post_isend_rndv p r ep
     | OMX_REQUEST_TYPE_RECV_LARGE \<Rightarrow> omx__post_notify p r ep
     | _ \<Rightarrow> None)"

text \<open>
  Both loops always look at the head of the queue: the requests in front of it have been moved to \<^verbatim>\<open>tmp_req_q\<close>
  or to the queue of the requests the driver is sending, or their partner has been cleaned up, after which
  the code starts from scratch.
\<close>

partial_function (option) resend_loop :: "u64 \<Rightarrow> omx_endpoint \<Rightarrow> omx_endpoint option" where
  "resend_loop now ep =
    (case non_acked_req_q ep of
       [] \<Rightarrow> Some ep
     | r # rs \<Rightarrow>
         if \<not> resend_due now ep r then Some ep
         else if resends (reqs ep r) > resends_max (reqs ep r) then do {
           ep \<leftarrow> omx__partner_cleanup (rpartner (reqs ep r)) 1 ep;
           resend_loop now ep
         }
         else if rtype (reqs ep r) = OMX_REQUEST_TYPE_SEND_MEDIUMSQ \<and> avail_exp_events ep < frags_nr (reqs ep r)
         then Some ep
         else do {
           let ep = ep\<lparr>non_acked_req_q := rs\<rparr>;
           ep \<leftarrow> repost r ep;
           let ep = (if OMX_REQUEST_STATE_DRIVER_MEDIUMSQ_SENDING \<in> state (reqs ep r)
                     then ep\<lparr>driver_mediumsq_sending_req_q := driver_mediumsq_sending_req_q ep @ [r]\<rparr>
                     else ep\<lparr>tmp_req_q := tmp_req_q ep @ [r]\<rparr>);
           resend_loop now ep
         })"

partial_function (option) reconnect_loop :: "u64 \<Rightarrow> omx_endpoint \<Rightarrow> omx_endpoint option" where
  "reconnect_loop now ep =
    (case connect_req_q ep of
       [] \<Rightarrow> Some ep
     | r # rs \<Rightarrow>
         if \<not> resend_due now ep r then Some ep
         else if resends (reqs ep r) > resends_max (reqs ep r) then do {
           ep \<leftarrow> omx__partner_cleanup (rpartner (reqs ep r)) 1 ep;
           reconnect_loop now ep
         }
         else do {
           let ep = ep\<lparr>connect_req_q := rs\<rparr>;
           ep \<leftarrow> omx__post_connect_request (rpartner (reqs ep r)) r ep;
           reconnect_loop now (ep\<lparr>tmp_req_q := tmp_req_q ep @ [r]\<rparr>)
         })"

definition omx__process_resend_requests :: "omx_endpoint \<Rightarrow> omx_endpoint option" where
  "omx__process_resend_requests ep = do {
     let now = jiffies (driver_desc ep);
     ep \<leftarrow> resend_loop now (ep\<lparr>tmp_req_q := []\<rparr>);
     let ep = ep\<lparr>non_acked_req_q := non_acked_req_q ep @ tmp_req_q ep\<rparr>;
     ep \<leftarrow> reconnect_loop now (ep\<lparr>tmp_req_q := []\<rparr>);
     Some (ep\<lparr>connect_req_q := connect_req_q ep @ tmp_req_q ep, tmp_req_q := []\<rparr>)
   }"

subsection \<open>Events\<close>

definition mediumsq_frag_done :: "u32 \<Rightarrow> omx_endpoint \<Rightarrow> omx_endpoint option" where
  "mediumsq_frag_done sendq_offset ep = do {
     let sendq_index = (ucast (drop_bit OMX_SENDQ_ENTRY_SHIFT sendq_offset) :: u16);
     r \<leftarrow> omx__endpoint_sendq_map_user (sendq_map ep) sendq_index;
     let ep = ep\<lparr>avail_exp_events := avail_exp_events ep + 1\<rparr>;
     let ep = upd_req r (\<lambda>rq. rq\<lparr>frags_pending_nr := frags_pending_nr rq - 1\<rparr>) ep;
     (if frags_pending_nr (reqs ep r) \<noteq> 0 then Some ep
      else
        (let ep = upd_req r (clear_state_flag OMX_REQUEST_STATE_DRIVER_MEDIUMSQ_SENDING) ep;
             ep = ep\<lparr>driver_mediumsq_sending_req_q := remove1 r (driver_mediumsq_sending_req_q ep)\<rparr>
         in if OMX_REQUEST_STATE_NEED_ACK \<in> state (reqs ep r)
            then Some (ep\<lparr>non_acked_req_q := non_acked_req_q ep @ [r]\<rparr>)
            else omx__send_complete r OMX_SUCCESS ep))
   }"

text \<open>A message event whose body is not the one its type announces does not come from the driver: None.\<close>

fun omx__process_event :: "omx_env \<Rightarrow> omx_evt \<Rightarrow> omx_endpoint \<Rightarrow> omx_endpoint option" where
  "omx__process_event env (OMX_EVT_RECV_CONNECT_REQUEST e) ep =
    omx__process_recv_connect_request (env_peer_from_index env) e ep"
| "omx__process_event env (OMX_EVT_RECV_CONNECT_REPLY e) ep =
    omx__process_recv_connect_reply (env_peer_from_index env) e ep"
| "omx__process_event env (OMX_EVT_RECV_TINY msg) ep =
    (case msg_specific msg of
       Msg_tiny _ len _ \<Rightarrow> omx__process_recv (env_handler env) msg 0 (ucast len) Process_recv_tiny ep
     | _ \<Rightarrow> None)"
| "omx__process_event env (OMX_EVT_RECV_SMALL msg) ep =
    (case msg_specific msg of
       Msg_small recvq_offset len _ \<Rightarrow>
         omx__process_recv (env_handler env) msg (recvq ep + ucast recvq_offset) (ucast len) Process_recv_small ep
     | _ \<Rightarrow> None)"
| "omx__process_event env (OMX_EVT_RECV_MEDIUM_FRAG msg) ep =
    (case msg_specific msg of
       Msg_medium_frag recvq_offset msg_length _ _ _ _ \<Rightarrow>
         omx__process_recv (env_handler env) msg (recvq ep + ucast recvq_offset) msg_length Process_recv_medium_frag ep
     | _ \<Rightarrow> None)"
| "omx__process_event env (OMX_EVT_RECV_RNDV msg) ep =
    (case msg_specific msg of
       Msg_rndv msg_length _ _ _ _ \<Rightarrow> omx__process_recv (env_handler env) msg 0 msg_length Process_recv_rndv ep
     | _ \<Rightarrow> None)"
| "omx__process_event env (OMX_EVT_RECV_NOTIFY msg) ep =
    (case msg_specific msg of
       Msg_notify _ _ _ \<Rightarrow> omx__process_recv (env_handler env) msg 0 0 Process_recv_notify ep
     | _ \<Rightarrow> None)"
| "omx__process_event env (OMX_EVT_SEND_MEDIUMSQ_FRAG_DONE sendq_offset) ep = mediumsq_frag_done sendq_offset ep"
| "omx__process_event env (OMX_EVT_PULL_DONE e) ep =
    omx__process_pull_done e (ep\<lparr>avail_exp_events := avail_exp_events ep + 1\<rparr>)"
| "omx__process_event env (OMX_EVT_RECV_LIBACK e) ep = omx__process_recv_liback e ep"
| "omx__process_event env (OMX_EVT_RECV_NACK_LIB e) ep = omx__process_recv_nack_lib e ep"
| "omx__process_event env OMX_EVT_IGNORE ep = Some ep"
| "omx__process_event env OMX_EVT_NONE ep = None"
| "omx__process_event env Evt_unknown ep = None"

definition release_slots :: "omx_cmd \<Rightarrow> u32 \<Rightarrow> omx_endpoint \<Rightarrow> omx_endpoint option" where
  "release_slots cmd index ep =
    (if unat index mod OMX_RELEASE_SLOTS_BATCH_NR = 0 then
       (let (err, ep) = ioctl cmd ep in if err = None then Some ep else None)
     else Some ep)"

text \<open>The two loops of \<^verbatim>\<open>omx__progress\<close> only differ in the ring and in the command that releases slots.\<close>

partial_function (option) event_loop ::
  "omx_env \<Rightarrow> (u32 \<Rightarrow> omx_evt_slot list) \<Rightarrow> omx_cmd \<Rightarrow> u32 \<Rightarrow> omx_endpoint \<Rightarrow> (u32 \<times> omx_endpoint) option" where
  "event_loop env ring cmd index ep =
    (case event_slot ring index of
       None \<Rightarrow> None
     | Some slot \<Rightarrow>
         if unat (evt_id slot) \<noteq> expected_id index then Some (index, ep)
         else do {
           ep \<leftarrow> omx__process_event env (evt_body slot) ep;
           ep \<leftarrow> release_slots cmd (index + 1) ep;
           event_loop env ring cmd (index + 1) ep
         })"

subsection \<open>The status of the endpoint\<close>

definition OMX_ENDPOINT_DESC_STATUS_EXP_EVENTQ_FULL :: u64 where
  "OMX_ENDPOINT_DESC_STATUS_EXP_EVENTQ_FULL = 1"

definition OMX_ENDPOINT_DESC_STATUS_IFACE_REMOVED :: u64 where
  "OMX_ENDPOINT_DESC_STATUS_IFACE_REMOVED = 16"

text \<open>The other bits of the status only get a message printed.\<close>

definition omx__check_endpoint_desc :: "omx_endpoint \<Rightarrow> omx_endpoint option" where
  "omx__check_endpoint_desc ep =
    (let now = jiffies (driver_desc ep) in
     if now - last_check_jiffies ep < ucast (check_status_delay_jiffies ep) then Some ep
     else
       (let ep = ep\<lparr>last_check_jiffies := now\<rparr>;
            driver_status = desc_status (desc ep);
            ep = ep\<lparr>desc := (desc ep)\<lparr>desc_status := 0\<rparr>\<rparr>
        in if driver_status = 0 then Some ep
           else if driver_status AND OMX_ENDPOINT_DESC_STATUS_EXP_EVENTQ_FULL \<noteq> 0 then None
           else if driver_status AND OMX_ENDPOINT_DESC_STATUS_IFACE_REMOVED \<noteq> 0 then None
           else Some ep))"

subsection \<open>Progression\<close>

text \<open>It always returns \<^verbatim>\<open>OMX_SUCCESS\<close>.\<close>

definition omx__progress :: "omx_env \<Rightarrow> omx_endpoint \<Rightarrow> omx_endpoint option" where
  "omx__progress env ep =
    (if progression_disabled ep \<noteq> {} then Some ep
     else do {
       (index, ep) \<leftarrow> event_loop env (env_unexp_eventq env) OMX_CMD_RELEASE_UNEXP_SLOTS (next_unexp_event_index ep) ep;
       let ep = ep\<lparr>next_unexp_event_index := index\<rparr>;
       (index, ep) \<leftarrow> event_loop env (env_exp_eventq env) OMX_CMD_RELEASE_EXP_SLOTS (next_exp_event_index ep) ep;
       let ep = ep\<lparr>next_exp_event_index := index\<rparr>;
       ep \<leftarrow> omx__process_resend_requests ep;
       ep \<leftarrow> omx__process_delayed_requests ep;
       ep \<leftarrow> omx__process_partners_to_ack ep;
       omx__check_endpoint_desc ep
     })"

definition omx_progress :: "omx_env \<Rightarrow> omx_endpoint \<Rightarrow> omx_endpoint option" where
  "omx_progress env ep = omx__progress env ep"

text \<open>Called from the handler, the loop that waits for the end of the handler never ends.\<close>

definition omx_disable_progression :: "omx_endpoint \<Rightarrow> omx_endpoint option" where
  "omx_disable_progression ep =
    (if OMX_PROGRESSION_DISABLED_BY_API \<in> progression_disabled ep then Some ep
     else if OMX_PROGRESSION_DISABLED_IN_HANDLER \<in> progression_disabled ep then None
     else Some (ep\<lparr>progression_disabled := {OMX_PROGRESSION_DISABLED_BY_API}\<rparr>))"

definition omx_reenable_progression :: "omx_env \<Rightarrow> omx_endpoint \<Rightarrow> omx_endpoint option" where
  "omx_reenable_progression env ep =
    (if OMX_PROGRESSION_DISABLED_BY_API \<notin> progression_disabled ep then Some ep
     else omx__progress env (ep\<lparr>progression_disabled := progression_disabled ep - {OMX_PROGRESSION_DISABLED_BY_API}\<rparr>))"

end
