(* ===== verification/Api.thy ===== *)
theory Api
  imports Progress
begin

text \<open>
  What the application calls (\<^verbatim>\<open>omx_send.c\<close>, \<^verbatim>\<open>omx_recv.c\<close>, \<^verbatim>\<open>omx_partner.c\<close>, \<^verbatim>\<open>omx_test.c\<close>, \<^verbatim>\<open>omx_misc.c\<close> of
  \<^verbatim>\<open>libopen-mx\<close>): sends, receives, connections, tests and cancellation, all without waiting.

  \<open>keep\<close> says whether the application passed somewhere to store the request; if not the request is
  forgotten. A function that yields a request returns \<open>Inl\<close> the error code or \<open>Inr\<close> the request; a test
  returns the status of the request it completed, if any. \<^verbatim>\<open>omx__progress\<close> always succeeds, so the branches
  for its failure are not there.
\<close>

subsection \<open>Sending\<close>

definition keep_or_forget :: "bool \<Rightarrow> rid \<Rightarrow> omx_endpoint \<Rightarrow> omx_endpoint" where
  "keep_or_forget keep r ep = (if keep then ep else omx__forget r ep)"

definition self_send :: "omx_endpoint \<Rightarrow> pid \<Rightarrow> bool" where
  "self_send ep p \<longleftrightarrow> g_selfcomms (globals ep) \<and> p = myself ep"

definition omx__isend_req :: "omx_env \<Rightarrow> pid \<Rightarrow> rid \<Rightarrow> bool \<Rightarrow> omx_endpoint \<Rightarrow> (omx_return \<times> omx_endpoint) option" where
  "omx__isend_req env p r keep ep =
    (let len = segs_total_length (segs (reqs ep r));
         submitted = (\<lambda>sub. do {
           ep \<leftarrow> sub;
           ep \<leftarrow> omx__progress env (keep_or_forget keep r ep);
           Some (OMX_SUCCESS, ep)
         })
     in if self_send ep p then submitted (omx__process_self_send (env_handler env) r ep)
        else if len \<le> OMX_TINY_MSG_LENGTH_MAX then submitted (omx__submit_isend_tiny p r ep)
        else if len \<le> OMX_SMALL_MSG_LENGTH_MAX then
          (case omx_malloc_ep ep of
             (None, ep) \<Rightarrow> map_option (\<lambda>ret. (ret, ep)) (omx__error_with_ep ep OMX_NO_RESOURCES)
           | (Some copy, ep) \<Rightarrow> submitted (omx__submit_isend_small p r (upd_req r (\<lambda>rq. rq\<lparr>small_copy := copy\<rparr>) ep)))
        else if len \<le> rndv_threshold (partners ep p) then submitted (omx__submit_isend_medium p r ep)
        else submitted (omx__submit_isend_large p r ep))"

definition fill_send :: "rid \<Rightarrow> omx__endpoint_addr \<Rightarrow> u64 \<Rightarrow> u64 \<Rightarrow> omx_endpoint \<Rightarrow> omx_endpoint" where
  "fill_send r dest info ctx = upd_req r (\<lambda>rq. rq\<lparr>rpartner := addr_partner dest,
    status := (status rq)\<lparr>st_addr := dest, st_match_info := info, st_context := ctx\<rparr>\<rparr>)"

definition isend_finish ::
  "omx_env \<Rightarrow> rid \<Rightarrow> omx__endpoint_addr \<Rightarrow> bool \<Rightarrow> omx_endpoint \<Rightarrow> ((omx_return + rid) \<times> omx_endpoint) option" where
  "isend_finish env r dest keep ep = do {
     (ret, ep) \<leftarrow> omx__isend_req env (addr_partner dest) r keep ep;
     Some (if ret \<noteq> OMX_SUCCESS then (Inl ret, omx__request_free r (omx_free_segments (segs (reqs ep r)) ep))
           else (Inr r, ep))
   }"

text \<open>The length is a \<^verbatim>\<open>size_t\<close>, which \<^verbatim>\<open>omx_cache_single_segment\<close> takes as a 32-bit number.\<close>

definition omx_isend ::
  "omx_env \<Rightarrow> u64 \<Rightarrow> u64 \<Rightarrow> omx__endpoint_addr \<Rightarrow> u64 \<Rightarrow> u64 \<Rightarrow> bool \<Rightarrow> omx_endpoint \<Rightarrow>
    ((omx_return + rid) \<times> omx_endpoint) option" where
  "omx_isend env buffer len dest info ctx keep ep =
    (case omx__request_alloc ep of
       (None, ep) \<Rightarrow> map_option (\<lambda>ret. (Inl ret, ep)) (omx__error_with_ep ep OMX_NO_RESOURCES)
     | (Some r, ep) \<Rightarrow>
         (let ep = upd_req r (\<lambda>rq. rq\<lparr>segs := omx_cache_single_segment (segs rq) buffer (ucast len)\<rparr>) ep;
              ep = fill_send r dest info ctx ep
          in isend_finish env r dest keep ep))"

definition omx_isendv ::
  "omx_env \<Rightarrow> omx_seg list \<Rightarrow> omx__endpoint_addr \<Rightarrow> u64 \<Rightarrow> u64 \<Rightarrow> bool \<Rightarrow> omx_endpoint \<Rightarrow>
    ((omx_return + rid) \<times> omx_endpoint) option" where
  "omx_isendv env sgs dest info ctx keep ep =
    (case omx__request_alloc ep of
       (None, ep) \<Rightarrow> map_option (\<lambda>ret. (Inl ret, ep)) (omx__error_with_ep ep OMX_NO_RESOURCES)
     | (Some r, ep) \<Rightarrow>
         (let (ret, sg, ep) = omx_cache_segments (segs (reqs ep r)) sgs ep;
              ep = upd_req r (\<lambda>rq. rq\<lparr>segs := sg\<rparr>) ep
          in if ret \<noteq> OMX_SUCCESS then do {
               ret \<leftarrow> omx__error_with_ep ep ret;
               Some (Inl ret, omx__request_free r ep)
             }
             else isend_finish env r dest keep (fill_send r dest info ctx ep)))"

definition omx__issend_req :: "omx_env \<Rightarrow> pid \<Rightarrow> rid \<Rightarrow> bool \<Rightarrow> omx_endpoint \<Rightarrow> omx_endpoint option" where
  "omx__issend_req env p r keep ep = do {
     ep \<leftarrow> (if self_send ep p then omx__process_self_send (env_handler env) r ep else omx__submit_isend_large p r ep);
     omx__progress env (keep_or_forget keep r ep)
   }"

definition omx_issend ::
  "omx_env \<Rightarrow> u64 \<Rightarrow> u64 \<Rightarrow> omx__endpoint_addr \<Rightarrow> u64 \<Rightarrow> u64 \<Rightarrow> bool \<Rightarrow> omx_endpoint \<Rightarrow>
    ((omx_return + rid) \<times> omx_endpoint) option" where
  "omx_issend env buffer len dest info ctx keep ep =
    (case omx__request_alloc ep of
       (None, ep) \<Rightarrow> map_option (\<lambda>ret. (Inl ret, ep)) (omx__error_with_ep ep OMX_NO_RESOURCES)
     | (Some r, ep) \<Rightarrow> do {
         let ep = upd_req r (\<lambda>rq. rq\<lparr>segs := omx_cache_single_segment (segs rq) buffer (ucast len)\<rparr>) ep;
         ep \<leftarrow> omx__issend_req env (addr_partner dest) r keep (fill_send r dest info ctx ep);
         Some (Inr r, ep)
       })"

definition omx_issendv ::
  "omx_env \<Rightarrow> omx_seg list \<Rightarrow> omx__endpoint_addr \<Rightarrow> u64 \<Rightarrow> u64 \<Rightarrow> bool \<Rightarrow> omx_endpoint \<Rightarrow>
    ((omx_return + rid) \<times> omx_endpoint) option" where
  "omx_issendv env sgs dest info ctx keep ep =
    (case omx__request_alloc ep of
       (None, ep) \<Rightarrow> map_option (\<lambda>ret. (Inl ret, ep)) (omx__error_with_ep ep OMX_NO_RESOURCES)
     | (Some r, ep) \<Rightarrow>
         (let (ret, sg, ep) = omx_cache_segments (segs (reqs ep r)) sgs ep;
              ep = upd_req r (\<lambda>rq. rq\<lparr>segs := sg\<rparr>) ep
          in if ret \<noteq> OMX_SUCCESS then do {
               ret \<leftarrow> omx__error_with_ep ep ret;
               Some (Inl ret, omx__request_free r ep)
             }
             else do {
               ep \<leftarrow> omx__issend_req env (addr_partner dest) r keep (fill_send r dest info ctx ep);
               Some (Inr r, ep)
             }))"

subsection \<open>Receiving\<close>

definition omx__irecv_segs ::
  "omx_env \<Rightarrow> omx__req_segs \<Rightarrow> u64 \<Rightarrow> u64 \<Rightarrow> u64 \<Rightarrow> bool \<Rightarrow> omx_endpoint \<Rightarrow> ((omx_return + rid) \<times> omx_endpoint) option" where
  "omx__irecv_segs env reqsegs info msk ctx keep ep =
    (let ctxid = CTXID_FROM_MATCHING ep info;
         q = (if HAS_CTXIDS ep then ctxid_unexp_req_q ep ctxid else anyctxid_unexp_req_q ep)
     in case find (\<lambda>r. status_matches info msk (reqs ep r)) q of
          Some r \<Rightarrow> do {
            ep \<leftarrow> omx__complete_unexp_req_as_irecv r reqsegs ctx ep;
            Some (Inr r, keep_or_forget keep r ep)
          }
        | None \<Rightarrow>
            (case omx__request_alloc ep of
               (None, ep) \<Rightarrow> map_option (\<lambda>ret. (Inl ret, ep)) (omx__error_with_ep ep OMX_NO_RESOURCES)
             | (Some r, ep) \<Rightarrow> do {
                 let ep = upd_req r (\<lambda>rq. rq\<lparr>segs := omx_clone_segments reqsegs, rtype := OMX_REQUEST_TYPE_RECV,
                   state := {OMX_REQUEST_STATE_RECV_NEED_MATCHING}, status := (status rq)\<lparr>st_context := ctx\<rparr>,
                   match_info := info, match_mask := msk\<rparr>) ep;
                 let ep = ep\<lparr>ctxid_recv_req_q := (ctxid_recv_req_q ep)(ctxid := ctxid_recv_req_q ep ctxid @ [r])\<rparr>;
                 ep \<leftarrow> omx__progress env ep;
                 Some (Inr r, keep_or_forget keep r ep)
               }))"

text \<open>The checks at the start of a receive: the error, if any.\<close>

definition irecv_error :: "u64 \<Rightarrow> u64 \<Rightarrow> omx_endpoint \<Rightarrow> omx_return" where
  "irecv_error info msk ep =
    (if info AND NOT msk \<noteq> 0 then OMX_BAD_MATCH_MASK
     else if ctxid_mask ep AND NOT msk \<noteq> 0 then OMX_BAD_MATCHING_FOR_CONTEXT_ID_MASK
     else OMX_SUCCESS)"

definition irecv_or_free ::
  "omx_env \<Rightarrow> omx__req_segs \<Rightarrow> u64 \<Rightarrow> u64 \<Rightarrow> u64 \<Rightarrow> bool \<Rightarrow> omx_endpoint \<Rightarrow> ((omx_return + rid) \<times> omx_endpoint) option" where
  "irecv_or_free env reqsegs info msk ctx keep ep = do {
     (got, ep) \<leftarrow> omx__irecv_segs env reqsegs info msk ctx keep ep;
     Some (got, case got of Inl ret \<Rightarrow> if ret \<noteq> OMX_SUCCESS then omx_free_segments reqsegs ep else ep | Inr _ \<Rightarrow> ep)
   }"

text \<open>The segments are a local struct, which \<open>blank_req_segs\<close> stands for before it is filled.\<close>

definition omx_irecv ::
  "omx_env \<Rightarrow> u64 \<Rightarrow> u64 \<Rightarrow> u64 \<Rightarrow> u64 \<Rightarrow> u64 \<Rightarrow> bool \<Rightarrow> omx_endpoint \<Rightarrow> ((omx_return + rid) \<times> omx_endpoint) option" where
  "omx_irecv env buffer len info msk ctx keep ep =
    (if irecv_error info msk ep \<noteq> OMX_SUCCESS
     then map_option (\<lambda>ret. (Inl ret, ep)) (omx__error_with_ep ep (irecv_error info msk ep))
     else irecv_or_free env (omx_cache_single_segment blank_req_segs buffer (ucast len)) info msk ctx keep ep)"

definition omx_irecvv ::
  "omx_env \<Rightarrow> omx_seg list \<Rightarrow> u64 \<Rightarrow> u64 \<Rightarrow> u64 \<Rightarrow> bool \<Rightarrow> omx_endpoint \<Rightarrow> ((omx_return + rid) \<times> omx_endpoint) option" where
  "omx_irecvv env sgs info msk ctx keep ep =
    (if irecv_error info msk ep \<noteq> OMX_SUCCESS
     then map_option (\<lambda>ret. (Inl ret, ep)) (omx__error_with_ep ep (irecv_error info msk ep))
     else
       (let (ret, sg, ep) = omx_cache_segments blank_req_segs sgs ep
        in if ret \<noteq> OMX_SUCCESS then map_option (\<lambda>ret. (Inl ret, ep)) (omx__error_with_ep ep ret)
           else irecv_or_free env sg info msk ctx keep ep))"

subsection \<open>Connecting\<close>

text \<open>The endpoint number is a 32-bit argument that the partner lookup takes as 8 bits.\<close>

definition omx__connect_common ::
  "omx_env \<Rightarrow> u64 \<Rightarrow> u32 \<Rightarrow> u32 \<Rightarrow> rid \<Rightarrow> omx_endpoint \<Rightarrow> (omx_return \<times> omx_endpoint) option" where
  "omx__connect_common env nic_id endpoint_id key r ep =
    (case omx__partner_lookup_by_addr (env_peer_from_addr env) nic_id (ucast endpoint_id) ep of
       (Inl ret, ep) \<Rightarrow> do {
         ret \<leftarrow> omx__error_with_ep ep (if ret = OMX_PEER_NOT_FOUND then OMX_NIC_ID_NOT_FOUND else ret);
         Some (ret, ep)
       }
     | (Inr p, ep) \<Rightarrow>
         (let ep = upd_req r (set_state_flag OMX_REQUEST_STATE_NEED_REPLY) ep;
              enqueue = (\<lambda>ep. upd_partner p (\<lambda>pt. pt\<lparr>p_connect_req_q := p_connect_req_q pt @ [r]\<rparr>)
                (ep\<lparr>connect_req_q := connect_req_q ep @ [r]\<rparr>))
          in if p = myself ep then do {
               let ep = enqueue (upd_req r (\<lambda>rq. rq\<lparr>rpartner := p\<rparr>) ep);
               ep \<leftarrow> omx__connect_complete r OMX_SUCCESS (desc_session_id (desc ep)) ep;
               ep \<leftarrow> omx__notify_user_event ep;
               Some (OMX_SUCCESS, ep)
             }
             else do {
               let seqnum = p_connect_seqnum (partners ep p);
               let ep = upd_partner p (\<lambda>pt. pt\<lparr>p_connect_seqnum := p_connect_seqnum pt + 1\<rparr>) ep;
               let pt = partners ep p;
               let ep = upd_req r (\<lambda>rq. rq\<lparr>resends := 0, send_connect_request_ioctl_param :=
                 (send_connect_request_ioctl_param rq)\<lparr>conn_peer_index := p_peer_index pt,
                   conn_dest_endpoint := p_endpoint_index pt, conn_shared_disabled := \<not> g_sharedcomms (globals ep),
                   conn_seqnum := 0, conn_src_session_id := desc_session_id (desc ep), conn_app_key := key,
                   conn_connect_seqnum := seqnum\<rparr>\<rparr>) ep;
               ep \<leftarrow> omx__post_connect_request p r ep;
               let ep = enqueue ep;
               let ep = upd_req r (\<lambda>rq. rq\<lparr>rpartner := p, resends_max := req_resends_max ep,
                 connect_session_id := desc_session_id (desc ep), connect_seqnum := seqnum\<rparr>) ep;
               ep \<leftarrow> omx__progress env ep;
               Some (OMX_SUCCESS, ep)
             }))"

definition omx_iconnect ::
  "omx_env \<Rightarrow> u64 \<Rightarrow> u32 \<Rightarrow> u32 \<Rightarrow> u64 \<Rightarrow> u64 \<Rightarrow> bool \<Rightarrow> omx_endpoint \<Rightarrow> ((omx_return + rid) \<times> omx_endpoint) option" where
  "omx_iconnect env nic_id endpoint_id key info ctx keep ep =
    (case omx__request_alloc ep of
       (None, ep) \<Rightarrow> map_option (\<lambda>ret. (Inl ret, ep)) (omx__error_with_ep ep OMX_NO_RESOURCES)
     | (Some r, ep) \<Rightarrow> do {
         let ep = upd_req r (\<lambda>rq. rq\<lparr>rtype := OMX_REQUEST_TYPE_CONNECT,
           status := (status rq)\<lparr>st_match_info := info, st_context := ctx\<rparr>\<rparr>) ep;
         (ret, ep) \<leftarrow> omx__connect_common env nic_id endpoint_id key r ep;
         Some (if ret \<noteq> OMX_SUCCESS then (Inl ret, omx__request_free r ep)
               else if keep then (Inr r, ep)
               else (let ep = upd_req r (set_state_flag OMX_REQUEST_STATE_ZOMBIE) ep
                     in (Inr r, ep\<lparr>zombies := zombies ep + 1\<rparr>)))
       })"

definition omx_disconnect :: "omx_env \<Rightarrow> omx__endpoint_addr \<Rightarrow> omx_endpoint \<Rightarrow> omx_endpoint option" where
  "omx_disconnect env addr ep = do {
     ep \<leftarrow> omx__progress env ep;
     omx__partner_cleanup (addr_partner addr) 2 ep
   }"

subsection \<open>Testing\<close>

definition omx_test :: "omx_env \<Rightarrow> rid \<Rightarrow> omx_endpoint \<Rightarrow> (omx_status option \<times> omx_endpoint) option" where
  "omx_test env r ep = do { ep \<leftarrow> omx__progress env ep; Some (omx__test_common r ep) }"

definition omx_test_any ::
  "omx_env \<Rightarrow> u64 \<Rightarrow> u64 \<Rightarrow> omx_endpoint \<Rightarrow> (omx_return \<times> omx_status option \<times> omx_endpoint) option" where
  "omx_test_any env info msk ep =
    (if info AND NOT msk \<noteq> 0 then map_option (\<lambda>ret. (ret, None, ep)) (omx__error_with_ep ep OMX_BAD_MATCH_MASK)
     else do { ep \<leftarrow> omx__progress env ep; Some (OMX_SUCCESS, omx__test_any_common info msk ep) })"

definition omx_ipeek :: "omx_env \<Rightarrow> omx_endpoint \<Rightarrow> (rid option \<times> omx_endpoint) option" where
  "omx_ipeek env ep = do { ep \<leftarrow> omx__progress env ep; Some (omx__ipeek_common ep, ep) }"

definition omx_ibuffered :: "omx_env \<Rightarrow> rid \<Rightarrow> omx_endpoint \<Rightarrow> (omx_return \<times> bool \<times> omx_endpoint) option" where
  "omx_ibuffered env r ep = do {
     ep \<leftarrow> omx__progress env ep;
     Some (if rtype (reqs ep r) \<in> {OMX_REQUEST_TYPE_SEND_TINY, OMX_REQUEST_TYPE_SEND_SMALL, OMX_REQUEST_TYPE_SEND_MEDIUMSQ} then
             (OMX_SUCCESS, state (reqs ep r) \<inter> {OMX_REQUEST_STATE_NEED_RESOURCES, OMX_REQUEST_STATE_NEED_SEQNUM} = {}, ep)
           else if rtype (reqs ep r) = OMX_REQUEST_TYPE_SEND_SELF then (OMX_SUCCESS, True, ep)
           else if rtype (reqs ep r) \<in> {OMX_REQUEST_TYPE_SEND_MEDIUMVA, OMX_REQUEST_TYPE_SEND_LARGE} then (OMX_SUCCESS, False, ep)
           else (OMX_BAD_REQUEST, False, ep))
   }"

definition omx_iprobe ::
  "omx_env \<Rightarrow> u64 \<Rightarrow> u64 \<Rightarrow> omx_endpoint \<Rightarrow> (omx_return \<times> omx_status option \<times> omx_endpoint) option" where
  "omx_iprobe env info msk ep =
    (if info AND NOT msk \<noteq> 0 then map_option (\<lambda>ret. (ret, None, ep)) (omx__error_with_ep ep OMX_BAD_MATCH_MASK)
     else do { ep \<leftarrow> omx__progress env ep; Some (OMX_SUCCESS, omx__iprobe_common info msk ep, ep) })"

definition omx_wakeup :: "omx_endpoint \<Rightarrow> omx_endpoint option" where
  "omx_wakeup ep = omx__wakeup OMX_CMD_WAIT_EVENT_STATUS_WAKEUP ep"

definition omx_context :: "rid \<Rightarrow> omx_endpoint \<Rightarrow> u64" where
  "omx_context r ep = st_context (status (reqs ep r))"

subsection \<open>Cancelling\<close>

definition omx_cancel :: "omx_env \<Rightarrow> rid \<Rightarrow> omx_endpoint \<Rightarrow> (omx_return \<times> bool \<times> omx_endpoint) option" where
  "omx_cancel env r ep = do {
     ep \<leftarrow> omx__progress env ep;
     (ret, result, ep) \<leftarrow> omx__cancel_common r ep;
     Some (ret, result, if ret = OMX_SUCCESS \<and> result then omx__request_free r ep else ep)
   }"

definition omx_cancel_notest :: "omx_env \<Rightarrow> rid \<Rightarrow> omx_endpoint \<Rightarrow> (omx_return \<times> bool \<times> omx_endpoint) option" where
  "omx_cancel_notest env r ep = do {
     ep \<leftarrow> omx__progress env ep;
     (ret, result, ep) \<leftarrow> omx__cancel_common r ep;
     Some (ret, result,
       if ret = OMX_SUCCESS \<and> result then
         (let ctxid = status_ctxid ep r;
              ep = upd_req r (\<lambda>rq. rq\<lparr>status := (status rq)\<lparr>st_code := OMX_CANCELLED\<rparr>\<rparr>) ep
          in omx__notify_request_done ctxid r ep)
       else ep)
   }"

end
