(* ===== verification/Driver_Event.thy ===== *)
theory Driver_Event
  imports Event_Ring Omx_Prelude "HOL-Library.Monad_Syntax"
begin

text \<open>
  The event queues of an endpoint in the driver (\<^verbatim>\<open>driver/linux/omx_event.c\<close>): storing events in the two rings,
  reserving and committing slots that come with a receive queue slot, releasing slots, and the threads that
  sleep until an event comes. A notification that takes a slot and finds the ring full gives it back in a
  second critical section, and an event is written outside of any critical section; these steps are
  definitions of their own.

  \<open>None\<close> stands for a kernel bug (\<^verbatim>\<open>BUG_ON\<close>). A waiter is the status it has been woken with.
\<close>

subsection \<open>State\<close>

record driver_eventqs =
  userdesc_status :: u64
  waiters :: "u8 list"
  d_exp_eventq :: "omx_evt_slot list"
  nextfree_exp_eventq_index :: u32
  nextreleased_exp_eventq_index :: u32
  d_unexp_eventq :: "omx_evt_slot list"
  nextfree_unexp_eventq_index :: u32
  nextreserved_unexp_eventq_index :: u32
  nextreleased_unexp_eventq_index :: u32
  next_recvq_index :: u32

definition WAIT_EVENT_STATUS_NONE :: u8 where
  "WAIT_EVENT_STATUS_NONE = 0"

definition WAIT_EVENT_STATUS_EVENT :: u8 where
  "WAIT_EVENT_STATUS_EVENT = 1"

definition WAIT_EVENT_STATUS_INTR :: u8 where
  "WAIT_EVENT_STATUS_INTR = 2"

definition WAIT_EVENT_STATUS_PROGRESS :: u8 where
  "WAIT_EVENT_STATUS_PROGRESS = 3"

definition WAIT_EVENT_STATUS_TIMEOUT :: u8 where
  "WAIT_EVENT_STATUS_TIMEOUT = 4"

definition WAIT_EVENT_STATUS_RACE :: u8 where
  "WAIT_EVENT_STATUS_RACE = 5"

definition WAIT_EVENT_STATUS_WAKEUP :: u8 where
  "WAIT_EVENT_STATUS_WAKEUP = 6"

definition DESC_STATUS_EXP_EVENTQ_FULL :: u64 where
  "DESC_STATUS_EXP_EVENTQ_FULL = 1"

definition DESC_STATUS_UNEXP_EVENTQ_FULL :: u64 where
  "DESC_STATUS_UNEXP_EVENTQ_FULL = 2"

definition EVENTQ_NR :: u32 where
  "EVENTQ_NR = of_nat OMX_EVENTQ_ENTRY_NR"

definition RELEASE_BATCH_NR :: u32 where
  "RELEASE_BATCH_NR = of_nat OMX_RELEASE_SLOTS_BATCH_NR"

definition RECVQ_ENTRY_SIZE :: u64 where
  "RECVQ_ENTRY_SIZE = push_bit 13 1"

definition omx_wakeup_waiter_list :: "u8 \<Rightarrow> driver_eventqs \<Rightarrow> driver_eventqs" where
  "omx_wakeup_waiter_list st d = d\<lparr>waiters := map (\<lambda>_. st) (waiters d)\<rparr>"

text \<open>The two handlers of the timer of the \<open>i\<close>-th waiter.\<close>

definition omx_wakeup_on_timeout_handler :: "nat \<Rightarrow> driver_eventqs \<Rightarrow> driver_eventqs" where
  "omx_wakeup_on_timeout_handler i d = d\<lparr>waiters := (waiters d)[i := WAIT_EVENT_STATUS_TIMEOUT]\<rparr>"

definition omx_wakeup_on_progress_timeout_handler :: "nat \<Rightarrow> driver_eventqs \<Rightarrow> driver_eventqs" where
  "omx_wakeup_on_progress_timeout_handler i d = d\<lparr>waiters := (waiters d)[i := WAIT_EVENT_STATUS_PROGRESS]\<rparr>"

text \<open>The content of the slots does not matter as long as their id is 0.\<close>

definition omx_endpoint_queues_init :: "omx_evt_slot list \<Rightarrow> omx_evt_slot list \<Rightarrow> driver_eventqs \<Rightarrow> driver_eventqs" where
  "omx_endpoint_queues_init exp unexp d = d\<lparr>
     d_exp_eventq := map (\<lambda>sl. sl\<lparr>evt_id := 0\<rparr>) exp,
     nextfree_exp_eventq_index := 0, nextreleased_exp_eventq_index := 0,
     d_unexp_eventq := map (\<lambda>sl. sl\<lparr>evt_id := 0\<rparr>) unexp,
     nextfree_unexp_eventq_index := 0, nextreserved_unexp_eventq_index := 0, nextreleased_unexp_eventq_index := 0,
     next_recvq_index := 0, waiters := []\<rparr>"

text \<open>Writing the event of an index: its slot and its id.\<close>

definition slot_of :: "u32 \<Rightarrow> nat" where
  "slot_of index = unat index mod OMX_EVENTQ_ENTRY_NR"

definition id_of :: "u32 \<Rightarrow> u8" where
  "id_of index = of_nat (expected_id index)"

definition write_event :: "u32 \<Rightarrow> omx_evt \<Rightarrow> omx_evt_slot list \<Rightarrow> omx_evt_slot list" where
  "write_event index evt ring = ring[slot_of index := \<lparr>evt_id = id_of index, evt_body = evt\<rparr>]"

subsection \<open>Expected events\<close>

definition notify_exp_take :: "driver_eventqs \<Rightarrow> u32 \<times> driver_eventqs" where
  "notify_exp_take d =
    (nextfree_exp_eventq_index d, d\<lparr>nextfree_exp_eventq_index := nextfree_exp_eventq_index d + 1\<rparr>)"

definition notify_exp_finish :: "u32 \<Rightarrow> omx_evt \<Rightarrow> driver_eventqs \<Rightarrow> omx_errno option \<times> driver_eventqs" where
  "notify_exp_finish index evt d =
    (if nextfree_exp_eventq_index d - nextreleased_exp_eventq_index d > EVENTQ_NR then
       (Some EBUSY, d\<lparr>nextfree_exp_eventq_index := nextfree_exp_eventq_index d - 1,
         userdesc_status := userdesc_status d OR DESC_STATUS_EXP_EVENTQ_FULL\<rparr>)
     else
       (let d = d\<lparr>d_exp_eventq := write_event index evt (d_exp_eventq d)\<rparr>
        in (None, omx_wakeup_waiter_list WAIT_EVENT_STATUS_EVENT d)))"

definition omx_notify_exp_event :: "omx_evt \<Rightarrow> driver_eventqs \<Rightarrow> omx_errno option \<times> driver_eventqs" where
  "omx_notify_exp_event evt d = (let (index, d) = notify_exp_take d in notify_exp_finish index evt d)"

subsection \<open>Unexpected events without a receive queue slot\<close>

definition notify_unexp_take :: "driver_eventqs \<Rightarrow> u32 \<times> driver_eventqs" where
  "notify_unexp_take d =
    (let d = d\<lparr>nextfree_unexp_eventq_index := nextfree_unexp_eventq_index d + 1\<rparr>
     in (nextreserved_unexp_eventq_index d,
         d\<lparr>nextreserved_unexp_eventq_index := nextreserved_unexp_eventq_index d + 1\<rparr>))"

definition unexp_full :: "driver_eventqs \<Rightarrow> bool" where
  "unexp_full d \<longleftrightarrow> nextfree_unexp_eventq_index d - nextreleased_unexp_eventq_index d > EVENTQ_NR"

definition notify_unexp_rollback :: "driver_eventqs \<Rightarrow> driver_eventqs" where
  "notify_unexp_rollback d = d\<lparr>nextfree_unexp_eventq_index := nextfree_unexp_eventq_index d - 1,
    nextreserved_unexp_eventq_index := nextreserved_unexp_eventq_index d - 1,
    userdesc_status := userdesc_status d OR DESC_STATUS_UNEXP_EVENTQ_FULL\<rparr>"

definition notify_unexp_write :: "u32 \<Rightarrow> omx_evt \<Rightarrow> driver_eventqs \<Rightarrow> driver_eventqs" where
  "notify_unexp_write index evt d =
    (let d = d\<lparr>d_unexp_eventq := write_event index evt (d_unexp_eventq d)\<rparr>
     in omx_wakeup_waiter_list WAIT_EVENT_STATUS_EVENT d)"

definition omx_notify_unexp_event :: "omx_evt \<Rightarrow> driver_eventqs \<Rightarrow> omx_errno option \<times> driver_eventqs" where
  "omx_notify_unexp_event evt d =
    (let (index, d) = notify_unexp_take d
     in if unexp_full d then (Some EBUSY, notify_unexp_rollback d) else (None, notify_unexp_write index evt d))"

subsection \<open>Unexpected events with receive queue slots\<close>

definition recvq_offset :: "u32 \<Rightarrow> u64" where
  "recvq_offset recvq_index = of_nat (unat recvq_index mod OMX_EVENTQ_ENTRY_NR) * RECVQ_ENTRY_SIZE"

definition omx_prepare_notify_unexp_event_with_recvq :: "driver_eventqs \<Rightarrow> (omx_errno + u64) \<times> driver_eventqs" where
  "omx_prepare_notify_unexp_event_with_recvq d =
    (let recvq_index = next_recvq_index d;
         d = d\<lparr>nextfree_unexp_eventq_index := nextfree_unexp_eventq_index d + 1, next_recvq_index := next_recvq_index d + 1\<rparr>
     in if unexp_full d then
          (Inl EBUSY, d\<lparr>nextfree_unexp_eventq_index := nextfree_unexp_eventq_index d - 1,
            next_recvq_index := next_recvq_index d - 1,
            userdesc_status := userdesc_status d OR DESC_STATUS_UNEXP_EVENTQ_FULL\<rparr>)
        else (Inr (recvq_offset recvq_index), d))"

definition omx_prepare_notify_unexp_events_with_recvq :: "nat \<Rightarrow> driver_eventqs \<Rightarrow> (omx_errno + u64 list) \<times> driver_eventqs" where
  "omx_prepare_notify_unexp_events_with_recvq nr d =
    (let first_recvq_index = next_recvq_index d;
         d = d\<lparr>nextfree_unexp_eventq_index := nextfree_unexp_eventq_index d + of_nat nr,
           next_recvq_index := next_recvq_index d + of_nat nr\<rparr>
     in if unexp_full d then
          (Inl EBUSY, d\<lparr>nextfree_unexp_eventq_index := nextfree_unexp_eventq_index d - of_nat nr,
            next_recvq_index := next_recvq_index d - of_nat nr,
            userdesc_status := userdesc_status d OR DESC_STATUS_UNEXP_EVENTQ_FULL\<rparr>)
        else (Inr (map (\<lambda>i. recvq_offset (first_recvq_index + of_nat i)) [0..<nr]), d))"

definition unexp_reserved :: "driver_eventqs \<Rightarrow> bool" where
  "unexp_reserved d \<longleftrightarrow>
    nextreserved_unexp_eventq_index d - nextreleased_unexp_eventq_index d
      < nextfree_unexp_eventq_index d - nextreleased_unexp_eventq_index d"

definition commit_unexp_take :: "driver_eventqs \<Rightarrow> (u32 \<times> driver_eventqs) option" where
  "commit_unexp_take d =
    (if \<not> unexp_reserved d then None
     else Some (nextreserved_unexp_eventq_index d,
                d\<lparr>nextreserved_unexp_eventq_index := nextreserved_unexp_eventq_index d + 1\<rparr>))"

definition omx_commit_notify_unexp_event_with_recvq :: "omx_evt \<Rightarrow> driver_eventqs \<Rightarrow> driver_eventqs option" where
  "omx_commit_notify_unexp_event_with_recvq evt d = do {
     (index, d) \<leftarrow> commit_unexp_take d;
     Some (notify_unexp_write index evt d)
   }"

definition cancel_unexp_write :: "u32 \<Rightarrow> driver_eventqs \<Rightarrow> driver_eventqs" where
  "cancel_unexp_write index d = d\<lparr>d_unexp_eventq := write_event index OMX_EVT_IGNORE (d_unexp_eventq d)\<rparr>"

definition omx_cancel_notify_unexp_event_with_recvq :: "driver_eventqs \<Rightarrow> driver_eventqs option" where
  "omx_cancel_notify_unexp_event_with_recvq d = do {
     (index, d) \<leftarrow> commit_unexp_take d;
     Some (cancel_unexp_write index d)
   }"

subsection \<open>Releasing slots\<close>

definition omx_ioctl_release_exp_slots :: "driver_eventqs \<Rightarrow> omx_errno option \<times> driver_eventqs" where
  "omx_ioctl_release_exp_slots d =
    (if nextfree_exp_eventq_index d - nextreleased_exp_eventq_index d < RELEASE_BATCH_NR then (Some EINVAL, d)
     else (None, d\<lparr>nextreleased_exp_eventq_index := nextreleased_exp_eventq_index d + RELEASE_BATCH_NR\<rparr>))"

definition omx_ioctl_release_unexp_slots :: "driver_eventqs \<Rightarrow> omx_errno option \<times> driver_eventqs" where
  "omx_ioctl_release_unexp_slots d =
    (if nextreserved_unexp_eventq_index d - nextreleased_unexp_eventq_index d < RELEASE_BATCH_NR then (Some EINVAL, d)
     else (None, d\<lparr>nextreleased_unexp_eventq_index := nextreleased_unexp_eventq_index d + RELEASE_BATCH_NR\<rparr>))"

subsection \<open>Sleeping\<close>

record omx_cmd_wait_event =
  wait_user_event_index :: u32
  wait_next_exp_event_index :: u32
  wait_next_unexp_event_index :: u32
  wait_jiffies_expire :: u64

definition WAIT_EVENT_TIMEOUT_INFINITE :: u64 where
  "WAIT_EVENT_TIMEOUT_INFINITE = -1"

definition NO_WAKEUP_JIFFIES :: u64 where
  "NO_WAKEUP_JIFFIES = 0"

definition time_before64 :: "u64 \<Rightarrow> u64 \<Rightarrow> bool" where
  "time_before64 a b \<longleftrightarrow> sint (a - b) < 0"

definition time_after_eq64 :: "u64 \<Rightarrow> u64 \<Rightarrow> bool" where
  "time_after_eq64 a b \<longleftrightarrow> sint (a - b) \<ge> 0"

text \<open>The timer, with the status it wakes up with.\<close>

definition wait_timer :: "omx_cmd_wait_event \<Rightarrow> u64 \<Rightarrow> (u8 \<times> u64) option" where
  "wait_timer cmd wakeup_jiffies =
    (let t = (if wait_jiffies_expire cmd \<noteq> WAIT_EVENT_TIMEOUT_INFINITE
              then Some (WAIT_EVENT_STATUS_TIMEOUT, wait_jiffies_expire cmd) else None)
     in if wakeup_jiffies \<noteq> NO_WAKEUP_JIFFIES \<and> (case t of None \<Rightarrow> True | Some (_, j) \<Rightarrow> time_before64 wakeup_jiffies j)
        then Some (WAIT_EVENT_STATUS_PROGRESS, wakeup_jiffies) else t)"

text \<open>
  \<^verbatim>\<open>omx_ioctl_wait_event\<close> up to the call of \<^verbatim>\<open>schedule\<close>: the new waiter is the last one of the list. The result
  says whether to sleep, and with which timer. \<open>user_index\<close> and \<open>wakeup_jiffies\<close> are the fields of the
  endpoint descriptor the library writes, \<open>signal\<close> says that one is pending.
\<close>

definition wait_event_begin ::
  "omx_cmd_wait_event \<Rightarrow> u32 \<Rightarrow> u64 \<Rightarrow> u64 \<Rightarrow> bool \<Rightarrow> driver_eventqs \<Rightarrow> (u8 \<times> u64) option option \<times> driver_eventqs" where
  "wait_event_begin cmd user_index wakeup_jiffies now signal d =
    (let timer = wait_timer cmd wakeup_jiffies in
     if wait_next_exp_event_index cmd \<noteq> nextfree_exp_eventq_index d \<or>
        wait_next_unexp_event_index cmd \<noteq> nextreserved_unexp_eventq_index d \<or>
        wait_user_event_index cmd \<noteq> user_index
     then (None, d\<lparr>waiters := waiters d @ [WAIT_EVENT_STATUS_NONE]\<rparr>)
     else if (case timer of None \<Rightarrow> False | Some (_, j) \<Rightarrow> time_after_eq64 now j)
     then (None, d\<lparr>waiters := waiters d @ [WAIT_EVENT_STATUS_RACE]\<rparr>)
     else if signal then (None, d\<lparr>waiters := waiters d @ [WAIT_EVENT_STATUS_NONE]\<rparr>)
     else (Some timer, d\<lparr>waiters := waiters d @ [WAIT_EVENT_STATUS_NONE]\<rparr>))"

text \<open>From the label \<^verbatim>\<open>wakeup\<close> on, for the \<open>i\<close>-th waiter: the status the library gets.\<close>

definition wait_event_end :: "nat \<Rightarrow> driver_eventqs \<Rightarrow> u8 \<times> driver_eventqs" where
  "wait_event_end i d =
    (let st = waiters d ! i;
         st = (if st = WAIT_EVENT_STATUS_NONE then WAIT_EVENT_STATUS_INTR else st)
     in (st, d\<lparr>waiters := take i (waiters d) @ drop (Suc i) (waiters d)\<rparr>))"

definition omx_ioctl_wakeup :: "u32 \<Rightarrow> driver_eventqs \<Rightarrow> driver_eventqs" where
  "omx_ioctl_wakeup st d = omx_wakeup_waiter_list (ucast st) d"

definition omx_wakeup_endpoint_on_close :: "driver_eventqs \<Rightarrow> driver_eventqs" where
  "omx_wakeup_endpoint_on_close d = omx_wakeup_waiter_list WAIT_EVENT_STATUS_WAKEUP d"

end
