(* ===== verification/Driver_Ring.thy ===== *)
theory Driver_Ring
  imports Driver_Event
begin

text \<open>
  The ring of unexpected events is a queue between the driver and the library: the library gets every event the
  driver stores exactly once and in order, an event is never overwritten before it is read, and a slot never
  shows an event of an earlier round, even when the 32-bit indexes wrap. The counters of the proofs are
  natural numbers; the indexes of the code are these modulo \<open>2^32\<close>.
\<close>

subsection \<open>Ids\<close>

lemma unat_index: "unat (of_nat n :: u32) = n mod 4294967296"
  by (simp add: unat_of_nat)

lemma slot_of_nat: "slot_of (of_nat n) = n mod 1024"
  by (simp add: slot_of_def unat_index OMX_EVENTQ_ENTRY_NR_def mod_mod_cancel)

lemma unat_id_of: "unat (id_of i) = expected_id i"
  unfolding id_of_def unat_of_nat by (simp add: expected_id_def OMX_EVENT_ID_MAX_def take_bit_nat_def)

text \<open>The event of the next round in the same slot has another id, also across the wrap-around.\<close>

lemma expected_id_next_round: "expected_id (of_nat (n + 1024)) \<noteq> expected_id (of_nat n)"
proof -
  define k where "k = n mod 4294967296"
  have "(n + 1024) mod 4294967296 mod 255 \<noteq> k mod 255"
  proof (cases "k + 1024 < 4294967296")
    case True
    then have "(n + 1024) mod 4294967296 = k + 1024"
      by (simp add: k_def mod_add_left_eq [of n, symmetric] del: mod_add_left_eq)
    moreover have "(k + 1024) mod 255 \<noteq> k mod 255" by (subst mod_eq_dvd_iff_nat) simp_all
    ultimately show ?thesis by simp
  next
    case False
    define j where "j = k + 1024 - 4294967296"
    have k: "k = j + 4294966272" using False by (simp add: j_def)
    have "k < 4294967296" by (simp add: k_def)
    then have "j < 4294967296" by (simp add: k)
    have "(n + 1024) mod 4294967296 = (k + 1024) mod 4294967296"
      by (simp add: k_def mod_add_left_eq)
    also have "k + 1024 = j + 4294967296" by (simp add: k)
    also have "(j + 4294967296) mod 4294967296 = j" using \<open>j < 4294967296\<close> by simp
    finally have "(n + 1024) mod 4294967296 = j" .
    moreover have "k mod 255 = (j + 252) mod 255" by (simp add: k mod_add_right_eq [of j 4294966272, symmetric])
    moreover have "(j + 252) mod 255 \<noteq> j mod 255" by (subst mod_eq_dvd_iff_nat) simp_all
    ultimately show ?thesis by simp
  qed
  then show ?thesis
    by (simp add: expected_id_def unat_index OMX_EVENT_ID_MAX_def k_def del: of_nat_add)
qed

lemma expected_id_pos: "0 < expected_id i"
  by (simp add: expected_id_def)

subsection \<open>The ring\<close>

text \<open>
  \<open>R\<close> slots have been released, \<open>L\<close> events have been read, \<open>evs\<close> are the events whose index has been taken, in the
  order of the indexes, \<open>F\<close> slots have been reserved. The events of the indexes \<open>pend\<close> are not in the ring yet.
\<close>

definition ring_ok :: "nat \<Rightarrow> nat \<Rightarrow> nat \<Rightarrow> omx_evt list \<Rightarrow> nat set \<Rightarrow> omx_evt_slot list \<Rightarrow> bool" where
  "ring_ok R L F evs pend ring \<longleftrightarrow>
    R \<le> L \<and> L \<le> length evs \<and> length evs \<le> F \<and> F \<le> R + 1024 \<and> length ring = 1024 \<and>
    pend \<subseteq> {L..<length evs} \<and>
    (\<forall>i < length evs. length evs \<le> i + 1024 \<longrightarrow> i \<notin> pend \<longrightarrow>
      ring ! (i mod 1024) = \<lparr>evt_id = id_of (of_nat i), evt_body = evs ! i\<rparr>) \<and>
    (\<forall>i. i \<in> pend \<or> length evs \<le> i \<and> i < 1024 \<longrightarrow>
      (if i < 1024 then evt_id (ring ! i) = 0
       else ring ! (i mod 1024) = \<lparr>evt_id = id_of (of_nat (i - 1024)), evt_body = evs ! (i - 1024)\<rparr>))"

text \<open>What the library sees at an index: the event of that index, if it is there.\<close>

definition ring_read :: "omx_evt_slot list \<Rightarrow> u32 \<Rightarrow> omx_evt option" where
  "ring_read ring index =
    (case event_slot (\<lambda>_. ring) index of
       None \<Rightarrow> None
     | Some slot \<Rightarrow> if unat (evt_id slot) \<noteq> expected_id index then None else Some (evt_body slot))"

lemma ring_read_eq:
  "length ring = 1024 \<Longrightarrow> ring_read ring (of_nat n) =
    (if unat (evt_id (ring ! (n mod 1024))) = expected_id (of_nat n) then Some (evt_body (ring ! (n mod 1024))) else None)"
  by (simp add: ring_read_def event_slot_def Let_def OMX_EVENTQ_ENTRY_NR_def unat_index mod_mod_cancel)

text \<open>A slot whose last event is the one of the previous round, or that has never been written.\<close>

lemma ring_read_stale:
  assumes "length ring = 1024"
    and "if i < 1024 then evt_id (ring ! i) = 0 else ring ! (i mod 1024) = \<lparr>evt_id = id_of (of_nat (i - 1024)), evt_body = e\<rparr>"
  shows "ring_read ring (of_nat i) = None"
proof (cases "i < 1024")
  case True
  with assms show ?thesis using expected_id_pos [of "of_nat i"] by (simp add: ring_read_eq)
next
  case False
  define m where "m = i - 1024"
  with False have i: "i = m + 1024" by simp
  with assms False have "ring ! (i mod 1024) = \<lparr>evt_id = id_of (of_nat m), evt_body = e\<rparr>" by simp
  then show ?thesis
    using expected_id_next_round [of m, folded i] by (simp add: ring_read_eq assms unat_id_of)
qed

lemma ring_ok_read:
  assumes ok: "ring_ok R L F evs pend ring"
  shows "ring_read ring (of_nat L) = (if L < length evs \<and> L \<notin> pend then Some (evs ! L) else None)"
proof (cases "L < length evs \<and> L \<notin> pend")
  case True
  with assms have "ring ! (L mod 1024) = \<lparr>evt_id = id_of (of_nat L), evt_body = evs ! L\<rparr>"
    by (auto simp: ring_ok_def)
  with assms True show ?thesis by (simp add: ring_read_eq ring_ok_def unat_id_of)
next
  case False
  have len: "length ring = 1024" using ok by (simp add: ring_ok_def)
  have "ring_read ring (of_nat L) = None"
  proof (cases "L \<in> pend \<or> L < 1024")
    case True
    with ok False show ?thesis
      by (intro ring_read_stale [OF len, where e = "evs ! (L - 1024)"]) (auto simp: ring_ok_def)
  next
    case old: False
    with ok False have L: "L = length evs" by (auto simp: ring_ok_def)
    from ok old L have "L - 1024 \<notin> pend" by (auto simp: ring_ok_def)
    with ok old L have "ring ! ((L - 1024) mod 1024) = \<lparr>evt_id = id_of (of_nat (L - 1024)), evt_body = evs ! (L - 1024)\<rparr>"
      by (auto simp: ring_ok_def)
    moreover have "(L - 1024) mod 1024 = L mod 1024" using old by (simp add: le_mod_geq)
    ultimately show ?thesis
      using old by (intro ring_read_stale [OF len, where e = "evs ! (L - 1024)"]) auto
  qed
  with False show ?thesis by simp
qed

lemma ring_ok_take:
  assumes ok: "ring_ok R L F evs pend ring" and F: "length evs < F'" "F \<le> F'" "F' \<le> R + 1024"
  shows "ring_ok R L F' (evs @ [e]) (insert (length evs) pend) ring"
proof -
  let ?n = "length evs"
  have old: "ring ! (?n mod 1024) = \<lparr>evt_id = id_of (of_nat (?n - 1024)), evt_body = evs ! (?n - 1024)\<rparr>" if "\<not> ?n < 1024"
  proof -
    have "pend \<subseteq> {L..<?n}" "?n - 1024 < L" using that ok F by (auto simp: ring_ok_def)
    then have "?n - 1024 \<notin> pend" by auto
    moreover have "?n - 1024 < ?n" "?n \<le> (?n - 1024) + 1024" using that by auto
    moreover have "(?n - 1024) mod 1024 = ?n mod 1024" using that by (simp add: le_mod_geq)
    ultimately show ?thesis using ok unfolding ring_ok_def by metis
  qed
  have sub: "pend \<subseteq> {L..<?n}" and L: "L \<le> ?n" using ok by (auto simp: ring_ok_def)
  have stored: "ring ! (i mod 1024) = \<lparr>evt_id = id_of (of_nat i), evt_body = (evs @ [e]) ! i\<rparr>"
    if "i < length (evs @ [e])" "length (evs @ [e]) \<le> i + 1024" "i \<notin> insert ?n pend" for i
    using ok that by (auto simp: ring_ok_def nth_append)
  have stale: "if i < 1024 then evt_id (ring ! i) = 0
      else ring ! (i mod 1024) = \<lparr>evt_id = id_of (of_nat (i - 1024)), evt_body = (evs @ [e]) ! (i - 1024)\<rparr>"
    if "i \<in> insert ?n pend \<or> length (evs @ [e]) \<le> i \<and> i < 1024" for i
  proof (cases "i = ?n")
    case True
    have "?n - 1024 < ?n" if "\<not> ?n < 1024" using that by simp
    with True old ok show ?thesis by (auto simp: ring_ok_def nth_append)
  next
    case False
    with that have i: "i \<in> pend \<or> ?n \<le> i \<and> i < 1024" by auto
    moreover have "i - 1024 < ?n" if "\<not> i < 1024" using i that subsetD [OF sub, of i] by auto
    ultimately show ?thesis using ok by (cases "i < 1024") (auto simp: ring_ok_def nth_append simp del: of_nat_diff)
  qed
  have "insert ?n pend \<subseteq> {L..<length (evs @ [e])}" using sub L by auto
  with ok F show ?thesis unfolding ring_ok_def using stored stale by auto
qed

lemma window_distinct:
  fixes i j :: nat
  assumes "i < n" "j < n" "n \<le> i + 1024" "n \<le> j + 1024" "i mod 1024 = j mod 1024"
  shows "i = j"
proof (rule ccontr)
  assume "i \<noteq> j"
  then consider "i < j" | "j < i" by linarith
  then show False
  proof cases
    case 1
    with assms(5) have "1024 dvd j - i" by (metis mod_eq_dvd_iff_nat nat_less_le)
    with 1 assms show False by (auto dest!: dvd_imp_le)
  next
    case 2
    with assms(5) have "1024 dvd i - j" by (metis mod_eq_dvd_iff_nat nat_less_le)
    with 2 assms show False by (auto dest!: dvd_imp_le)
  qed
qed

lemma ring_ok_write:
  assumes ok: "ring_ok R L F evs pend ring" and i: "i \<in> pend"
  shows "ring_ok R L F evs (pend - {i}) (write_event (of_nat i) (evs ! i) ring)"
proof -
  have sub: "pend \<subseteq> {L..<length evs}" and len: "length evs \<le> L + 1024" "length ring = 1024"
    using ok by (auto simp: ring_ok_def)
  then have i': "i < length evs" "length evs \<le> i + 1024" using i by auto
  have ring: "write_event (of_nat i) (evs ! i) ring = ring[i mod 1024 := \<lparr>evt_id = id_of (of_nat i), evt_body = evs ! i\<rparr>]"
    by (simp add: write_event_def slot_of_nat)
  have other: "i mod 1024 \<noteq> j mod 1024" if "j < length evs" "length evs \<le> j + 1024" "j \<noteq> i" for j
    using window_distinct i' that by metis
  have free: "i mod 1024 \<noteq> j" if "length evs \<le> j" "j < 1024" for j
    using that i' by auto
  have pend: "i mod 1024 \<noteq> j mod 1024" if "j \<in> pend" "j \<noteq> i" for j
    using other [of j] that sub len by auto
  have small: "i mod 1024 \<noteq> j" if "j \<in> pend" "j \<noteq> i" "j < 1024" for j
    using pend [OF that(1,2)] that(3) by simp
  show ?thesis
    using ok unfolding ring_ok_def ring
    by (auto simp: nth_list_update dest: other free pend small)
qed

lemma ring_ok_reserve:
  "ring_ok R L F evs pend ring \<Longrightarrow> length evs \<le> F' \<Longrightarrow> F' \<le> R + 1024 \<Longrightarrow> ring_ok R L F' evs pend ring"
  by (simp add: ring_ok_def)

lemma ring_ok_poll:
  assumes "ring_ok R L F evs pend ring" "L < length evs" "L \<notin> pend" "R \<le> R'" "R' \<le> Suc L"
  shows "ring_ok R' (Suc L) F evs pend ring"
proof -
  have "pend \<subseteq> {Suc L..<length evs}"
    using assms(1-3) by (auto simp: ring_ok_def subset_iff order_le_less Suc_le_eq)
  with assms show ?thesis by (simp add: ring_ok_def)
qed

lemma ring_read_write: "length ring = 1024 \<Longrightarrow> ring_read (write_event i e ring) i = Some e"
proof -
  assume "length ring = 1024"
  moreover have "i = of_nat (unat i)" by simp
  ultimately show ?thesis
    by (simp add: ring_read_def event_slot_def write_event_def slot_of_def Let_def OMX_EVENTQ_ENTRY_NR_def unat_id_of)
qed

lemma slot_of_next: "slot_of (i + 1) \<noteq> slot_of i"
proof -
  have "slot_of (of_nat (Suc (unat i))) \<noteq> slot_of (of_nat (unat i))"
    unfolding slot_of_nat by (simp add: mod_Suc)
  then show ?thesis by (simp add: add.commute)
qed

lemma slot_of_less: "slot_of i < 1024"
  by (simp add: slot_of_def OMX_EVENTQ_ENTRY_NR_def)

subsection \<open>The driver and the library\<close>

text \<open>
  The operations on the ring, in any order. The contexts that receive packets notify, prepare, commit and
  cancel; the event of an index they have taken waits in \<open>rs_taken\<close> until it is written, at any later time and
  in any order (\<open>Write k\<close> writes the \<open>k\<close>-th one). The library polls, and releases a batch of slots when its
  index reaches a multiple of the size of the batch. A context commits or cancels what it has prepared.
\<close>

datatype ring_op = Notify omx_evt | Prepare nat | Commit omx_evt | Cancel | Write nat | Poll

record ring_system =
  rs_driver :: driver_eventqs
  rs_held :: nat
  rs_taken :: "(u32 \<times> omx_evt) list"
  rs_next :: u32
  rs_log :: "omx_evt list"
  rs_got :: "omx_evt list"
  rs_failed :: bool

definition take_event :: "u32 \<Rightarrow> omx_evt \<Rightarrow> driver_eventqs \<Rightarrow> ring_system \<Rightarrow> ring_system" where
  "take_event index evt d s = s\<lparr>rs_driver := d, rs_taken := rs_taken s @ [(index, evt)], rs_log := rs_log s @ [evt]\<rparr>"

definition commit_event :: "omx_evt \<Rightarrow> ring_system \<Rightarrow> ring_system" where
  "commit_event evt s =
    (if rs_held s = 0 then s
     else case commit_unexp_take (rs_driver s) of
       None \<Rightarrow> s\<lparr>rs_failed := True\<rparr>
     | Some (index, d) \<Rightarrow> take_event index evt d (s\<lparr>rs_held := rs_held s - 1\<rparr>))"

definition poll_event :: "ring_system \<Rightarrow> ring_system" where
  "poll_event s =
    (case ring_read (d_unexp_eventq (rs_driver s)) (rs_next s) of
       None \<Rightarrow> s
     | Some evt \<Rightarrow>
         (let s = s\<lparr>rs_next := rs_next s + 1, rs_got := rs_got s @ [evt]\<rparr>
          in if unat (rs_next s) mod OMX_RELEASE_SLOTS_BATCH_NR \<noteq> 0 then s
             else case omx_ioctl_release_unexp_slots (rs_driver s) of
               (None, d) \<Rightarrow> s\<lparr>rs_driver := d\<rparr>
             | (Some _, d) \<Rightarrow> s\<lparr>rs_failed := True\<rparr>))"

fun ring_exec :: "ring_op \<Rightarrow> ring_system \<Rightarrow> ring_system" where
  "ring_exec (Notify evt) s =
    (let (index, d) = notify_unexp_take (rs_driver s)
     in if unexp_full d then s\<lparr>rs_driver := notify_unexp_rollback d\<rparr> else take_event index evt d s)"
| "ring_exec (Prepare nr) s =
    (if 2 ^ 31 \<le> nr then s
     else case omx_prepare_notify_unexp_events_with_recvq nr (rs_driver s) of
       (Inl _, d) \<Rightarrow> s\<lparr>rs_driver := d\<rparr>
     | (Inr _, d) \<Rightarrow> s\<lparr>rs_driver := d, rs_held := rs_held s + nr\<rparr>)"
| "ring_exec (Commit evt) s = commit_event evt s"
| "ring_exec Cancel s = commit_event OMX_EVT_IGNORE s"
| "ring_exec (Write k) s =
    (if length (rs_taken s) \<le> k then s
     else (let (index, evt) = rs_taken s ! k
           in s\<lparr>rs_driver := (if evt = OMX_EVT_IGNORE then cancel_unexp_write index (rs_driver s)
                               else notify_unexp_write index evt (rs_driver s)),
                rs_taken := take k (rs_taken s) @ drop (Suc k) (rs_taken s)\<rparr>))"
| "ring_exec Poll s = poll_event s"

definition ring_run :: "ring_op list \<Rightarrow> ring_system \<Rightarrow> ring_system" where
  "ring_run ops s = fold ring_exec ops s"

definition ring_start :: "omx_evt_slot list \<Rightarrow> omx_evt_slot list \<Rightarrow> driver_eventqs \<Rightarrow> ring_system" where
  "ring_start exp unexp d = \<lparr>rs_driver = omx_endpoint_queues_init exp unexp d, rs_held = 0, rs_taken = [], rs_next = 0,
     rs_log = [], rs_got = [], rs_failed = False\<rparr>"

text \<open>The invariant.\<close>

definition released_of :: "nat \<Rightarrow> nat" where
  "released_of L = 256 * (L div 256)"

definition ring_inv :: "ring_system \<Rightarrow> bool" where
  "ring_inv s \<longleftrightarrow>
    (let d = rs_driver s; L = length (rs_got s); C = length (rs_log s); F = C + rs_held s
     in \<not> rs_failed s \<and> rs_got s = take L (rs_log s) \<and> rs_next s = of_nat L \<and>
        nextfree_unexp_eventq_index d = of_nat F \<and> nextreserved_unexp_eventq_index d = of_nat C \<and>
        nextreleased_unexp_eventq_index d = of_nat (released_of L) \<and>
        (\<exists>ps. distinct ps \<and> rs_taken s = map (\<lambda>i. (of_nat i, rs_log s ! i)) ps \<and>
          ring_ok (released_of L) L F (rs_log s) (set ps) (d_unexp_eventq d)))"

lemma index_diff: "b \<le> a \<Longrightarrow> a - b < 4294967296 \<Longrightarrow> unat (of_nat a - of_nat b :: u32) = a - b"
  by (simp add: of_nat_diff [symmetric] unat_index del: of_nat_diff)

lemma released_of_le [simp]: "released_of L \<le> L"
  by (simp add: released_of_def)

lemma released_of_Suc: "released_of (Suc L) = (if Suc L mod 256 = 0 then released_of L + 256 else released_of L)"
  by (auto simp: released_of_def div_Suc)

lemma ring_inv_facts:
  assumes "ring_inv s"
  shows "length (rs_log s) + rs_held s \<le> released_of (length (rs_got s)) + 1024"
    "length (rs_got s) \<le> length (rs_log s)"
    "released_of (length (rs_got s)) \<le> length (rs_log s)"
  using assms by (auto simp: ring_inv_def ring_ok_def Let_def intro: order_trans [OF released_of_le])

lemma unexp_full_iff:
  assumes "ring_inv s" "n < 2 ^ 31"
  shows "unexp_full (rs_driver s\<lparr>nextfree_unexp_eventq_index := nextfree_unexp_eventq_index (rs_driver s) + of_nat n\<rparr>)
    \<longleftrightarrow> released_of (length (rs_got s)) + 1024 < length (rs_log s) + rs_held s + n"
proof -
  let ?F = "length (rs_log s) + rs_held s" and ?R = "released_of (length (rs_got s))"
  have le: "?R \<le> ?F" using ring_inv_facts [OF assms(1)] released_of_le [of "length (rs_got s)"] by linarith
  have "nextfree_unexp_eventq_index (rs_driver s) = of_nat ?F" "nextreleased_unexp_eventq_index (rs_driver s) = of_nat ?R"
    using assms(1) by (simp_all add: ring_inv_def Let_def)
  moreover have "unat (of_nat ?F + of_nat n - of_nat ?R :: u32) = ?F + n - ?R"
    using le ring_inv_facts(1) [OF assms(1)] assms(2) index_diff [of ?R "?F + n"] by simp
  ultimately show ?thesis
    using le by (simp add: unexp_full_def word_less_nat_alt EVENTQ_NR_def OMX_EVENTQ_ENTRY_NR_def del: of_nat_add) linarith
qed

lemma driver_same: "d\<lparr>nextfree_unexp_eventq_index := nextfree_unexp_eventq_index d\<rparr> = d"
  "d\<lparr>nextreserved_unexp_eventq_index := nextreserved_unexp_eventq_index d\<rparr> = d"
  "d\<lparr>next_recvq_index := next_recvq_index d\<rparr> = d"
  by simp_all

lemma ring_inv_status:
  "ring_inv s \<Longrightarrow> ring_inv (s\<lparr>rs_driver := (rs_driver s)\<lparr>userdesc_status := st\<rparr>\<rparr>)"
  by (simp add: ring_inv_def Let_def)

lemma ring_inv_take:
  assumes inv: "ring_inv s" and "rs_held s' + 1 = rs_held s + n"
    and full: "length (rs_log s) + rs_held s + n \<le> released_of (length (rs_got s)) + 1024"
    and s': "s' = s\<lparr>rs_held := rs_held s'\<rparr>"
    and d: "d_unexp_eventq d = d_unexp_eventq (rs_driver s)" "nextreleased_unexp_eventq_index d = nextreleased_unexp_eventq_index (rs_driver s)"
      "nextfree_unexp_eventq_index d = nextfree_unexp_eventq_index (rs_driver s) + of_nat n"
      "nextreserved_unexp_eventq_index d = nextreserved_unexp_eventq_index (rs_driver s) + 1"
  shows "ring_inv (take_event (nextreserved_unexp_eventq_index (rs_driver s)) e d s')"
proof -
  let ?C = "length (rs_log s)" and ?L = "length (rs_got s)"
  obtain ps where ps: "distinct ps" "rs_taken s = map (\<lambda>i. (of_nat i, rs_log s ! i)) ps"
      "ring_ok (released_of ?L) ?L (?C + rs_held s) (rs_log s) (set ps) (d_unexp_eventq (rs_driver s))"
    using inv by (auto simp: ring_inv_def Let_def)
  have lt: "i < ?C" if "i \<in> set ps" for i using that ps(3) by (auto simp: ring_ok_def)
  have "ring_ok (released_of ?L) ?L (?C + 1 + rs_held s') (rs_log s @ [e]) (insert ?C (set ps)) (d_unexp_eventq (rs_driver s))"
    using ring_ok_take [OF ps(3), of "?C + 1 + rs_held s'"] assms(2) full by auto
  moreover have "map (\<lambda>i. (of_nat i :: u32, rs_log s ! i)) ps = map (\<lambda>i. (of_nat i, (rs_log s @ [e]) ! i)) ps"
    using lt by (auto simp: nth_append)
  ultimately have "\<exists>ps. distinct ps \<and> rs_taken s @ [(of_nat ?C, e)] = map (\<lambda>i. (of_nat i, (rs_log s @ [e]) ! i)) ps \<and>
      ring_ok (released_of ?L) ?L (?C + 1 + rs_held s') (rs_log s @ [e]) (set ps) (d_unexp_eventq (rs_driver s))"
    using ps lt by (intro exI [of _ "ps @ [?C]"]) auto
  moreover have "?C + rs_held s + n = ?C + 1 + rs_held s'" using assms(2) by simp
  then have "of_nat (?C + rs_held s) + of_nat n = (of_nat (?C + 1 + rs_held s') :: u32)" by (metis of_nat_add)
  moreover have "rs_got s = take ?L (rs_log s @ [e])" using inv ring_inv_facts [OF inv] by (simp add: ring_inv_def Let_def)
  ultimately show ?thesis
    using inv d by (subst s') (simp add: ring_inv_def Let_def take_event_def add.commute)
qed

lemma ring_inv_notify:
  assumes inv: "ring_inv s"
  shows "ring_inv (ring_exec (Notify e) s)"
proof -
  let ?d = "rs_driver s"
  let ?d' = "?d\<lparr>nextfree_unexp_eventq_index := nextfree_unexp_eventq_index ?d + 1,
    nextreserved_unexp_eventq_index := nextreserved_unexp_eventq_index ?d + 1\<rparr>"
  have take: "notify_unexp_take ?d = (nextreserved_unexp_eventq_index ?d, ?d')"
    by (simp add: notify_unexp_take_def)
  have full: "unexp_full ?d' \<longleftrightarrow> released_of (length (rs_got s)) + 1024 < length (rs_log s) + rs_held s + 1"
    using unexp_full_iff [OF inv, of 1] by (simp add: unexp_full_def)
  have undo: "notify_unexp_rollback ?d' = ?d\<lparr>userdesc_status := userdesc_status ?d OR DESC_STATUS_UNEXP_EVENTQ_FULL\<rparr>"
    by (simp add: notify_unexp_rollback_def)
  show ?thesis
  proof (cases "unexp_full ?d'")
    case True
    then show ?thesis using ring_inv_status [OF inv] by (simp add: take undo)
  next
    case False
    then have "ring_inv (take_event (nextreserved_unexp_eventq_index ?d) e ?d' s)"
      using full by (intro ring_inv_take [OF inv, where n = 1]) auto
    with False show ?thesis by (simp add: take)
  qed
qed

lemma ring_inv_prepare:
  assumes inv: "ring_inv s"
  shows "ring_inv (ring_exec (Prepare nr) s)"
proof (cases "2 ^ 31 \<le> nr")
  case False
  let ?d = "rs_driver s"
  let ?d' = "?d\<lparr>nextfree_unexp_eventq_index := nextfree_unexp_eventq_index ?d + of_nat nr, next_recvq_index := next_recvq_index ?d + of_nat nr\<rparr>"
  have full: "unexp_full ?d' \<longleftrightarrow> released_of (length (rs_got s)) + 1024 < length (rs_log s) + rs_held s + nr"
    using unexp_full_iff [OF inv, of nr] False by (simp add: unexp_full_def)
  show ?thesis
  proof (cases "unexp_full ?d'")
    case True
    then show ?thesis using False ring_inv_status [OF inv] by (simp add: omx_prepare_notify_unexp_events_with_recvq_def Let_def)
  next
    case ok: False
    have "ring_inv (s\<lparr>rs_driver := ?d', rs_held := rs_held s + nr\<rparr>)"
      using inv full ok ring_ok_reserve [where F = "length (rs_log s) + rs_held s" and F' = "length (rs_log s) + (rs_held s + nr)"]
      by (fastforce simp: ring_inv_def Let_def add.assoc)
    with False ok show ?thesis by (simp add: omx_prepare_notify_unexp_events_with_recvq_def Let_def)
  qed
qed (use inv in simp)

lemma unexp_reserved_iff:
  assumes inv: "ring_inv s"
  shows "unexp_reserved (rs_driver s) \<longleftrightarrow> 0 < rs_held s"
proof -
  let ?C = "length (rs_log s)" and ?R = "released_of (length (rs_got s))"
  have le: "?R \<le> ?C" using ring_inv_facts [OF inv] released_of_le [of "length (rs_got s)"] by linarith
  have "unat (of_nat ?C - of_nat ?R :: u32) = ?C - ?R" "unat (of_nat (?C + rs_held s) - of_nat ?R :: u32) = ?C + rs_held s - ?R"
    using le ring_inv_facts [OF inv] by (auto intro!: index_diff simp del: of_nat_add)
  with inv le show ?thesis
    by (auto simp: unexp_reserved_def ring_inv_def Let_def word_less_nat_alt simp del: of_nat_add)
qed

lemma ring_inv_commit:
  assumes inv: "ring_inv s"
  shows "ring_inv (commit_event e s)"
proof (cases "rs_held s = 0")
  case False
  let ?d = "rs_driver s"
  let ?d' = "?d\<lparr>nextreserved_unexp_eventq_index := nextreserved_unexp_eventq_index ?d + 1\<rparr>"
  have take: "commit_unexp_take ?d = Some (nextreserved_unexp_eventq_index ?d, ?d')"
    using unexp_reserved_iff [OF inv] False by (simp add: commit_unexp_take_def)
  have "ring_inv (take_event (nextreserved_unexp_eventq_index ?d) e ?d' (s\<lparr>rs_held := rs_held s - 1\<rparr>))"
    using False ring_inv_facts [OF inv] by (intro ring_inv_take [OF inv, where n = 0]) auto
  with False take show ?thesis by (simp add: commit_event_def)
qed (use inv in \<open>simp add: commit_event_def\<close>)

lemma ring_inv_write:
  assumes inv: "ring_inv s"
  shows "ring_inv (ring_exec (Write k) s)"
proof (cases "length (rs_taken s) \<le> k")
  case False
  let ?L = "length (rs_got s)" and ?F = "length (rs_log s) + rs_held s" and ?d = "rs_driver s"
  obtain ps where ps: "distinct ps" "rs_taken s = map (\<lambda>i. (of_nat i, rs_log s ! i)) ps"
      "ring_ok (released_of ?L) ?L ?F (rs_log s) (set ps) (d_unexp_eventq ?d)"
    using inv by (auto simp: ring_inv_def Let_def)
  have k: "k < length ps" using False ps(2) by simp
  define qs where "qs = take k ps @ drop (Suc k) ps"
  have split: "ps = take k ps @ ps ! k # drop (Suc k) ps" using k by (simp add: id_take_nth_drop)
  have "distinct qs \<and> set qs = set ps - {ps ! k}"
    using ps(1) unfolding qs_def by (subst (asm) split, subst (3) split) auto
  moreover have "ring_ok (released_of ?L) ?L ?F (rs_log s) (set ps - {ps ! k})
      (write_event (of_nat (ps ! k)) (rs_log s ! (ps ! k)) (d_unexp_eventq ?d))"
    using ring_ok_write [OF ps(3)] k by simp
  ultimately have "\<exists>qs. distinct qs \<and> take k (rs_taken s) @ drop (Suc k) (rs_taken s) = map (\<lambda>i. (of_nat i, rs_log s ! i)) qs \<and>
      ring_ok (released_of ?L) ?L ?F (rs_log s) (set qs)
        (write_event (of_nat (ps ! k)) (rs_log s ! (ps ! k)) (d_unexp_eventq ?d))"
    by (intro exI [of _ qs]) (simp add: qs_def ps(2) take_map drop_map)
  then show ?thesis
    using inv False k ps(2) by (auto simp: ring_inv_def Let_def notify_unexp_write_def cancel_unexp_write_def omx_wakeup_waiter_list_def)
qed (use inv in simp)

text \<open>Polling: the event of the next index, if it has been written.\<close>

definition unread :: "ring_system \<Rightarrow> bool" where
  "unread s \<longleftrightarrow> length (rs_got s) < length (rs_log s) \<and> rs_next s \<notin> fst ` set (rs_taken s)"

lemma ring_inv_pending:
  assumes "ring_inv s"
  obtains ps where "distinct ps" "rs_taken s = map (\<lambda>i. (of_nat i, rs_log s ! i)) ps"
    "ring_ok (released_of (length (rs_got s))) (length (rs_got s)) (length (rs_log s) + rs_held s) (rs_log s) (set ps)
      (d_unexp_eventq (rs_driver s))"
    "unread s \<longleftrightarrow> length (rs_got s) < length (rs_log s) \<and> length (rs_got s) \<notin> set ps"
proof -
  let ?L = "length (rs_got s)" and ?C = "length (rs_log s)"
  obtain ps where ps: "distinct ps" "rs_taken s = map (\<lambda>i. (of_nat i, rs_log s ! i)) ps"
      "ring_ok (released_of ?L) ?L (?C + rs_held s) (rs_log s) (set ps) (d_unexp_eventq (rs_driver s))"
    using assms by (auto simp: ring_inv_def Let_def)
  have next_eq: "i = ?L" if "i \<in> set ps" "of_nat i = (of_nat ?L :: u32)" for i
  proof -
    have "i \<in> {?L..<?C}" using that(1) ps(3) unfolding ring_ok_def by blast
    then have "?L \<le> i" "i < ?C" by auto
    moreover have "?C < ?L + 4294967296" using ring_inv_facts(1) [OF assms] released_of_le [of ?L] by linarith
    ultimately have "unat (of_nat i - of_nat ?L :: u32) = i - ?L" by (intro index_diff) auto
    with that(2) \<open>?L \<le> i\<close> show ?thesis by simp
  qed
  have "unread s \<longleftrightarrow> ?L < ?C \<and> ?L \<notin> set ps"
    using assms next_eq by (auto simp: unread_def ps(2) ring_inv_def Let_def image_iff)
  with ps show thesis by (rule that)
qed

lemma ring_read_next:
  assumes "ring_inv s"
  shows "ring_read (d_unexp_eventq (rs_driver s)) (rs_next s) = (if unread s then Some (rs_log s ! length (rs_got s)) else None)"
proof -
  obtain ps where "ring_ok (released_of (length (rs_got s))) (length (rs_got s)) (length (rs_log s) + rs_held s) (rs_log s)
      (set ps) (d_unexp_eventq (rs_driver s))" "unread s \<longleftrightarrow> length (rs_got s) < length (rs_log s) \<and> length (rs_got s) \<notin> set ps"
    using assms by (rule ring_inv_pending)
  with ring_ok_read assms show ?thesis by (simp add: ring_inv_def Let_def)
qed

lemma ring_inv_advance:
  assumes inv: "ring_inv s" and "unread s"
    and d: "d = (rs_driver s)\<lparr>nextreleased_unexp_eventq_index := of_nat (released_of (Suc (length (rs_got s))))\<rparr>"
  shows "ring_inv (s\<lparr>rs_next := rs_next s + 1, rs_got := rs_got s @ [rs_log s ! length (rs_got s)], rs_driver := d\<rparr>)"
proof -
  let ?L = "length (rs_got s)" and ?C = "length (rs_log s)"
  obtain ps where ps: "distinct ps" "rs_taken s = map (\<lambda>i. (of_nat i, rs_log s ! i)) ps"
      "ring_ok (released_of ?L) ?L (?C + rs_held s) (rs_log s) (set ps) (d_unexp_eventq (rs_driver s))"
      "?L < ?C" "?L \<notin> set ps"
    using inv \<open>unread s\<close> by (elim ring_inv_pending) simp
  have "released_of ?L \<le> released_of (Suc ?L)" by (simp add: released_of_Suc)
  then have "ring_ok (released_of (Suc ?L)) (Suc ?L) (?C + rs_held s) (rs_log s) (set ps) (d_unexp_eventq (rs_driver s))"
    using ring_ok_poll [OF ps(3-5)] by simp
  moreover have "rs_got s @ [rs_log s ! ?L] = take (Suc ?L) (rs_log s)"
    using inv ps(4) by (simp add: ring_inv_def Let_def take_Suc_conv_app_nth)
  ultimately show ?thesis using inv ps d by (auto simp: ring_inv_def Let_def)
qed

lemma release_ok:
  assumes inv: "ring_inv s" and "unread s" and rel: "Suc (length (rs_got s)) mod 256 = 0"
  shows "omx_ioctl_release_unexp_slots (rs_driver s) =
    (None, (rs_driver s)\<lparr>nextreleased_unexp_eventq_index := of_nat (released_of (Suc (length (rs_got s))))\<rparr>)"
proof -
  let ?L = "length (rs_got s)" and ?C = "length (rs_log s)"
  have R: "released_of (Suc ?L) = released_of ?L + 256" using rel by (simp add: released_of_Suc)
  then have "released_of ?L + 256 \<le> ?C" using released_of_le [of "Suc ?L"] \<open>unread s\<close> by (auto simp: unread_def)
  moreover have "unat (of_nat ?C - of_nat (released_of ?L) :: u32) = ?C - released_of ?L"
    using ring_inv_facts [OF inv] by (intro index_diff) auto
  ultimately show ?thesis
    using inv R by (simp add: omx_ioctl_release_unexp_slots_def ring_inv_def Let_def word_less_nat_alt
        RELEASE_BATCH_NR_def OMX_RELEASE_SLOTS_BATCH_NR_def OMX_EVENTQ_ENTRY_NR_def)
qed

lemma batch_end: "unat (of_nat n + 1 :: u32) mod OMX_RELEASE_SLOTS_BATCH_NR = Suc n mod 256"
  using unat_index [of "Suc n"]
  by (simp add: mod_mod_cancel add.commute OMX_RELEASE_SLOTS_BATCH_NR_def OMX_EVENTQ_ENTRY_NR_def)

lemma poll_event_eq:
  assumes inv: "ring_inv s"
  shows "poll_event s =
    (if unread s then s\<lparr>rs_next := rs_next s + 1, rs_got := rs_got s @ [rs_log s ! length (rs_got s)],
       rs_driver := (rs_driver s)\<lparr>nextreleased_unexp_eventq_index := of_nat (released_of (Suc (length (rs_got s))))\<rparr>\<rparr>
     else s)"
proof (cases "unread s")
  case True
  let ?L = "length (rs_got s)"
  have next1: "unat (rs_next s + 1) mod OMX_RELEASE_SLOTS_BATCH_NR = Suc ?L mod 256"
    using inv batch_end [of ?L] by (simp add: ring_inv_def Let_def)
  have same: "(rs_driver s)\<lparr>nextreleased_unexp_eventq_index := of_nat (released_of ?L)\<rparr> = rs_driver s"
    using inv by (simp add: ring_inv_def Let_def)
  show ?thesis
  proof (cases "Suc ?L mod 256 = 0")
    case rel: True
    then show ?thesis using True next1
      by (simp add: poll_event_def ring_read_next [OF inv] release_ok [OF inv True rel] Let_def)
  next
    case False
    then have "released_of (Suc ?L) = released_of ?L" by (simp add: released_of_Suc)
    with False True next1 show ?thesis
      by (simp add: poll_event_def ring_read_next [OF inv] Let_def same)
  qed
qed (simp add: poll_event_def ring_read_next [OF inv])

lemma ring_inv_exec: "ring_inv s \<Longrightarrow> ring_inv (ring_exec op s)"
proof (cases op)
  case Poll
  assume "ring_inv s"
  then show ?thesis using Poll by (simp add: poll_event_eq ring_inv_advance)
qed (auto simp only: ring_exec.simps(3,4) ring_inv_notify ring_inv_prepare ring_inv_commit ring_inv_write)

lemma ring_inv_start: "length unexp = 1024 \<Longrightarrow> ring_inv (ring_start exp unexp d)"
  by (simp add: ring_inv_def ring_start_def omx_endpoint_queues_init_def Let_def released_of_def ring_ok_def)

lemma ring_inv_run: "ring_inv s \<Longrightarrow> ring_inv (ring_run ops s)"
  unfolding ring_run_def by (induction ops arbitrary: s) (auto simp: ring_inv_exec)

lemma poll_drains:
  "ring_inv s \<Longrightarrow> rs_taken s = [] \<Longrightarrow> n = length (rs_log s) - length (rs_got s) \<Longrightarrow>
    rs_got (ring_run (replicate n Poll) s) = rs_log s"
proof (induction n arbitrary: s)
  case 0
  then have "length (rs_got s) = length (rs_log s)" using ring_inv_facts(2) [of s] by simp
  then have "rs_got s = rs_log s" using 0 by (simp add: ring_inv_def Let_def)
  then show ?case by (simp add: ring_run_def)
next
  case (Suc n)
  then have u: "unread s" by (simp add: unread_def)
  then have "rs_log (poll_event s) = rs_log s" "rs_taken (poll_event s) = []"
    "length (rs_got (poll_event s)) = Suc (length (rs_got s))" "ring_inv (poll_event s)"
    using Suc.prems ring_inv_exec [of s Poll] by (simp_all add: poll_event_eq)
  moreover from this Suc.prems(3) have "n = length (rs_log (poll_event s)) - length (rs_got (poll_event s))" by simp
  ultimately have "rs_got (ring_run (replicate n Poll) (poll_event s)) = rs_log s" using Suc.IH [of "poll_event s"] by simp
  then show ?case by (simp add: ring_run_def del: fold_replicate)
qed

subsection \<open>Properties\<close>





text \<open>
  C36: \<^verbatim>\<open>omx_notify_unexp_event\<close> takes an index in one critical section and gives it back in another one when the
  ring is full. If the library releases slots and another context stores an event \<open>e\<close> in between, the index that was
  taken first stays empty for ever, and the next event that is stored replaces \<open>e\<close>: the library waits at the
  empty slot and gets nothing more.
\<close>

theorem notify_rollback_race:
  assumes "nextfree_unexp_eventq_index d = nextreserved_unexp_eventq_index d"
    and "nextreserved_unexp_eventq_index d = nextreleased_unexp_eventq_index d + 1024"
    and "length (d_unexp_eventq d) = 1024"
    and "notify_unexp_take d = (index, d1)"
    and "omx_ioctl_release_unexp_slots d1 = (err2, d2)"
    and "omx_notify_unexp_event e d2 = (err3, d3)"
    and "omx_notify_unexp_event e' (notify_unexp_rollback d3) = (err4, d4)"
  shows "unexp_full d1 \<and> err2 = None \<and> err3 = None \<and> err4 = None \<and>
    ring_read (d_unexp_eventq d3) (index + 1) = Some e \<and> ring_read (d_unexp_eventq d4) (index + 1) = Some e' \<and>
    d_unexp_eventq d4 ! slot_of index = d_unexp_eventq d ! slot_of index \<and>
    nextreserved_unexp_eventq_index d4 = 2 + index"
proof -
  have ix: "index = nextreserved_unexp_eventq_index d" using assms(4) by (auto simp: notify_unexp_take_def Let_def)
  have r: "nextreleased_unexp_eventq_index d = index - 1024" by (simp add: ix assms(2))
  have d1: "d1 = d\<lparr>nextfree_unexp_eventq_index := index + 1, nextreserved_unexp_eventq_index := index + 1\<rparr>"
    using assms(1,4) by (auto simp: notify_unexp_take_def Let_def ix)
  have full: "unexp_full d1" by (simp add: d1 unexp_full_def r EVENTQ_NR_def OMX_EVENTQ_ENTRY_NR_def)
  have d2: "err2 = None" "d2 = d1\<lparr>nextreleased_unexp_eventq_index := index - 768\<rparr>"
    using assms(5) by (simp_all add: d1 r omx_ioctl_release_unexp_slots_def RELEASE_BATCH_NR_def
        OMX_RELEASE_SLOTS_BATCH_NR_def OMX_EVENTQ_ENTRY_NR_def)
  have d3: "err3 = None" "d3 = notify_unexp_write (index + 1) e
      (d2\<lparr>nextfree_unexp_eventq_index := 2 + index, nextreserved_unexp_eventq_index := 2 + index\<rparr>)"
    using assms(6) by (auto simp: d1 d2(2) omx_notify_unexp_event_def notify_unexp_take_def unexp_full_def
        EVENTQ_NR_def OMX_EVENTQ_ENTRY_NR_def)
  have d4: "err4 = None" "d4 = notify_unexp_write (1 + index) e'
      (notify_unexp_rollback d3\<lparr>nextfree_unexp_eventq_index := 2 + index, nextreserved_unexp_eventq_index := 2 + index\<rparr>)"
    using assms(7) by (auto simp: d1 d2(2) d3(2) omx_notify_unexp_event_def notify_unexp_take_def unexp_full_def
        EVENTQ_NR_def OMX_EVENTQ_ENTRY_NR_def notify_unexp_rollback_def notify_unexp_write_def omx_wakeup_waiter_list_def)
  have ring: "d_unexp_eventq d3 = write_event (index + 1) e (d_unexp_eventq d)"
    "d_unexp_eventq d4 = write_event (1 + index) e' (write_event (index + 1) e (d_unexp_eventq d))"
    by (simp_all add: d1 d2(2) d3(2) d4(2) notify_unexp_rollback_def notify_unexp_write_def omx_wakeup_waiter_list_def)
  have "length (write_event (index + 1) e (d_unexp_eventq d)) = 1024" using assms(3) by (simp add: write_event_def)
  then show ?thesis
    using full d2(1) d3(1) d4(1) assms(3) slot_of_next [of index]
    by (simp add: ring ring_read_write add.commute [of 1], simp add: write_event_def d4(2) notify_unexp_write_def omx_wakeup_waiter_list_def)
qed

theorem notify_rollback_race_witness:
  "\<exists>d d1 d2 d3 d4 e. notify_unexp_take d = (1024, d1) \<and> omx_ioctl_release_unexp_slots d1 = (None, d2) \<and>
     omx_notify_unexp_event e d2 = (None, d3) \<and> omx_notify_unexp_event OMX_EVT_NONE (notify_unexp_rollback d3) = (None, d4) \<and>
     ring_read (d_unexp_eventq d4) 1025 = Some OMX_EVT_NONE \<and> e \<noteq> OMX_EVT_NONE"
proof -
  define d where "d = \<lparr>userdesc_status = 0, waiters = [], d_exp_eventq = [], nextfree_exp_eventq_index = 0,
    nextreleased_exp_eventq_index = 0, d_unexp_eventq = replicate 1024 \<lparr>evt_id = 7, evt_body = OMX_EVT_NONE\<rparr>,
    nextfree_unexp_eventq_index = 1024, nextreserved_unexp_eventq_index = 1024, nextreleased_unexp_eventq_index = 0,
    next_recvq_index = 0\<rparr>"
  define d1 where "d1 = snd (notify_unexp_take d)"
  have t: "notify_unexp_take d = (1024, d1)" by (simp add: notify_unexp_take_def d_def d1_def)
  obtain err2 d2 where r: "omx_ioctl_release_unexp_slots d1 = (err2, d2)" by fastforce
  obtain err3 d3 where n: "omx_notify_unexp_event OMX_EVT_IGNORE d2 = (err3, d3)" by fastforce
  obtain err4 d4 where m: "omx_notify_unexp_event OMX_EVT_NONE (notify_unexp_rollback d3) = (err4, d4)" by fastforce
  have "err2 = None \<and> err3 = None \<and> err4 = None \<and> ring_read (d_unexp_eventq d4) 1025 = Some OMX_EVT_NONE"
    using notify_rollback_race [OF _ _ _ t r n m] by (simp add: d_def)
  with t r n m show ?thesis by blast
qed



text \<open>
  C37: when the library has missed an event the thread does not sleep, but the status the library gets is not the one that
  tells about this race: it is the one of an interrupted sleep, for which \<^verbatim>\<open>omx__wait\<close> may give up.
\<close>

theorem wait_event_race_status:
  assumes "wait_next_unexp_event_index cmd \<noteq> nextreserved_unexp_eventq_index d"
    and "wait_event_begin cmd user_index wakeup_jiffies now signal d = (sleep, d1)"
  shows "sleep = None \<and> fst (wait_event_end (length (waiters d)) d1) = WAIT_EVENT_STATUS_INTR \<and>
    WAIT_EVENT_STATUS_INTR \<noteq> WAIT_EVENT_STATUS_RACE"
  using assms by (auto simp: wait_event_begin_def wait_event_end_def Let_def WAIT_EVENT_STATUS_INTR_def
      WAIT_EVENT_STATUS_RACE_def)

theorem wait_event_race_status_witness:
  "\<exists>cmd d d1. wait_next_unexp_event_index cmd = 3 \<and> nextreserved_unexp_eventq_index d = 4 \<and>
     wait_event_begin cmd 0 0 5 False d = (None, d1) \<and>
     fst (wait_event_end (length (waiters d)) d1) = WAIT_EVENT_STATUS_INTR"
proof -
  define d where "d = (undefined :: driver_eventqs)\<lparr>nextreserved_unexp_eventq_index := 4\<rparr>"
  define cmd where "cmd = (undefined :: omx_cmd_wait_event)\<lparr>wait_next_unexp_event_index := 3\<rparr>"
  obtain sleep d1 where b: "wait_event_begin cmd 0 0 5 False d = (sleep, d1)" by fastforce
  have "wait_next_unexp_event_index cmd \<noteq> nextreserved_unexp_eventq_index d" by (simp add: cmd_def d_def)
  from wait_event_race_status [OF this b] b show ?thesis
    by (intro exI [of _ cmd] exI [of _ d] exI [of _ d1]) (simp add: cmd_def d_def)
qed

end
