(* ===== verification/Driver_Wire.thy ===== *)
theory Driver_Wire
  imports Types
begin

text \<open>
  Packets as bytes (\<^verbatim>\<open>common/omx_wire.h\<close>, \<^verbatim>\<open>driver/linux/omx_wire_access.h\<close>, the address functions of
  \<^verbatim>\<open>driver/linux/omx_misc.h\<close>). A frame gives the byte at every offset from the Ethernet header on; the fields of the
  packed structures are at fixed offsets, multi-byte fields in network order (endian-independent networking is
  the default). The bytes a sender does not write are those of the memory the packet was allocated in.
\<close>

type_synonym frame = "nat \<Rightarrow> u8"

record sk_buff =
  skb_len :: nat
  skb_data :: frame

subsection \<open>Fields\<close>

definition OMX_HTON_8 :: "nat \<Rightarrow> u8 \<Rightarrow> frame \<Rightarrow> frame" where
  "OMX_HTON_8 off v f = f(off := v)"

definition OMX_HTON_16 :: "nat \<Rightarrow> u16 \<Rightarrow> frame \<Rightarrow> frame" where
  "OMX_HTON_16 off v f = f(off := ucast (drop_bit 8 v), off + 1 := ucast v)"

definition OMX_HTON_32 :: "nat \<Rightarrow> u32 \<Rightarrow> frame \<Rightarrow> frame" where
  "OMX_HTON_32 off v f =
    f(off := ucast (drop_bit 24 v), off + 1 := ucast (drop_bit 16 v), off + 2 := ucast (drop_bit 8 v), off + 3 := ucast v)"

definition OMX_NTOH_8 :: "nat \<Rightarrow> frame \<Rightarrow> u8" where
  "OMX_NTOH_8 off f = f off"

definition OMX_NTOH_16 :: "nat \<Rightarrow> frame \<Rightarrow> u16" where
  "OMX_NTOH_16 off f = push_bit 8 (ucast (f off)) OR ucast (f (off + 1))"

definition OMX_NTOH_32 :: "nat \<Rightarrow> frame \<Rightarrow> u32" where
  "OMX_NTOH_32 off f =
    push_bit 24 (ucast (f off)) OR push_bit 16 (ucast (f (off + 1))) OR push_bit 8 (ucast (f (off + 2))) OR ucast (f (off + 3))"

text \<open>The offsets of \<^verbatim>\<open>match_a\<close> and \<^verbatim>\<open>match_b\<close> are the same in all messages.\<close>

definition OMX_HTON_MATCH_INFO :: "u64 \<Rightarrow> frame \<Rightarrow> frame" where
  "OMX_HTON_MATCH_INFO match_info f =
    OMX_HTON_32 32 (ucast (match_info AND 0xffffffff)) (OMX_HTON_32 28 (ucast (drop_bit 32 match_info)) f)"

definition OMX_NTOH_MATCH_INFO :: "frame \<Rightarrow> u64" where
  "OMX_NTOH_MATCH_INFO f = push_bit 32 (ucast (OMX_NTOH_32 28 f)) OR ucast (OMX_NTOH_32 32 f)"

subsection \<open>Addresses\<close>

definition omx_board_addr_from_bytes :: "nat \<Rightarrow> frame \<Rightarrow> u64" where
  "omx_board_addr_from_bytes off f =
    push_bit 40 (ucast (f off)) + push_bit 32 (ucast (f (off + 1))) + push_bit 24 (ucast (f (off + 2))) +
    push_bit 16 (ucast (f (off + 3))) + push_bit 8 (ucast (f (off + 4))) + ucast (f (off + 5))"

text \<open>The destination address is at offset 0 of the frame and the source address at offset 6.\<close>

definition omx_board_addr_from_ethhdr_src :: "frame \<Rightarrow> u64" where
  "omx_board_addr_from_ethhdr_src f = omx_board_addr_from_bytes 6 f"

definition omx_board_addr_to_ethhdr_dst :: "u64 \<Rightarrow> frame \<Rightarrow> frame" where
  "omx_board_addr_to_ethhdr_dst board_addr f = f(
     0 := ucast (drop_bit 40 board_addr AND 0xff), 1 := ucast (drop_bit 32 board_addr AND 0xff),
     2 := ucast (drop_bit 24 board_addr AND 0xff), 3 := ucast (drop_bit 16 board_addr AND 0xff),
     4 := ucast (drop_bit 8 board_addr AND 0xff), 5 := ucast (board_addr AND 0xff))"

text \<open>\<^verbatim>\<open>memcpy(eh->h_source, ifp->dev_addr, 6)\<close> and the protocol.\<close>

definition fill_ethhdr :: "u8 list \<Rightarrow> frame \<Rightarrow> frame" where
  "fill_ethhdr dev_addr f =
    OMX_HTON_16 12 0x86DF (f(6 := dev_addr ! 0, 7 := dev_addr ! 1, 8 := dev_addr ! 2,
      9 := dev_addr ! 3, 10 := dev_addr ! 4, 11 := dev_addr ! 5))"

definition omx_board_addr_from_netdevice :: "u8 list \<Rightarrow> u64" where
  "omx_board_addr_from_netdevice dev_addr = omx_board_addr_from_bytes 0 (\<lambda>i. dev_addr ! i)"

text \<open>Bytes of the data of a packet.\<close>

definition put_data :: "nat \<Rightarrow> u8 list \<Rightarrow> frame \<Rightarrow> frame" where
  "put_data off bs f i = (if off \<le> i \<and> i < off + length bs then bs ! (i - off) else f i)"

definition skb_copy_bits :: "nat \<Rightarrow> nat \<Rightarrow> frame \<Rightarrow> u8 list" where
  "skb_copy_bits off len f = map (\<lambda>i. f (off + i)) [0..<len]"

subsection \<open>Types of packets and of nacks\<close>

definition OMX_PKT_TYPE_RAW :: u8 where "OMX_PKT_TYPE_RAW = 1"
definition OMX_PKT_TYPE_MFM_NIC_REPLY :: u8 where "OMX_PKT_TYPE_MFM_NIC_REPLY = 2"
definition OMX_PKT_TYPE_HOST_QUERY :: u8 where "OMX_PKT_TYPE_HOST_QUERY = 3"
definition OMX_PKT_TYPE_HOST_REPLY :: u8 where "OMX_PKT_TYPE_HOST_REPLY = 4"
definition OMX_PKT_TYPE_ETHER_UNICAST :: u8 where "OMX_PKT_TYPE_ETHER_UNICAST = 32"
definition OMX_PKT_TYPE_ETHER_MULTICAST :: u8 where "OMX_PKT_TYPE_ETHER_MULTICAST = 33"
definition OMX_PKT_TYPE_ETHER_NATIVE :: u8 where "OMX_PKT_TYPE_ETHER_NATIVE = 34"
definition OMX_PKT_TYPE_TRUC :: u8 where "OMX_PKT_TYPE_TRUC = 35"
definition OMX_PKT_TYPE_CONNECT :: u8 where "OMX_PKT_TYPE_CONNECT = 36"
definition OMX_PKT_TYPE_TINY :: u8 where "OMX_PKT_TYPE_TINY = 37"
definition OMX_PKT_TYPE_SMALL :: u8 where "OMX_PKT_TYPE_SMALL = 38"
definition OMX_PKT_TYPE_MEDIUM :: u8 where "OMX_PKT_TYPE_MEDIUM = 39"
definition OMX_PKT_TYPE_RNDV :: u8 where "OMX_PKT_TYPE_RNDV = 40"
definition OMX_PKT_TYPE_PULL :: u8 where "OMX_PKT_TYPE_PULL = 41"
definition OMX_PKT_TYPE_PULL_REPLY :: u8 where "OMX_PKT_TYPE_PULL_REPLY = 42"
definition OMX_PKT_TYPE_NOTIFY :: u8 where "OMX_PKT_TYPE_NOTIFY = 43"
definition OMX_PKT_TYPE_NACK_LIB :: u8 where "OMX_PKT_TYPE_NACK_LIB = 44"
definition OMX_PKT_TYPE_NACK_MCP :: u8 where "OMX_PKT_TYPE_NACK_MCP = 45"

lemmas pkt_type_defs =
  OMX_PKT_TYPE_RAW_def OMX_PKT_TYPE_MFM_NIC_REPLY_def OMX_PKT_TYPE_HOST_QUERY_def OMX_PKT_TYPE_HOST_REPLY_def
  OMX_PKT_TYPE_ETHER_UNICAST_def OMX_PKT_TYPE_ETHER_MULTICAST_def OMX_PKT_TYPE_ETHER_NATIVE_def OMX_PKT_TYPE_TRUC_def
  OMX_PKT_TYPE_CONNECT_def OMX_PKT_TYPE_TINY_def OMX_PKT_TYPE_SMALL_def OMX_PKT_TYPE_MEDIUM_def OMX_PKT_TYPE_RNDV_def
  OMX_PKT_TYPE_PULL_def OMX_PKT_TYPE_PULL_REPLY_def OMX_PKT_TYPE_NOTIFY_def OMX_PKT_TYPE_NACK_LIB_def
  OMX_PKT_TYPE_NACK_MCP_def

datatype omx_nack_type =
    OMX_NACK_TYPE_NONE | OMX_NACK_TYPE_BAD_ENDPT | OMX_NACK_TYPE_ENDPT_CLOSED | OMX_NACK_TYPE_BAD_SESSION
  | OMX_NACK_TYPE_BAD_RDMAWIN

fun nack_code :: "omx_nack_type \<Rightarrow> u8" where
  "nack_code OMX_NACK_TYPE_NONE = 0"
| "nack_code OMX_NACK_TYPE_BAD_ENDPT = 1"
| "nack_code OMX_NACK_TYPE_ENDPT_CLOSED = 2"
| "nack_code OMX_NACK_TYPE_BAD_SESSION = 3"
| "nack_code OMX_NACK_TYPE_BAD_RDMAWIN = 4"

text \<open>The values of the event that reports a nack are those of the packet.\<close>

definition nack_event_type :: "u8 \<Rightarrow> omx_evt_nack_lib_type" where
  "nack_event_type v =
    (if v = 1 then OMX_EVT_NACK_LIB_BAD_ENDPT else if v = 2 then OMX_EVT_NACK_LIB_ENDPT_CLOSED
     else if v = 3 then OMX_EVT_NACK_LIB_BAD_SESSION else Nack_lib_unknown)"

subsection \<open>Reading what was written\<close>

lemma NTOH_8_HTON [simp]:
  "OMX_NTOH_8 off (OMX_HTON_8 off v f) = v"
  "i \<noteq> off \<Longrightarrow> OMX_NTOH_8 off (OMX_HTON_8 i w f) = OMX_NTOH_8 off f"
  "off \<notin> {i, i + 1} \<Longrightarrow> OMX_NTOH_8 off (OMX_HTON_16 i x f) = OMX_NTOH_8 off f"
  "off \<notin> {i, i + 1, i + 2, i + 3} \<Longrightarrow> OMX_NTOH_8 off (OMX_HTON_32 i y f) = OMX_NTOH_8 off f"
  by (auto simp: OMX_NTOH_8_def OMX_HTON_8_def OMX_HTON_16_def OMX_HTON_32_def)

lemma join16: "push_bit 8 (ucast (ucast (drop_bit 8 v) :: u8)) OR ucast (ucast v :: u8) = (v :: u16)"
  by (rule bit_word_eqI) (auto simp: bit_simps)

lemma join32: "push_bit 24 (ucast (ucast (drop_bit 24 v) :: u8)) OR push_bit 16 (ucast (ucast (drop_bit 16 v) :: u8)) OR
    push_bit 8 (ucast (ucast (drop_bit 8 v) :: u8)) OR ucast (ucast v :: u8) = (v :: u32)"
proof (rule bit_word_eqI)
  fix n assume "n < LENGTH(32)"
  then consider "n < 8" | "8 \<le> n" "n < 16" | "16 \<le> n" "n < 24" | "24 \<le> n" "n < 32" by fastforce
  then show "bit (push_bit 24 (ucast (ucast (drop_bit 24 v) :: u8)) OR push_bit 16 (ucast (ucast (drop_bit 16 v) :: u8)) OR
      push_bit 8 (ucast (ucast (drop_bit 8 v) :: u8)) OR ucast (ucast v :: u8) :: u32) n = bit v n"
    by cases (auto simp: bit_simps)
qed

lemma join64: "push_bit 32 (ucast (ucast (drop_bit 32 m) :: u32)) OR ucast (ucast (m AND 0xffffffff) :: u32) = (m :: u64)"
proof (rule bit_word_eqI)
  fix n assume "n < LENGTH(64)"
  have eq: "(0xffffffff :: u64) = mask 32" by (simp add: mask_eq_exp_minus_1)
  show "bit (push_bit 32 (ucast (ucast (drop_bit 32 m) :: u32)) OR ucast (ucast (m AND 0xffffffff) :: u32) :: u64) n = bit m n"
    unfolding eq using \<open>n < LENGTH(64)\<close> by (auto simp: bit_simps)
qed

lemma NTOH_16_HTON [simp]:
  "OMX_NTOH_16 off (OMX_HTON_16 off x f) = x"
  "i \<notin> {off, off + 1} \<Longrightarrow> OMX_NTOH_16 off (OMX_HTON_8 i w f) = OMX_NTOH_16 off f"
  "i + 1 < off \<or> off + 1 < i \<Longrightarrow> OMX_NTOH_16 off (OMX_HTON_16 i x f) = OMX_NTOH_16 off f"
  "i + 3 < off \<or> off + 1 < i \<Longrightarrow> OMX_NTOH_16 off (OMX_HTON_32 i y f) = OMX_NTOH_16 off f"
  using join16 by (auto simp: OMX_NTOH_16_def OMX_HTON_8_def OMX_HTON_16_def OMX_HTON_32_def)

lemma NTOH_32_HTON [simp]:
  "OMX_NTOH_32 off (OMX_HTON_32 off y f) = y"
  "i < off \<or> off + 3 < i \<Longrightarrow> OMX_NTOH_32 off (OMX_HTON_8 i w f) = OMX_NTOH_32 off f"
  "i + 1 < off \<or> off + 3 < i \<Longrightarrow> OMX_NTOH_32 off (OMX_HTON_16 i x f) = OMX_NTOH_32 off f"
  "i + 3 < off \<or> off + 3 < i \<Longrightarrow> OMX_NTOH_32 off (OMX_HTON_32 i y f) = OMX_NTOH_32 off f"
  using join32 by (auto simp: OMX_NTOH_32_def OMX_HTON_8_def OMX_HTON_16_def OMX_HTON_32_def)

lemma NTOH_MATCH_INFO_HTON [simp]:
  "OMX_NTOH_MATCH_INFO (OMX_HTON_MATCH_INFO m f) = m"
  "i < 28 \<or> 35 < i \<Longrightarrow> OMX_NTOH_MATCH_INFO (OMX_HTON_8 i w f) = OMX_NTOH_MATCH_INFO f"
  "i < 27 \<or> 35 < i \<Longrightarrow> OMX_NTOH_MATCH_INFO (OMX_HTON_16 i x f) = OMX_NTOH_MATCH_INFO f"
  "i < 25 \<or> 35 < i \<Longrightarrow> OMX_NTOH_MATCH_INFO (OMX_HTON_32 i y f) = OMX_NTOH_MATCH_INFO f"
  using join64 [of m] by (auto simp: OMX_NTOH_MATCH_INFO_def OMX_HTON_MATCH_INFO_def)

lemma NTOH_HTON_MATCH_INFO [simp]:
  "off < 28 \<or> 35 < off \<Longrightarrow> OMX_NTOH_8 off (OMX_HTON_MATCH_INFO m f) = OMX_NTOH_8 off f"
  "off < 27 \<or> 35 < off \<Longrightarrow> OMX_NTOH_16 off (OMX_HTON_MATCH_INFO m f) = OMX_NTOH_16 off f"
  "off < 25 \<or> 35 < off \<Longrightarrow> OMX_NTOH_32 off (OMX_HTON_MATCH_INFO m f) = OMX_NTOH_32 off f"
  by (auto simp: OMX_HTON_MATCH_INFO_def)

lemma NTOH_put_data [simp]:
  "off < i \<Longrightarrow> OMX_NTOH_8 off (put_data i bs f) = OMX_NTOH_8 off f"
  "off + 1 < i \<Longrightarrow> OMX_NTOH_16 off (put_data i bs f) = OMX_NTOH_16 off f"
  "off + 3 < i \<Longrightarrow> OMX_NTOH_32 off (put_data i bs f) = OMX_NTOH_32 off f"
  "35 < i \<Longrightarrow> OMX_NTOH_MATCH_INFO (put_data i bs f) = OMX_NTOH_MATCH_INFO f"
  by (auto simp: OMX_NTOH_8_def OMX_NTOH_16_def OMX_NTOH_32_def OMX_NTOH_MATCH_INFO_def put_data_def)

lemma skb_copy_bits_put_data [simp]: "skb_copy_bits off (length bs) (put_data off bs f) = bs"
  by (rule nth_equalityI) (simp_all add: skb_copy_bits_def put_data_def)

text \<open>The headers.\<close>

lemma NTOH_HTON_ethhdr [simp]:
  "11 < off \<Longrightarrow> off \<noteq> 12 \<Longrightarrow> off \<noteq> 13 \<Longrightarrow> OMX_NTOH_8 off (fill_ethhdr da f) = OMX_NTOH_8 off f"
  "13 < off \<Longrightarrow> OMX_NTOH_16 off (fill_ethhdr da f) = OMX_NTOH_16 off f"
  "13 < off \<Longrightarrow> OMX_NTOH_32 off (fill_ethhdr da f) = OMX_NTOH_32 off f"
  "OMX_NTOH_MATCH_INFO (fill_ethhdr da f) = OMX_NTOH_MATCH_INFO f"
  by (auto simp: fill_ethhdr_def OMX_NTOH_8_def OMX_NTOH_16_def OMX_NTOH_32_def OMX_NTOH_MATCH_INFO_def OMX_HTON_16_def)

lemma NTOH_ethhdr_dst [simp]:
  "5 < off \<Longrightarrow> OMX_NTOH_8 off (omx_board_addr_to_ethhdr_dst a f) = OMX_NTOH_8 off f"
  "5 < off \<Longrightarrow> OMX_NTOH_16 off (omx_board_addr_to_ethhdr_dst a f) = OMX_NTOH_16 off f"
  "5 < off \<Longrightarrow> OMX_NTOH_32 off (omx_board_addr_to_ethhdr_dst a f) = OMX_NTOH_32 off f"
  "OMX_NTOH_MATCH_INFO (omx_board_addr_to_ethhdr_dst a f) = OMX_NTOH_MATCH_INFO f"
  by (auto simp: omx_board_addr_to_ethhdr_dst_def OMX_NTOH_8_def OMX_NTOH_16_def OMX_NTOH_32_def OMX_NTOH_MATCH_INFO_def)

lemma src_addr_HTON [simp]:
  "11 < i \<Longrightarrow> omx_board_addr_from_ethhdr_src (OMX_HTON_8 i w f) = omx_board_addr_from_ethhdr_src f"
  "11 < i \<Longrightarrow> omx_board_addr_from_ethhdr_src (OMX_HTON_16 i x f) = omx_board_addr_from_ethhdr_src f"
  "11 < i \<Longrightarrow> omx_board_addr_from_ethhdr_src (OMX_HTON_32 i y f) = omx_board_addr_from_ethhdr_src f"
  "omx_board_addr_from_ethhdr_src (OMX_HTON_MATCH_INFO m f) = omx_board_addr_from_ethhdr_src f"
  "11 < i \<Longrightarrow> omx_board_addr_from_ethhdr_src (put_data i bs f) = omx_board_addr_from_ethhdr_src f"
  "omx_board_addr_from_ethhdr_src (omx_board_addr_to_ethhdr_dst a f) = omx_board_addr_from_ethhdr_src f"
  by (auto simp: omx_board_addr_from_ethhdr_src_def omx_board_addr_from_bytes_def OMX_HTON_8_def OMX_HTON_16_def
      OMX_HTON_32_def OMX_HTON_MATCH_INFO_def put_data_def omx_board_addr_to_ethhdr_dst_def)

lemma src_addr_fill_ethhdr [simp]:
  "omx_board_addr_from_ethhdr_src (fill_ethhdr dev_addr f) = omx_board_addr_from_netdevice dev_addr"
  by (simp add: omx_board_addr_from_ethhdr_src_def omx_board_addr_from_bytes_def fill_ethhdr_def OMX_HTON_16_def
      omx_board_addr_from_netdevice_def) (simp add: numeral_2_eq_2)

end
