(* ===== verification/Driver_State.thy ===== *)
theory Driver_State
  imports Driver_Wire Driver_Event
begin

text \<open>
  The state of the driver of one machine: the structures of \<^verbatim>\<open>driver/linux/omx_peer.h\<close>, \<^verbatim>\<open>omx_iface.h\<close> and
  \<^verbatim>\<open>omx_endpoint.h\<close> and the global variables of \<^verbatim>\<open>omx_peer.c\<close> and \<^verbatim>\<open>omx_iface.c\<close>. Interfaces, endpoints and allocated
  peers are named by numbers; the peer embedded in an interface is \<open>Iface_peer\<close>. The sizes of the arrays are the
  module parameters \<^verbatim>\<open>omx_peer_max\<close>, \<^verbatim>\<open>omx_iface_max\<close> and \<^verbatim>\<open>omx_endpoint_max\<close>. Packets given to the network are
  appended to \<open>xmit\<close>. \<open>None\<close> stands for a kernel bug: \<^verbatim>\<open>BUG_ON\<close>, or an access outside of an array.
\<close>

datatype peer_ref = Iface_peer nat | Peer nat

datatype omx_endpoint_status =
    OMX_ENDPOINT_STATUS_FREE | OMX_ENDPOINT_STATUS_INITIALIZING | OMX_ENDPOINT_STATUS_OK | OMX_ENDPOINT_STATUS_CLOSING

datatype omx_iface_status = OMX_IFACE_STATUS_OK | OMX_IFACE_STATUS_CLOSING

record omx_peer =
  p_board_addr :: u64
  p_hostname :: "u8 list option"
  p_index :: u32
  p_local_iface :: "nat option"

record omx_iface =
  if_index :: nat
  if_eth_ifp :: nat
  if_dev_addr :: "u8 list"
  if_reverse_peer_indexes :: "u32 list"
  if_status :: omx_iface_status
  if_refcount :: nat
  if_endpoint_nr :: nat
  if_endpoints :: "nat option list"

record d_endpoint =
  de_board_index :: nat
  de_endpoint_index :: u8
  de_session_id :: u32
  de_status :: omx_endpoint_status
  de_refcount :: nat
  de_freed :: bool
  de_iface :: "nat option"
  de_queues :: driver_eventqs
  de_sendq :: frame
  de_recvq :: frame

record omx_node =
  n_peer :: "peer_ref \<Rightarrow> omx_peer"
  n_iface :: "nat \<Rightarrow> omx_iface"
  n_endpoint :: "nat \<Rightarrow> d_endpoint"
  omx_ifaces :: "nat option list"
  omx_iface_nr :: nat
  omx_endpoint_max :: nat
  omx_peer_array :: "peer_ref option list"
  omx_peer_addr_hash_array :: "u8 \<Rightarrow> peer_ref list"
  omx_peer_next_nr :: nat
  omx_peer_table_full :: bool
  peer_table_status :: u32
  omx_host_query_peer_list :: "peer_ref list"
  omx_host_query_timer :: bool
  omx_host_query_magic :: u32
  omx_host_query_list :: "(nat \<times> sk_buff) list"
  omx_host_reply_list :: "(nat \<times> sk_buff) list"
  peers_allocated :: nat
  peers_freed :: "peer_ref list"
  xmit :: "(nat \<times> sk_buff) list"

abbreviation omx_peer_max :: "omx_node \<Rightarrow> nat" where
  "omx_peer_max n \<equiv> length (omx_peer_array n)"

definition upd_peer :: "peer_ref \<Rightarrow> (omx_peer \<Rightarrow> omx_peer) \<Rightarrow> omx_node \<Rightarrow> omx_node" where
  "upd_peer p f n = n\<lparr>n_peer := (n_peer n)(p := f (n_peer n p))\<rparr>"

definition upd_iface :: "nat \<Rightarrow> (omx_iface \<Rightarrow> omx_iface) \<Rightarrow> omx_node \<Rightarrow> omx_node" where
  "upd_iface k f n = n\<lparr>n_iface := (n_iface n)(k := f (n_iface n k))\<rparr>"

definition upd_endpoint :: "nat \<Rightarrow> (d_endpoint \<Rightarrow> d_endpoint) \<Rightarrow> omx_node \<Rightarrow> omx_node" where
  "upd_endpoint e f n = n\<lparr>n_endpoint := (n_endpoint n)(e := f (n_endpoint n e))\<rparr>"

lemma upd_node_simps [simp]:
  "n_peer (upd_peer p f n) = (n_peer n)(p := f (n_peer n p))" "n_iface (upd_peer p f n) = n_iface n"
  "n_endpoint (upd_peer p f n) = n_endpoint n" "omx_ifaces (upd_peer p f n) = omx_ifaces n"
  "omx_iface_nr (upd_peer p f n) = omx_iface_nr n" "omx_peer_array (upd_peer p f n) = omx_peer_array n"
  "omx_peer_addr_hash_array (upd_peer p f n) = omx_peer_addr_hash_array n" "omx_peer_next_nr (upd_peer p f n) = omx_peer_next_nr n"
  "omx_host_query_peer_list (upd_peer p f n) = omx_host_query_peer_list n" "omx_host_query_timer (upd_peer p f n) = omx_host_query_timer n"
  "omx_host_query_magic (upd_peer p f n) = omx_host_query_magic n" "peers_allocated (upd_peer p f n) = peers_allocated n"
  "peers_freed (upd_peer p f n) = peers_freed n" "xmit (upd_peer p f n) = xmit n"
  "n_peer (upd_iface k g n) = n_peer n" "n_iface (upd_iface k g n) = (n_iface n)(k := g (n_iface n k))"
  "n_endpoint (upd_iface k g n) = n_endpoint n" "omx_ifaces (upd_iface k g n) = omx_ifaces n"
  "omx_iface_nr (upd_iface k g n) = omx_iface_nr n" "omx_peer_array (upd_iface k g n) = omx_peer_array n"
  "omx_peer_addr_hash_array (upd_iface k g n) = omx_peer_addr_hash_array n" "omx_peer_next_nr (upd_iface k g n) = omx_peer_next_nr n"
  "omx_host_query_peer_list (upd_iface k g n) = omx_host_query_peer_list n" "omx_host_query_timer (upd_iface k g n) = omx_host_query_timer n"
  "omx_host_query_magic (upd_iface k g n) = omx_host_query_magic n" "peers_allocated (upd_iface k g n) = peers_allocated n"
  "peers_freed (upd_iface k g n) = peers_freed n" "xmit (upd_iface k g n) = xmit n"
  "n_peer (upd_endpoint e h n) = n_peer n" "n_iface (upd_endpoint e h n) = n_iface n"
  "n_endpoint (upd_endpoint e h n) = (n_endpoint n)(e := h (n_endpoint n e))" "omx_ifaces (upd_endpoint e h n) = omx_ifaces n"
  "omx_peer_array (upd_endpoint e h n) = omx_peer_array n"
  "omx_peer_addr_hash_array (upd_endpoint e h n) = omx_peer_addr_hash_array n" "xmit (upd_endpoint e h n) = xmit n"
  by (simp_all add: upd_peer_def upd_iface_def upd_endpoint_def)

text \<open>A write to an array.\<close>

definition store :: "nat \<Rightarrow> 'a \<Rightarrow> 'a list \<Rightarrow> 'a list option" where
  "store i x xs = (if i < length xs then Some (xs[i := x]) else None)"

text \<open>What the kernel answers: the memory of the packets it allocates (None: it has none left), user memory.\<close>

record kernel_env =
  k_skb :: "nat \<Rightarrow> frame option"
  k_kmalloc :: "nat \<Rightarrow> frame option"
  k_user :: "u64 \<Rightarrow> u8 option"
  k_cmd :: bool

definition ETH_ZLEN :: nat where
  "ETH_ZLEN = 60"

text \<open>The \<open>i\<close>-th packet allocated by an operation.\<close>

definition omx_new_skb :: "kernel_env \<Rightarrow> nat \<Rightarrow> nat \<Rightarrow> sk_buff option" where
  "omx_new_skb k i len = (case k_skb k i of None \<Rightarrow> None | Some f \<Rightarrow> Some \<lparr>skb_len = len, skb_data = f\<rparr>)"

definition dev_queue_xmit :: "nat \<Rightarrow> sk_buff \<Rightarrow> omx_node \<Rightarrow> omx_node" where
  "dev_queue_xmit iface skb n = n\<lparr>xmit := xmit n @ [(iface, skb)]\<rparr>"

definition omx_iface_release :: "nat \<Rightarrow> omx_node \<Rightarrow> omx_node" where
  "omx_iface_release k n = upd_iface k (\<lambda>i. i\<lparr>if_refcount := if_refcount i - 1\<rparr>) n"

definition omx_iface_reacquire :: "nat \<Rightarrow> omx_node \<Rightarrow> omx_node" where
  "omx_iface_reacquire k n = upd_iface k (\<lambda>i. i\<lparr>if_refcount := if_refcount i + 1\<rparr>) n"

end
