(* ===== verification/Driver_Peer.thy ===== *)
theory Driver_Peer
  imports Driver_State
begin

text \<open>
  The peer table (\<^verbatim>\<open>driver/linux/omx_peer.c\<close>): an array of peers by index and hashed lists by address, the index this
  machine has in the table of each peer, and the queries for the names of the hosts. The allocations of
  \<^verbatim>\<open>omx_peer_add\<close> succeed or not according to two arguments. The timer of the queries counts as set until it is
  deleted, also between its expiry and the work it schedules. Messages and counters are left out.
\<close>

definition OMX_UNKNOWN_REVERSE_PEER_INDEX :: u32 where
  "OMX_UNKNOWN_REVERSE_PEER_INDEX = -1"

definition OMX_PEER_TABLE_STATUS_FULL :: u32 where
  "OMX_PEER_TABLE_STATUS_FULL = 2"

subsection \<open>Reverse indexes\<close>

text \<open>The loop over the interfaces.\<close>

fun init_peer_reverse_loop :: "nat option list \<Rightarrow> nat \<Rightarrow> u32 \<Rightarrow> omx_node \<Rightarrow> omx_node option" where
  "init_peer_reverse_loop [] index reverse n = Some n"
| "init_peer_reverse_loop (None # ks) index reverse n = init_peer_reverse_loop ks index reverse n"
| "init_peer_reverse_loop (Some k # ks) index reverse n = do {
     rs \<leftarrow> store index reverse (if_reverse_peer_indexes (n_iface n k));
     init_peer_reverse_loop ks index reverse (upd_iface k (\<lambda>i. i\<lparr>if_reverse_peer_indexes := rs\<rparr>) n)
   }"

definition omx_init_peer_reverse_indexes :: "u16 \<Rightarrow> bool \<Rightarrow> omx_node \<Rightarrow> omx_node option" where
  "omx_init_peer_reverse_indexes index local n =
    init_peer_reverse_loop (omx_ifaces n) (unat index)
      (if local then ucast index else OMX_UNKNOWN_REVERSE_PEER_INDEX) n"

fun init_iface_reverse_loop :: "nat option list \<Rightarrow> (nat \<Rightarrow> u16) \<Rightarrow> u32 list \<Rightarrow> u32 list option" where
  "init_iface_reverse_loop [] index_of rs = Some rs"
| "init_iface_reverse_loop (None # ks) index_of rs = init_iface_reverse_loop ks index_of rs"
| "init_iface_reverse_loop (Some k # ks) index_of rs = do {
     rs \<leftarrow> store (unat (index_of k)) (ucast (index_of k)) rs;
     init_iface_reverse_loop ks index_of rs
   }"

definition omx_init_iface_reverse_indexes :: "nat \<Rightarrow> omx_node \<Rightarrow> omx_node option" where
  "omx_init_iface_reverse_indexes k n = do {
     let index_of = (\<lambda>k. ucast (p_index (n_peer n (Iface_peer k))) :: u16);
     rs \<leftarrow> init_iface_reverse_loop (omx_ifaces n) index_of (replicate (omx_peer_max n) OMX_UNKNOWN_REVERSE_PEER_INDEX);
     let n = upd_iface k (\<lambda>i. i\<lparr>if_reverse_peer_indexes := rs\<rparr>) n;
     n \<leftarrow> omx_init_peer_reverse_indexes (index_of k) True n;
     rs \<leftarrow> store (unat (p_index (n_peer n (Iface_peer k)))) (p_index (n_peer n (Iface_peer k)))
       (if_reverse_peer_indexes (n_iface n k));
     Some (upd_iface k (\<lambda>i. i\<lparr>if_reverse_peer_indexes := rs\<rparr>) n)
   }"

subsection \<open>Lookup\<close>

definition omx_peer_addr_hash :: "u64 \<Rightarrow> u8" where
  "omx_peer_addr_hash board_addr =
    (let tmp24 = (ucast (board_addr XOR drop_bit 24 board_addr) :: u32)
     in ucast (tmp24 XOR drop_bit 8 tmp24 XOR drop_bit 16 tmp24))"

definition omx_peer_lookup_by_addr_locked :: "u64 \<Rightarrow> omx_node \<Rightarrow> peer_ref option" where
  "omx_peer_lookup_by_addr_locked board_addr n =
    find (\<lambda>p. p_board_addr (n_peer n p) = board_addr) (omx_peer_addr_hash_array n (omx_peer_addr_hash board_addr))"

definition omx_peer_lookup_by_addr :: "u64 \<Rightarrow> omx_node \<Rightarrow> omx_errno + (u32 \<times> u8 list)" where
  "omx_peer_lookup_by_addr board_addr n =
    (case omx_peer_lookup_by_addr_locked board_addr n of
       None \<Rightarrow> Inl EINVAL
     | Some p \<Rightarrow> Inr (p_index (n_peer n p), case p_hostname (n_peer n p) of None \<Rightarrow> [] | Some h \<Rightarrow> h))"

definition peer_at :: "nat \<Rightarrow> omx_node \<Rightarrow> peer_ref option" where
  "peer_at index n = (if omx_peer_max n \<le> index then None else omx_peer_array n ! index)"

definition omx_peer_lookup_by_index :: "u32 \<Rightarrow> omx_node \<Rightarrow> omx_errno + (u64 \<times> u8 list)" where
  "omx_peer_lookup_by_index index n =
    (case peer_at (unat index) n of
       None \<Rightarrow> Inl EINVAL
     | Some p \<Rightarrow> Inr (p_board_addr (n_peer n p), case p_hostname (n_peer n p) of None \<Rightarrow> [] | Some h \<Rightarrow> h))"

definition omx_peer_lookup_by_hostname :: "u8 list \<Rightarrow> omx_node \<Rightarrow> omx_errno + (u64 \<times> nat)" where
  "omx_peer_lookup_by_hostname hostname n =
    (case find (\<lambda>i. case omx_peer_array n ! i of None \<Rightarrow> False | Some p \<Rightarrow> p_hostname (n_peer n p) = Some hostname)
       [0..<omx_peer_max n] of
       None \<Rightarrow> Inl EINVAL
     | Some i \<Rightarrow> Inr (p_board_addr (n_peer n (the (omx_peer_array n ! i))), i))"

definition omx_check_recv_peer_index :: "u16 \<Rightarrow> omx_node \<Rightarrow> bool" where
  "omx_check_recv_peer_index index n \<longleftrightarrow> peer_at (unat index) n \<noteq> None"

text \<open>The header of an outgoing packet: the address of the peer and our index in its table.\<close>

definition omx_set_target_peer :: "nat \<Rightarrow> u16 \<Rightarrow> omx_node \<Rightarrow> frame \<Rightarrow> frame option" where
  "omx_set_target_peer k index n f =
    (case peer_at (unat index) n of
       None \<Rightarrow> None
     | Some p \<Rightarrow> Some (OMX_HTON_16 14 (ucast (if_reverse_peer_indexes (n_iface n k) ! unat index))
                  (omx_board_addr_to_ethhdr_dst (p_board_addr (n_peer n p)) f)))"

definition omx_peer_set_reverse_index :: "peer_ref \<Rightarrow> nat \<Rightarrow> u16 \<Rightarrow> omx_node \<Rightarrow> omx_node option" where
  "omx_peer_set_reverse_index p k reverse_index n = do {
     let index = unat (p_index (n_peer n p));
     let rs = if_reverse_peer_indexes (n_iface n k);
     (if length rs \<le> index then None
      else if ucast reverse_index \<noteq> rs ! index
      then Some (upd_iface k (\<lambda>i. i\<lparr>if_reverse_peer_indexes := rs[index := ucast reverse_index]\<rparr>) n)
      else Some n)
   }"

definition omx_iface_find_by_addr :: "u64 \<Rightarrow> omx_node \<Rightarrow> nat option" where
  "omx_iface_find_by_addr addr n =
    (case find (\<lambda>i. case i of None \<Rightarrow> False | Some k \<Rightarrow> p_board_addr (n_peer n (Iface_peer k)) = addr) (omx_ifaces n) of
       None \<Rightarrow> None | Some i \<Rightarrow> i)"

subsection \<open>Queries for host names\<close>

definition host_query_frame :: "u64 \<Rightarrow> u16 \<Rightarrow> u32 \<Rightarrow> frame \<Rightarrow> frame" where
  "host_query_frame peer_addr peer_index magic f =
    omx_board_addr_to_ethhdr_dst peer_addr (OMX_HTON_16 12 0x86DF
      (OMX_HTON_32 24 magic (OMX_HTON_16 18 peer_index (OMX_HTON_8 16 OMX_PKT_TYPE_HOST_QUERY f))))"

text \<open>Sent on every interface; a copy that cannot be allocated ends the loop.\<close>

fun host_query_send_loop :: "kernel_env \<Rightarrow> nat \<Rightarrow> nat option list \<Rightarrow> frame \<Rightarrow> omx_node \<Rightarrow> omx_node" where
  "host_query_send_loop env i [] f n = n"
| "host_query_send_loop env i (None # ks) f n = host_query_send_loop env i ks f n"
| "host_query_send_loop env i (Some k # ks) f n =
    (case k_skb env i of
       None \<Rightarrow> n
     | Some _ \<Rightarrow> host_query_send_loop env (Suc i) ks f
         (dev_queue_xmit k \<lparr>skb_len = ETH_ZLEN, skb_data = fill_ethhdr (if_dev_addr (n_iface n k)) f\<rparr> n))"

definition omx_peer_host_query :: "kernel_env \<Rightarrow> peer_ref \<Rightarrow> omx_node \<Rightarrow> omx_node" where
  "omx_peer_host_query env p n =
    (case k_skb env 0 of
       None \<Rightarrow> n
     | Some f \<Rightarrow> host_query_send_loop env 1 (omx_ifaces n)
         (host_query_frame (p_board_addr (n_peer n p)) (ucast (p_index (n_peer n p))) (omx_host_query_magic n) f) n)"

definition del_host_query :: "peer_ref \<Rightarrow> omx_node \<Rightarrow> omx_node" where
  "del_host_query p n =
    (let n = n\<lparr>omx_host_query_peer_list := remove1 p (omx_host_query_peer_list n)\<rparr>
     in if omx_host_query_peer_list n = [] then n\<lparr>omx_host_query_timer := False\<rparr> else n)"

definition add_host_query :: "peer_ref \<Rightarrow> omx_node \<Rightarrow> omx_node" where
  "add_host_query p n =
    (let listwasempty = (omx_host_query_peer_list n = []);
         n = n\<lparr>omx_host_query_peer_list := omx_host_query_peer_list n @ [p]\<rparr>
     in if listwasempty then n\<lparr>omx_host_query_timer := True\<rparr> else n)"

definition omx_host_query_workfunc :: "(nat \<Rightarrow> kernel_env) \<Rightarrow> omx_node \<Rightarrow> omx_node" where
  "omx_host_query_workfunc envs n =
    (if omx_host_query_peer_list n \<noteq> []
     then (fold (\<lambda>(i, p). omx_peer_host_query (envs i) p) (enumerate 0 (omx_host_query_peer_list n)) n)\<lparr>omx_host_query_timer := True\<rparr>
     else n)"

subsection \<open>The peer table\<close>

fun clear_loop :: "bool \<Rightarrow> nat list \<Rightarrow> omx_node \<Rightarrow> omx_node option" where
  "clear_loop local [] n = Some n"
| "clear_loop local (i # is) n =
    (case omx_peer_array n ! i of
       None \<Rightarrow> clear_loop local is n
     | Some p \<Rightarrow>
         if p_local_iface (n_peer n p) \<noteq> None \<and> \<not> local then clear_loop local is n
         else do {
           let hash = omx_peer_addr_hash (p_board_addr (n_peer n p));
           let n = n\<lparr>omx_peer_addr_hash_array :=
                       (omx_peer_addr_hash_array n)(hash := remove1 p (omx_peer_addr_hash_array n hash)),
                     omx_peer_array := (omx_peer_array n)[i := None]\<rparr>;
           (case p_local_iface (n_peer n p) of
              Some k \<Rightarrow>
                if p_hostname (n_peer n p) = None then None
                else clear_loop local is (omx_iface_release k
                  (upd_peer p (\<lambda>q. q\<lparr>p_index := OMX_UNKNOWN_REVERSE_PEER_INDEX, p_local_iface := None\<rparr>) n))
            | None \<Rightarrow>
                let n = (if p_hostname (n_peer n p) = None then del_host_query p n else n)
                in clear_loop local is (n\<lparr>peers_freed := p # peers_freed n\<rparr>))
         })"

text \<open>Local interfaces move back to the beginning.\<close>

fun compact_loop :: "nat list \<Rightarrow> omx_node \<Rightarrow> omx_node" where
  "compact_loop [] n = n"
| "compact_loop (i # is) n =
    (case omx_peer_array n ! i of
       None \<Rightarrow> compact_loop is n
     | Some p \<Rightarrow>
         let next = omx_peer_next_nr n;
             n = (if i \<noteq> next
                  then (upd_peer p (\<lambda>q. q\<lparr>p_index := of_nat next\<rparr>) n)
                         \<lparr>omx_peer_array := (omx_peer_array n)[next := Some p, i := None]\<rparr>
                  else n)
         in compact_loop is (n\<lparr>omx_peer_next_nr := next + 1\<rparr>))"

definition omx_peers_clear :: "bool \<Rightarrow> omx_node \<Rightarrow> omx_node option" where
  "omx_peers_clear local n = do {
     n \<leftarrow> clear_loop local [0..<omx_peer_max n] n;
     let n = n\<lparr>omx_peer_next_nr := 0, omx_peer_table_full := False,
               peer_table_status := peer_table_status n AND NOT OMX_PEER_TABLE_STATUS_FULL\<rparr>;
     (if local then Some n
      else
        (let n = compact_loop [0..<omx_peer_max n] n
         in if omx_peer_next_nr n = omx_peer_max n
            then Some (n\<lparr>omx_peer_table_full := True, peer_table_status := peer_table_status n OR OMX_PEER_TABLE_STATUS_FULL\<rparr>)
            else Some n))
   }"

text \<open>The last part of \<^verbatim>\<open>omx_peer_add\<close>: a new peer gets an index and is hashed.\<close>

definition peer_insert :: "peer_ref \<Rightarrow> bool \<Rightarrow> omx_node \<Rightarrow> omx_node option" where
  "peer_insert p local n = do {
     let index = omx_peer_next_nr n;
     let n = upd_peer p (\<lambda>q. q\<lparr>p_index := of_nat index\<rparr>) n;
     n \<leftarrow> omx_init_peer_reverse_indexes (of_nat index) local n;
     let hash = omx_peer_addr_hash (p_board_addr (n_peer n p));
     array \<leftarrow> store index (Some p) (omx_peer_array n);
     Some (n\<lparr>omx_peer_addr_hash_array := (omx_peer_addr_hash_array n)(hash := omx_peer_addr_hash_array n hash @ [p]),
             omx_peer_array := array, omx_peer_next_nr := index + 1\<rparr>)
   }"

definition add_local_iface :: "nat \<Rightarrow> u8 list option \<Rightarrow> omx_node \<Rightarrow> omx_node option" where
  "add_local_iface k new_hostname n =
    (let p = Iface_peer k;
         n = omx_iface_reacquire k n;
         upd_name = (\<lambda>n. case new_hostname of
           None \<Rightarrow> Some n
         | Some h \<Rightarrow> if p_hostname (n_peer n p) = None then None else Some (upd_peer p (\<lambda>q. q\<lparr>p_hostname := Some h\<rparr>) n))
     in if p_index (n_peer n p) \<noteq> OMX_UNKNOWN_REVERSE_PEER_INDEX then
          (if p_local_iface (n_peer n p) \<noteq> Some k then None else upd_name (omx_iface_release k n))
        else
          (if p_local_iface (n_peer n p) \<noteq> None then None
           else upd_name (upd_peer p (\<lambda>q. q\<lparr>p_local_iface := Some k\<rparr>) n)))"

definition rename_peer :: "peer_ref \<Rightarrow> u8 list option \<Rightarrow> omx_node \<Rightarrow> bool \<times> omx_node" where
  "rename_peer p new_hostname n =
    (let old_hostname = p_hostname (n_peer n p);
         (needshostquery, n) =
           (if old_hostname = None \<and> new_hostname \<noteq> None then (False, del_host_query p n)
            else if old_hostname \<noteq> None \<and> new_hostname = None then (True, add_host_query p n)
            else (False, n))
     in (needshostquery, upd_peer p (\<lambda>q. q\<lparr>p_hostname := new_hostname\<rparr>) n))"

definition omx_peer_add ::
  "kernel_env \<Rightarrow> bool \<Rightarrow> bool \<Rightarrow> u64 \<Rightarrow> u8 list option \<Rightarrow> omx_node \<Rightarrow> (omx_errno option \<times> omx_node) option" where
  "omx_peer_add env strdup_ok kmalloc_ok board_addr hostname n =
    (if hostname \<noteq> None \<and> \<not> strdup_ok then Some (Some ENOMEM, n)
     else
       (let already_hashed = omx_peer_lookup_by_addr_locked board_addr n
        in if already_hashed = None \<and> omx_peer_next_nr n = omx_peer_max n
           then Some (Some ENOMEM, n\<lparr>omx_peer_table_full := True,
                  peer_table_status := peer_table_status n OR OMX_PEER_TABLE_STATUS_FULL\<rparr>)
           else case omx_iface_find_by_addr board_addr n of
             Some k \<Rightarrow> do {
               n \<leftarrow> add_local_iface k hostname n;
               n \<leftarrow> (if already_hashed = None then peer_insert (Iface_peer k) True n else Some n);
               Some (None, n)
             }
           | None \<Rightarrow>
             (case already_hashed of
                Some p \<Rightarrow>
                  (let (needshostquery, n) = rename_peer p hostname n
                   in Some (None, if needshostquery then omx_peer_host_query env p n else n))
              | None \<Rightarrow>
                  if \<not> kmalloc_ok then Some (Some ENOMEM, n)
                  else do {
                    let p = Peer (peers_allocated n);
                    let n = upd_peer p (\<lambda>_. \<lparr>p_board_addr = board_addr, p_hostname = hostname, p_index = 0, p_local_iface = None\<rparr>)
                              (n\<lparr>peers_allocated := peers_allocated n + 1\<rparr>);
                    let n = (if hostname = None then add_host_query p n else n);
                    n \<leftarrow> peer_insert p False n;
                    Some (None, if hostname = None then omx_peer_host_query env p n else n)
                  })))"

subsection \<open>Local interfaces\<close>

definition attach_replace :: "nat \<Rightarrow> peer_ref \<Rightarrow> omx_node \<Rightarrow> omx_node option" where
  "attach_replace k oldpeer n = do {
     let p = Iface_peer k;
     let hash = omx_peer_addr_hash (p_board_addr (n_peer n p));
     (if p_local_iface (n_peer n p) \<noteq> None then None else Some ());
     let index = p_index (n_peer n oldpeer);
     let n = omx_iface_reacquire k n;
     n \<leftarrow> omx_init_iface_reverse_indexes k (upd_peer p (\<lambda>q. q\<lparr>p_index := index\<rparr>) n);
     let n = upd_peer p (\<lambda>q. q\<lparr>p_local_iface := Some k\<rparr>) n;
     let n = (case p_hostname (n_peer n oldpeer) of
                Some h \<Rightarrow> upd_peer oldpeer (\<lambda>q. q\<lparr>p_hostname := None\<rparr>) (upd_peer p (\<lambda>q. q\<lparr>p_hostname := Some h\<rparr>) n)
              | None \<Rightarrow> del_host_query oldpeer n);
     array \<leftarrow> store (unat index) (Some p) (omx_peer_array n);
     Some (n\<lparr>omx_peer_addr_hash_array := (omx_peer_addr_hash_array n)(hash :=
               map (\<lambda>q. if q = oldpeer then p else q) (omx_peer_addr_hash_array n hash)),
             omx_peer_array := array, peers_freed := oldpeer # peers_freed n\<rparr>)
   }"

definition attach_insert :: "nat \<Rightarrow> omx_node \<Rightarrow> omx_node option" where
  "attach_insert k n = do {
     let p = Iface_peer k;
     let hash = omx_peer_addr_hash (p_board_addr (n_peer n p));
     let index = omx_peer_next_nr n;
     let n = upd_peer p (\<lambda>q. q\<lparr>p_local_iface := Some k, p_index := of_nat index\<rparr>) n;
     n \<leftarrow> omx_init_iface_reverse_indexes k n;
     let n = omx_iface_reacquire k n;
     array \<leftarrow> store index (Some p) (omx_peer_array n);
     Some (n\<lparr>omx_peer_addr_hash_array := (omx_peer_addr_hash_array n)(hash := omx_peer_addr_hash_array n hash @ [p]),
             omx_peer_array := array, omx_peer_next_nr := index + 1\<rparr>)
   }"

definition omx_peers_notify_iface_attach :: "nat \<Rightarrow> omx_node \<Rightarrow> (omx_errno option \<times> omx_node) option" where
  "omx_peers_notify_iface_attach k n =
    (case omx_peer_lookup_by_addr_locked (p_board_addr (n_peer n (Iface_peer k))) n of
       Some oldpeer \<Rightarrow> map_option (Pair None) (attach_replace k oldpeer n)
     | None \<Rightarrow>
         if omx_peer_next_nr n = omx_peer_max n
         then Some (Some ENOMEM, n\<lparr>omx_peer_table_full := True,
                peer_table_status := peer_table_status n OR OMX_PEER_TABLE_STATUS_FULL\<rparr>)
         else map_option (Pair None) (attach_insert k n))"

definition omx_peers_notify_iface_detach :: "nat \<Rightarrow> omx_node \<Rightarrow> omx_node option" where
  "omx_peers_notify_iface_detach k n =
    (let p = Iface_peer k; index = p_index (n_peer n p)
     in if index = OMX_UNKNOWN_REVERSE_PEER_INDEX then Some n
        else do {
          let hash = omx_peer_addr_hash (p_board_addr (n_peer n p));
          array \<leftarrow> store (unat index) None (omx_peer_array n);
          let n = n\<lparr>omx_peer_addr_hash_array := (omx_peer_addr_hash_array n)(hash :=
                      remove1 p (omx_peer_addr_hash_array n hash)), omx_peer_array := array\<rparr>;
          let n = upd_peer p (\<lambda>q. q\<lparr>p_index := OMX_UNKNOWN_REVERSE_PEER_INDEX, p_local_iface := None\<rparr>) n;
          Some (omx_iface_release k n)
        })"

subsection \<open>Names\<close>

fun clear_names_loop :: "(nat \<Rightarrow> kernel_env) \<Rightarrow> nat list \<Rightarrow> omx_node \<Rightarrow> omx_node" where
  "clear_names_loop envs [] n = n"
| "clear_names_loop envs (i # is) n =
    (case omx_peer_array n ! i of
       None \<Rightarrow> clear_names_loop envs is n
     | Some p \<Rightarrow>
         if p_hostname (n_peer n p) = None \<or> p_local_iface (n_peer n p) \<noteq> None then clear_names_loop envs is n
         else
           (let n = upd_peer p (\<lambda>q. q\<lparr>p_hostname := None\<rparr>) n;
                n = n\<lparr>omx_host_query_peer_list := omx_host_query_peer_list n @ [p]\<rparr>
            in clear_names_loop envs is (omx_peer_host_query (envs i) p n)))"

definition omx_peers_clear_names :: "(nat \<Rightarrow> kernel_env) \<Rightarrow> omx_node \<Rightarrow> omx_node" where
  "omx_peers_clear_names envs n =
    (let listwasempty = (omx_host_query_peer_list n = []);
         n = clear_names_loop envs [0..<omx_peer_max n] n;
         n = (if listwasempty \<and> omx_host_query_peer_list n \<noteq> [] then n\<lparr>omx_host_query_timer := True\<rparr> else n)
     in n\<lparr>omx_host_query_magic := omx_host_query_magic n + 1\<rparr>)"

text \<open>\<^verbatim>\<open>memcmp\<close> of the destination address with the address of the interface.\<close>

definition omx_recv_host_query :: "nat \<Rightarrow> sk_buff \<Rightarrow> omx_node \<Rightarrow> omx_node" where
  "omx_recv_host_query k skb n =
    (if map (skb_data skb) [0..<6] \<noteq> take 6 (if_dev_addr (n_iface n k)) then n
     else n\<lparr>omx_host_query_list := omx_host_query_list n @ [(k, skb)]\<rparr>)"

definition omx_recv_host_reply :: "nat \<Rightarrow> sk_buff \<Rightarrow> omx_node \<Rightarrow> omx_node" where
  "omx_recv_host_reply k skb n =
    (if OMX_NTOH_32 24 (skb_data skb) \<noteq> omx_host_query_magic n then n
     else n\<lparr>omx_host_reply_list := omx_host_reply_list n @ [(k, skb)]\<rparr>)"

text \<open>
  The packets that wait to be processed do not hold a reference on their interface; \<open>None\<close> when it has been freed.
\<close>

definition live_iface :: "nat \<Rightarrow> omx_node \<Rightarrow> omx_iface option" where
  "live_iface k n = (if if_refcount (n_iface n k) = 0 then None else Some (n_iface n k))"

text \<open>The string in a buffer, and a reply. A length of 0 writes in front of the buffer.\<close>

definition c_string :: "u8 list \<Rightarrow> u8 list" where
  "c_string bs = takeWhile (\<lambda>b. b \<noteq> 0) bs"

definition process_host_reply :: "kernel_env \<Rightarrow> nat \<Rightarrow> sk_buff \<Rightarrow> omx_node \<Rightarrow> omx_node option" where
  "process_host_reply env k skb n =
    (case omx_peer_lookup_by_addr_locked (omx_board_addr_from_ethhdr_src (skb_data skb)) n of
       None \<Rightarrow> do { iface \<leftarrow> live_iface k n; Some n }
     | Some p \<Rightarrow>
         (let len = unat (OMX_NTOH_8 17 (skb_data skb))
          in case k_kmalloc env 0 of
               None \<Rightarrow> Some n
             | Some buf \<Rightarrow>
                 if len = 0 then None
                 else do {
                   let bytes = (if 32 + len \<le> skb_len skb then skb_copy_bits 32 len (skb_data skb) else map buf [0..<len]);
                   let n = (if p_hostname (n_peer n p) = None then del_host_query p n else n);
                   let n = upd_peer p (\<lambda>q. q\<lparr>p_hostname := Some (c_string (take (len - 1) bytes))\<rparr>) n;
                   iface \<leftarrow> live_iface k n;
                   omx_peer_set_reverse_index p k (OMX_NTOH_16 18 (skb_data skb)) n
                 }))"

definition host_reply_frame :: "u8 list \<Rightarrow> u8 list \<Rightarrow> u16 \<Rightarrow> frame \<Rightarrow> frame \<Rightarrow> frame" where
  "host_reply_frame dev_addr hostname peer_index in_f f =
    (let f = OMX_HTON_8 17 (of_nat (length hostname + 1)) (OMX_HTON_8 16 OMX_PKT_TYPE_HOST_REPLY f);
         f = OMX_HTON_32 24 (OMX_NTOH_32 24 in_f) (OMX_HTON_16 18 peer_index f);
         f = fill_ethhdr dev_addr (put_data 32 (hostname @ [0]) f)
     in f(0 := in_f 6, 1 := in_f 7, 2 := in_f 8, 3 := in_f 9, 4 := in_f 10, 5 := in_f 11))"

definition process_host_query :: "kernel_env \<Rightarrow> nat \<Rightarrow> sk_buff \<Rightarrow> omx_node \<Rightarrow> omx_node option" where
  "process_host_query env k skb n = do {
     iface \<leftarrow> live_iface k n;
     hostname \<leftarrow> p_hostname (n_peer n (Iface_peer k));
     (case omx_peer_lookup_by_addr_locked (omx_board_addr_from_ethhdr_src (skb_data skb)) n of
        None \<Rightarrow> Some n
      | Some p \<Rightarrow> do {
          n \<leftarrow> omx_peer_set_reverse_index p k (OMX_NTOH_16 18 (skb_data skb)) n;
          (case omx_new_skb env 0 (ETH_ZLEN + length hostname + 1) of
             None \<Rightarrow> Some n
           | Some out_skb \<Rightarrow>
               Some (dev_queue_xmit k (out_skb\<lparr>skb_data := host_reply_frame (if_dev_addr iface) hostname
                 (ucast (p_index (n_peer n p))) (skb_data skb) (skb_data out_skb)\<rparr>) n))
        })
   }"

text \<open>All the replies that were received, then all the queries; \<open>envs\<close> gives the memory for each of them.\<close>

fun process_loop :: "(kernel_env \<Rightarrow> nat \<Rightarrow> sk_buff \<Rightarrow> omx_node \<Rightarrow> omx_node option) \<Rightarrow>
    (nat \<Rightarrow> kernel_env) \<Rightarrow> nat \<Rightarrow> (nat \<times> sk_buff) list \<Rightarrow> omx_node \<Rightarrow> omx_node option" where
  "process_loop f envs i [] n = Some n"
| "process_loop f envs i ((k, skb) # skbs) n = do {
     n \<leftarrow> f (envs i) k skb n;
     process_loop f envs (Suc i) skbs n
   }"

definition omx_process_host_queries_and_replies_workfunc :: "(nat \<Rightarrow> kernel_env) \<Rightarrow> omx_node \<Rightarrow> omx_node option" where
  "omx_process_host_queries_and_replies_workfunc envs n = do {
     let replies = omx_host_reply_list n;
     n \<leftarrow> process_loop process_host_reply envs 0 replies (n\<lparr>omx_host_reply_list := []\<rparr>);
     let queries = omx_host_query_list n;
     process_loop process_host_query envs (length replies) queries (n\<lparr>omx_host_query_list := []\<rparr>)
   }"

subsection \<open>Initialisation\<close>

definition omx_peers_init :: "nat \<Rightarrow> omx_node \<Rightarrow> omx_node" where
  "omx_peers_init peer_max n = n\<lparr>omx_host_query_list := [], omx_host_reply_list := [], omx_peer_next_nr := 0,
     omx_peer_table_full := False, peer_table_status := peer_table_status n AND NOT OMX_PEER_TABLE_STATUS_FULL,
     omx_peer_array := replicate peer_max None, omx_peer_addr_hash_array := (\<lambda>_. []),
     omx_host_query_peer_list := [], omx_host_query_timer := False\<rparr>"

definition omx_peers_exit :: "omx_node \<Rightarrow> omx_node option" where
  "omx_peers_exit n = do {
     n \<leftarrow> omx_peers_clear True n;
     (if omx_host_query_peer_list n \<noteq> [] then None
      else Some (n\<lparr>omx_host_query_timer := False, omx_host_query_list := [], omx_host_reply_list := []\<rparr>))
   }"

end
