(* ===== verification/Driver_Iface.thy ===== *)
theory Driver_Iface
  imports Driver_Peer
begin

text \<open>
  Attaching and detaching interfaces (\<^verbatim>\<open>driver/linux/omx_iface.c\<close>) and the life of endpoints
  (\<^verbatim>\<open>driver/linux/omx_iface.c\<close>, \<^verbatim>\<open>driver/linux/omx_dev.c\<close>). The structure of an endpoint is allocated when the device is
  opened and freed with its last reference; an access to a freed one is \<open>None\<close>. Messages, counters, raw
  endpoints and the flags of the network device are left out.
\<close>

subsection \<open>Interfaces\<close>

definition omx_iface_find_by_ifp :: "nat \<Rightarrow> omx_node \<Rightarrow> nat option" where
  "omx_iface_find_by_ifp ifp n =
    (case find (\<lambda>i. case i of None \<Rightarrow> False | Some k \<Rightarrow> if_eth_ifp (n_iface n k) = ifp) (omx_ifaces n) of
       None \<Rightarrow> None | Some i \<Rightarrow> i)"

text \<open>The structure that is allocated gets the number \<open>k\<close>; its array of reverse indexes is filled by the peer table.\<close>

definition new_iface :: "nat \<Rightarrow> nat \<Rightarrow> u8 list \<Rightarrow> u32 list \<Rightarrow> nat \<Rightarrow> omx_iface" where
  "new_iface slot ifp dev_addr junk endpoint_max =
    \<lparr>if_index = slot, if_eth_ifp = ifp, if_dev_addr = dev_addr, if_reverse_peer_indexes = junk,
     if_status = OMX_IFACE_STATUS_OK, if_refcount = 1, if_endpoint_nr = 0, if_endpoints = replicate endpoint_max None\<rparr>"

definition omx_iface_attach ::
  "bool \<Rightarrow> nat \<Rightarrow> nat \<Rightarrow> u8 list \<Rightarrow> u8 list \<Rightarrow> omx_node \<Rightarrow> (omx_errno option \<times> omx_node) option" where
  "omx_iface_attach mem_ok k ifp dev_addr hostname n =
    (if omx_iface_nr n = length (omx_ifaces n) then Some (Some EBUSY, n)
     else if omx_iface_find_by_ifp ifp n \<noteq> None then Some (Some EBUSY, n)
     else if \<not> mem_ok then Some (Some ENOMEM, n)
     else do {
       let slot = length (takeWhile (\<lambda>i. i \<noteq> None) (omx_ifaces n));
       let n = upd_iface k (\<lambda>_. new_iface slot ifp dev_addr (replicate (omx_peer_max n) 0) (omx_endpoint_max n)) n;
       let n = upd_peer (Iface_peer k) (\<lambda>_. \<lparr>p_board_addr = omx_board_addr_from_netdevice dev_addr, p_hostname = Some hostname,
                 p_index = OMX_UNKNOWN_REVERSE_PEER_INDEX, p_local_iface = None\<rparr>) n;
       (err, n) \<leftarrow> omx_peers_notify_iface_attach k n;
       (if err \<noteq> None then Some (err, n)
        else do {
          ifaces \<leftarrow> store slot (Some k) (omx_ifaces n);
          Some (None, n\<lparr>omx_ifaces := ifaces, omx_iface_nr := omx_iface_nr n + 1\<rparr>)
        })
     })"

subsection \<open>Endpoints\<close>

definition live_endpoint :: "nat \<Rightarrow> omx_node \<Rightarrow> d_endpoint option" where
  "live_endpoint e n = (if de_freed (n_endpoint n e) then None else Some (n_endpoint n e))"

definition omx_miscdev_open :: "nat \<Rightarrow> omx_node \<Rightarrow> omx_node" where
  "omx_miscdev_open e n =
    upd_endpoint e (\<lambda>ep. ep\<lparr>de_refcount := 1, de_status := OMX_ENDPOINT_STATUS_FREE, de_freed := False\<rparr>) n"

text \<open>\<^verbatim>\<open>kref_put\<close> with \<^verbatim>\<open>__omx_endpoint_last_release\<close>.\<close>

definition omx_endpoint_release :: "nat \<Rightarrow> omx_node \<Rightarrow> omx_node option" where
  "omx_endpoint_release e n = do {
     ep \<leftarrow> live_endpoint e n;
     let n = upd_endpoint e (\<lambda>ep. ep\<lparr>de_refcount := de_refcount ep - 1\<rparr>) n;
     (if de_refcount ep > 1 then Some n
      else do {
        k \<leftarrow> de_iface ep;
        Some (omx_iface_release k (upd_endpoint e (\<lambda>ep. ep\<lparr>de_iface := None, de_freed := True\<rparr>) n))
      })
   }"

definition omx_iface_attach_endpoint :: "nat \<Rightarrow> omx_node \<Rightarrow> (omx_errno option \<times> omx_node) option" where
  "omx_iface_attach_endpoint e n = do {
     ep \<leftarrow> live_endpoint e n;
     let index = unat (de_endpoint_index ep);
     (if de_status ep \<noteq> OMX_ENDPOINT_STATUS_INITIALIZING then None
      else if index \<ge> omx_endpoint_max n then Some (Some EINVAL, n)
      else if de_board_index ep \<ge> length (omx_ifaces n) then Some (Some EINVAL, n)
      else case omx_ifaces n ! de_board_index ep of
        None \<Rightarrow> Some (Some ENODEV, n)
      | Some k \<Rightarrow>
          if if_status (n_iface n k) \<noteq> OMX_IFACE_STATUS_OK then Some (Some ENODEV, n)
          else if if_endpoints (n_iface n k) ! index \<noteq> None then Some (Some EBUSY, n)
          else
            (let n = omx_iface_reacquire k n;
                 n = upd_iface k (\<lambda>i. i\<lparr>if_endpoints := (if_endpoints i)[index := Some e], if_endpoint_nr := if_endpoint_nr i + 1\<rparr>) n
             in Some (None, upd_endpoint e (\<lambda>ep. ep\<lparr>de_iface := Some k, de_status := OMX_ENDPOINT_STATUS_OK\<rparr>) n)))
   }"

definition omx_endpoint_open ::
  "kernel_env \<Rightarrow> bool \<Rightarrow> nat \<Rightarrow> nat \<Rightarrow> u8 \<Rightarrow> u32 \<Rightarrow> driver_eventqs \<Rightarrow> omx_node \<Rightarrow> (omx_errno option \<times> omx_node) option" where
  "omx_endpoint_open env alloc_ok e board_index endpoint_index session queues n = do {
     ep \<leftarrow> live_endpoint e n;
     (if \<not> k_cmd env then Some (Some EFAULT, n)
      else if de_status ep \<noteq> OMX_ENDPOINT_STATUS_FREE then Some (Some EBUSY, n)
      else if \<not> alloc_ok then Some (Some ENOMEM, n)
      else do {
        let n = upd_endpoint e (\<lambda>ep. ep\<lparr>de_status := OMX_ENDPOINT_STATUS_INITIALIZING, de_session_id := session,
                  de_queues := queues, de_board_index := board_index, de_endpoint_index := endpoint_index\<rparr>) n;
        (err, n) \<leftarrow> omx_iface_attach_endpoint e n;
        (if err \<noteq> None then Some (err, upd_endpoint e (\<lambda>ep. ep\<lparr>de_status := OMX_ENDPOINT_STATUS_FREE\<rparr>) n)
         else Some (None, n))
      })
   }"

definition omx_iface_detach_endpoint :: "nat \<Rightarrow> omx_node \<Rightarrow> omx_node option" where
  "omx_iface_detach_endpoint e n = do {
     ep \<leftarrow> live_endpoint e n;
     k \<leftarrow> de_iface ep;
     let index = unat (de_endpoint_index ep);
     (if de_status ep \<noteq> OMX_ENDPOINT_STATUS_CLOSING then None
      else if index \<ge> length (if_endpoints (n_iface n k)) \<or> if_endpoints (n_iface n k) ! index \<noteq> Some e then None
      else Some (upd_iface k (\<lambda>i. i\<lparr>if_endpoints := (if_endpoints i)[index := None], if_endpoint_nr := if_endpoint_nr i - 1\<rparr>) n))
   }"

definition omx_endpoint_close :: "nat \<Rightarrow> omx_node \<Rightarrow> (omx_errno option \<times> omx_node) option" where
  "omx_endpoint_close e n = do {
     ep \<leftarrow> live_endpoint e n;
     (if de_status ep = OMX_ENDPOINT_STATUS_FREE then Some (None, upd_endpoint e (\<lambda>ep. ep\<lparr>de_freed := True\<rparr>) n)
      else if de_status ep \<noteq> OMX_ENDPOINT_STATUS_OK then Some (Some EINVAL, n)
      else do {
        let n = upd_endpoint e (\<lambda>ep. ep\<lparr>de_status := OMX_ENDPOINT_STATUS_CLOSING\<rparr>) n;
        let n = upd_endpoint e (\<lambda>ep. ep\<lparr>de_queues := omx_wakeup_endpoint_on_close (de_queues ep)\<rparr>) n;
        n \<leftarrow> omx_iface_detach_endpoint e n;
        n \<leftarrow> omx_endpoint_release e n;
        Some (None, n)
      })
   }"

definition omx_miscdev_release :: "nat \<Rightarrow> omx_node \<Rightarrow> omx_node option" where
  "omx_miscdev_release e n = map_option snd (omx_endpoint_close e n)"

text \<open>The error is the one of \<^verbatim>\<open>ERR_PTR\<close>.\<close>

definition omx_endpoint_acquire_by_iface_index :: "nat \<Rightarrow> u8 \<Rightarrow> omx_node \<Rightarrow> omx_errno + nat" where
  "omx_endpoint_acquire_by_iface_index k index n =
    (if unat index \<ge> omx_endpoint_max n then Inl EINVAL
     else case if_endpoints (n_iface n k) ! unat index of
       None \<Rightarrow> Inl ENOENT
     | Some e \<Rightarrow> if de_status (n_endpoint n e) \<noteq> OMX_ENDPOINT_STATUS_OK then Inl ENOENT else Inr e)"

definition endpoint_error_to_nack_type :: "omx_errno \<Rightarrow> omx_nack_type" where
  "endpoint_error_to_nack_type err = (if err = EINVAL then OMX_NACK_TYPE_BAD_ENDPT else OMX_NACK_TYPE_ENDPT_CLOSED)"

text \<open>The endpoint of a peer of this machine; \<open>None\<close> when the peer is not local.\<close>

definition omx_local_peer_acquire_endpoint :: "u16 \<Rightarrow> u8 \<Rightarrow> omx_node \<Rightarrow> (omx_errno + nat) option" where
  "omx_local_peer_acquire_endpoint peer_index endpoint_index n =
    (case peer_at (unat peer_index) n of
       None \<Rightarrow> None
     | Some p \<Rightarrow>
         (case p_local_iface (n_peer n p) of
            None \<Rightarrow> None
          | Some k \<Rightarrow> Some (omx_endpoint_acquire_by_iface_index k endpoint_index n)))"

subsection \<open>Detaching an interface\<close>

fun close_endpoints_loop :: "nat \<Rightarrow> nat list \<Rightarrow> omx_node \<Rightarrow> omx_node option" where
  "close_endpoints_loop k [] n = Some n"
| "close_endpoints_loop k (i # is) n =
    (case if_endpoints (n_iface n k) ! i of
       None \<Rightarrow> close_endpoints_loop k is n
     | Some e \<Rightarrow> do {
         let n = upd_endpoint e (\<lambda>ep. ep\<lparr>de_queues := (de_queues ep)\<lparr>userdesc_status := userdesc_status (de_queues ep) OR 16\<rparr>\<rparr>) n;
         (_, n) \<leftarrow> omx_endpoint_close e n;
         close_endpoints_loop k is n
       })"

definition omx_iface_detach :: "nat \<Rightarrow> bool \<Rightarrow> omx_node \<Rightarrow> (omx_errno option \<times> omx_node) option" where
  "omx_iface_detach k force n =
    (if if_index (n_iface n k) \<ge> length (omx_ifaces n) \<or> omx_ifaces n ! if_index (n_iface n k) = None then None
     else if \<not> force \<and> if_endpoint_nr (n_iface n k) \<noteq> 0 then Some (Some EBUSY, n)
     else do {
       let n = upd_iface k (\<lambda>i. i\<lparr>if_status := OMX_IFACE_STATUS_CLOSING\<rparr>) n;
       n \<leftarrow> close_endpoints_loop k [0..<omx_endpoint_max n] n;
       n \<leftarrow> omx_peers_notify_iface_detach k n;
       let n = n\<lparr>omx_ifaces := (omx_ifaces n)[if_index (n_iface n k) := None], omx_iface_nr := omx_iface_nr n - 1\<rparr>;
       Some (None, omx_iface_release k n)
     })"

end
