(* ===== verification/Driver_Peer_Table.thy ===== *)
theory Driver_Peer_Table
  imports Driver_Iface
begin

text \<open>
  The invariant of the peer table: the array and the hashed lists hold the same peers, each once, under their own
  index and address, no two of them have the same address, the peers whose host name is still to be asked for
  are exactly those in the list of queries, and freed peers are not in the table.
\<close>

subsection \<open>Invariant\<close>

definition in_table :: "omx_node \<Rightarrow> peer_ref \<Rightarrow> bool" where
  "in_table n p \<longleftrightarrow> Some p \<in> set (omx_peer_array n)"

definition indexes_ok :: "omx_node \<Rightarrow> bool" where
  "indexes_ok n \<longleftrightarrow> omx_peer_max n \<le> 65536 \<and> omx_peer_next_nr n \<le> omx_peer_max n \<and>
    (\<forall>i < omx_peer_max n. \<forall>p. omx_peer_array n ! i = Some p \<longrightarrow> i < omx_peer_next_nr n \<and> p_index (n_peer n p) = of_nat i)"

definition hash_ok :: "omx_node \<Rightarrow> bool" where
  "hash_ok n \<longleftrightarrow> (\<forall>h. distinct (omx_peer_addr_hash_array n h) \<and>
      set (omx_peer_addr_hash_array n h) = {p. in_table n p \<and> omx_peer_addr_hash (p_board_addr (n_peer n p)) = h}) \<and>
    inj_on (\<lambda>p. p_board_addr (n_peer n p)) {p. in_table n p}"

definition kinds_ok :: "omx_node \<Rightarrow> bool" where
  "kinds_ok n \<longleftrightarrow>
    (\<forall>k. in_table n (Iface_peer k) \<longrightarrow> p_local_iface (n_peer n (Iface_peer k)) = Some k \<and> p_hostname (n_peer n (Iface_peer k)) \<noteq> None) \<and>
    (\<forall>m. in_table n (Peer m) \<longrightarrow> p_local_iface (n_peer n (Peer m)) = None \<and> m < peers_allocated n) \<and>
    distinct (peers_freed n) \<and> (\<forall>p \<in> set (peers_freed n). \<not> in_table n p \<and> (\<exists>m < peers_allocated n. p = Peer m))"

definition queries_ok :: "omx_node \<Rightarrow> bool" where
  "queries_ok n \<longleftrightarrow> distinct (omx_host_query_peer_list n) \<and>
    set (omx_host_query_peer_list n) = {p. in_table n p \<and> p_hostname (n_peer n p) = None} \<and>
    (omx_host_query_peer_list n \<noteq> [] \<longrightarrow> omx_host_query_timer n)"

definition ifaces_ok :: "omx_node \<Rightarrow> bool" where
  "ifaces_ok n \<longleftrightarrow> (\<forall>k. Some k \<in> set (omx_ifaces n) \<longleftrightarrow> in_table n (Iface_peer k)) \<and>
    (\<forall>k. Some k \<in> set (omx_ifaces n) \<longrightarrow> length (if_reverse_peer_indexes (n_iface n k)) = omx_peer_max n) \<and>
    (\<forall>i < length (omx_ifaces n). \<forall>k. omx_ifaces n ! i = Some k \<longrightarrow> if_index (n_iface n k) = i) \<and>
    omx_iface_nr n = length (filter (\<lambda>i. i \<noteq> None) (omx_ifaces n))"

definition peers_ok :: "omx_node \<Rightarrow> bool" where
  "peers_ok n \<longleftrightarrow> indexes_ok n \<and> hash_ok n \<and> kinds_ok n \<and> queries_ok n \<and> ifaces_ok n"

subsection \<open>Lookup\<close>

lemma in_table_index:
  assumes "indexes_ok n" "in_table n p"
  shows "unat (p_index (n_peer n p)) < omx_peer_max n" "omx_peer_array n ! unat (p_index (n_peer n p)) = Some p"
    "unat (p_index (n_peer n p)) < omx_peer_next_nr n"
proof -
  obtain i where i: "i < omx_peer_max n" "omx_peer_array n ! i = Some p"
    using assms(2) by (auto simp: in_table_def in_set_conv_nth)
  with assms(1) have "p_index (n_peer n p) = of_nat i" "i < omx_peer_next_nr n" "i < 4294967296" by (auto simp: indexes_ok_def)
  then have "unat (p_index (n_peer n p)) = i" by (simp add: unat_of_nat)
  with i \<open>i < omx_peer_next_nr n\<close> show "unat (p_index (n_peer n p)) < omx_peer_max n" "omx_peer_array n ! unat (p_index (n_peer n p)) = Some p"
    "unat (p_index (n_peer n p)) < omx_peer_next_nr n" by simp_all
qed

lemma lookup_Some:
  assumes "hash_ok n"
  shows "omx_peer_lookup_by_addr_locked a n = Some p \<longleftrightarrow> in_table n p \<and> p_board_addr (n_peer n p) = a"
proof
  assume "omx_peer_lookup_by_addr_locked a n = Some p"
  then have "p \<in> set (omx_peer_addr_hash_array n (omx_peer_addr_hash a))" "p_board_addr (n_peer n p) = a"
    using find_in_set by (fastforce simp: omx_peer_lookup_by_addr_locked_def)+
  with assms show "in_table n p \<and> p_board_addr (n_peer n p) = a" by (auto simp: hash_ok_def)
next
  assume p: "in_table n p \<and> p_board_addr (n_peer n p) = a"
  then have "p \<in> set (omx_peer_addr_hash_array n (omx_peer_addr_hash a))" using assms by (auto simp: hash_ok_def)
  then obtain q where q: "omx_peer_lookup_by_addr_locked a n = Some q"
    using p unfolding omx_peer_lookup_by_addr_locked_def by (metis (mono_tags, lifting) find_None_iff not_None_eq)
  then have "q \<in> set (omx_peer_addr_hash_array n (omx_peer_addr_hash a))" "p_board_addr (n_peer n q) = a"
    using find_in_set by (fastforce simp: omx_peer_lookup_by_addr_locked_def)+
  with assms p have "q = p" by (auto simp: hash_ok_def inj_on_def)
  with q show "omx_peer_lookup_by_addr_locked a n = Some p" by simp
qed

lemma lookup_None:
  assumes "hash_ok n"
  shows "omx_peer_lookup_by_addr_locked a n = None \<longleftrightarrow> (\<forall>p. in_table n p \<longrightarrow> p_board_addr (n_peer n p) \<noteq> a)"
  using lookup_Some [OF assms, of a] by (metis not_None_eq)

lemma iface_find_Some:
  "omx_iface_find_by_addr a n = Some k \<Longrightarrow> Some k \<in> set (omx_ifaces n) \<and> p_board_addr (n_peer n (Iface_peer k)) = a"
  unfolding omx_iface_find_by_addr_def
  by (auto split: option.splits dest: find_in_set)

lemma iface_find_None:
  assumes "omx_iface_find_by_addr a n = None" "Some k \<in> set (omx_ifaces n)"
  shows "p_board_addr (n_peer n (Iface_peer k)) \<noteq> a"
  using assms unfolding omx_iface_find_by_addr_def
  by (auto split: option.splits dest: find_in_set simp: find_None_iff)

subsection \<open>Reverse indexes\<close>

lemma init_peer_reverse_loop_ok:
  assumes "\<And>k. Some k \<in> set ks \<Longrightarrow> i < length (if_reverse_peer_indexes (n_iface n k))"
  shows "init_peer_reverse_loop ks i r n = Some (n\<lparr>n_iface := (\<lambda>k.
    if Some k \<in> set ks then (n_iface n k)\<lparr>if_reverse_peer_indexes := (if_reverse_peer_indexes (n_iface n k))[i := r]\<rparr> else n_iface n k)\<rparr>)"
  using assms
proof (induction ks i r n rule: init_peer_reverse_loop.induct)
  case (3 k ks i r n)
  let ?n = "upd_iface k (\<lambda>f. f\<lparr>if_reverse_peer_indexes := (if_reverse_peer_indexes (n_iface n k))[i := r]\<rparr>) n"
  have "store i r (if_reverse_peer_indexes (n_iface n k)) = Some ((if_reverse_peer_indexes (n_iface n k))[i := r])"
    using 3(2) by (simp add: store_def)
  moreover have "init_peer_reverse_loop ks i r ?n = Some (?n\<lparr>n_iface := (\<lambda>k. if Some k \<in> set ks
      then (n_iface ?n k)\<lparr>if_reverse_peer_indexes := (if_reverse_peer_indexes (n_iface ?n k))[i := r]\<rparr> else n_iface ?n k)\<rparr>)"
    using 3(2) calculation by (intro 3(1)) auto
  ultimately show ?case by (auto simp: upd_iface_def fun_eq_iff)
qed auto

lemma init_iface_reverse_loop_ok:
  assumes "\<And>k. Some k \<in> set ks \<Longrightarrow> unat (f k) < length rs"
  shows "\<exists>rs'. init_iface_reverse_loop ks f rs = Some rs' \<and> length rs' = length rs"
  using assms
proof (induction ks f rs rule: init_iface_reverse_loop.induct)
  case (3 k ks f rs)
  then show ?case by (simp add: store_def)
qed auto

text \<open>What the table does not see: the reverse indexes.\<close>

definition only_reverse :: "omx_node \<Rightarrow> omx_node \<Rightarrow> bool" where
  "only_reverse n n' \<longleftrightarrow> (\<exists>f. n' = n\<lparr>n_iface := (\<lambda>k. (n_iface n k)\<lparr>if_reverse_peer_indexes := f k\<rparr>)\<rparr>)"

lemma only_reverse_trans: "only_reverse n n' \<Longrightarrow> only_reverse n' n'' \<Longrightarrow> only_reverse n n''"
  unfolding only_reverse_def by (force simp: fun_eq_iff)

lemma only_reverse_upd: "only_reverse n (upd_iface k (\<lambda>i. i\<lparr>if_reverse_peer_indexes := rs\<rparr>) n)"
  unfolding only_reverse_def upd_iface_def
  by (rule exI [of _ "\<lambda>j. if j = k then rs else if_reverse_peer_indexes (n_iface n j)"]) (auto simp: fun_eq_iff)

lemma only_reverse_simps:
  assumes "only_reverse n n'"
  shows "n_peer n' = n_peer n" "omx_ifaces n' = omx_ifaces n" "omx_peer_array n' = omx_peer_array n"
    "omx_peer_addr_hash_array n' = omx_peer_addr_hash_array n" "omx_peer_next_nr n' = omx_peer_next_nr n"
    "omx_host_query_peer_list n' = omx_host_query_peer_list n" "omx_host_query_timer n' = omx_host_query_timer n"
    "peers_allocated n' = peers_allocated n" "peers_freed n' = peers_freed n" "omx_iface_nr n' = omx_iface_nr n"
    "if_index (n_iface n' k) = if_index (n_iface n k)" "if_eth_ifp (n_iface n' k) = if_eth_ifp (n_iface n k)"
  using assms by (auto simp: only_reverse_def)

lemma init_peer_reverse_ok:
  assumes "unat index < omx_peer_max n"
    and "\<And>k. Some k \<in> set (omx_ifaces n) \<Longrightarrow> length (if_reverse_peer_indexes (n_iface n k)) = omx_peer_max n"
  obtains n' where "omx_init_peer_reverse_indexes index local n = Some n'" "only_reverse n n'"
    "\<And>k. length (if_reverse_peer_indexes (n_iface n' k)) = length (if_reverse_peer_indexes (n_iface n k))"
proof -
  let ?r = "if local then ucast index else OMX_UNKNOWN_REVERSE_PEER_INDEX"
  let ?n = "n\<lparr>n_iface := (\<lambda>k. if Some k \<in> set (omx_ifaces n) then (n_iface n k)\<lparr>if_reverse_peer_indexes :=
      (if_reverse_peer_indexes (n_iface n k))[unat index := ?r]\<rparr> else n_iface n k)\<rparr>"
  have "omx_init_peer_reverse_indexes index local n = Some ?n"
    unfolding omx_init_peer_reverse_indexes_def using assms by (intro init_peer_reverse_loop_ok) simp
  moreover have "only_reverse n ?n" unfolding only_reverse_def
    by (rule exI [of _ "\<lambda>k. if_reverse_peer_indexes (n_iface ?n k)"]) (auto simp: fun_eq_iff)
  ultimately show thesis by (rule that) simp
qed

lemma init_iface_reverse_ok:
  assumes max: "omx_peer_max n \<le> 65536" and k: "unat (p_index (n_peer n (Iface_peer k))) < omx_peer_max n"
    and att: "\<And>j. Some j \<in> set (omx_ifaces n) \<Longrightarrow> unat (p_index (n_peer n (Iface_peer j))) < omx_peer_max n \<and>
      length (if_reverse_peer_indexes (n_iface n j)) = omx_peer_max n"
  obtains n' where "omx_init_iface_reverse_indexes k n = Some n'" "only_reverse n n'"
    "length (if_reverse_peer_indexes (n_iface n' k)) = omx_peer_max n"
    "\<And>j. j \<noteq> k \<Longrightarrow> length (if_reverse_peer_indexes (n_iface n' j)) = length (if_reverse_peer_indexes (n_iface n j))"
proof -
  let ?f = "\<lambda>k. ucast (p_index (n_peer n (Iface_peer k))) :: u16"
  have small: "unat (?f j) = unat (p_index (n_peer n (Iface_peer j)))" if "unat (p_index (n_peer n (Iface_peer j))) < omx_peer_max n" for j
    using that max by (simp add: unsigned_ucast_eq take_bit_nat_def)
  obtain rs where rs: "init_iface_reverse_loop (omx_ifaces n) ?f (replicate (omx_peer_max n) OMX_UNKNOWN_REVERSE_PEER_INDEX) = Some rs"
      "length rs = omx_peer_max n"
    using init_iface_reverse_loop_ok [of "omx_ifaces n" ?f "replicate (omx_peer_max n) OMX_UNKNOWN_REVERSE_PEER_INDEX"] att small by fastforce
  let ?n1 = "upd_iface k (\<lambda>i. i\<lparr>if_reverse_peer_indexes := rs\<rparr>) n"
  have c: "unat (?f k) < omx_peer_max ?n1"
    "\<And>j. Some j \<in> set (omx_ifaces ?n1) \<Longrightarrow> length (if_reverse_peer_indexes (n_iface ?n1 j)) = omx_peer_max ?n1"
    using att k small rs(2) by auto
  obtain n2 where n2: "omx_init_peer_reverse_indexes (?f k) True ?n1 = Some n2" "only_reverse ?n1 n2"
      "\<And>j. length (if_reverse_peer_indexes (n_iface n2 j)) = length (if_reverse_peer_indexes (n_iface ?n1 j))"
    using init_peer_reverse_ok [OF c] by metis
  let ?i = "unat (p_index (n_peer n (Iface_peer k)))"
  let ?rs = "(if_reverse_peer_indexes (n_iface n2 k))[?i := p_index (n_peer n (Iface_peer k))]"
  let ?n3 = "upd_iface k (\<lambda>i. i\<lparr>if_reverse_peer_indexes := ?rs\<rparr>) n2"
  have eq: "n_peer n2 = n_peer n" using only_reverse_simps [OF n2(2)] by simp
  have res: "omx_init_iface_reverse_indexes k n = Some ?n3"
    using rs n2 k by (simp add: omx_init_iface_reverse_indexes_def store_def eq)
  have rev: "only_reverse n ?n3"
    using only_reverse_trans [OF only_reverse_trans [OF only_reverse_upd n2(2)] only_reverse_upd] .
  show thesis by (rule that [OF res rev]) (use rs(2) n2(3) in auto)
qed

subsection \<open>Adding to the table and removing from it\<close>

text \<open>How an operation changed the table: \<open>p\<close> is new at index \<open>i\<close>.\<close>

definition table_added :: "peer_ref \<Rightarrow> nat \<Rightarrow> omx_node \<Rightarrow> omx_node \<Rightarrow> bool" where
  "table_added p i n n' \<longleftrightarrow> omx_peer_array n' = (omx_peer_array n)[i := Some p] \<and> omx_peer_next_nr n' = i + 1 \<and>
    (let h = omx_peer_addr_hash (p_board_addr (n_peer n' p)) in
     omx_peer_addr_hash_array n' = (omx_peer_addr_hash_array n)(h := omx_peer_addr_hash_array n h @ [p])) \<and>
    p_index (n_peer n' p) = of_nat i \<and> (\<forall>q. q \<noteq> p \<longrightarrow> n_peer n' q = n_peer n q)"

lemma free_slot:
  assumes "indexes_ok n" "omx_peer_next_nr n < omx_peer_max n"
  shows "omx_peer_array n ! omx_peer_next_nr n = None"
  using assms by (auto simp: indexes_ok_def dest: spec [of _ "omx_peer_next_nr n"])

lemma set_update_None: "i < length xs \<Longrightarrow> xs ! i = None \<Longrightarrow> Some q \<in> set (xs[i := Some p]) \<longleftrightarrow> q = p \<or> Some q \<in> set xs"
  by (auto simp: in_set_conv_nth nth_list_update split: if_splits) (metis option.distinct(1))

lemma table_added_in:
  assumes "indexes_ok n" "table_added p (omx_peer_next_nr n) n n'" "omx_peer_next_nr n < omx_peer_max n"
  shows "in_table n' q \<longleftrightarrow> q = p \<or> in_table n q"
  using assms free_slot [OF assms(1,3)] by (simp add: in_table_def table_added_def set_update_None)

lemma table_added_ok:
  assumes ok: "indexes_ok n" "hash_ok n" and add: "table_added p (omx_peer_next_nr n) n n'"
    and room: "omx_peer_next_nr n < omx_peer_max n" and new: "\<not> in_table n p"
    and addr: "\<And>q. in_table n q \<Longrightarrow> p_board_addr (n_peer n q) \<noteq> p_board_addr (n_peer n' p)"
  shows "indexes_ok n'" "hash_ok n'"
proof -
  have in': "in_table n' q \<longleftrightarrow> q = p \<or> in_table n q" for q using table_added_in [OF ok(1) add room] .
  have p: "p_index (n_peer n' p) = of_nat (omx_peer_next_nr n)" "\<And>q. q \<noteq> p \<Longrightarrow> n_peer n' q = n_peer n q"
    using add by (auto simp: table_added_def)
  have "p_index (n_peer n' q) = of_nat i \<and> i < omx_peer_next_nr n'"
    if "i < omx_peer_max n" "(omx_peer_array n)[omx_peer_next_nr n := Some p] ! i = Some q" for i q
  proof (cases "i = omx_peer_next_nr n")
    case True
    with that p(1) add show ?thesis by (simp add: table_added_def)
  next
    case False
    with that have "omx_peer_array n ! i = Some q" by simp
    moreover from this that(1) new have "q \<noteq> p" by (auto simp: in_table_def in_set_conv_nth)
    ultimately show ?thesis using ok(1) that(1) p(2) add by (auto simp: indexes_ok_def table_added_def)
  qed
  with ok(1) room add show "indexes_ok n'" by (auto simp: indexes_ok_def table_added_def)
  have "set (omx_peer_addr_hash_array n' h) = {q. in_table n' q \<and> omx_peer_addr_hash (p_board_addr (n_peer n' q)) = h} \<and>
      distinct (omx_peer_addr_hash_array n' h)" for h
  proof -
    have "set (omx_peer_addr_hash_array n h) = {q. in_table n q \<and> omx_peer_addr_hash (p_board_addr (n_peer n q)) = h}"
      "distinct (omx_peer_addr_hash_array n h)" using ok(2) by (auto simp: hash_ok_def)
    moreover have "q \<noteq> p" if "in_table n q" for q using that new by auto
    ultimately show ?thesis using add p(2) in' new by (auto simp: table_added_def Let_def)
  qed
  moreover have "inj_on (\<lambda>q. p_board_addr (n_peer n' q)) {q. in_table n' q}"
    using ok(2) addr p(2) new by (auto simp: hash_ok_def in' inj_on_def) (metis p(2))+
  ultimately show "hash_ok n'" by (simp add: hash_ok_def)
qed

lemma in_table_simps [simp]:
  "in_table (upd_peer p f n) = in_table n" "in_table (upd_iface k g n) = in_table n"
  "in_table (n\<lparr>xmit := x\<rparr>) = in_table n" "in_table (n\<lparr>peers_allocated := m\<rparr>) = in_table n"
  by (simp_all add: in_table_def fun_eq_iff)

lemma table_ok_frame [simp]:
  "indexes_ok (n\<lparr>peers_allocated := m\<rparr>) = indexes_ok n" "hash_ok (n\<lparr>peers_allocated := m\<rparr>) = hash_ok n"
  "indexes_ok (upd_iface k g n) = indexes_ok n" "hash_ok (upd_iface k g n) = hash_ok n"
  by (simp_all add: indexes_ok_def hash_ok_def)

lemma upd_outside:
  assumes "\<not> in_table n p"
  shows "indexes_ok (upd_peer p f n) = indexes_ok n" "hash_ok (upd_peer p f n) = hash_ok n"
proof -
  have eq: "n_peer (upd_peer p f n) q = n_peer n q" if "in_table n q" for q using that assms by auto
  have eq': "n_peer (upd_peer p f n) q = n_peer n q" if "i < omx_peer_max n" "omx_peer_array n ! i = Some q" for i q
    using that by (intro eq) (auto simp: in_table_def in_set_conv_nth)
  show "indexes_ok (upd_peer p f n) = indexes_ok n"
    using eq' by (auto simp: indexes_ok_def simp del: upd_node_simps(1))
  have "inj_on (\<lambda>q. p_board_addr (n_peer (upd_peer p f n) q)) {q. in_table n q} =
      inj_on (\<lambda>q. p_board_addr (n_peer n q)) {q. in_table n q}"
    using eq by (intro inj_on_cong) simp
  then show "hash_ok (upd_peer p f n) = hash_ok n"
    using eq by (simp add: hash_ok_def del: upd_node_simps(1) cong: conj_cong)
qed

text \<open>A peer that is inserted keeps everything but its index.\<close>

lemma peer_insert_eq:
  assumes room: "omx_peer_next_nr n < omx_peer_max n" and max: "omx_peer_max n \<le> 65536"
    and att: "\<And>k. Some k \<in> set (omx_ifaces n) \<Longrightarrow> length (if_reverse_peer_indexes (n_iface n k)) = omx_peer_max n"
  obtains n' where "peer_insert p local n = Some n'" "table_added p (omx_peer_next_nr n) n n'"
    "n_peer n' p = (n_peer n p)\<lparr>p_index := of_nat (omx_peer_next_nr n)\<rparr>"
    "omx_ifaces n' = omx_ifaces n" "\<And>k. length (if_reverse_peer_indexes (n_iface n' k)) = length (if_reverse_peer_indexes (n_iface n k))"
    "omx_host_query_peer_list n' = omx_host_query_peer_list n" "omx_host_query_timer n' = omx_host_query_timer n"
    "peers_allocated n' = peers_allocated n" "peers_freed n' = peers_freed n"
    "omx_iface_nr n' = omx_iface_nr n" "\<And>k. if_index (n_iface n' k) = if_index (n_iface n k)"
proof -
  let ?i = "omx_peer_next_nr n"
  let ?n1 = "upd_peer p (\<lambda>q. q\<lparr>p_index := of_nat ?i\<rparr>) n"
  have "unat (of_nat ?i :: u16) = ?i" using room max by (simp add: unat_of_nat)
  then have c: "unat (of_nat ?i :: u16) < omx_peer_max ?n1"
    "\<And>k. Some k \<in> set (omx_ifaces ?n1) \<Longrightarrow> length (if_reverse_peer_indexes (n_iface ?n1 k)) = omx_peer_max ?n1"
    using room att by auto
  obtain n2 where n2: "omx_init_peer_reverse_indexes (of_nat ?i) local ?n1 = Some n2" "only_reverse ?n1 n2"
      "\<And>k. length (if_reverse_peer_indexes (n_iface n2 k)) = length (if_reverse_peer_indexes (n_iface ?n1 k))"
    using init_peer_reverse_ok [OF c] by metis
  let ?h = "omx_peer_addr_hash (p_board_addr (n_peer n p))"
  let ?n3 = "n2\<lparr>omx_peer_addr_hash_array := (omx_peer_addr_hash_array n)(?h := omx_peer_addr_hash_array n ?h @ [p]),
    omx_peer_array := (omx_peer_array n)[?i := Some p], omx_peer_next_nr := ?i + 1\<rparr>"
  note eq = only_reverse_simps [OF n2(2), simplified]
  have res: "peer_insert p local n = Some ?n3"
    using n2(1) room by (simp add: peer_insert_def Let_def store_def eq)
  show thesis by (rule that [OF res]) (simp_all add: table_added_def eq n2(3))
qed

lemma host_query_send_loop_xmit: "\<exists>x. host_query_send_loop env i ks f n = n\<lparr>xmit := x\<rparr>"
proof (induction env i ks f n rule: host_query_send_loop.induct)
  case (1 env i f n)
  show ?case by (rule exI [of _ "xmit n"]) simp
next
  case (3 env i k ks f n)
  show ?case
  proof (cases "k_skb env i")
    case None
    then show ?thesis by (intro exI [of _ "xmit n"]) simp
  next
    case (Some g)
    then show ?thesis using 3 by (fastforce simp: dev_queue_xmit_def)
  qed
qed simp

lemma host_query_xmit: "\<exists>x. omx_peer_host_query env p n = n\<lparr>xmit := x\<rparr>"
proof (cases "k_skb env 0")
  case None
  then show ?thesis by (intro exI [of _ "xmit n"]) (simp add: omx_peer_host_query_def)
next
  case (Some f)
  then show ?thesis using host_query_send_loop_xmit by (simp add: omx_peer_host_query_def)
qed

lemma peers_ok_xmit [simp]: "peers_ok (n\<lparr>xmit := x\<rparr>) = peers_ok n"
  by (simp add: peers_ok_def indexes_ok_def hash_ok_def kinds_ok_def queries_ok_def ifaces_ok_def)

lemma peers_ok_host_query [simp]: "peers_ok (omx_peer_host_query env p n) = peers_ok n"
  using host_query_xmit [of env p n] by (metis peers_ok_xmit)

lemma add_host_query_simps [simp]:
  "n_peer (add_host_query p n) = n_peer n" "n_iface (add_host_query p n) = n_iface n" "omx_ifaces (add_host_query p n) = omx_ifaces n"
  "omx_peer_array (add_host_query p n) = omx_peer_array n" "omx_peer_addr_hash_array (add_host_query p n) = omx_peer_addr_hash_array n"
  "omx_iface_nr (add_host_query p n) = omx_iface_nr n" "omx_peer_next_nr (add_host_query p n) = omx_peer_next_nr n" "peers_allocated (add_host_query p n) = peers_allocated n"
  "peers_freed (add_host_query p n) = peers_freed n" "omx_host_query_peer_list (add_host_query p n) = omx_host_query_peer_list n @ [p]"
  "omx_host_query_timer (add_host_query p n) = (omx_host_query_peer_list n = [] \<or> omx_host_query_timer n)"
  "in_table (add_host_query p n) = in_table n" "indexes_ok (add_host_query p n) = indexes_ok n" "hash_ok (add_host_query p n) = hash_ok n"
  by (simp_all add: add_host_query_def Let_def in_table_def fun_eq_iff indexes_ok_def hash_ok_def)

lemma del_host_query_simps [simp]:
  "n_peer (del_host_query p n) = n_peer n" "n_iface (del_host_query p n) = n_iface n" "omx_ifaces (del_host_query p n) = omx_ifaces n"
  "omx_peer_array (del_host_query p n) = omx_peer_array n" "omx_peer_addr_hash_array (del_host_query p n) = omx_peer_addr_hash_array n"
  "omx_iface_nr (del_host_query p n) = omx_iface_nr n" "omx_peer_next_nr (del_host_query p n) = omx_peer_next_nr n" "peers_allocated (del_host_query p n) = peers_allocated n"
  "peers_freed (del_host_query p n) = peers_freed n" "omx_host_query_peer_list (del_host_query p n) = remove1 p (omx_host_query_peer_list n)"
  "omx_host_query_timer (del_host_query p n) = (remove1 p (omx_host_query_peer_list n) \<noteq> [] \<and> omx_host_query_timer n)"
  "in_table (del_host_query p n) = in_table n" "indexes_ok (del_host_query p n) = indexes_ok n" "hash_ok (del_host_query p n) = hash_ok n"
  by (simp_all add: del_host_query_def Let_def in_table_def fun_eq_iff indexes_ok_def hash_ok_def)

text \<open>A new remote peer.\<close>

lemma add_remote_ok:
  assumes ok: "peers_ok n" and room: "omx_peer_next_nr n < omx_peer_max n"
    and new: "\<And>q. in_table n q \<Longrightarrow> p_board_addr (n_peer n q) \<noteq> a"
    and p: "p = Peer (peers_allocated n)"
    and n1: "n1 = upd_peer p (\<lambda>_. \<lparr>p_board_addr = a, p_hostname = h, p_index = 0, p_local_iface = None\<rparr>)
               (n\<lparr>peers_allocated := peers_allocated n + 1\<rparr>)"
  obtains n' where "peer_insert p False (if h = None then add_host_query p n1 else n1) = Some n'" "peers_ok n'"
    "in_table n' p" "p_board_addr (n_peer n' p) = a" "\<And>q. in_table n q \<Longrightarrow> in_table n' q \<and> n_peer n' q = n_peer n q"
proof -
  let ?n2 = "if h = None then add_host_query p n1 else n1"
  have out: "\<not> in_table n p" using ok p by (auto simp: peers_ok_def kinds_ok_def)
  have same: "in_table ?n2 = in_table n" "omx_peer_array ?n2 = omx_peer_array n" "omx_peer_next_nr ?n2 = omx_peer_next_nr n"
    "omx_ifaces ?n2 = omx_ifaces n" "n_iface ?n2 = n_iface n" "n_peer ?n2 = n_peer n1" "peers_freed ?n2 = peers_freed n"
    "peers_allocated ?n2 = peers_allocated n + 1" "omx_host_query_peer_list ?n2 = omx_host_query_peer_list n @ (if h = None then [p] else [])"
    "omx_host_query_timer ?n2 = (h = None \<and> omx_host_query_peer_list n = [] \<or> omx_host_query_timer n)"
    "omx_iface_nr ?n2 = omx_iface_nr n"
    by (auto simp: n1 in_table_def fun_eq_iff)
  have ok2: "indexes_ok ?n2" "hash_ok ?n2"
    using ok out by (simp_all add: n1 upd_outside peers_ok_def)
  obtain n' where n': "peer_insert p False ?n2 = Some n'" "table_added p (omx_peer_next_nr n) ?n2 n'"
      "n_peer n' p = (n_peer n1 p)\<lparr>p_index := of_nat (omx_peer_next_nr n)\<rparr>"
      "omx_ifaces n' = omx_ifaces n" "\<And>k. length (if_reverse_peer_indexes (n_iface n' k)) = length (if_reverse_peer_indexes (n_iface n k))"
      "omx_host_query_peer_list n' = omx_host_query_peer_list n @ (if h = None then [p] else [])"
      "omx_host_query_timer n' = (h = None \<and> omx_host_query_peer_list n = [] \<or> omx_host_query_timer n)"
      "peers_allocated n' = peers_allocated n + 1" "peers_freed n' = peers_freed n"
      "omx_iface_nr n' = omx_iface_nr n" "\<And>k. if_index (n_iface n' k) = if_index (n_iface n k)"
    using peer_insert_eq [of ?n2 p False] room ok unfolding same by (auto simp: peers_ok_def indexes_ok_def ifaces_ok_def)
  have in': "in_table n' q \<longleftrightarrow> q = p \<or> in_table n q" for q
    using table_added_in [OF ok2(1), of p n'] n'(2) room by (simp add: same)
  have addr: "p_board_addr (n_peer ?n2 q) \<noteq> p_board_addr (n_peer n' p)" if "in_table ?n2 q" for q
    using that n'(3) new out by (auto simp: same n1)
  have pre: "table_added p (omx_peer_next_nr ?n2) ?n2 n'" "omx_peer_next_nr ?n2 < omx_peer_max ?n2" "\<not> in_table ?n2 p"
    using n'(2) room out by (simp_all only: same not_False_eq_True)
  have "indexes_ok n'" "hash_ok n'" using table_added_ok [OF ok2 pre addr] by blast+
  moreover have old: "n_peer n' q = n_peer n q" if "q \<noteq> p" for q using n'(2) that by (simp add: table_added_def same n1)
  moreover have "kinds_ok n'"
    using ok out p n'(3) old unfolding kinds_ok_def in' n'(8,9) peers_ok_def by (auto simp: n1 less_Suc_eq)
  moreover have "{q. in_table n' q \<and> p_hostname (n_peer n' q) = None} =
      {q. in_table n q \<and> p_hostname (n_peer n q) = None} \<union> (if h = None then {p} else {})"
  proof (rule set_eqI)
    fix q
    show "q \<in> {q. in_table n' q \<and> p_hostname (n_peer n' q) = None} \<longleftrightarrow>
        q \<in> {q. in_table n q \<and> p_hostname (n_peer n q) = None} \<union> (if h = None then {p} else {})"
      using n'(3) old out by (cases "q = p") (auto simp: in' n1)
  qed
  then have "queries_ok n'" using ok out unfolding queries_ok_def n'(6,7) peers_ok_def by auto
  moreover have "ifaces_ok n'"
    using ok p n'(2) unfolding ifaces_ok_def in' n'(4,5,10,11) peers_ok_def by (auto simp: table_added_def same)
  ultimately have "peers_ok n'" by (simp add: peers_ok_def)
  moreover have "n_peer n' q = n_peer n q" if "in_table n q" for q using old out that by (cases "q = p") auto
  ultimately show thesis by (intro that [OF n'(1)]) (use n'(3) in' in \<open>auto simp: n1\<close>)
qed

subsection \<open>Names\<close>

definition upd_hostname :: "u8 list option \<Rightarrow> omx_peer \<Rightarrow> omx_peer" where
  "upd_hostname h q = q\<lparr>p_hostname := h\<rparr>"

lemma upd_hostname_simps [simp]:
  "p_index (upd_hostname h q) = p_index q" "p_board_addr (upd_hostname h q) = p_board_addr q"
  "p_local_iface (upd_hostname h q) = p_local_iface q" "p_hostname (upd_hostname h q) = h"
  by (simp_all add: upd_hostname_def)

lemma hostname_table_ok [simp]:
  "indexes_ok (upd_peer p (upd_hostname h) n) = indexes_ok n" "hash_ok (upd_peer p (upd_hostname h) n) = hash_ok n"
proof -
  have "p_board_addr (((n_peer n)(p := upd_hostname h (n_peer n p))) q) = p_board_addr (n_peer n q)"
    "p_index (((n_peer n)(p := upd_hostname h (n_peer n p))) q) = p_index (n_peer n q)" for q
    by auto
  then show "indexes_ok (upd_peer p (upd_hostname h) n) = indexes_ok n" "hash_ok (upd_peer p (upd_hostname h) n) = hash_ok n"
    by (simp_all add: indexes_ok_def hash_ok_def del: fun_upd_apply)
qed

lemma ifaces_ok_frame [simp]:
  "ifaces_ok (upd_peer p f n) = ifaces_ok n" "ifaces_ok (add_host_query p n) = ifaces_ok n" "ifaces_ok (del_host_query p n) = ifaces_ok n"
  by (simp_all add: ifaces_ok_def)

lemma kinds_ok_hostname:
  "kinds_ok n \<Longrightarrow> h \<noteq> None \<or> (\<exists>m. p = Peer m) \<Longrightarrow> kinds_ok (upd_peer p (upd_hostname h) n)"
  by (auto simp: kinds_ok_def)

lemma kinds_ok_query [simp]:
  "kinds_ok (add_host_query p n) = kinds_ok n" "kinds_ok (del_host_query p n) = kinds_ok n"
  by (simp_all add: kinds_ok_def)

text \<open>Setting a name: the peer leaves the list of queries if it was in it; forgetting one: it enters it.\<close>

lemma set_hostname_ok:
  assumes ok: "peers_ok n" and p: "in_table n p"
  shows "peers_ok (upd_peer p (upd_hostname (Some h)) (if p_hostname (n_peer n p) = None then del_host_query p n else n))"
proof -
  let ?n = "if p_hostname (n_peer n p) = None then del_host_query p n else n"
  let ?l = "omx_host_query_peer_list n"
  have l: "distinct ?l" "?l \<noteq> [] \<longrightarrow> omx_host_query_timer n" "set ?l = {q. in_table n q \<and> p_hostname (n_peer n q) = None}"
    using ok by (simp_all add: peers_ok_def queries_ok_def)
  have new: "{q. in_table n q \<and> p_hostname (n_peer (upd_peer p (upd_hostname (Some h)) m) q) = None} = set ?l - {p}"
    if "n_peer m = n_peer n" for m
    using that by (auto simp: l(3))
  have "queries_ok (upd_peer p (upd_hostname (Some h)) ?n)"
  proof (cases "p_hostname (n_peer n p) = None")
    case True
    have "remove1 p ?l \<noteq> [] \<longrightarrow> omx_host_query_timer n" using l(2) by auto
    with True show ?thesis using l(1) new [of "del_host_query p n"] by (simp add: queries_ok_def del: upd_node_simps(1))
  next
    case False
    then have "p \<notin> set ?l" by (simp add: l(3))
    moreover have e: "?n = n" using False by (rule if_not_P)
    ultimately show ?thesis unfolding e using l(1,2) new [of n] by (simp add: queries_ok_def del: upd_node_simps(1))
  qed
  then show ?thesis using ok by (simp add: peers_ok_def kinds_ok_hostname)
qed

lemma forget_hostname_ok:
  assumes ok: "peers_ok n" and p: "in_table n p" "p = Peer m" "p_hostname (n_peer n p) \<noteq> None"
  shows "peers_ok (upd_peer p (upd_hostname None) (add_host_query p n))"
proof -
  have "{q. in_table n q \<and> p_hostname (if q = p then upd_hostname None (n_peer n p) else n_peer n q) = None} =
      insert p {q. in_table n q \<and> p_hostname (n_peer n q) = None}" using p(1) by auto
  moreover have "p \<notin> set (omx_host_query_peer_list n)" using ok p by (auto simp: peers_ok_def queries_ok_def)
  ultimately have "queries_ok (upd_peer p (upd_hostname None) (add_host_query p n))"
    using ok by (auto simp: queries_ok_def peers_ok_def)
  then show ?thesis using ok p by (simp add: peers_ok_def kinds_ok_hostname)
qed

lemma rename_peer_ok:
  assumes ok: "peers_ok n" and p: "in_table n p" "p = Peer m"
  shows "peers_ok (snd (rename_peer p h n))"
proof (cases h)
  case (Some a)
  have "snd (rename_peer p h n) = upd_peer p (upd_hostname (Some a)) (if p_hostname (n_peer n p) = None then del_host_query p n else n)"
    by (auto simp: rename_peer_def Some upd_hostname_def [abs_def] Let_def)
  then show ?thesis using set_hostname_ok [OF ok p(1)] by simp
next
  case None
  show ?thesis
  proof (cases "p_hostname (n_peer n p)")
    case None': None
    have "upd_peer p (\<lambda>q. q\<lparr>p_hostname := None\<rparr>) n = n" using None' by (simp add: upd_peer_def fun_upd_idem)
    then show ?thesis using ok by (simp add: rename_peer_def None None')
  next
    case (Some a)
    then have "snd (rename_peer p h n) = upd_peer p (upd_hostname None) (add_host_query p n)"
      by (simp add: rename_peer_def None upd_hostname_def [abs_def])
    then show ?thesis using forget_hostname_ok [OF ok p] Some by simp
  qed
qed

subsection \<open>Adding a peer\<close>

lemma attached_in_table:
  assumes "peers_ok n" "omx_iface_find_by_addr a n = Some k"
  shows "in_table n (Iface_peer k)" "omx_peer_lookup_by_addr_locked a n = Some (Iface_peer k)"
  using assms iface_find_Some [OF assms(2)] by (auto simp: peers_ok_def ifaces_ok_def lookup_Some)

lemma in_table_known:
  assumes "indexes_ok n" "in_table n p"
  shows "p_index (n_peer n p) \<noteq> OMX_UNKNOWN_REVERSE_PEER_INDEX"
  using in_table_index(1) [OF assms] assms(1)
  by (auto simp: OMX_UNKNOWN_REVERSE_PEER_INDEX_def indexes_ok_def unsigned_minus_1_eq_mask mask_eq_exp_minus_1)

lemma reacquire_release: "omx_iface_release k (omx_iface_reacquire k n) = n"
  by (simp add: omx_iface_release_def omx_iface_reacquire_def upd_iface_def fun_upd_idem)

lemma add_local_iface_ok:
  assumes ok: "peers_ok n" and k: "in_table n (Iface_peer k)"
  shows "\<exists>n'. add_local_iface k h n = Some n' \<and> peers_ok n' \<and>
    (\<forall>q. in_table n' q = in_table n q \<and> p_board_addr (n_peer n' q) = p_board_addr (n_peer n q) \<and> p_index (n_peer n' q) = p_index (n_peer n q))"
proof -
  have loc: "p_local_iface (n_peer n (Iface_peer k)) = Some k" "p_hostname (n_peer n (Iface_peer k)) \<noteq> None"
    using ok k by (auto simp: peers_ok_def kinds_ok_def)
  have known: "p_index (n_peer n (Iface_peer k)) \<noteq> OMX_UNKNOWN_REVERSE_PEER_INDEX"
    using in_table_known ok k by (auto simp: peers_ok_def)
  show ?thesis
  proof (cases h)
    case None
    then show ?thesis using loc known ok
      by (simp add: add_local_iface_def Let_def reacquire_release) (simp add: omx_iface_reacquire_def)
  next
    case (Some a)
    have "add_local_iface k h n = Some (upd_peer (Iface_peer k) (upd_hostname (Some a)) n)"
      using loc known by (simp add: add_local_iface_def Let_def reacquire_release Some upd_hostname_def [abs_def])
        (simp add: omx_iface_reacquire_def)
    then show ?thesis using set_hostname_ok [OF ok k, of a] loc by simp
  qed
qed

text \<open>
  A peer can always be added as long as there is room for it; the peers that were there stay where they are.
\<close>

lemma peer_add_ok:
  assumes ok: "peers_ok n"
  shows "\<exists>err n'. omx_peer_add env strdup_ok kmalloc_ok a h n = Some (err, n') \<and> peers_ok n' \<and>
    (\<forall>q. in_table n q \<longrightarrow> in_table n' q \<and> p_board_addr (n_peer n' q) = p_board_addr (n_peer n q) \<and>
       p_index (n_peer n' q) = p_index (n_peer n q)) \<and>
    (err = None \<longrightarrow> (\<exists>q. in_table n' q \<and> p_board_addr (n_peer n' q) = a)) \<and>
    (strdup_ok \<and> kmalloc_ok \<and> (omx_peer_next_nr n < omx_peer_max n \<or> (\<exists>q. in_table n q \<and> p_board_addr (n_peer n q) = a)) \<longrightarrow> err = None)"
proof -
  have hash: "hash_ok n" and next_le: "omx_peer_next_nr n \<le> omx_peer_max n" using ok by (auto simp: peers_ok_def indexes_ok_def)
  consider (nomem) "h \<noteq> None" "\<not> strdup_ok" | (full) "h = None \<or> strdup_ok" "omx_peer_lookup_by_addr_locked a n = None" "omx_peer_next_nr n = omx_peer_max n"
    | (iface) k where "h = None \<or> strdup_ok" "omx_iface_find_by_addr a n = Some k"
    | (known) p where "h = None \<or> strdup_ok" "omx_iface_find_by_addr a n = None" "omx_peer_lookup_by_addr_locked a n = Some p"
    | (new) "h = None \<or> strdup_ok" "omx_iface_find_by_addr a n = None" "omx_peer_lookup_by_addr_locked a n = None" "omx_peer_next_nr n < omx_peer_max n"
    using next_le by (cases "omx_iface_find_by_addr a n"; cases "omx_peer_lookup_by_addr_locked a n"; fastforce)
  then show ?thesis
  proof cases
    case nomem
    then show ?thesis using ok by (auto simp: omx_peer_add_def)
  next
    case full
    then show ?thesis using ok lookup_None [OF hash, of a]
      by (auto simp: omx_peer_add_def peers_ok_def indexes_ok_def hash_ok_def kinds_ok_def queries_ok_def ifaces_ok_def in_table_def)
  next
    case iface
    note att = attached_in_table [OF ok iface(2)]
    obtain n' where "add_local_iface k h n = Some n'" "peers_ok n'" "\<And>q. in_table n' q = in_table n q"
        "\<And>q. p_board_addr (n_peer n' q) = p_board_addr (n_peer n q)" "\<And>q. p_index (n_peer n' q) = p_index (n_peer n q)"
      using add_local_iface_ok [OF ok att(1)] by blast
    moreover from this have "omx_peer_add env strdup_ok kmalloc_ok a h n = Some (None, n')"
      using iface att by (auto simp: omx_peer_add_def Let_def)
    moreover have "p_board_addr (n_peer n (Iface_peer k)) = a" using lookup_Some [OF hash] att(2) by blast
    ultimately show ?thesis using att(1) by auto
  next
    case known
    have p: "in_table n p" "p_board_addr (n_peer n p) = a" using lookup_Some [OF hash] known(3) by auto
    then obtain m where m: "p = Peer m"
      using iface_find_None [OF known(2)] ok by (cases p) (auto simp: peers_ok_def ifaces_ok_def)
    obtain b n' where r: "rename_peer p h n = (b, n')" by fastforce
    have "peers_ok n'" using rename_peer_ok [OF ok p(1) m, of h] r by simp
    moreover have "in_table n' = in_table n" "\<And>q. p_board_addr (n_peer n' q) = p_board_addr (n_peer n q)" "\<And>q. p_index (n_peer n' q) = p_index (n_peer n q)"
      using r by (auto simp: rename_peer_def Let_def split: if_splits)
    moreover obtain x where "omx_peer_host_query env p n' = n'\<lparr>xmit := x\<rparr>" using host_query_xmit by blast
    moreover from known r have "omx_peer_add env strdup_ok kmalloc_ok a h n = Some (None, if b then omx_peer_host_query env p n' else n')"
      by (auto simp: omx_peer_add_def Let_def)
    ultimately show ?thesis using p by auto
  next
    case new
    let ?p = "Peer (peers_allocated n)"
    let ?n1 = "upd_peer ?p (\<lambda>_. \<lparr>p_board_addr = a, p_hostname = h, p_index = 0, p_local_iface = None\<rparr>) (n\<lparr>peers_allocated := peers_allocated n + 1\<rparr>)"
    obtain n' where n': "peer_insert ?p False (if h = None then add_host_query ?p ?n1 else ?n1) = Some n'" "peers_ok n'"
        "in_table n' ?p" "p_board_addr (n_peer n' ?p) = a" "\<And>q. in_table n q \<Longrightarrow> in_table n' q \<and> n_peer n' q = n_peer n q"
      using add_remote_ok [OF ok new(4) _ refl refl, of a h] lookup_None [OF hash, of a] new(3) by blast
    obtain x where x: "omx_peer_host_query env ?p n' = n'\<lparr>xmit := x\<rparr>" using host_query_xmit by blast
    show ?thesis
    proof (cases kmalloc_ok)
      case True
      then have "omx_peer_add env strdup_ok kmalloc_ok a h n = Some (None, if h = None then omx_peer_host_query env ?p n' else n')"
        using new n'(1) by (cases h) (auto simp: omx_peer_add_def Let_def)
      with n' x show ?thesis by auto
    next
      case False
      then show ?thesis using new ok by (auto simp: omx_peer_add_def)
    qed
  qed
qed

text \<open>\<open>p\<close> takes the place of \<open>old\<close>, which has the same address.\<close>

definition table_replaced :: "peer_ref \<Rightarrow> peer_ref \<Rightarrow> omx_node \<Rightarrow> omx_node \<Rightarrow> bool" where
  "table_replaced old p n n' \<longleftrightarrow> omx_peer_array n' = (omx_peer_array n)[unat (p_index (n_peer n old)) := Some p] \<and>
    omx_peer_next_nr n' = omx_peer_next_nr n \<and>
    (let h = omx_peer_addr_hash (p_board_addr (n_peer n' p)) in omx_peer_addr_hash_array n' =
       (omx_peer_addr_hash_array n)(h := map (\<lambda>q. if q = old then p else q) (omx_peer_addr_hash_array n h))) \<and>
    p_index (n_peer n' p) = p_index (n_peer n old) \<and> p_board_addr (n_peer n' p) = p_board_addr (n_peer n old) \<and>
    (\<forall>q. q \<noteq> p \<longrightarrow> q \<noteq> old \<longrightarrow> n_peer n' q = n_peer n q)"

lemma table_replaced_nth:
  assumes ok: "indexes_ok n" and rep: "table_replaced old p n n'" and old: "in_table n old"
  shows "i < omx_peer_max n \<Longrightarrow> omx_peer_array n' ! i = (if omx_peer_array n ! i = Some old then Some p else omx_peer_array n ! i)"
proof -
  assume i: "i < omx_peer_max n"
  note ix = in_table_index [OF ok old]
  have "i = unat (p_index (n_peer n old))" if "omx_peer_array n ! i = Some old"
  proof -
    have "p_index (n_peer n old) = of_nat i" "i < 4294967296" using ok i that by (auto simp: indexes_ok_def)
    then show ?thesis by (simp add: unat_of_nat)
  qed
  with rep i ix show ?thesis by (auto simp: table_replaced_def nth_list_update)
qed

lemma table_replaced_in:
  assumes ok: "indexes_ok n" and rep: "table_replaced old p n n'" and old: "in_table n old" "\<not> in_table n p"
  shows "in_table n' q \<longleftrightarrow> q = p \<or> in_table n q \<and> q \<noteq> old"
proof -
  have len: "omx_peer_max n' = omx_peer_max n" using rep by (simp add: table_replaced_def)
  note nth = table_replaced_nth [OF ok rep old(1)]
  have "in_table n' q \<longleftrightarrow> (\<exists>i < omx_peer_max n. (if omx_peer_array n ! i = Some old then Some p else omx_peer_array n ! i) = Some q)"
    unfolding in_table_def in_set_conv_nth len using nth by metis
  also have "\<dots> \<longleftrightarrow> q = p \<or> in_table n q \<and> q \<noteq> old"
    using old unfolding in_table_def in_set_conv_nth by (metis option.inject)
  finally show ?thesis .
qed

lemma table_replaced_ok:
  assumes ok: "indexes_ok n" "hash_ok n" and rep: "table_replaced old p n n'" and old: "in_table n old" "\<not> in_table n p"
  shows "indexes_ok n'" "hash_ok n'"
proof -
  note in' = table_replaced_in [OF ok(1) rep old]
  have len: "omx_peer_max n' = omx_peer_max n" "omx_peer_next_nr n' = omx_peer_next_nr n" using rep by (simp_all add: table_replaced_def)
  have p: "p_index (n_peer n' p) = p_index (n_peer n old)" "p_board_addr (n_peer n' p) = p_board_addr (n_peer n old)"
      "\<And>q. q \<noteq> p \<Longrightarrow> q \<noteq> old \<Longrightarrow> n_peer n' q = n_peer n q" "p \<noteq> old"
    using rep old by (auto simp: table_replaced_def)
  have ix: "i < omx_peer_next_nr n \<and> p_index (n_peer n' q) = of_nat i" if "i < omx_peer_max n" "omx_peer_array n' ! i = Some q" for i q
  proof (cases "omx_peer_array n ! i = Some old")
    case True
    then have "q = p" using table_replaced_nth [OF ok(1) rep old(1) that(1)] that(2) by simp
    then show ?thesis using ok(1) that(1) True p(1) by (auto simp: indexes_ok_def)
  next
    case False
    then have q: "omx_peer_array n ! i = Some q" using table_replaced_nth [OF ok(1) rep old(1) that(1)] that(2) by simp
    then have "q \<noteq> p" "q \<noteq> old" using old False that(1) by (auto simp: in_table_def in_set_conv_nth)
    then show ?thesis using ok(1) that(1) q p(3) by (auto simp: indexes_ok_def)
  qed
  with ok(1) show "indexes_ok n'" by (simp add: indexes_ok_def len)
  have addr: "p_board_addr (n_peer n' q) = p_board_addr (n_peer n (if q = p then old else q))" if "in_table n' q" for q
    using that p in' by auto
  have "distinct (omx_peer_addr_hash_array n' h) \<and>
      set (omx_peer_addr_hash_array n' h) = {q. in_table n' q \<and> omx_peer_addr_hash (p_board_addr (n_peer n' q)) = h}" for h
  proof -
    let ?l = "omx_peer_addr_hash_array n h" and ?f = "\<lambda>q. if q = old then p else q"
    have l: "distinct ?l" "set ?l = {q. in_table n q \<and> omx_peer_addr_hash (p_board_addr (n_peer n q)) = h}"
      using ok(2) by (auto simp: hash_ok_def)
    have eq: "omx_peer_addr_hash_array n' h = map ?f ?l"
    proof (cases "h = omx_peer_addr_hash (p_board_addr (n_peer n' p))")
      case True
      then show ?thesis using rep by (simp add: table_replaced_def Let_def)
    next
      case False
      then have "old \<notin> set ?l" using l(2) p(2) by auto
      then have "map ?f ?l = ?l" by (intro map_idI) auto
      then show ?thesis using rep False by (simp add: table_replaced_def Let_def)
    qed
    have "inj_on ?f (set ?l)" using l(2) old(2) by (auto simp: inj_on_def)
    then have "distinct (map ?f ?l)" using l(1) by (simp add: distinct_map)
    moreover have "set (map ?f ?l) = {q. in_table n' q \<and> omx_peer_addr_hash (p_board_addr (n_peer n' q)) = h}"
    proof (rule set_eqI)
      fix q
      show "q \<in> set (map ?f ?l) \<longleftrightarrow> q \<in> {q. in_table n' q \<and> omx_peer_addr_hash (p_board_addr (n_peer n' q)) = h}"
        using old p l(2) addr [of q] in' [of q] by (auto simp: image_iff)
    qed
    ultimately show ?thesis by (simp add: eq)
  qed
  moreover have "inj_on (\<lambda>q. p_board_addr (n_peer n' q)) {q. in_table n' q}"
  proof (rule inj_onI, clarify)
    fix q r assume q: "in_table n' q" "in_table n' r" "p_board_addr (n_peer n' q) = p_board_addr (n_peer n' r)"
    let ?g = "\<lambda>q. if q = p then old else q"
    have "in_table n (?g q)" "in_table n (?g r)" using q(1,2) in' old(1) by auto
    moreover have "p_board_addr (n_peer n (?g q)) = p_board_addr (n_peer n (?g r))" using q addr by simp
    ultimately have "?g q = ?g r" using ok(2) unfolding hash_ok_def inj_on_def by blast
    with q(1,2) in' show "q = r" by (auto split: if_splits)
  qed
  ultimately show "hash_ok n'" by (simp add: hash_ok_def)
qed


text \<open>\<open>p\<close> is gone.\<close>

definition table_removed :: "peer_ref \<Rightarrow> omx_node \<Rightarrow> omx_node \<Rightarrow> bool" where
  "table_removed p n n' \<longleftrightarrow> omx_peer_array n' = (omx_peer_array n)[unat (p_index (n_peer n p)) := None] \<and>
    omx_peer_next_nr n' = omx_peer_next_nr n \<and>
    (let h = omx_peer_addr_hash (p_board_addr (n_peer n p)) in
     omx_peer_addr_hash_array n' = (omx_peer_addr_hash_array n)(h := remove1 p (omx_peer_addr_hash_array n h))) \<and>
    (\<forall>q. q \<noteq> p \<longrightarrow> n_peer n' q = n_peer n q)"

lemma table_removed_nth:
  assumes ok: "indexes_ok n" and rem: "table_removed p n n'" and p: "in_table n p" and i: "i < omx_peer_max n"
  shows "omx_peer_array n' ! i = (if omx_peer_array n ! i = Some p then None else omx_peer_array n ! i)"
proof -
  note ix = in_table_index [OF ok p]
  have "i = unat (p_index (n_peer n p))" if "omx_peer_array n ! i = Some p"
  proof -
    have "p_index (n_peer n p) = of_nat i" "i < 4294967296" using ok i that by (auto simp: indexes_ok_def)
    then show ?thesis by (simp add: unat_of_nat)
  qed
  with rem i ix show ?thesis by (auto simp: table_removed_def nth_list_update)
qed

lemma table_removed_in:
  assumes ok: "indexes_ok n" and rem: "table_removed p n n'" and p: "in_table n p"
  shows "in_table n' q \<longleftrightarrow> in_table n q \<and> q \<noteq> p"
proof -
  have len: "omx_peer_max n' = omx_peer_max n" using rem by (simp add: table_removed_def)
  note nth = table_removed_nth [OF ok rem p]
  have "in_table n' q \<longleftrightarrow> (\<exists>i < omx_peer_max n. (if omx_peer_array n ! i = Some p then None else omx_peer_array n ! i) = Some q)"
    unfolding in_table_def in_set_conv_nth len using nth by metis
  also have "\<dots> \<longleftrightarrow> in_table n q \<and> q \<noteq> p"
    unfolding in_table_def in_set_conv_nth by (metis option.distinct(1) option.inject)
  finally show ?thesis .
qed

lemma table_removed_ok:
  assumes ok: "indexes_ok n" "hash_ok n" and rem: "table_removed p n n'" and p: "in_table n p"
  shows "indexes_ok n'" "hash_ok n'"
proof -
  note in' = table_removed_in [OF ok(1) rem p]
  have len: "omx_peer_max n' = omx_peer_max n" "omx_peer_next_nr n' = omx_peer_next_nr n" using rem by (simp_all add: table_removed_def)
  have same: "n_peer n' q = n_peer n q" if "in_table n' q" for q using rem that in' by (simp add: table_removed_def)
  have "i < omx_peer_next_nr n \<and> p_index (n_peer n' q) = of_nat i" if "i < omx_peer_max n" "omx_peer_array n' ! i = Some q" for i q
  proof -
    have "in_table n' q" using that len nth_mem unfolding in_table_def by metis
    moreover have "omx_peer_array n ! i = Some q"
      using that table_removed_nth [OF ok(1) rem p that(1)] by (simp split: if_splits)
    ultimately show ?thesis using ok(1) that(1) same by (auto simp: indexes_ok_def)
  qed
  with ok(1) show "indexes_ok n'" by (simp add: indexes_ok_def len)
  have "set (omx_peer_addr_hash_array n' h) = {q. in_table n' q \<and> omx_peer_addr_hash (p_board_addr (n_peer n' q)) = h} \<and>
      distinct (omx_peer_addr_hash_array n' h)" for h
  proof -
    have l: "set (omx_peer_addr_hash_array n h) = {q. in_table n q \<and> omx_peer_addr_hash (p_board_addr (n_peer n q)) = h}"
      "distinct (omx_peer_addr_hash_array n h)" using ok(2) by (auto simp: hash_ok_def)
    have "set (omx_peer_addr_hash_array n' h) = set (omx_peer_addr_hash_array n h) - {p} \<and> distinct (omx_peer_addr_hash_array n' h)"
      using rem l by (auto simp: table_removed_def Let_def)
    moreover have "set (omx_peer_addr_hash_array n h) - {p} = {q. in_table n' q \<and> omx_peer_addr_hash (p_board_addr (n_peer n' q)) = h}"
      unfolding l(1) using in' same by auto
    ultimately show ?thesis by simp
  qed
  moreover have "inj_on (\<lambda>q. p_board_addr (n_peer n' q)) {q. in_table n' q}"
    using ok(2) same in' unfolding hash_ok_def inj_on_def by auto
  ultimately show "hash_ok n'" by (simp add: hash_ok_def)
qed

subsection \<open>Attaching an interface\<close>

lemma reverse_pre:
  assumes ok: "peers_ok n" and same: "omx_ifaces n1 = omx_ifaces n" "omx_peer_array n1 = omx_peer_array n"
      "\<And>j. j \<noteq> k \<Longrightarrow> n_iface n1 j = n_iface n j" "\<And>q. q \<noteq> Iface_peer k \<Longrightarrow> n_peer n1 q = n_peer n q"
    and k: "Some k \<notin> set (omx_ifaces n)" "unat (p_index (n_peer n1 (Iface_peer k))) < omx_peer_max n"
  obtains n' where "omx_init_iface_reverse_indexes k n1 = Some n'" "only_reverse n1 n'"
    "length (if_reverse_peer_indexes (n_iface n' k)) = omx_peer_max n"
    "\<And>j. j \<noteq> k \<Longrightarrow> length (if_reverse_peer_indexes (n_iface n' j)) = length (if_reverse_peer_indexes (n_iface n j))"
proof -
  have att: "unat (p_index (n_peer n1 (Iface_peer j))) < omx_peer_max n1 \<and> length (if_reverse_peer_indexes (n_iface n1 j)) = omx_peer_max n1"
    if "Some j \<in> set (omx_ifaces n1)" for j
  proof -
    have "j \<noteq> k" "in_table n (Iface_peer j)" "length (if_reverse_peer_indexes (n_iface n j)) = omx_peer_max n"
      using that k(1) ok same(1) by (auto simp: peers_ok_def ifaces_ok_def)
    with same in_table_index(1) [of n "Iface_peer j"] ok show ?thesis by (auto simp: peers_ok_def)
  qed
  have max: "omx_peer_max n1 \<le> 65536" "unat (p_index (n_peer n1 (Iface_peer k))) < omx_peer_max n1"
    using ok same k by (auto simp: peers_ok_def indexes_ok_def)
  show thesis by (rule init_iface_reverse_ok [OF max att]) (use that same in auto)
qed

lemma attach_replace_eq:
  assumes ok: "peers_ok n" and same: "omx_ifaces n0 = omx_ifaces n" "omx_peer_array n0 = omx_peer_array n"
      "\<And>j. j \<noteq> k \<Longrightarrow> n_iface n0 j = n_iface n j" "\<And>q. q \<noteq> Iface_peer k \<Longrightarrow> n_peer n0 q = n_peer n q"
    and k: "Some k \<notin> set (omx_ifaces n)" "p_local_iface (n_peer n0 (Iface_peer k)) = None"
    and old: "in_table n (Peer m)"
  obtains n' where "attach_replace k (Peer m) n0 = Some n'"
    "omx_peer_array n' = (omx_peer_array n)[unat (p_index (n_peer n (Peer m))) := Some (Iface_peer k)]"
    "omx_peer_addr_hash_array n' = (let h = omx_peer_addr_hash (p_board_addr (n_peer n0 (Iface_peer k))) in
       (omx_peer_addr_hash_array n0)(h := map (\<lambda>q. if q = Peer m then Iface_peer k else q) (omx_peer_addr_hash_array n0 h)))"
    "n_peer n' (Iface_peer k) = (n_peer n0 (Iface_peer k))\<lparr>p_index := p_index (n_peer n (Peer m)), p_local_iface := Some k,
       p_hostname := (case p_hostname (n_peer n (Peer m)) of Some h \<Rightarrow> Some h | None \<Rightarrow> p_hostname (n_peer n0 (Iface_peer k)))\<rparr>"
    "\<And>q. q \<noteq> Iface_peer k \<Longrightarrow> q \<noteq> Peer m \<Longrightarrow> n_peer n' q = n_peer n q"
    "omx_host_query_peer_list n' = (if p_hostname (n_peer n (Peer m)) = None then remove1 (Peer m) (omx_host_query_peer_list n0)
       else omx_host_query_peer_list n0)"
    "omx_host_query_timer n' = (if p_hostname (n_peer n (Peer m)) = None
       then remove1 (Peer m) (omx_host_query_peer_list n0) \<noteq> [] \<and> omx_host_query_timer n0 else omx_host_query_timer n0)"
    "omx_peer_next_nr n' = omx_peer_next_nr n0" "peers_allocated n' = peers_allocated n0" "peers_freed n' = Peer m # peers_freed n0"
    "omx_ifaces n' = omx_ifaces n" "omx_iface_nr n' = omx_iface_nr n0"
    "\<And>j. if_index (n_iface n' j) = if_index (n_iface n0 j)" "length (if_reverse_peer_indexes (n_iface n' k)) = omx_peer_max n"
    "\<And>j. j \<noteq> k \<Longrightarrow> length (if_reverse_peer_indexes (n_iface n' j)) = length (if_reverse_peer_indexes (n_iface n j))"
proof -
  let ?p = "Iface_peer k" and ?i = "p_index (n_peer n (Peer m))"
  let ?n1 = "upd_peer ?p (\<lambda>q. q\<lparr>p_index := ?i\<rparr>) (omx_iface_reacquire k n0)"
  have ix: "unat ?i < omx_peer_max n" using in_table_index(1) ok old by (simp add: peers_ok_def)
  have n1: "omx_ifaces ?n1 = omx_ifaces n" "omx_peer_array ?n1 = omx_peer_array n"
      "\<And>j. j \<noteq> k \<Longrightarrow> n_iface ?n1 j = n_iface n j" "\<And>q. q \<noteq> ?p \<Longrightarrow> n_peer ?n1 q = n_peer n q"
      "unat (p_index (n_peer ?n1 ?p)) < omx_peer_max n"
    using same ix by (simp_all add: omx_iface_reacquire_def)
  obtain n2 where n2: "omx_init_iface_reverse_indexes k ?n1 = Some n2" "only_reverse ?n1 n2"
      "length (if_reverse_peer_indexes (n_iface n2 k)) = omx_peer_max n"
      "\<And>j. j \<noteq> k \<Longrightarrow> length (if_reverse_peer_indexes (n_iface n2 j)) = length (if_reverse_peer_indexes (n_iface n j))"
    using reverse_pre [OF ok n1(1-4) k(1) n1(5)] by metis
  note eq = only_reverse_simps [OF n2(2), simplified]
  have acq: "n_peer (omx_iface_reacquire k n0) = n_peer n0" "omx_peer_array (omx_iface_reacquire k n0) = omx_peer_array n0"
    "omx_peer_addr_hash_array (omx_iface_reacquire k n0) = omx_peer_addr_hash_array n0"
    "omx_host_query_peer_list (omx_iface_reacquire k n0) = omx_host_query_peer_list n0"
    "omx_host_query_timer (omx_iface_reacquire k n0) = omx_host_query_timer n0" "omx_peer_next_nr (omx_iface_reacquire k n0) = omx_peer_next_nr n0"
    "peers_allocated (omx_iface_reacquire k n0) = peers_allocated n0" "peers_freed (omx_iface_reacquire k n0) = peers_freed n0"
    "omx_ifaces (omx_iface_reacquire k n0) = omx_ifaces n0" "omx_iface_nr (omx_iface_reacquire k n0) = omx_iface_nr n0"
    "\<And>j. if_index (n_iface (omx_iface_reacquire k n0) j) = if_index (n_iface n0 j)"
    by (simp_all add: omx_iface_reacquire_def)
  have m: "n_peer n0 (Peer m) = n_peer n (Peer m)" using same(4) by simp
  have res: "\<exists>n'. attach_replace k (Peer m) n0 = Some n'"
    using k(2) n2(1) ix same(2) by (cases "p_hostname (n_peer n (Peer m))") (simp_all add: attach_replace_def Let_def m eq acq store_def)
  then obtain n' where n': "attach_replace k (Peer m) n0 = Some n'" by blast
  show thesis
  proof (cases "p_hostname (n_peer n (Peer m))")
    case None
    show thesis by (rule that [OF n']) (use n' k(2) n2 ix same None in \<open>auto simp: attach_replace_def Let_def m eq acq store_def\<close>)
  next
    case (Some h)
    show thesis by (rule that [OF n']) (use n' k(2) n2 ix same Some in \<open>auto simp: attach_replace_def Let_def m eq acq store_def\<close>)
  qed
qed

lemma attach_insert_eq:
  assumes ok: "peers_ok n" and same: "omx_ifaces n0 = omx_ifaces n" "omx_peer_array n0 = omx_peer_array n"
      "\<And>j. j \<noteq> k \<Longrightarrow> n_iface n0 j = n_iface n j" "\<And>q. q \<noteq> Iface_peer k \<Longrightarrow> n_peer n0 q = n_peer n q"
      "omx_peer_next_nr n0 = omx_peer_next_nr n"
    and k: "Some k \<notin> set (omx_ifaces n)" and room: "omx_peer_next_nr n < omx_peer_max n"
  obtains n' where "attach_insert k n0 = Some n'" "table_added (Iface_peer k) (omx_peer_next_nr n0) n0 n'"
    "n_peer n' (Iface_peer k) = (n_peer n0 (Iface_peer k))\<lparr>p_index := of_nat (omx_peer_next_nr n), p_local_iface := Some k\<rparr>"
    "omx_host_query_peer_list n' = omx_host_query_peer_list n0" "omx_host_query_timer n' = omx_host_query_timer n0"
    "peers_allocated n' = peers_allocated n0" "peers_freed n' = peers_freed n0" "omx_ifaces n' = omx_ifaces n" "omx_iface_nr n' = omx_iface_nr n0"
    "\<And>j. if_index (n_iface n' j) = if_index (n_iface n0 j)" "length (if_reverse_peer_indexes (n_iface n' k)) = omx_peer_max n"
    "\<And>j. j \<noteq> k \<Longrightarrow> length (if_reverse_peer_indexes (n_iface n' j)) = length (if_reverse_peer_indexes (n_iface n j))"
proof -
  let ?p = "Iface_peer k" and ?i = "omx_peer_next_nr n"
  let ?n1 = "upd_peer ?p (\<lambda>q. q\<lparr>p_local_iface := Some k, p_index := of_nat ?i\<rparr>) n0"
  have "unat (of_nat ?i :: u32) = ?i" using room ok by (simp add: unat_of_nat peers_ok_def indexes_ok_def)
  then have n1: "omx_ifaces ?n1 = omx_ifaces n" "omx_peer_array ?n1 = omx_peer_array n"
      "\<And>j. j \<noteq> k \<Longrightarrow> n_iface ?n1 j = n_iface n j" "\<And>q. q \<noteq> ?p \<Longrightarrow> n_peer ?n1 q = n_peer n q"
      "unat (p_index (n_peer ?n1 ?p)) < omx_peer_max n"
    using same room by simp_all
  obtain n2 where n2: "omx_init_iface_reverse_indexes k ?n1 = Some n2" "only_reverse ?n1 n2"
      "length (if_reverse_peer_indexes (n_iface n2 k)) = omx_peer_max n"
      "\<And>j. j \<noteq> k \<Longrightarrow> length (if_reverse_peer_indexes (n_iface n2 j)) = length (if_reverse_peer_indexes (n_iface n j))"
    using reverse_pre [OF ok n1(1-4) k n1(5)] by metis
  note eq = only_reverse_simps [OF n2(2), simplified]
  let ?h = "omx_peer_addr_hash (p_board_addr (n_peer n0 ?p))"
  let ?n3 = "(omx_iface_reacquire k n2)\<lparr>omx_peer_addr_hash_array := (omx_peer_addr_hash_array n0)(?h := omx_peer_addr_hash_array n0 ?h @ [?p]),
    omx_peer_array := (omx_peer_array n0)[?i := Some ?p], omx_peer_next_nr := ?i + 1\<rparr>"
  have res: "attach_insert k n0 = Some ?n3"
    using n2(1) room same by (simp add: attach_insert_def Let_def store_def omx_iface_reacquire_def eq)
  show thesis by (rule that [OF res]) (use same n2 in \<open>simp_all add: table_added_def eq omx_iface_reacquire_def\<close>)
qed

text \<open>
  The interface is in the table: in a new place, or in the place of the remote peer with the same address. It is not
  in the array of interfaces yet.
\<close>

definition attached_to :: "nat \<Rightarrow> omx_node \<Rightarrow> omx_node \<Rightarrow> bool" where
  "attached_to k n n' \<longleftrightarrow> indexes_ok n' \<and> hash_ok n' \<and> kinds_ok n' \<and> queries_ok n' \<and>
    (\<forall>j. in_table n' (Iface_peer j) \<longleftrightarrow> j = k \<or> in_table n (Iface_peer j)) \<and>
    omx_ifaces n' = omx_ifaces n \<and> omx_iface_nr n' = omx_iface_nr n \<and> omx_peer_max n' = omx_peer_max n \<and>
    length (if_reverse_peer_indexes (n_iface n' k)) = omx_peer_max n \<and>
    (\<forall>j. j \<noteq> k \<longrightarrow> length (if_reverse_peer_indexes (n_iface n' j)) = length (if_reverse_peer_indexes (n_iface n j)) \<and>
       if_index (n_iface n' j) = if_index (n_iface n j))"

definition new_iface_at :: "nat \<Rightarrow> u64 \<Rightarrow> u8 list \<Rightarrow> omx_iface \<Rightarrow> omx_node \<Rightarrow> omx_node" where
  "new_iface_at k a h i n = upd_peer (Iface_peer k) (\<lambda>_. \<lparr>p_board_addr = a, p_hostname = Some h,
     p_index = OMX_UNKNOWN_REVERSE_PEER_INDEX, p_local_iface = None\<rparr>) (upd_iface k (\<lambda>_. i) n)"

lemma new_iface_at_simps:
  "omx_ifaces (new_iface_at k a h i n) = omx_ifaces n" "omx_peer_array (new_iface_at k a h i n) = omx_peer_array n"
  "j \<noteq> k \<Longrightarrow> n_iface (new_iface_at k a h i n) j = n_iface n j" "q \<noteq> Iface_peer k \<Longrightarrow> n_peer (new_iface_at k a h i n) q = n_peer n q"
  "omx_peer_next_nr (new_iface_at k a h i n) = omx_peer_next_nr n" "omx_peer_addr_hash_array (new_iface_at k a h i n) = omx_peer_addr_hash_array n"
  "p_local_iface (n_peer (new_iface_at k a h i n) (Iface_peer k)) = None" "p_board_addr (n_peer (new_iface_at k a h i n) (Iface_peer k)) = a"
  "p_hostname (n_peer (new_iface_at k a h i n) (Iface_peer k)) = Some h" "n_iface (new_iface_at k a h i n) k = i"
  "omx_host_query_peer_list (new_iface_at k a h i n) = omx_host_query_peer_list n"
  "omx_host_query_timer (new_iface_at k a h i n) = omx_host_query_timer n" "peers_allocated (new_iface_at k a h i n) = peers_allocated n"
  "peers_freed (new_iface_at k a h i n) = peers_freed n" "omx_iface_nr (new_iface_at k a h i n) = omx_iface_nr n"
  "in_table (new_iface_at k a h i n) = in_table n"
  by (simp_all add: new_iface_at_def)

lemma new_iface_at_ok:
  assumes "\<not> in_table n (Iface_peer k)" "peers_ok n"
  shows "indexes_ok (new_iface_at k a h i n)" "hash_ok (new_iface_at k a h i n)"
  using assms by (simp_all add: new_iface_at_def upd_outside peers_ok_def)

lemma attach_replace_ok:
  assumes ok: "peers_ok n" and k: "Some k \<notin> set (omx_ifaces n)" and m: "in_table n (Peer m)" "p_board_addr (n_peer n (Peer m)) = a"
  obtains n' where "attach_replace k (Peer m) (new_iface_at k a h i n) = Some n'" "attached_to k n n'"
    "if_index (n_iface n' k) = if_index i"
proof -
  let ?p = "Iface_peer k" and ?n0 = "new_iface_at k a h i n"
  have out: "\<not> in_table n ?p" using ok k by (auto simp: peers_ok_def ifaces_ok_def)
  note n0 = new_iface_at_simps [where k = k and a = a and h = h and i = i and n = n] and ok0 = new_iface_at_ok [OF out ok, of a h i]
  obtain n' where n': "attach_replace k (Peer m) ?n0 = Some n'"
    "omx_peer_array n' = (omx_peer_array n)[unat (p_index (n_peer n (Peer m))) := Some ?p]"
    "omx_peer_addr_hash_array n' = (let h' = omx_peer_addr_hash (p_board_addr (n_peer ?n0 ?p)) in
       (omx_peer_addr_hash_array ?n0)(h' := map (\<lambda>q. if q = Peer m then ?p else q) (omx_peer_addr_hash_array ?n0 h')))"
    "n_peer n' ?p = (n_peer ?n0 ?p)\<lparr>p_index := p_index (n_peer n (Peer m)), p_local_iface := Some k,
       p_hostname := (case p_hostname (n_peer n (Peer m)) of Some h \<Rightarrow> Some h | None \<Rightarrow> p_hostname (n_peer ?n0 ?p))\<rparr>"
    "\<And>q. q \<noteq> ?p \<Longrightarrow> q \<noteq> Peer m \<Longrightarrow> n_peer n' q = n_peer n q"
    "omx_host_query_peer_list n' = (if p_hostname (n_peer n (Peer m)) = None then remove1 (Peer m) (omx_host_query_peer_list ?n0)
       else omx_host_query_peer_list ?n0)"
    "omx_host_query_timer n' = (if p_hostname (n_peer n (Peer m)) = None
       then remove1 (Peer m) (omx_host_query_peer_list ?n0) \<noteq> [] \<and> omx_host_query_timer ?n0 else omx_host_query_timer ?n0)"
    "omx_peer_next_nr n' = omx_peer_next_nr ?n0" "peers_allocated n' = peers_allocated ?n0" "peers_freed n' = Peer m # peers_freed ?n0"
    "omx_ifaces n' = omx_ifaces n" "omx_iface_nr n' = omx_iface_nr ?n0"
    "\<And>j. if_index (n_iface n' j) = if_index (n_iface ?n0 j)" "length (if_reverse_peer_indexes (n_iface n' k)) = omx_peer_max n"
    "\<And>j. j \<noteq> k \<Longrightarrow> length (if_reverse_peer_indexes (n_iface n' j)) = length (if_reverse_peer_indexes (n_iface n j))"
    by (rule attach_replace_eq [OF ok n0(1,2) n0(3) n0(4) k n0(7) m(1)], assumption, assumption) (rule that; (assumption | blast))
  have rep: "table_replaced (Peer m) ?p ?n0 n'" using n'(2-5,8) m(2) by (simp add: table_replaced_def n0)
  have m0: "in_table ?n0 (Peer m)" "\<not> in_table ?n0 ?p" using m out by (simp_all add: n0)
  have in': "in_table n' q \<longleftrightarrow> q = ?p \<or> in_table n q \<and> q \<noteq> Peer m" for q
    using table_replaced_in [OF ok0(1) rep m0] by (simp add: n0)
  have name: "p_hostname (n_peer n' ?p) \<noteq> None" "p_local_iface (n_peer n' ?p) = Some k"
    by (simp_all add: n'(4) n0 split: option.split)
  have same: "n_peer n' q = n_peer n q" if "in_table n q" "q \<noteq> Peer m" for q using n'(5) out that by (cases "q = ?p") auto
  have "kinds_ok n'"
    using ok m(1) name same unfolding kinds_ok_def in' n'(9,10) n0 peers_ok_def by auto
  moreover have "queries_ok n'"
  proof -
    let ?l = "omx_host_query_peer_list n"
    have l: "distinct ?l" "set ?l = {q. in_table n q \<and> p_hostname (n_peer n q) = None}" "?l \<noteq> [] \<longrightarrow> omx_host_query_timer n"
      using ok by (simp_all add: peers_ok_def queries_ok_def)
    have "{q. in_table n' q \<and> p_hostname (n_peer n' q) = None} = set ?l - {Peer m}"
    proof (rule set_eqI)
      fix q
      show "q \<in> {q. in_table n' q \<and> p_hostname (n_peer n' q) = None} \<longleftrightarrow> q \<in> set ?l - {Peer m}"
        using name(1) n'(5) [of q] out by (cases "q = ?p") (auto simp: in' l(2))
    qed
    moreover have "Peer m \<in> set ?l \<longleftrightarrow> p_hostname (n_peer n (Peer m)) = None" using l(2) m(1) by auto
    moreover have "remove1 (Peer m) ?l \<noteq> [] \<longrightarrow> omx_host_query_timer n" using l(3) by auto
    ultimately show ?thesis using l(1,3) unfolding queries_ok_def n'(6,7) n0 by auto
  qed
  ultimately have "attached_to k n n'"
    unfolding attached_to_def using table_replaced_ok [OF ok0 rep m0] n'(2,11-15) by (simp add: in' n0)
  then show thesis using that n'(1,13) by (simp add: n0)
qed

lemma attach_insert_ok:
  assumes ok: "peers_ok n" and k: "Some k \<notin> set (omx_ifaces n)" and room: "omx_peer_next_nr n < omx_peer_max n"
    and new: "\<And>q. in_table n q \<Longrightarrow> p_board_addr (n_peer n q) \<noteq> a"
  obtains n' where "attach_insert k (new_iface_at k a h i n) = Some n'" "attached_to k n n'" "if_index (n_iface n' k) = if_index i"
proof -
  let ?p = "Iface_peer k" and ?n0 = "new_iface_at k a h i n"
  have out: "\<not> in_table n ?p" using ok k by (auto simp: peers_ok_def ifaces_ok_def)
  note n0 = new_iface_at_simps [where k = k and a = a and h = h and i = i and n = n] and ok0 = new_iface_at_ok [OF out ok, of a h i]
  obtain n' where n': "attach_insert k ?n0 = Some n'" "table_added ?p (omx_peer_next_nr ?n0) ?n0 n'"
    "n_peer n' ?p = (n_peer ?n0 ?p)\<lparr>p_index := of_nat (omx_peer_next_nr n), p_local_iface := Some k\<rparr>"
    "omx_host_query_peer_list n' = omx_host_query_peer_list ?n0" "omx_host_query_timer n' = omx_host_query_timer ?n0"
    "peers_allocated n' = peers_allocated ?n0" "peers_freed n' = peers_freed ?n0" "omx_ifaces n' = omx_ifaces n" "omx_iface_nr n' = omx_iface_nr ?n0"
    "\<And>j. if_index (n_iface n' j) = if_index (n_iface ?n0 j)" "length (if_reverse_peer_indexes (n_iface n' k)) = omx_peer_max n"
    "\<And>j. j \<noteq> k \<Longrightarrow> length (if_reverse_peer_indexes (n_iface n' j)) = length (if_reverse_peer_indexes (n_iface n j))"
    by (rule attach_insert_eq [OF ok n0(1,2) n0(3) n0(4) n0(5) k room], assumption, assumption) (rule that; (assumption | blast))
  have pre: "omx_peer_next_nr ?n0 < omx_peer_max ?n0" "\<not> in_table ?n0 ?p"
      "\<And>q. in_table ?n0 q \<Longrightarrow> p_board_addr (n_peer ?n0 q) \<noteq> p_board_addr (n_peer n' ?p)"
    using room out new n0(4) by (auto simp: n0(1,2,5-) n'(3)) metis
  have in': "in_table n' q \<longleftrightarrow> q = ?p \<or> in_table n q" for q
    using table_added_in [OF ok0(1) n'(2) pre(1)] by (simp add: n0)
  have old: "n_peer n' q = n_peer n q" if "q \<noteq> ?p" for q using n'(2) that by (simp add: table_added_def n0)
  have same: "n_peer n' q = n_peer n q" if "in_table n q" for q using old out that by (cases "q = ?p") auto
  have "kinds_ok n'"
    using ok same unfolding kinds_ok_def in' n'(6,7) n0 peers_ok_def by (auto simp: n'(3) n0)
  moreover have "{q. in_table n' q \<and> p_hostname (n_peer n' q) = None} = {q. in_table n q \<and> p_hostname (n_peer n q) = None}"
  proof (rule set_eqI)
    fix q
    show "q \<in> {q. in_table n' q \<and> p_hostname (n_peer n' q) = None} \<longleftrightarrow> q \<in> {q. in_table n q \<and> p_hostname (n_peer n q) = None}"
      using old [of q] out by (cases "q = ?p") (auto simp: in' n'(3) n0)
  qed
  then have "queries_ok n'" using ok unfolding queries_ok_def n'(4,5) n0 peers_ok_def by simp
  ultimately have "attached_to k n n'"
    unfolding attached_to_def using table_added_ok [OF ok0 n'(2) pre] n'(2,8-12) by (simp add: in' n0 table_added_def)
  then show thesis using that n'(1,10) by (simp add: n0)
qed

text \<open>An interface whose address no other interface has is attached, or there is no room and nothing changes but the flag.\<close>

lemma full_table_ok:
  "peers_ok (n\<lparr>omx_peer_table_full := b, peer_table_status := st\<rparr>) = peers_ok n"
  by (simp add: peers_ok_def indexes_ok_def hash_ok_def kinds_ok_def queries_ok_def ifaces_ok_def in_table_def)

lemma upd_iface_outside:
  assumes "Some k \<notin> set (omx_ifaces n)"
  shows "ifaces_ok (upd_iface k f n) = ifaces_ok n"
proof -
  have "omx_ifaces n ! i = Some j \<Longrightarrow> i < length (omx_ifaces n) \<Longrightarrow> j \<noteq> k" for i j using assms nth_mem by metis
  with assms show ?thesis unfolding ifaces_ok_def by (auto cong: conj_cong)
qed

lemma new_iface_at_peers_ok:
  assumes ok: "peers_ok n" and k: "Some k \<notin> set (omx_ifaces n)"
  shows "peers_ok (new_iface_at k a h i n)"
proof -
  have out: "\<not> in_table n (Iface_peer k)" using ok k by (auto simp: peers_ok_def ifaces_ok_def)
  note n0 = new_iface_at_simps [where k = k and a = a and h = h and i = i and n = n]
  have same: "n_peer (new_iface_at k a h i n) q = n_peer n q" if "in_table n q" for q using n0(4) out that by (cases "q = Iface_peer k") auto
  have "kinds_ok (new_iface_at k a h i n)" using ok same unfolding kinds_ok_def n0(13-) peers_ok_def by auto
  moreover have "{q. in_table n q \<and> p_hostname (n_peer (new_iface_at k a h i n) q) = None} = {q. in_table n q \<and> p_hostname (n_peer n q) = None}"
    using same by auto
  then have "queries_ok (new_iface_at k a h i n)" using ok unfolding queries_ok_def n0(11-) peers_ok_def by simp
  moreover have "ifaces_ok (new_iface_at k a h i n)" using ok k by (simp add: new_iface_at_def upd_iface_outside peers_ok_def)
  ultimately show ?thesis using new_iface_at_ok [OF out ok] by (simp add: peers_ok_def)
qed

lemma takeWhile_less: "\<exists>x \<in> set xs. \<not> P x \<Longrightarrow> length (takeWhile P xs) < length xs"
  by (induction xs) auto

lemma first_free_slot:
  assumes "peers_ok n" "omx_iface_nr n \<noteq> length (omx_ifaces n)"
  shows "length (takeWhile (\<lambda>i. i \<noteq> None) (omx_ifaces n)) < length (omx_ifaces n)"
    "omx_ifaces n ! length (takeWhile (\<lambda>i. i \<noteq> None) (omx_ifaces n)) = None"
proof -
  have nr: "omx_iface_nr n = length (filter (\<lambda>i. i \<noteq> None) (omx_ifaces n))" using assms(1) by (simp add: peers_ok_def ifaces_ok_def)
  have "\<exists>x \<in> set (omx_ifaces n). \<not> x \<noteq> None"
  proof (rule ccontr)
    assume "\<not> ?thesis"
    then have "filter (\<lambda>i. i \<noteq> None) (omx_ifaces n) = omx_ifaces n" by (intro filter_True) blast
    with nr assms(2) show False by simp
  qed
  then show l: "length (takeWhile (\<lambda>i. i \<noteq> None) (omx_ifaces n)) < length (omx_ifaces n)" by (rule takeWhile_less)
  show "omx_ifaces n ! length (takeWhile (\<lambda>i. i \<noteq> None) (omx_ifaces n)) = None" using nth_length_takeWhile [OF l] by blast
qed

lemma filter_update_Some:
  "i < length xs \<Longrightarrow> xs ! i = None \<Longrightarrow> length (filter (\<lambda>x. x \<noteq> None) (xs[i := Some k])) = Suc (length (filter (\<lambda>x. x \<noteq> None) xs))"
proof (induction xs arbitrary: i)
  case (Cons x xs)
  then show ?case by (cases i) auto
qed simp

lemma attached_ok:
  assumes ok: "peers_ok n" and att: "attached_to k n n'" and k: "Some k \<notin> set (omx_ifaces n)"
    and slot: "slot < length (omx_ifaces n)" "omx_ifaces n ! slot = None" "if_index (n_iface n' k) = slot"
  shows "peers_ok (n'\<lparr>omx_ifaces := (omx_ifaces n)[slot := Some k], omx_iface_nr := omx_iface_nr n + 1\<rparr>)"
proof -
  let ?n = "n'\<lparr>omx_ifaces := (omx_ifaces n)[slot := Some k], omx_iface_nr := omx_iface_nr n + 1\<rparr>"
  have frame: "indexes_ok ?n" "hash_ok ?n" "kinds_ok ?n" "queries_ok ?n"
    using att by (auto simp: attached_to_def indexes_ok_def hash_ok_def kinds_ok_def queries_ok_def in_table_def)
  have i: "Some j \<in> set ((omx_ifaces n)[slot := Some k]) \<longleftrightarrow> j = k \<or> Some j \<in> set (omx_ifaces n)" for j
    using slot by (simp add: set_update_None)
  have ok': "\<And>j. Some j \<in> set (omx_ifaces n) \<longleftrightarrow> in_table n (Iface_peer j)"
      "\<And>j. Some j \<in> set (omx_ifaces n) \<Longrightarrow> length (if_reverse_peer_indexes (n_iface n j)) = omx_peer_max n"
      "\<And>i j. i < length (omx_ifaces n) \<Longrightarrow> omx_ifaces n ! i = Some j \<Longrightarrow> if_index (n_iface n j) = i"
      "omx_iface_nr n = length (filter (\<lambda>i. i \<noteq> None) (omx_ifaces n))"
    using ok by (auto simp: peers_ok_def ifaces_ok_def)
  have "if_index (n_iface n' j) = i" if "i < length (omx_ifaces n)" "(omx_ifaces n)[slot := Some k] ! i = Some j" for i j
  proof (cases "i = slot")
    case True
    then show ?thesis using that slot by simp
  next
    case False
    then have "omx_ifaces n ! i = Some j" using that by simp
    moreover from this that(1) k have "j \<noteq> k" using nth_mem by metis
    ultimately show ?thesis using att ok'(3) that(1) by (simp add: attached_to_def)
  qed
  moreover have "length (if_reverse_peer_indexes (n_iface n' j)) = omx_peer_max n'" if "j = k \<or> Some j \<in> set (omx_ifaces n)" for j
    using that att ok'(2) by (cases "j = k") (auto simp: attached_to_def)
  ultimately have "ifaces_ok ?n"
    unfolding ifaces_ok_def using att ok'(1,4) slot filter_update_Some [OF slot(1,2)] by (simp add: i in_table_def attached_to_def)
  with frame show ?thesis by (simp add: peers_ok_def)
qed

lemma notify_attach_ok:
  assumes ok: "peers_ok n" and k: "Some k \<notin> set (omx_ifaces n)" and addr: "omx_iface_find_by_addr a n = None"
  obtains n' where "omx_peers_notify_iface_attach k (new_iface_at k a h i n) = Some (None, n')" "attached_to k n n'"
      "if_index (n_iface n' k) = if_index i"
  | err n' where "omx_peers_notify_iface_attach k (new_iface_at k a h i n) = Some (Some err, n')" "peers_ok n'"
proof -
  let ?n0 = "new_iface_at k a h i n"
  have out: "\<not> in_table n (Iface_peer k)" using ok k by (auto simp: peers_ok_def ifaces_ok_def)
  note n0 = new_iface_at_simps [where k = k and a = a and h = h and i = i and n = n]
  have find: "omx_peer_lookup_by_addr_locked a ?n0 = Some p \<longleftrightarrow> in_table n p \<and> p_board_addr (n_peer n p) = a" for p
    using lookup_Some [OF new_iface_at_ok(2) [OF out ok], of a] n0(4) [of p] out by (cases "p = Iface_peer k") (auto simp: n0(16))
  show thesis
  proof (cases "omx_peer_lookup_by_addr_locked a ?n0")
    case (Some p)
    then have p: "in_table n p" "p_board_addr (n_peer n p) = a" using find by auto
    then obtain m where m: "p = Peer m"
      using iface_find_None [OF addr] ok by (cases p) (auto simp: peers_ok_def ifaces_ok_def)
    obtain n' where n': "attach_replace k (Peer m) ?n0 = Some n'" "attached_to k n n'" "if_index (n_iface n' k) = if_index i"
      using attach_replace_ok [OF ok k] p m by blast
    have "omx_peers_notify_iface_attach k ?n0 = Some (None, n')"
      using Some m n'(1) by (simp add: omx_peers_notify_iface_attach_def n0(8))
    then show thesis using n'(2,3) by (rule that(1))
  next
    case None
    then have new: "p_board_addr (n_peer n q) \<noteq> a" if "in_table n q" for q using find that by (metis option.distinct(1))
    show thesis
    proof (cases "omx_peer_next_nr n = omx_peer_max n")
      case True
      then have "omx_peers_notify_iface_attach k ?n0 = Some (Some ENOMEM, ?n0\<lparr>omx_peer_table_full := True,
          peer_table_status := peer_table_status ?n0 OR OMX_PEER_TABLE_STATUS_FULL\<rparr>)"
        using None by (simp add: omx_peers_notify_iface_attach_def n0)
      then show thesis by (rule that(2)) (simp add: full_table_ok new_iface_at_peers_ok [OF ok k])
    next
      case False
      with ok have "omx_peer_next_nr n < omx_peer_max n" by (simp add: peers_ok_def indexes_ok_def)
      then obtain n' where n': "attach_insert k ?n0 = Some n'" "attached_to k n n'" "if_index (n_iface n' k) = if_index i"
        using attach_insert_ok [OF ok k _ new] by blast
      have "omx_peers_notify_iface_attach k ?n0 = Some (None, n')"
        using None False n'(1) by (simp add: omx_peers_notify_iface_attach_def n0)
      then show thesis using n'(2,3) by (rule that(1))
    qed
  qed
qed

lemma iface_attach_ok:
  assumes ok: "peers_ok n" and k: "Some k \<notin> set (omx_ifaces n)"
    and addr: "omx_iface_find_by_addr (omx_board_addr_from_netdevice dev_addr) n = None"
  shows "\<exists>err n'. omx_iface_attach mem_ok k ifp dev_addr hostname n = Some (err, n') \<and> peers_ok n'"
proof (cases "omx_iface_nr n = length (omx_ifaces n) \<or> omx_iface_find_by_ifp ifp n \<noteq> None \<or> \<not> mem_ok")
  case True
  then show ?thesis using ok by (auto simp: omx_iface_attach_def)
next
  case False
  define slot where "slot = length (takeWhile (\<lambda>i. i \<noteq> None) (omx_ifaces n))"
  define i where "i = new_iface slot ifp dev_addr (replicate (omx_peer_max n) 0) (omx_endpoint_max n)"
  have slot: "slot < length (omx_ifaces n)" "omx_ifaces n ! slot = None"
    using first_free_slot [OF ok] False unfolding slot_def by blast+
  have i: "if_index i = slot" by (simp add: i_def new_iface_def)
  let ?n0 = "new_iface_at k (omx_board_addr_from_netdevice dev_addr) hostname i n"
  have run: "omx_iface_attach mem_ok k ifp dev_addr hostname n = do {
      (err, n') \<leftarrow> omx_peers_notify_iface_attach k ?n0;
      (if err \<noteq> None then Some (err, n')
       else do {
         ifaces \<leftarrow> store slot (Some k) (omx_ifaces n');
         Some (None, n'\<lparr>omx_ifaces := ifaces, omx_iface_nr := omx_iface_nr n' + 1\<rparr>)
       })}"
    using False unfolding omx_iface_attach_def new_iface_at_def Let_def slot_def [symmetric] by (simp add: i_def)
  show ?thesis
  proof (rule notify_attach_ok [OF ok k addr, of hostname i])
    fix n' assume n': "omx_peers_notify_iface_attach k ?n0 = Some (None, n')" "attached_to k n n'" "if_index (n_iface n' k) = if_index i"
    then show ?thesis
      using run attached_ok [OF ok n'(2) k slot] i slot(1) by (simp add: store_def attached_to_def)
  next
    fix err n' assume "omx_peers_notify_iface_attach k ?n0 = Some (Some err, n')" "peers_ok n'"
    then show ?thesis using run by simp
  qed
qed

end
