(* ===== verification/Driver_Node.thy ===== *)
theory Driver_Node
  imports Driver_Peer_Table
begin

text \<open>
  The driver of one machine as a whole: the peer table, the interfaces and the life of the endpoints under any sequence
  of the operations that change them (the commands of \<^verbatim>\<open>omx_dev.c\<close>, the attaching and detaching of interfaces, host
  queries and replies, the deferred works). The invariant adds the references on interfaces and endpoints to that of
  the peer table.
\<close>

subsection \<open>Invariant\<close>

text \<open>An endpoint in the array of its interface is open, and its only reference is the one of the file.\<close>

definition endpoint_in :: "nat \<Rightarrow> nat \<Rightarrow> d_endpoint \<Rightarrow> bool" where
  "endpoint_in k i ep \<longleftrightarrow> \<not> de_freed ep \<and> de_status ep = OMX_ENDPOINT_STATUS_OK \<and> de_iface ep = Some k \<and>
    unat (de_endpoint_index ep) = i \<and> de_refcount ep = 1"

definition unused :: "d_endpoint \<Rightarrow> bool" where
  "unused ep \<longleftrightarrow> de_status ep = OMX_ENDPOINT_STATUS_FREE \<and> de_refcount ep = 1"

definition iface_refs :: "omx_node \<Rightarrow> nat \<Rightarrow> bool" where
  "iface_refs n k \<longleftrightarrow> length (if_endpoints (n_iface n k)) = omx_endpoint_max n \<and>
    if_endpoint_nr (n_iface n k) = length (filter (\<lambda>x. x \<noteq> None) (if_endpoints (n_iface n k))) \<and>
    if_refcount (n_iface n k) = 2 + if_endpoint_nr (n_iface n k) \<and>
    (\<forall>i < omx_endpoint_max n. \<forall>e. if_endpoints (n_iface n k) ! i = Some e \<longrightarrow> endpoint_in k i (n_endpoint n e))"

definition refs_ok :: "omx_node \<Rightarrow> bool" where
  "refs_ok n \<longleftrightarrow> (\<forall>k. Some k \<in> set (omx_ifaces n) \<longrightarrow> iface_refs n k) \<and>
    (\<forall>e. \<not> de_freed (n_endpoint n e) \<longrightarrow> unused (n_endpoint n e) \<or>
       (\<exists>k i. Some k \<in> set (omx_ifaces n) \<and> i < omx_endpoint_max n \<and> if_endpoints (n_iface n k) ! i = Some e))"

definition endpoints_ok :: "omx_node \<Rightarrow> bool" where
  "endpoints_ok n \<longleftrightarrow> refs_ok n \<and> (\<forall>k. Some k \<in> set (omx_ifaces n) \<longrightarrow> if_status (n_iface n k) = OMX_IFACE_STATUS_OK)"

text \<open>The packets that wait come from attached interfaces, and a reply has a name.\<close>

definition pending_ok :: "omx_node \<Rightarrow> bool" where
  "pending_ok n \<longleftrightarrow> (\<forall>(k, skb) \<in> set (omx_host_query_list n). Some k \<in> set (omx_ifaces n)) \<and>
    (\<forall>(k, skb) \<in> set (omx_host_reply_list n). Some k \<in> set (omx_ifaces n) \<and> OMX_NTOH_8 17 (skb_data skb) \<noteq> 0)"

definition node_ok :: "omx_node \<Rightarrow> bool" where
  "node_ok n \<longleftrightarrow> peers_ok n \<and> endpoints_ok n \<and> pending_ok n"

subsection \<open>What the operations on the peer table leave alone\<close>

definition iface_core :: "omx_iface \<Rightarrow> omx_iface" where
  "iface_core i = i\<lparr>if_reverse_peer_indexes := []\<rparr>"

definition same_core :: "omx_node \<Rightarrow> omx_node \<Rightarrow> bool" where
  "same_core n n' \<longleftrightarrow> n_endpoint n' = n_endpoint n \<and> omx_endpoint_max n' = omx_endpoint_max n \<and> omx_ifaces n' = omx_ifaces n \<and>
    (\<forall>k. iface_core (n_iface n' k) = iface_core (n_iface n k)) \<and>
    omx_host_query_list n' = omx_host_query_list n \<and> omx_host_reply_list n' = omx_host_reply_list n"

lemma iface_core_eqD:
  assumes "iface_core i = iface_core j"
  shows "if_index i = if_index j" "if_status i = if_status j" "if_refcount i = if_refcount j" "if_endpoint_nr i = if_endpoint_nr j"
    "if_endpoints i = if_endpoints j" "if_dev_addr i = if_dev_addr j" "if_eth_ifp i = if_eth_ifp j"
  using assms by (cases i, cases j, simp add: iface_core_def)+

lemma iface_core_simps [simp]:
  "iface_core (i\<lparr>if_reverse_peer_indexes := rs\<rparr>) = iface_core i"
  by (simp add: iface_core_def)

lemma same_core_refl [simp, intro]: "same_core n n"
  by (simp add: same_core_def)

lemma same_core_trans: "same_core n n' \<Longrightarrow> same_core n' n'' \<Longrightarrow> same_core n n''"
  by (simp add: same_core_def)

lemma same_core_only_reverse: "only_reverse n n' \<Longrightarrow> same_core n n'"
  by (auto simp: only_reverse_def same_core_def)

lemma same_core_simps [simp]:
  "same_core n (n'\<lparr>xmit := x\<rparr>) = same_core n n'" "same_core n (upd_peer p f n') = same_core n n'"
  "same_core n (n'\<lparr>peers_allocated := m\<rparr>) = same_core n n'" "same_core n (n'\<lparr>peers_freed := ps\<rparr>) = same_core n n'"
  "same_core n (n'\<lparr>omx_host_query_timer := b\<rparr>) = same_core n n'" "same_core n (n'\<lparr>omx_host_query_peer_list := ps\<rparr>) = same_core n n'"
  "same_core n (n'\<lparr>omx_peer_array := a\<rparr>) = same_core n n'" "same_core n (n'\<lparr>omx_peer_addr_hash_array := h\<rparr>) = same_core n n'"
  "same_core n (n'\<lparr>omx_peer_next_nr := m\<rparr>) = same_core n n'" "same_core n (n'\<lparr>omx_host_query_magic := g\<rparr>) = same_core n n'"
  "same_core n (n'\<lparr>omx_peer_table_full := b\<rparr>) = same_core n n'" "same_core n (n'\<lparr>peer_table_status := st\<rparr>) = same_core n n'"
  "same_core n (add_host_query p n') = same_core n n'" "same_core n (del_host_query p n') = same_core n n'"
  by (simp_all add: same_core_def upd_peer_def add_host_query_def del_host_query_def Let_def)

lemma same_core_host_query [simp]: "same_core n (omx_peer_host_query env p n') = same_core n n'"
  using host_query_xmit [of env p n'] by auto

lemma same_core_endpoints_ok:
  assumes "same_core n n'" "endpoints_ok n"
  shows "endpoints_ok n'"
proof -
  have core: "iface_core (n_iface n' k) = iface_core (n_iface n k)" for k using assms(1) by (simp add: same_core_def)
  note eq = iface_core_eqD [OF core]
  have "iface_refs n' k = iface_refs n k" for k using assms(1) by (simp add: iface_refs_def eq same_core_def)
  with assms show ?thesis by (simp add: endpoints_ok_def refs_ok_def eq same_core_def)
qed

lemma same_core_pending_ok: "same_core n n' \<Longrightarrow> pending_ok n \<Longrightarrow> pending_ok n'"
  by (simp add: pending_ok_def same_core_def)

lemma same_core_node_ok: "same_core n n' \<Longrightarrow> node_ok n \<Longrightarrow> peers_ok n' \<Longrightarrow> node_ok n'"
  by (simp add: node_ok_def same_core_endpoints_ok same_core_pending_ok)

lemma init_peer_reverse_core: "init_peer_reverse_loop ks i r n = Some n' \<Longrightarrow> same_core n n'"
proof (induction ks i r n rule: init_peer_reverse_loop.induct)
  case (3 k ks i r n)
  then obtain rs where "init_peer_reverse_loop ks i r (upd_iface k (\<lambda>i. i\<lparr>if_reverse_peer_indexes := rs\<rparr>) n) = Some n'"
      "store i r (if_reverse_peer_indexes (n_iface n k)) = Some rs" by (auto split: Option.bind_splits)
  with 3(1) have "same_core (upd_iface k (\<lambda>i. i\<lparr>if_reverse_peer_indexes := rs\<rparr>) n) n'" by blast
  with same_core_only_reverse [OF only_reverse_upd] show ?case by (rule same_core_trans)
qed auto

lemma peer_insert_core: "peer_insert p local n = Some n' \<Longrightarrow> same_core n n'"
  by (auto simp: peer_insert_def Let_def omx_init_peer_reverse_indexes_def split: Option.bind_splits dest!: init_peer_reverse_core)
    (metis same_core_simps(2) same_core_trans same_core_refl)

lemma reacquire_peer [simp]: "n_peer (omx_iface_reacquire k n) = n_peer n"
  by (simp add: omx_iface_reacquire_def)

lemma add_local_iface_core:
  "add_local_iface k h n = Some n' \<Longrightarrow> p_index (n_peer n (Iface_peer k)) \<noteq> OMX_UNKNOWN_REVERSE_PEER_INDEX \<Longrightarrow> same_core n n'"
  by (auto simp: add_local_iface_def Let_def reacquire_release split: if_splits option.splits)

lemma rename_peer_core: "rename_peer p h n = (b, n') \<Longrightarrow> same_core n n'"
  by (auto simp: rename_peer_def Let_def split: if_splits)

lemma peer_add_core:
  assumes ok: "peers_ok n" and res: "omx_peer_add env strdup_ok kmalloc_ok a h n = Some (err, n')"
  shows "same_core n n'"
proof (cases "h \<noteq> None \<and> \<not> strdup_ok \<or> omx_peer_lookup_by_addr_locked a n = None \<and> omx_peer_next_nr n = omx_peer_max n")
  case True
  then show ?thesis using res by (auto simp: omx_peer_add_def split: if_splits)
next
  case False
  show ?thesis
  proof (cases "omx_iface_find_by_addr a n")
    case (Some k)
    note att = attached_in_table [OF ok Some]
    have "p_index (n_peer n (Iface_peer k)) \<noteq> OMX_UNKNOWN_REVERSE_PEER_INDEX"
      using in_table_known ok att(1) by (simp add: peers_ok_def)
    moreover have "add_local_iface k h n = Some n'"
      using res False Some att(2) by (auto simp: omx_peer_add_def split: if_splits Option.bind_splits)
    ultimately show ?thesis by (simp add: add_local_iface_core)
  next
    case None
    show ?thesis
    proof (cases "omx_peer_lookup_by_addr_locked a n")
      case (Some p)
      obtain b n1 where r: "rename_peer p h n = (b, n1)" by fastforce
      then show ?thesis using res False None Some rename_peer_core [OF r]
        by (auto simp: omx_peer_add_def split: if_splits)
    next
      case new: None
      let ?p = "Peer (peers_allocated n)"
      let ?n1 = "upd_peer ?p (\<lambda>_. \<lparr>p_board_addr = a, p_hostname = h, p_index = 0, p_local_iface = None\<rparr>) (n\<lparr>peers_allocated := peers_allocated n + 1\<rparr>)"
      let ?n2 = "if h = None then add_host_query ?p ?n1 else ?n1"
      have n2: "same_core n ?n2" by simp
      consider "n' = n" | n3 where "peer_insert ?p False ?n2 = Some n3" "n' = (if h = None then omx_peer_host_query env ?p n3 else n3)"
        using res False None new by (auto simp: omx_peer_add_def Let_def split: if_splits Option.bind_splits)
      then show ?thesis
      proof cases
        case 2
        then show ?thesis using same_core_trans [OF n2 peer_insert_core [OF 2(1)]] by simp
      qed simp
    qed
  qed
qed

subsection \<open>Clearing the table\<close>

text \<open>A remote peer is removed.\<close>

definition removed :: "nat \<Rightarrow> peer_ref \<Rightarrow> omx_node \<Rightarrow> omx_node" where
  "removed i p n =
    (let h = omx_peer_addr_hash (p_board_addr (n_peer n p));
         n = n\<lparr>omx_peer_addr_hash_array := (omx_peer_addr_hash_array n)(h := remove1 p (omx_peer_addr_hash_array n h)),
               omx_peer_array := (omx_peer_array n)[i := None]\<rparr>;
         n = (if p_hostname (n_peer n p) = None then del_host_query p n else n)
     in n\<lparr>peers_freed := p # peers_freed n\<rparr>)"

lemma clear_loop_remote:
  assumes "omx_peer_array n ! i = Some p" "p_local_iface (n_peer n p) = None"
  shows "clear_loop local (i # is) n = clear_loop local is (removed i p n)"
  using assms by (simp add: removed_def Let_def)

lemma removed_simps:
  "n_peer (removed i p n) = n_peer n" "omx_peer_array (removed i p n) = (omx_peer_array n)[i := None]" "same_core n (removed i p n)"
  "omx_ifaces (removed i p n) = omx_ifaces n" "n_iface (removed i p n) = n_iface n" "omx_iface_nr (removed i p n) = omx_iface_nr n"
  "peers_freed (removed i p n) = p # peers_freed n" "peers_allocated (removed i p n) = peers_allocated n"
  by (simp_all add: removed_def Let_def)

lemma removed_ok:
  assumes ok: "peers_ok n" and i: "i < omx_peer_max n" "omx_peer_array n ! i = Some p" and p: "p = Peer m"
  shows "peers_ok (removed i p n)" "in_table (removed i p n) q \<longleftrightarrow> in_table n q \<and> q \<noteq> p"
proof -
  let ?n = "removed i p n"
  have in_n: "in_table n p" using i nth_mem unfolding in_table_def by metis
  have "p_index (n_peer n p) = of_nat i" "i < 4294967296" using ok i by (auto simp: peers_ok_def indexes_ok_def)
  then have ix: "unat (p_index (n_peer n p)) = i" by (simp add: unat_of_nat)
  have ok': "indexes_ok n" "hash_ok n" using ok by (auto simp: peers_ok_def)
  have rem: "table_removed p n ?n" by (simp add: table_removed_def ix removed_def Let_def)
  note in' = table_removed_in [OF ok'(1) rem in_n]
  show "in_table ?n q \<longleftrightarrow> in_table n q \<and> q \<noteq> p" by (rule in')
  have "kinds_ok ?n" using ok in_n p unfolding kinds_ok_def in' removed_simps peers_ok_def by auto
  moreover have "queries_ok ?n"
  proof -
    let ?l = "omx_host_query_peer_list n"
    have l: "distinct ?l" "set ?l = {q. in_table n q \<and> p_hostname (n_peer n q) = None}" "?l \<noteq> [] \<longrightarrow> omx_host_query_timer n"
      using ok by (simp_all add: peers_ok_def queries_ok_def)
    have new: "omx_host_query_peer_list ?n = (if p_hostname (n_peer n p) = None then remove1 p ?l else ?l)"
      "omx_host_query_timer ?n = (if p_hostname (n_peer n p) = None then remove1 p ?l \<noteq> [] \<and> omx_host_query_timer n else omx_host_query_timer n)"
      by (simp_all add: removed_def Let_def)
    have "{q. in_table ?n q \<and> p_hostname (n_peer ?n q) = None} = set ?l - {p}" by (auto simp: in' l(2) removed_simps)
    moreover have "p \<in> set ?l \<longleftrightarrow> p_hostname (n_peer n p) = None" using l(2) in_n by auto
    moreover have "remove1 p ?l \<noteq> [] \<longrightarrow> omx_host_query_timer n" using l(3) by auto
    ultimately show ?thesis using l(1,3) unfolding queries_ok_def new by auto
  qed
  moreover have "ifaces_ok ?n" using ok p unfolding ifaces_ok_def in' removed_simps peers_ok_def by auto
  ultimately show "peers_ok ?n" using table_removed_ok [OF ok' rem in_n] by (simp add: peers_ok_def)
qed

lemma clear_loop_ok:
  assumes "peers_ok n" "\<forall>i \<in> set is. i < omx_peer_max n"
  shows "\<exists>n'. clear_loop False is n = Some n' \<and> peers_ok n' \<and> same_core n n' \<and> n_peer n' = n_peer n \<and> omx_peer_max n' = omx_peer_max n \<and>
    (\<forall>k. in_table n' (Iface_peer k) = in_table n (Iface_peer k)) \<and>
    (\<forall>i < omx_peer_max n. omx_peer_array n' ! i = omx_peer_array n ! i \<or> omx_peer_array n' ! i = None) \<and>
    (\<forall>i \<in> set is. \<forall>m. omx_peer_array n' ! i \<noteq> Some (Peer m))"
  using assms
proof (induction "is" arbitrary: n)
  case Nil
  then show ?case by simp
next
  case (Cons i js)
  have i: "i < omx_peer_max n" using Cons(3) by simp
  consider (rem) m where "omx_peer_array n ! i = Some (Peer m)"
    | (keep) "\<forall>m. omx_peer_array n ! i \<noteq> Some (Peer m)" by blast
  then show ?case
  proof cases
    case rem
    then have "p_local_iface (n_peer n (Peer m)) = None"
      using Cons(2) i nth_mem [OF i] by (auto simp: peers_ok_def kinds_ok_def in_table_def)
    note eq = clear_loop_remote [OF rem this]
    let ?n = "removed i (Peer m) n"
    note ok = removed_ok [OF Cons(2) i rem refl]
    have js: "\<forall>j \<in> set js. j < omx_peer_max ?n" using Cons(3) by (simp add: removed_simps)
    obtain n' where n': "clear_loop False js ?n = Some n'" "peers_ok n'" "same_core ?n n'" "n_peer n' = n_peer ?n"
        "omx_peer_max n' = omx_peer_max ?n" "\<forall>k. in_table n' (Iface_peer k) = in_table ?n (Iface_peer k)"
        "\<forall>i < omx_peer_max ?n. omx_peer_array n' ! i = omx_peer_array ?n ! i \<or> omx_peer_array n' ! i = None"
        "\<forall>i \<in> set js. \<forall>m. omx_peer_array n' ! i \<noteq> Some (Peer m)"
      using Cons(1) [OF ok(1) js] by blast
    have "omx_peer_array n' ! i = None" using n'(7) i by (auto simp: removed_simps)
    moreover have "\<forall>j < omx_peer_max n. omx_peer_array n' ! j = omx_peer_array n ! j \<or> omx_peer_array n' ! j = None"
      using n'(7) unfolding removed_simps by (metis length_list_update nth_list_update_eq nth_list_update_neq)
    ultimately show ?thesis using n' same_core_trans [OF removed_simps(3) n'(3)] ok(2)
      by (auto simp: eq removed_simps simp del: clear_loop.simps)
  next
    case keep
    have "clear_loop False (i # js) n = clear_loop False js n"
    proof (cases "omx_peer_array n ! i")
      case (Some p)
      then obtain k where "p = Iface_peer k" using keep by (cases p) auto
      moreover from this Some have "in_table n (Iface_peer k)" using nth_mem [OF i] by (simp add: in_table_def)
      ultimately show ?thesis using Some Cons(2) by (auto simp: peers_ok_def kinds_ok_def)
    qed simp
    moreover obtain n' where n': "clear_loop False js n = Some n'" "peers_ok n'" "same_core n n'" "n_peer n' = n_peer n"
        "omx_peer_max n' = omx_peer_max n" "\<forall>k. in_table n' (Iface_peer k) = in_table n (Iface_peer k)"
        "\<forall>i < omx_peer_max n. omx_peer_array n' ! i = omx_peer_array n ! i \<or> omx_peer_array n' ! i = None"
        "\<forall>i \<in> set js. \<forall>m. omx_peer_array n' ! i \<noteq> Some (Peer m)"
      using Cons(1) [OF Cons(2)] Cons(3) by auto
    moreover have "\<forall>m. omx_peer_array n' ! i \<noteq> Some (Peer m)" using n'(7) i keep by (metis option.distinct(1))
    ultimately show ?thesis by auto
  qed
qed

text \<open>The interfaces move to the front: up to \<open>i\<close> they have.\<close>

definition compacted :: "nat \<Rightarrow> omx_node \<Rightarrow> bool" where
  "compacted i n \<longleftrightarrow> omx_peer_next_nr n \<le> i \<and>
    (\<forall>j < omx_peer_next_nr n. \<exists>p. omx_peer_array n ! j = Some p \<and> p_index (n_peer n p) = of_nat j) \<and>
    (\<forall>j. omx_peer_next_nr n \<le> j \<longrightarrow> j < i \<longrightarrow> omx_peer_array n ! j = None) \<and>
    (\<forall>j < omx_peer_max n. i \<le> j \<longrightarrow> (\<forall>p. omx_peer_array n ! j = Some p \<longrightarrow> p_index (n_peer n p) = of_nat j)) \<and>
    (\<forall>a < omx_peer_max n. \<forall>b < omx_peer_max n. omx_peer_array n ! a = omx_peer_array n ! b \<longrightarrow> omx_peer_array n ! a \<noteq> None \<longrightarrow> a = b)"

text \<open>Only the indexes change.\<close>

definition reindexed :: "omx_node \<Rightarrow> omx_node \<Rightarrow> bool" where
  "reindexed n n' \<longleftrightarrow> (\<exists>f a r. n' = n\<lparr>n_peer := f, omx_peer_array := a, omx_peer_next_nr := r\<rparr> \<and> length a = omx_peer_max n \<and>
     (\<forall>q. f q = (n_peer n q)\<lparr>p_index := p_index (f q)\<rparr>)) \<and> (\<forall>q. in_table n' q = in_table n q)"

lemma reindexed_refl: "reindexed n n"
  unfolding reindexed_def by (rule conjI, rule exI [of _ "n_peer n"], rule exI [of _ "omx_peer_array n"], rule exI [of _ "omx_peer_next_nr n"]) simp_all

lemma reindexed_trans:
  assumes "reindexed n n'" "reindexed n' n''"
  shows "reindexed n n''"
proof -
  obtain f a r where 1: "n' = n\<lparr>n_peer := f, omx_peer_array := a, omx_peer_next_nr := r\<rparr>" "length a = omx_peer_max n"
      "\<And>q. f q = (n_peer n q)\<lparr>p_index := p_index (f q)\<rparr>" using assms(1) by (auto simp: reindexed_def)
  obtain g b t where 2: "n'' = n'\<lparr>n_peer := g, omx_peer_array := b, omx_peer_next_nr := t\<rparr>" "length b = omx_peer_max n'"
      "\<And>q. g q = (n_peer n' q)\<lparr>p_index := p_index (g q)\<rparr>" using assms(2) by (auto simp: reindexed_def)
  have "g q = (n_peer n q)\<lparr>p_index := p_index (g q)\<rparr>" for q
  proof -
    have "g q = (f q)\<lparr>p_index := p_index (g q)\<rparr>" using 2(3) [of q] by (simp add: 1(1))
    also have "\<dots> = ((n_peer n q)\<lparr>p_index := p_index (f q)\<rparr>)\<lparr>p_index := p_index (g q)\<rparr>" using 1(3) [of q] by simp
    finally show ?thesis by simp
  qed
  moreover have "n'' = n\<lparr>n_peer := g, omx_peer_array := b, omx_peer_next_nr := t\<rparr>" "length b = omx_peer_max n"
    using 1 2 by simp_all
  moreover have "\<forall>q. in_table n'' q = in_table n q" using assms by (simp add: reindexed_def)
  ultimately show ?thesis unfolding reindexed_def by blast
qed

lemma set_move:
  assumes "a < length xs" "b < length xs" "xs ! a = None" "xs ! b = Some p"
  shows "Some q \<in> set (xs[a := Some p, b := None]) \<longleftrightarrow> Some q \<in> set xs"
proof -
  have ab: "a \<noteq> b" using assms(3,4) by auto
  have "xs[a := Some p, b := None] ! i = (if i = b then None else if i = a then Some p else xs ! i)" if "i < length xs" for i
    using that by (simp add: nth_list_update)
  then have "Some q \<in> set (xs[a := Some p, b := None]) \<longleftrightarrow> (\<exists>i < length xs. (if i = b then None else if i = a then Some p else xs ! i) = Some q)"
    by (simp only: in_set_conv_nth length_list_update cong: conj_cong)
  also have "\<dots> \<longleftrightarrow> (\<exists>i < length xs. xs ! i = Some q)"
  proof
    assume "\<exists>i < length xs. (if i = b then None else if i = a then Some p else xs ! i) = Some q"
    then obtain i where i: "i < length xs" "(if i = b then None else if i = a then Some p else xs ! i) = Some q" by blast
    then show "\<exists>i < length xs. xs ! i = Some q" using assms(2,4) by (cases "i = a") (auto split: if_splits)
  next
    assume "\<exists>i < length xs. xs ! i = Some q"
    then obtain i where i: "i < length xs" "xs ! i = Some q" by blast
    show "\<exists>i < length xs. (if i = b then None else if i = a then Some p else xs ! i) = Some q"
    proof (cases "i = b")
      case True
      then show ?thesis using i assms ab by (intro exI [of _ a]) simp
    next
      case False
      then show ?thesis using i assms(3) by (intro exI [of _ i]) auto
    qed
  qed
  finally show ?thesis by (simp add: in_set_conv_nth)
qed

lemma compact_step:
  assumes c: "compacted i n" and i: "i < omx_peer_max n" "omx_peer_array n ! i = Some p" and small: "omx_peer_max n \<le> 65536"
    and first: "omx_peer_next_nr n \<noteq> i"
  defines "n' \<equiv> (upd_peer p (\<lambda>q. q\<lparr>p_index := of_nat (omx_peer_next_nr n)\<rparr>) n)
     \<lparr>omx_peer_array := (omx_peer_array n)[omx_peer_next_nr n := Some p, i := None], omx_peer_next_nr := omx_peer_next_nr n + 1\<rparr>"
  shows "compacted (Suc i) n'" "reindexed n n'"
proof -
  let ?x = "omx_peer_next_nr n"
  have x: "?x < i" "?x < omx_peer_max n" "omx_peer_array n ! ?x = None" using c first i(1) by (auto simp: compacted_def)
  have n': "omx_peer_next_nr n' = ?x + 1" "omx_peer_max n' = omx_peer_max n" "omx_peer_array n' = (omx_peer_array n)[?x := Some p, i := None]"
    "\<And>q. n_peer n' q = (if q = p then (n_peer n p)\<lparr>p_index := of_nat ?x\<rparr> else n_peer n q)" by (simp_all add: n'_def)
  have nth: "omx_peer_array n' ! j = (if j = i then None else if j = ?x then Some p else omx_peer_array n ! j)" if "j < omx_peer_max n" for j
    using that x i by (auto simp: n' nth_list_update)
  have inj: "a = b" if "a < omx_peer_max n" "b < omx_peer_max n" "omx_peer_array n ! a = omx_peer_array n ! b" "omx_peer_array n ! a \<noteq> None" for a b
    using c that by (simp add: compacted_def)
  have "\<exists>q. omx_peer_array n' ! j = Some q \<and> p_index (n_peer n' q) = of_nat j" if j: "j < ?x + 1" for j
  proof (cases "j = ?x")
    case True
    then show ?thesis using nth x by (auto simp: n'(4))
  next
    case False
    with j have "j < ?x" by simp
    with c obtain q where q: "omx_peer_array n ! j = Some q" "p_index (n_peer n q) = of_nat j" unfolding compacted_def by blast
    moreover have "q \<noteq> p" using inj [of j i] q i j False x by auto
    ultimately show ?thesis using nth [of j] False j x by (simp add: n'(4))
  qed
  moreover have "omx_peer_array n' ! j = None" if "?x + 1 \<le> j" "j < Suc i" for j
    using that nth [of j] c i x by (auto simp: compacted_def)
  moreover have "p_index (n_peer n' q) = of_nat j" if "j < omx_peer_max n" "Suc i \<le> j" "omx_peer_array n' ! j = Some q" for j q
  proof -
    have q: "omx_peer_array n ! j = Some q" using that nth [of j] x by (auto split: if_splits)
    moreover have "q \<noteq> p" using inj [of j i] q i that by auto
    ultimately show ?thesis using c that by (simp add: n'(4) compacted_def)
  qed
  moreover have "a = b" if "a < omx_peer_max n" "b < omx_peer_max n" "omx_peer_array n' ! a = omx_peer_array n' ! b" "omx_peer_array n' ! a \<noteq> None" for a b
  proof -
    have ne: "a \<noteq> i" "b \<noteq> i" using that nth [of a] nth [of b] by auto
    show ?thesis
    proof (rule ccontr)
      assume "a \<noteq> b"
      moreover from this have "a = ?x \<or> b = ?x" using that ne inj [of a b] nth [of a] nth [of b] by (auto split: if_splits)
      ultimately have "omx_peer_array n ! (if a = ?x then b else a) = Some p" using that ne nth [of a] nth [of b] by (auto split: if_splits)
      then show False using inj [of "if a = ?x then b else a" i] that ne i by (auto split: if_splits)
    qed
  qed
  ultimately show "compacted (Suc i) n'" using x unfolding compacted_def n'(1,2) by auto
  have "\<forall>q. in_table n' q = in_table n q" unfolding in_table_def n'(3) using set_move [OF x(2) i(1) x(3) i(2)] by simp
  moreover have "\<forall>q. n_peer n' q = (n_peer n q)\<lparr>p_index := p_index (n_peer n' q)\<rparr>" by (simp add: n'(4))
  moreover have "n' = n\<lparr>n_peer := n_peer n', omx_peer_array := omx_peer_array n', omx_peer_next_nr := ?x + 1\<rparr>" by (simp add: n'_def upd_peer_def)
  ultimately show "reindexed n n'" unfolding reindexed_def using n'(2) by blast
qed

lemma compact_loop_ok:
  assumes "compacted i n" "i \<le> omx_peer_max n" "omx_peer_max n \<le> 65536"
  shows "reindexed n (compact_loop [i..<omx_peer_max n] n) \<and> compacted (omx_peer_max n) (compact_loop [i..<omx_peer_max n] n)"
  using assms
proof (induction "omx_peer_max n - i" arbitrary: i n)
  case 0
  then show ?case by (simp add: reindexed_refl)
next
  case (Suc d)
  then have i: "i < omx_peer_max n" by simp
  then have upt: "[i..<omx_peer_max n] = i # [Suc i..<omx_peer_max n]" by (rule upt_conv_Cons)
  have goal: ?case if n': "compacted (Suc i) n'" "reindexed n n'" "compact_loop [i..<omx_peer_max n] n = compact_loop [Suc i..<omx_peer_max n] n'" for n'
  proof -
    have len: "omx_peer_max n' = omx_peer_max n" using n'(2) by (auto simp: reindexed_def)
    have "reindexed n' (compact_loop [Suc i..<omx_peer_max n'] n') \<and> compacted (omx_peer_max n') (compact_loop [Suc i..<omx_peer_max n'] n')"
      using Suc(1) [of n' "Suc i"] Suc(2,5) n'(1) i by (simp add: len)
    then show ?thesis using n'(3) reindexed_trans [OF n'(2)] by (simp add: len)
  qed
  show ?case
  proof (cases "omx_peer_array n ! i")
    case None
    then have "compacted (Suc i) n" using Suc(3) by (auto simp: compacted_def less_Suc_eq)
    then show ?thesis by (rule goal) (use None upt in \<open>simp_all add: reindexed_refl\<close>)
  next
    case (Some p)
    show ?thesis
    proof (cases "omx_peer_next_nr n = i")
      case True
      let ?n = "n\<lparr>omx_peer_next_nr := Suc i\<rparr>"
      have "compacted (Suc i) ?n"
        using Suc(3) True Some i unfolding compacted_def by (auto simp: less_Suc_eq)
      moreover have "reindexed n ?n" unfolding reindexed_def
        by (rule conjI, rule exI [of _ "n_peer n"], rule exI [of _ "omx_peer_array n"], rule exI [of _ "Suc i"]) (simp_all add: in_table_def)
      ultimately show ?thesis by (rule goal) (use Some True upt in simp)
    next
      case False
      show ?thesis by (rule goal [OF compact_step [OF Suc(3) i Some Suc(5) False]]) (use Some False upt in \<open>simp add: Let_def\<close>)
    qed
  qed
qed

lemma reindexed_simps:
  assumes "reindexed n n'"
  shows "p_board_addr (n_peer n' q) = p_board_addr (n_peer n q)" "p_hostname (n_peer n' q) = p_hostname (n_peer n q)"
    "p_local_iface (n_peer n' q) = p_local_iface (n_peer n q)" "in_table n' = in_table n" "n_iface n' = n_iface n"
    "omx_peer_max n' = omx_peer_max n" "omx_ifaces n' = omx_ifaces n" "omx_iface_nr n' = omx_iface_nr n"
    "omx_peer_addr_hash_array n' = omx_peer_addr_hash_array n" "peers_allocated n' = peers_allocated n" "peers_freed n' = peers_freed n"
    "omx_host_query_peer_list n' = omx_host_query_peer_list n" "omx_host_query_timer n' = omx_host_query_timer n" "same_core n n'"
proof -
  obtain f a r where f: "n' = n\<lparr>n_peer := f, omx_peer_array := a, omx_peer_next_nr := r\<rparr>" "length a = omx_peer_max n"
      "\<And>q. f q = (n_peer n q)\<lparr>p_index := p_index (f q)\<rparr>" using assms by (auto simp: reindexed_def)
  show "in_table n' = in_table n" using assms by (simp add: reindexed_def fun_eq_iff)
  have "p_board_addr (f q) = p_board_addr (n_peer n q)" "p_hostname (f q) = p_hostname (n_peer n q)" "p_local_iface (f q) = p_local_iface (n_peer n q)"
    by (subst f(3), simp)+
  then show "p_board_addr (n_peer n' q) = p_board_addr (n_peer n q)" "p_hostname (n_peer n' q) = p_hostname (n_peer n q)"
    "p_local_iface (n_peer n' q) = p_local_iface (n_peer n q)" by (simp_all add: f(1))
qed (use assms in \<open>auto simp: reindexed_def same_core_def\<close>)

lemma compacted_indexes_ok:
  assumes "compacted (omx_peer_max n) n" "omx_peer_max n \<le> 65536"
  shows "indexes_ok n"
proof -
  have "i < omx_peer_next_nr n \<and> p_index (n_peer n p) = of_nat i" if "i < omx_peer_max n" "omx_peer_array n ! i = Some p" for i p
  proof -
    have "i < omx_peer_next_nr n" using assms(1) that unfolding compacted_def by (metis not_le_imp_less option.distinct(1))
    with assms(1) that(2) show ?thesis unfolding compacted_def by (metis option.inject)
  qed
  with assms show ?thesis by (simp add: indexes_ok_def compacted_def)
qed

lemma reindexed_ok:
  assumes re: "reindexed n n'" and ok: "hash_ok n" "kinds_ok n" "queries_ok n" "ifaces_ok n" and ix: "indexes_ok n'"
  shows "peers_ok n'"
proof -
  note eq = reindexed_simps [OF re]
  have "hash_ok n'" using ok(1) by (simp add: hash_ok_def eq)
  moreover have "kinds_ok n'" using ok(2) by (simp add: kinds_ok_def eq)
  moreover have "queries_ok n'" using ok(3) by (simp add: queries_ok_def eq)
  moreover have "ifaces_ok n'" using ok(4) by (simp add: ifaces_ok_def eq)
  ultimately show ?thesis using ix by (simp add: peers_ok_def)
qed

lemma next_nr_ok:
  assumes "peers_ok n" "n' = n\<lparr>omx_peer_next_nr := 0, omx_peer_table_full := b, peer_table_status := st\<rparr>"
  shows "hash_ok n'" "kinds_ok n'" "queries_ok n'" "ifaces_ok n'" "in_table n' = in_table n" "same_core n n'" "compacted 0 n'" "omx_peer_max n' = omx_peer_max n"
proof -
  show "hash_ok n'" "kinds_ok n'" "queries_ok n'" "ifaces_ok n'" "in_table n' = in_table n" "same_core n n'" "omx_peer_max n' = omx_peer_max n"
    using assms by (simp_all add: peers_ok_def hash_ok_def kinds_ok_def queries_ok_def ifaces_ok_def in_table_def fun_eq_iff)
  have ix: "p_index (n_peer n p) = of_nat j" if "j < omx_peer_max n" "omx_peer_array n ! j = Some p" for j p
    using assms(1) that by (simp add: peers_ok_def indexes_ok_def)
  have "a = b" if "a < omx_peer_max n" "b < omx_peer_max n" "omx_peer_array n ! a = omx_peer_array n ! b" "omx_peer_array n ! a \<noteq> None" for a b
  proof -
    from that(4) obtain p where "omx_peer_array n ! a = Some p" by blast
    then have "(of_nat a :: u32) = of_nat b" using ix [of a p] ix [of b p] that by simp
    then have "unat (of_nat a :: u32) = unat (of_nat b :: u32)" by simp
    moreover have "omx_peer_max n \<le> 65536" using assms(1) by (simp add: peers_ok_def indexes_ok_def)
    ultimately show ?thesis using that by (simp add: unat_of_nat)
  qed
  with ix show "compacted 0 n'" by (simp add: compacted_def assms(2))
qed

lemma peers_clear_ok:
  assumes ok: "peers_ok n"
  shows "\<exists>n'. omx_peers_clear False n = Some n' \<and> peers_ok n' \<and> same_core n n' \<and> (\<forall>q. in_table n' q \<longleftrightarrow> in_table n q \<and> (\<exists>k. q = Iface_peer k))"
proof -
  obtain n1 where n1: "clear_loop False [0..<omx_peer_max n] n = Some n1" "peers_ok n1" "same_core n n1" "n_peer n1 = n_peer n"
      "omx_peer_max n1 = omx_peer_max n" "\<forall>k. in_table n1 (Iface_peer k) = in_table n (Iface_peer k)"
      "\<forall>i \<in> set [0..<omx_peer_max n]. \<forall>m. omx_peer_array n1 ! i \<noteq> Some (Peer m)"
    using clear_loop_ok [OF ok, of "[0..<omx_peer_max n]"] by auto
  have only: "in_table n1 q \<longleftrightarrow> in_table n q \<and> (\<exists>k. q = Iface_peer k)" for q
    using n1(5-7) by (cases q) (auto simp: in_table_def in_set_conv_nth)
  define n2 where "n2 = n1\<lparr>omx_peer_next_nr := 0, omx_peer_table_full := False,
    peer_table_status := peer_table_status n1 AND NOT OMX_PEER_TABLE_STATUS_FULL\<rparr>"
  define n3 where "n3 = compact_loop [0..<omx_peer_max n2] n2"
  note n2 = next_nr_ok [OF n1(2) n2_def]
  have small: "omx_peer_max n2 \<le> 65536" using n1(2) n2(8) by (simp add: peers_ok_def indexes_ok_def)
  have c: "reindexed n2 n3" "compacted (omx_peer_max n2) n3" using compact_loop_ok [OF n2(7)] small by (simp_all add: n3_def)
  note eq = reindexed_simps [OF c(1)]
  have "indexes_ok n3" using compacted_indexes_ok [of n3] c(2) small eq(6) by simp
  then have ok3: "peers_ok n3" using reindexed_ok [OF c(1)] n2 by blast
  have core: "same_core n n3" using same_core_trans [OF same_core_trans [OF n1(3) n2(6)] eq(14)] .
  have in3: "in_table n3 q \<longleftrightarrow> in_table n q \<and> (\<exists>k. q = Iface_peer k)" for q by (simp add: eq n2 only)
  have run: "omx_peers_clear False n = (if omx_peer_next_nr n3 = omx_peer_max n3
      then Some (n3\<lparr>omx_peer_table_full := True, peer_table_status := peer_table_status n3 OR OMX_PEER_TABLE_STATUS_FULL\<rparr>) else Some n3)"
    using n1(1) unfolding omx_peers_clear_def n3_def n2_def by (simp add: Let_def)
  have "in_table (n3\<lparr>omx_peer_table_full := True, peer_table_status := st\<rparr>) q = in_table n3 q" for q st by (simp add: in_table_def)
  then show ?thesis using run ok3 core in3 by (auto simp: full_table_ok)
qed

subsection \<open>Host names\<close>

lemma peers_ok_frame [simp]:
  "peers_ok (n\<lparr>omx_host_query_magic := g\<rparr>) = peers_ok n" "peers_ok (n\<lparr>omx_host_query_list := qs\<rparr>) = peers_ok n"
  "peers_ok (n\<lparr>omx_host_reply_list := qs\<rparr>) = peers_ok n" "peers_ok (upd_endpoint e f n) = peers_ok n"
  by (simp_all add: peers_ok_def indexes_ok_def hash_ok_def kinds_ok_def queries_ok_def ifaces_ok_def in_table_def upd_endpoint_def)

text \<open>While the names are cleared the timer is not set yet.\<close>

definition peers_ok_untimed :: "omx_node \<Rightarrow> bool" where
  "peers_ok_untimed n \<longleftrightarrow> peers_ok (n\<lparr>omx_host_query_timer := True\<rparr>)"

lemma untimed_ok: "peers_ok n \<Longrightarrow> peers_ok_untimed n"
  by (simp add: peers_ok_untimed_def peers_ok_def indexes_ok_def hash_ok_def kinds_ok_def queries_ok_def ifaces_ok_def in_table_def)

lemma timed_ok: "peers_ok_untimed n \<Longrightarrow> omx_host_query_peer_list n \<noteq> [] \<longrightarrow> omx_host_query_timer n \<Longrightarrow> peers_ok n"
  by (simp add: peers_ok_untimed_def peers_ok_def indexes_ok_def hash_ok_def kinds_ok_def queries_ok_def ifaces_ok_def in_table_def)

lemma timer_set_ok: "peers_ok_untimed n \<Longrightarrow> peers_ok (n\<lparr>omx_host_query_timer := True\<rparr>)"
  by (simp add: peers_ok_untimed_def)

lemma untimed_xmit: "peers_ok_untimed (n\<lparr>xmit := x\<rparr>) = peers_ok_untimed n"
  by (simp add: peers_ok_untimed_def peers_ok_def indexes_ok_def hash_ok_def kinds_ok_def queries_ok_def ifaces_ok_def in_table_def)

lemma clear_names_loop_ok:
  assumes "peers_ok_untimed n" "\<forall>i \<in> set is. i < omx_peer_max n"
  shows "peers_ok_untimed (clear_names_loop envs is n) \<and> same_core n (clear_names_loop envs is n) \<and>
    omx_host_query_timer (clear_names_loop envs is n) = omx_host_query_timer n \<and>
    (omx_host_query_peer_list n \<noteq> [] \<longrightarrow> omx_host_query_peer_list (clear_names_loop envs is n) \<noteq> [])"
  using assms
proof (induction "is" arbitrary: n)
  case (Cons i js)
  have i: "i < omx_peer_max n" using Cons(3) by simp
  consider (skip) "\<forall>p. omx_peer_array n ! i = Some p \<longrightarrow> p_hostname (n_peer n p) = None \<or> p_local_iface (n_peer n p) \<noteq> None"
    | (forget) p where "omx_peer_array n ! i = Some p" "p_hostname (n_peer n p) \<noteq> None" "p_local_iface (n_peer n p) = None"
    by blast
  then show ?case
  proof cases
    case skip
    then have "clear_names_loop envs (i # js) n = clear_names_loop envs js n" by (auto split: option.splits)
    then show ?thesis using Cons(1) [OF Cons(2)] Cons(3) by simp
  next
    case forget
    let ?n1 = "(upd_peer p (upd_hostname None) n)\<lparr>omx_host_query_peer_list := omx_host_query_peer_list n @ [p]\<rparr>"
    let ?t = "n\<lparr>omx_host_query_timer := True\<rparr>"
    have in_t: "in_table ?t p" using forget(1) nth_mem [OF i] by (simp add: in_table_def)
    moreover have ok_t: "peers_ok ?t" using Cons(2) by (simp add: peers_ok_untimed_def)
    ultimately obtain m where m: "p = Peer m"
      using forget(3) by (cases p) (auto simp: peers_ok_def kinds_ok_def)
    have "peers_ok (upd_peer p (upd_hostname None) (add_host_query p ?t))" using forget_hostname_ok [OF ok_t in_t m] forget(2) by simp
    moreover have "upd_peer p (upd_hostname None) (add_host_query p ?t) = ?n1\<lparr>omx_host_query_timer := True\<rparr>"
      by (simp add: upd_peer_def add_host_query_def Let_def)
    ultimately have n1: "peers_ok_untimed ?n1" by (simp add: peers_ok_untimed_def)
    obtain x where x: "omx_peer_host_query (envs i) p ?n1 = ?n1\<lparr>xmit := x\<rparr>" using host_query_xmit by blast
    let ?n2 = "?n1\<lparr>xmit := x\<rparr>"
    have n2: "peers_ok_untimed ?n2" using n1 by (simp only: untimed_xmit)
    have eq: "clear_names_loop envs (i # js) n = clear_names_loop envs js ?n2"
      using forget x by (auto simp: Let_def upd_hostname_def [abs_def])
    have js: "\<forall>j \<in> set js. j < omx_peer_max ?n2" using Cons(3) by simp
    have core: "same_core n ?n2" by simp
    show ?thesis unfolding eq using Cons(1) [OF n2 js] same_core_trans [OF core] by auto
  qed
qed simp

lemma clear_names_ok:
  assumes ok: "peers_ok n"
  shows "peers_ok (omx_peers_clear_names envs n) \<and> same_core n (omx_peers_clear_names envs n)"
proof -
  let ?n = "clear_names_loop envs [0..<omx_peer_max n] n"
  have n: "peers_ok_untimed ?n" "same_core n ?n" "omx_host_query_timer ?n = omx_host_query_timer n"
    using clear_names_loop_ok [OF untimed_ok [OF ok], of "[0..<omx_peer_max n]" envs] by auto
  have t: "omx_host_query_peer_list n \<noteq> [] \<longrightarrow> omx_host_query_timer n" using ok by (simp add: peers_ok_def queries_ok_def)
  show ?thesis
  proof (cases "omx_host_query_peer_list n = [] \<and> omx_host_query_peer_list ?n \<noteq> []")
    case True
    then show ?thesis using timer_set_ok [OF n(1)] n(2) by (simp add: omx_peers_clear_names_def Let_def)
  next
    case False
    have "peers_ok ?n" by (rule timed_ok [OF n(1)]) (use False t n(3) in auto)
    moreover have "omx_peers_clear_names envs n = ?n\<lparr>omx_host_query_magic := omx_host_query_magic ?n + 1\<rparr>"
      using False by (simp only: omx_peers_clear_names_def Let_def if_False)
    ultimately show ?thesis using n(2) by simp
  qed
qed

lemma only_reverse_peers_ok:
  assumes rev: "only_reverse n n'" and len: "\<And>k. length (if_reverse_peer_indexes (n_iface n' k)) = length (if_reverse_peer_indexes (n_iface n k))"
    and ok: "peers_ok n"
  shows "peers_ok n'"
proof -
  note eq = only_reverse_simps [OF rev]
  have in': "in_table n' = in_table n" by (simp add: in_table_def eq fun_eq_iff)
  show ?thesis using ok by (simp add: peers_ok_def indexes_ok_def hash_ok_def kinds_ok_def queries_ok_def ifaces_ok_def eq in' len)
qed

lemma set_reverse_index_ok:
  assumes ok: "peers_ok n" and p: "in_table n p" and k: "Some k \<in> set (omx_ifaces n)"
  shows "\<exists>n'. omx_peer_set_reverse_index p k r n = Some n' \<and> peers_ok n' \<and> same_core n n'"
proof -
  let ?rs = "if_reverse_peer_indexes (n_iface n k)" and ?i = "unat (p_index (n_peer n p))"
  have i: "?i < length ?rs" using ok p k in_table_index(1) [of n p] by (auto simp: peers_ok_def ifaces_ok_def)
  let ?n = "upd_iface k (\<lambda>i. i\<lparr>if_reverse_peer_indexes := ?rs[?i := ucast r]\<rparr>) n"
  have "peers_ok ?n" by (rule only_reverse_peers_ok [OF only_reverse_upd _ ok]) simp
  then show ?thesis using i ok same_core_only_reverse [OF only_reverse_upd] by (simp add: omx_peer_set_reverse_index_def Let_def)
qed

lemma attached_live:
  assumes "endpoints_ok n" "Some k \<in> set (omx_ifaces n)"
  shows "live_iface k n = Some (n_iface n k)"
  using assms by (simp add: endpoints_ok_def refs_ok_def iface_refs_def live_iface_def)

lemma process_host_reply_ok:
  assumes ok: "peers_ok n" "endpoints_ok n" and k: "Some k \<in> set (omx_ifaces n)" and len: "OMX_NTOH_8 17 (skb_data skb) \<noteq> 0"
  shows "\<exists>n'. process_host_reply env k skb n = Some n' \<and> peers_ok n' \<and> same_core n n'"
proof (cases "omx_peer_lookup_by_addr_locked (omx_board_addr_from_ethhdr_src (skb_data skb)) n")
  case None
  then show ?thesis using ok attached_live [OF ok(2) k] by (auto simp: process_host_reply_def)
next
  case (Some p)
  then have p: "in_table n p" using lookup_Some ok(1) by (simp add: peers_ok_def)
  show ?thesis
  proof (cases "k_kmalloc env 0")
    case None
    then show ?thesis using Some ok by (simp add: process_host_reply_def)
  next
    case buf: (Some buf)
    let ?len = "unat (OMX_NTOH_8 17 (skb_data skb))"
    let ?h = "c_string (take (?len - 1) (if 32 + ?len \<le> skb_len skb then skb_copy_bits 32 ?len (skb_data skb) else map buf [0..<?len]))"
    let ?n = "upd_peer p (upd_hostname (Some ?h)) (if p_hostname (n_peer n p) = None then del_host_query p n else n)"
    have n1: "peers_ok ?n" "same_core n ?n" using set_hostname_ok [OF ok(1) p] by simp_all
    have "in_table ?n p" "Some k \<in> set (omx_ifaces ?n)" using p k by simp_all
    then obtain n' where n': "omx_peer_set_reverse_index p k (OMX_NTOH_16 18 (skb_data skb)) ?n = Some n'" "peers_ok n'" "same_core ?n n'"
      using set_reverse_index_ok [OF n1(1)] by blast
    have live: "live_iface k ?n = Some (n_iface ?n k)"
      using attached_live same_core_endpoints_ok [OF n1(2) ok(2)] \<open>Some k \<in> set (omx_ifaces ?n)\<close> by blast
    have "?len \<noteq> 0" using len by (simp add: unat_eq_0)
    then have "process_host_reply env k skb n = Some n'"
      using Some buf n'(1) live unfolding process_host_reply_def upd_hostname_def [abs_def] by (simp add: Let_def)
    then show ?thesis using n' same_core_trans [OF n1(2)] by blast
  qed
qed

lemma process_host_query_ok:
  assumes ok: "peers_ok n" "endpoints_ok n" and k: "Some k \<in> set (omx_ifaces n)"
  shows "\<exists>n'. process_host_query env k skb n = Some n' \<and> peers_ok n' \<and> same_core n n'"
proof -
  have "in_table n (Iface_peer k)" using ok(1) k by (simp add: peers_ok_def ifaces_ok_def)
  then obtain h where h: "p_hostname (n_peer n (Iface_peer k)) = Some h" using ok(1) by (auto simp: peers_ok_def kinds_ok_def)
  show ?thesis
  proof (cases "omx_peer_lookup_by_addr_locked (omx_board_addr_from_ethhdr_src (skb_data skb)) n")
    case None
    then show ?thesis using ok h attached_live [OF ok(2) k] by (simp add: process_host_query_def)
  next
    case (Some p)
    then have "in_table n p" using lookup_Some ok(1) by (simp add: peers_ok_def)
    then obtain n' where n': "omx_peer_set_reverse_index p k (OMX_NTOH_16 18 (skb_data skb)) n = Some n'" "peers_ok n'" "same_core n n'"
      using set_reverse_index_ok [OF ok(1) _ k] by blast
    then show ?thesis using Some h attached_live [OF ok(2) k]
      by (auto simp: process_host_query_def dev_queue_xmit_def split: option.split)
  qed
qed

lemma process_loop_ok:
  assumes f: "\<And>env k skb n. peers_ok n \<Longrightarrow> endpoints_ok n \<Longrightarrow> Some k \<in> set (omx_ifaces n) \<Longrightarrow> P skb \<Longrightarrow>
      \<exists>n'. f env k skb n = Some n' \<and> peers_ok n' \<and> same_core n n'"
    and "peers_ok n" "endpoints_ok n" "\<forall>(k, skb) \<in> set skbs. Some k \<in> set (omx_ifaces n) \<and> P skb"
  shows "\<exists>n'. process_loop f envs i skbs n = Some n' \<and> peers_ok n' \<and> same_core n n'"
  using assms(2-)
proof (induction skbs arbitrary: i n)
  case (Cons x skbs)
  obtain k skb where x: "x = (k, skb)" by fastforce
  with Cons(4) have "Some k \<in> set (omx_ifaces n)" "P skb" by auto
  then obtain n1 where n1: "f (envs i) k skb n = Some n1" "peers_ok n1" "same_core n n1" using f Cons(2,3) by blast
  have rest: "\<forall>(k, skb) \<in> set skbs. Some k \<in> set (omx_ifaces n1) \<and> P skb" using Cons(4) n1(3) by (auto simp: same_core_def)
  obtain n' where n': "process_loop f envs (Suc i) skbs n1 = Some n'" "peers_ok n'" "same_core n1 n'"
    using Cons(1) [OF n1(2) same_core_endpoints_ok [OF n1(3) Cons(3)] rest] by blast
  then show ?case using n1(1) same_core_trans [OF n1(3) n'(3)] by (simp add: x)
qed simp

lemma process_work_ok:
  assumes ok: "node_ok n"
  shows "\<exists>n'. omx_process_host_queries_and_replies_workfunc envs n = Some n' \<and> node_ok n'"
proof -
  let ?r = "omx_host_reply_list n" and ?n0 = "n\<lparr>omx_host_reply_list := []\<rparr>"
  have ok': "peers_ok n" "endpoints_ok n" "pending_ok n" using ok by (auto simp: node_ok_def)
  have e0: "endpoints_ok ?n0" using ok'(2) by (simp add: endpoints_ok_def refs_ok_def iface_refs_def)
  have r: "\<forall>(k, skb) \<in> set ?r. Some k \<in> set (omx_ifaces ?n0) \<and> OMX_NTOH_8 17 (skb_data skb) \<noteq> 0"
    using ok'(3) by (simp add: pending_ok_def)
  obtain n1 where n1: "process_loop process_host_reply envs 0 ?r ?n0 = Some n1" "peers_ok n1" "same_core ?n0 n1"
    using process_loop_ok [of "\<lambda>skb. OMX_NTOH_8 17 (skb_data skb) \<noteq> 0" process_host_reply ?n0 ?r envs 0, OF process_host_reply_ok _ e0 r] ok'(1) by auto
  let ?q = "omx_host_query_list n1" and ?n2 = "n1\<lparr>omx_host_query_list := []\<rparr>"
  have e1: "endpoints_ok n1" by (rule same_core_endpoints_ok [OF n1(3) e0])
  have e2: "endpoints_ok ?n2" using e1 by (simp add: endpoints_ok_def refs_ok_def iface_refs_def)
  have q: "\<forall>(k, skb) \<in> set ?q. Some k \<in> set (omx_ifaces ?n2) \<and> True"
    using ok'(3) n1(3) by (auto simp: pending_ok_def same_core_def)
  obtain n' where n': "process_loop process_host_query envs (length ?r) ?q ?n2 = Some n'" "peers_ok n'" "same_core ?n2 n'"
    using process_loop_ok [of "\<lambda>_. True" process_host_query ?n2 ?q envs "length ?r", OF process_host_query_ok _ e2 q] n1(2) by auto
  have "pending_ok n'" using n'(3) n1(3) by (simp add: pending_ok_def same_core_def)
  then have "node_ok n'" using n'(2) same_core_endpoints_ok [OF n'(3) e2] by (simp add: node_ok_def)
  then show ?thesis using n1(1) n'(1) by (simp add: omx_process_host_queries_and_replies_workfunc_def Let_def)
qed

lemma query_work_ok:
  assumes ok: "peers_ok n"
  shows "peers_ok (omx_host_query_workfunc envs n) \<and> same_core n (omx_host_query_workfunc envs n)"
proof (cases "omx_host_query_peer_list n = []")
  case False
  have "\<exists>x. fold (\<lambda>(i, p). omx_peer_host_query (envs i) p) ps n = n\<lparr>xmit := x\<rparr>" for ps n
  proof (induction ps arbitrary: n)
    case Nil
    show ?case by (rule exI [of _ "xmit n"]) simp
  next
    case (Cons q ps)
    obtain i p where q: "q = (i, p)" by fastforce
    obtain x where "omx_peer_host_query (envs i) p n = n\<lparr>xmit := x\<rparr>" using host_query_xmit by blast
    moreover obtain y where "fold (\<lambda>(i, p). omx_peer_host_query (envs i) p) ps (n\<lparr>xmit := x\<rparr>) = n\<lparr>xmit := x\<rparr>\<lparr>xmit := y\<rparr>" using Cons by blast
    ultimately show ?case by (auto simp: q)
  qed
  then obtain x where x: "fold (\<lambda>(i, p). omx_peer_host_query (envs i) p) (enumerate 0 (omx_host_query_peer_list n)) n = n\<lparr>xmit := x\<rparr>" by blast
  have "peers_ok_untimed (n\<lparr>xmit := x\<rparr>)" using untimed_ok [OF ok] by (simp add: untimed_xmit)
  then show ?thesis using False x timer_set_ok [of "n\<lparr>xmit := x\<rparr>"] by (simp add: omx_host_query_workfunc_def)
qed (simp add: omx_host_query_workfunc_def ok)

end
