(* ===== verification/Driver_Lifecycle.thy ===== *)
theory Driver_Lifecycle
  imports Driver_Node
begin

text \<open>
  Attaching and detaching interfaces, opening and closing endpoints keep the invariant of the driver; any sequence of
  operations does. The sequences that break it: an interface is detached by force while a process has an endpoint open
  on it, or while a host query or a reply from it is waiting.
\<close>

subsection \<open>Closing an endpoint\<close>

lemma peers_ok_upd_iface:
  assumes "\<And>i. if_index (f i) = if_index i \<and> if_reverse_peer_indexes (f i) = if_reverse_peer_indexes i"
  shows "peers_ok (upd_iface k f n) = peers_ok n"
proof -
  have "if_index (((n_iface n)(k := f (n_iface n k))) j) = if_index (n_iface n j)"
    "if_reverse_peer_indexes (((n_iface n)(k := f (n_iface n k))) j) = if_reverse_peer_indexes (n_iface n j)" for j
    using assms by auto
  then show ?thesis by (simp add: peers_ok_def indexes_ok_def hash_ok_def kinds_ok_def queries_ok_def ifaces_ok_def del: fun_upd_apply)
qed

lemma filter_update_None:
  "i < length xs \<Longrightarrow> xs ! i \<noteq> None \<Longrightarrow> Suc (length (filter (\<lambda>x. x \<noteq> None) (xs[i := None]))) = length (filter (\<lambda>x. x \<noteq> None) xs)"
proof (induction xs arbitrary: i)
  case (Cons x xs)
  then show ?case by (cases i) auto
qed simp

definition closed :: "d_endpoint \<Rightarrow> d_endpoint" where
  "closed ep = ep\<lparr>de_status := OMX_ENDPOINT_STATUS_CLOSING, de_queues := omx_wakeup_endpoint_on_close (de_queues ep),
     de_refcount := de_refcount ep - 1, de_iface := None, de_freed := True\<rparr>"

definition left :: "nat \<Rightarrow> omx_iface \<Rightarrow> omx_iface" where
  "left i f = f\<lparr>if_endpoints := (if_endpoints f)[i := None], if_endpoint_nr := if_endpoint_nr f - 1, if_refcount := if_refcount f - 1\<rparr>"

lemma close_eq:
  assumes e: "endpoint_in k i (n_endpoint n e)" and i: "i < length (if_endpoints (n_iface n k))" "if_endpoints (n_iface n k) ! i = Some e"
  shows "omx_endpoint_close e n = Some (None, upd_iface k (left i) (upd_endpoint e closed n))"
  using assms
  by (simp add: omx_endpoint_close_def live_endpoint_def endpoint_in_def Let_def omx_iface_detach_endpoint_def omx_endpoint_release_def
      omx_iface_release_def)
    (simp add: upd_endpoint_def upd_iface_def left_def closed_def)

lemma close_ok:
  assumes refs: "refs_ok n" and k: "Some k \<in> set (omx_ifaces n)" and i: "i < omx_endpoint_max n" "if_endpoints (n_iface n k) ! i = Some e"
  defines "n' \<equiv> upd_iface k (left i) (upd_endpoint e closed n)"
  shows "omx_endpoint_close e n = Some (None, n')" "refs_ok n'" "peers_ok n \<Longrightarrow> peers_ok n'"
proof -
  have at: "iface_refs n j" if "Some j \<in> set (omx_ifaces n)" for j using refs that by (simp add: refs_ok_def)
  have e: "endpoint_in k i (n_endpoint n e)" "length (if_endpoints (n_iface n k)) = omx_endpoint_max n" using at [OF k] i by (auto simp: iface_refs_def)
  show "omx_endpoint_close e n = Some (None, n')" unfolding n'_def using close_eq [OF e(1)] e(2) i by simp
  show "peers_ok n \<Longrightarrow> peers_ok n'" unfolding n'_def by (simp add: peers_ok_upd_iface left_def)
  have n': "omx_ifaces n' = omx_ifaces n" "omx_endpoint_max n' = omx_endpoint_max n" "n_endpoint n' = (n_endpoint n)(e := closed (n_endpoint n e))"
    "\<And>j. n_iface n' j = (if j = k then left i (n_iface n k) else n_iface n j)"
    by (simp_all add: n'_def) (simp_all add: upd_iface_def upd_endpoint_def)
  have ends: "if_endpoints (n_iface n' j) ! l = Some x \<longleftrightarrow> if_endpoints (n_iface n j) ! l = Some x \<and> \<not> (j = k \<and> l = i)"
    if "l < omx_endpoint_max n" for j l x
    using that e(2) by (cases "l = i") (auto simp: n'(4) left_def)
  have only: "j = k \<and> l = i" if "Some j \<in> set (omx_ifaces n)" "l < omx_endpoint_max n" "if_endpoints (n_iface n j) ! l = Some e" for j l
    using at [OF that(1)] that(2,3) e(1) by (auto simp: iface_refs_def endpoint_in_def)
  have "iface_refs n' j" if j: "Some j \<in> set (omx_ifaces n)" for j
  proof -
    have "endpoint_in j l (n_endpoint n' x)" if "l < omx_endpoint_max n" "if_endpoints (n_iface n' j) ! l = Some x" for l x
    proof -
      have x: "if_endpoints (n_iface n j) ! l = Some x" "\<not> (j = k \<and> l = i)" using ends that by auto
      then have "x \<noteq> e" using only [OF j that(1)] by auto
      then show ?thesis using at [OF j] x(1) that(1) by (simp add: n'(3) iface_refs_def)
    qed
    moreover have "Suc (length (filter (\<lambda>x. x \<noteq> None) ((if_endpoints (n_iface n k))[i := None]))) = if_endpoint_nr (n_iface n k)"
      using filter_update_None [of i "if_endpoints (n_iface n k)"] i e(2) at [OF k] by (simp add: iface_refs_def)
    ultimately show ?thesis using at [OF j] e(2) unfolding iface_refs_def n'(2) by (cases "j = k") (auto simp: n'(4) left_def)
  qed
  moreover have "unused (n_endpoint n' x) \<or>
      (\<exists>k i. Some k \<in> set (omx_ifaces n) \<and> i < omx_endpoint_max n \<and> if_endpoints (n_iface n' k) ! i = Some x)"
    if x: "\<not> de_freed (n_endpoint n' x)" for x
  proof -
    have xe: "x \<noteq> e" using x by (auto simp: n'(3) closed_def)
    then consider "unused (n_endpoint n x)"
      | j l where "Some j \<in> set (omx_ifaces n)" "l < omx_endpoint_max n" "if_endpoints (n_iface n j) ! l = Some x"
      using refs x unfolding refs_ok_def n'(3) by auto
    then show ?thesis
    proof cases
      case 1
      then show ?thesis using xe by (simp add: n'(3))
    next
      case 2
      then have "if_endpoints (n_iface n' j) ! l = Some x" using ends [of l j x] xe i(2) by auto
      then show ?thesis using 2 by blast
    qed
  qed
  ultimately show "refs_ok n'" by (simp add: refs_ok_def n'(1,2))
qed

subsection \<open>Detaching an interface\<close>

lemma refs_ok_upd_endpoint:
  assumes "\<And>ep. de_freed (f ep) = de_freed ep \<and> de_status (f ep) = de_status ep \<and> de_iface (f ep) = de_iface ep \<and>
    de_endpoint_index (f ep) = de_endpoint_index ep \<and> de_refcount (f ep) = de_refcount ep"
  shows "refs_ok (upd_endpoint e f n) = refs_ok n"
proof -
  have "endpoint_in k i (((n_endpoint n)(e := f (n_endpoint n e))) x) = endpoint_in k i (n_endpoint n x)"
    "de_freed (((n_endpoint n)(e := f (n_endpoint n e))) x) = de_freed (n_endpoint n x)"
    "unused (((n_endpoint n)(e := f (n_endpoint n e))) x) = unused (n_endpoint n x)" for k i x
    using assms by (auto simp: endpoint_in_def unused_def)
  then show ?thesis by (simp add: refs_ok_def iface_refs_def upd_endpoint_def del: fun_upd_apply)
qed

lemma upd_endpoint_max [simp]:
  "omx_endpoint_max (upd_endpoint e f n) = omx_endpoint_max n" "omx_endpoint_max (upd_iface k g n) = omx_endpoint_max n"
  "omx_host_query_list (upd_endpoint e f n) = omx_host_query_list n" "omx_host_query_list (upd_iface k g n) = omx_host_query_list n"
  "omx_host_reply_list (upd_endpoint e f n) = omx_host_reply_list n" "omx_host_reply_list (upd_iface k g n) = omx_host_reply_list n"
  "omx_iface_nr (upd_endpoint e f n) = omx_iface_nr n" "in_table (upd_endpoint e f n) = in_table n"
  by (simp_all add: upd_endpoint_def upd_iface_def in_table_def fun_eq_iff)

text \<open>What closing the endpoints of an interface leaves alone.\<close>

definition same_but_endpoints :: "nat \<Rightarrow> omx_node \<Rightarrow> omx_node \<Rightarrow> bool" where
  "same_but_endpoints k n n' \<longleftrightarrow> omx_ifaces n' = omx_ifaces n \<and> omx_endpoint_max n' = omx_endpoint_max n \<and>
    omx_host_query_list n' = omx_host_query_list n \<and> omx_host_reply_list n' = omx_host_reply_list n \<and> omx_iface_nr n' = omx_iface_nr n \<and>
    (\<forall>j. j \<noteq> k \<longrightarrow> n_iface n' j = n_iface n j) \<and> if_index (n_iface n' k) = if_index (n_iface n k)"

lemma close_endpoints_loop_ok:
  assumes "refs_ok n" "peers_ok n" "Some k \<in> set (omx_ifaces n)" "\<forall>i \<in> set is. i < omx_endpoint_max n"
  shows "\<exists>n'. close_endpoints_loop k is n = Some n' \<and> refs_ok n' \<and> peers_ok n' \<and> same_but_endpoints k n n' \<and>
    (\<forall>i < omx_endpoint_max n. i \<in> set is \<or> if_endpoints (n_iface n k) ! i = None \<longrightarrow> if_endpoints (n_iface n' k) ! i = None) \<and>
    (\<forall>x. de_freed (n_endpoint n x) \<or> (\<exists>i \<in> set is. if_endpoints (n_iface n k) ! i = Some x) \<longrightarrow> de_freed (n_endpoint n' x))"
  using assms
proof (induction "is" arbitrary: n)
  case (Cons i js)
  have i: "i < omx_endpoint_max n" using Cons(5) by simp
  show ?case
  proof (cases "if_endpoints (n_iface n k) ! i")
    case None
    then show ?thesis using Cons(1) [OF Cons(2-4)] Cons(5) by auto
  next
    case (Some e)
    let ?n1 = "upd_endpoint e (\<lambda>ep. ep\<lparr>de_queues := (de_queues ep)\<lparr>userdesc_status := userdesc_status (de_queues ep) OR 16\<rparr>\<rparr>) n"
    let ?n2 = "upd_iface k (left i) (upd_endpoint e closed ?n1)"
    have n1: "refs_ok ?n1" "peers_ok ?n1" using Cons(2,3) by (simp_all add: refs_ok_upd_endpoint)
    have k1: "Some k \<in> set (omx_ifaces ?n1)" "i < omx_endpoint_max ?n1" "if_endpoints (n_iface ?n1 k) ! i = Some e" using Cons(4) i Some by simp_all
    note c = close_ok [OF n1(1) k1]
    have len: "length (if_endpoints (n_iface n k)) = omx_endpoint_max n" using Cons(2,4) by (simp add: refs_ok_def iface_refs_def)
    have js: "\<forall>j \<in> set js. j < omx_endpoint_max ?n2" "Some k \<in> set (omx_ifaces ?n2)" using Cons(4,5) by simp_all
    obtain n' where n': "close_endpoints_loop k js ?n2 = Some n'" "refs_ok n'" "peers_ok n'" "same_but_endpoints k ?n2 n'"
        "\<forall>i < omx_endpoint_max ?n2. i \<in> set js \<or> if_endpoints (n_iface ?n2 k) ! i = None \<longrightarrow> if_endpoints (n_iface n' k) ! i = None"
        "\<forall>x. de_freed (n_endpoint ?n2 x) \<or> (\<exists>i \<in> set js. if_endpoints (n_iface ?n2 k) ! i = Some x) \<longrightarrow> de_freed (n_endpoint n' x)"
      using Cons(1) [OF c(2) c(3) [OF n1(2)] js(2) js(1)] by blast
    have "close_endpoints_loop k (i # js) n = Some n'" using Some c(1) n'(1) by (simp add: Let_def)
    moreover have "same_but_endpoints k n n'" using n'(4) by (simp add: same_but_endpoints_def left_def)
    moreover have "if_endpoints (n_iface n' k) ! l = None" if "l < omx_endpoint_max n" "l \<in> set (i # js) \<or> if_endpoints (n_iface n k) ! l = None" for l
    proof -
      have "l \<in> set js \<or> if_endpoints (n_iface ?n2 k) ! l = None" using that len by (cases "l = i") (auto simp: left_def)
      then show ?thesis using n'(5) that(1) by auto
    qed
    moreover have "de_freed (n_endpoint n' x)" if "de_freed (n_endpoint n x) \<or> (\<exists>l \<in> set (i # js). if_endpoints (n_iface n k) ! l = Some x)" for x
    proof (cases "x = e \<or> de_freed (n_endpoint n x)")
      case True
      then have "de_freed (n_endpoint ?n2 x)" by (auto simp: closed_def)
      then show ?thesis using n'(6) by blast
    next
      case False
      with that Some obtain l where l: "l \<in> set js" "if_endpoints (n_iface n k) ! l = Some x" by auto
      then have "l \<noteq> i" using Some False by auto
      with l have "if_endpoints (n_iface ?n2 k) ! l = Some x" by (simp add: left_def)
      then show ?thesis using n'(6) l(1) by blast
    qed
    ultimately show ?thesis using n'(2,3) by blast
  qed
qed (simp add: same_but_endpoints_def)

text \<open>Without endpoints the interface leaves the table and the array, and its last references are dropped.\<close>

lemma notify_detach_ok:
  assumes ok: "peers_ok n" and k: "Some k \<in> set (omx_ifaces n)"
  obtains n' where "omx_peers_notify_iface_detach k n = Some n'"
    "peers_ok (n'\<lparr>omx_ifaces := (omx_ifaces n')[if_index (n_iface n' k) := None], omx_iface_nr := omx_iface_nr n' - 1\<rparr>)"
    "n_endpoint n' = n_endpoint n" "omx_ifaces n' = omx_ifaces n" "omx_endpoint_max n' = omx_endpoint_max n"
    "\<And>j. j \<noteq> k \<Longrightarrow> n_iface n' j = n_iface n j" "omx_host_query_list n' = omx_host_query_list n" "omx_host_reply_list n' = omx_host_reply_list n"
    "if_index (n_iface n' k) = if_index (n_iface n k)"
proof -
  let ?p = "Iface_peer k"
  have in_n: "in_table n ?p" using ok k by (simp add: peers_ok_def ifaces_ok_def)
  have ok': "indexes_ok n" "hash_ok n" using ok by (auto simp: peers_ok_def)
  note known = in_table_known [OF ok'(1) in_n] and ix = in_table_index(1) [OF ok'(1) in_n]
  let ?h = "omx_peer_addr_hash (p_board_addr (n_peer n ?p))"
  define n' where "n' = omx_iface_release k (upd_peer ?p (\<lambda>q. q\<lparr>p_index := OMX_UNKNOWN_REVERSE_PEER_INDEX, p_local_iface := None\<rparr>)
    (n\<lparr>omx_peer_addr_hash_array := (omx_peer_addr_hash_array n)(?h := remove1 ?p (omx_peer_addr_hash_array n ?h)),
       omx_peer_array := (omx_peer_array n)[unat (p_index (n_peer n ?p)) := None]\<rparr>))"
  have run: "omx_peers_notify_iface_detach k n = Some n'"
    using known ix by (simp add: omx_peers_notify_iface_detach_def Let_def store_def n'_def)
  have n': "n_endpoint n' = n_endpoint n" "omx_ifaces n' = omx_ifaces n" "omx_endpoint_max n' = omx_endpoint_max n"
    "\<And>j. j \<noteq> k \<Longrightarrow> n_iface n' j = n_iface n j" "omx_host_query_list n' = omx_host_query_list n" "omx_host_reply_list n' = omx_host_reply_list n"
    "if_index (n_iface n' k) = if_index (n_iface n k)" "\<And>j. if_reverse_peer_indexes (n_iface n' j) = if_reverse_peer_indexes (n_iface n j)"
    "\<And>j. if_index (n_iface n' j) = if_index (n_iface n j)" "omx_iface_nr n' = omx_iface_nr n" "omx_peer_max n' = omx_peer_max n"
    "peers_allocated n' = peers_allocated n" "peers_freed n' = peers_freed n" "omx_host_query_peer_list n' = omx_host_query_peer_list n"
    "omx_host_query_timer n' = omx_host_query_timer n" "\<And>q. q \<noteq> ?p \<Longrightarrow> n_peer n' q = n_peer n q"
    by (simp_all add: n'_def omx_iface_release_def upd_peer_def upd_iface_def)
  have rem: "table_removed ?p n n'" by (simp add: n'_def omx_iface_release_def table_removed_def)
  note in' = table_removed_in [OF ok'(1) rem in_n]
  define i where "i = if_index (n_iface n k)"
  obtain l where l: "l < length (omx_ifaces n)" "omx_ifaces n ! l = Some k" using k by (auto simp: in_set_conv_nth)
  have at: "if_index (n_iface n j) = l" if "l < length (omx_ifaces n)" "omx_ifaces n ! l = Some j" for l j
    using ok that by (simp add: peers_ok_def ifaces_ok_def)
  have i: "i < length (omx_ifaces n)" "omx_ifaces n ! i = Some k" using at [OF l] l by (simp_all add: i_def)
  have uniq: "l = i" if "l < length (omx_ifaces n)" "omx_ifaces n ! l = Some k" for l using at [OF that] by (simp add: i_def)
  let ?n = "n'\<lparr>omx_ifaces := (omx_ifaces n')[if_index (n_iface n' k) := None], omx_iface_nr := omx_iface_nr n' - 1\<rparr>"
  have nth: "(omx_ifaces n)[i := None] ! l = Some j \<longleftrightarrow> omx_ifaces n ! l = Some j \<and> j \<noteq> k" if "l < length (omx_ifaces n)" for l j
  proof (cases "l = i")
    case True
    then show ?thesis using i by simp
  next
    case False
    then have "omx_ifaces n ! l \<noteq> Some k" using uniq that by blast
    then show ?thesis using False by auto
  qed
  have mem: "Some j \<in> set ((omx_ifaces n)[i := None]) \<longleftrightarrow> Some j \<in> set (omx_ifaces n) \<and> j \<noteq> k" for j
    unfolding in_set_conv_nth length_list_update using nth by blast
  have ifs: "omx_ifaces ?n = (omx_ifaces n)[i := None]" by (simp add: n' i_def)
  have in_n': "in_table ?n = in_table n'" by (simp add: in_table_def fun_eq_iff)
  have "indexes_ok ?n" "hash_ok ?n"
    using table_removed_ok [OF ok' rem in_n] by (simp_all add: indexes_ok_def hash_ok_def in_table_def)
  moreover have "kinds_ok ?n" using ok n'(16) in_n unfolding kinds_ok_def in_n' in' peers_ok_def by (auto simp: n')
  moreover have "{q. in_table n' q \<and> p_hostname (n_peer n' q) = None} = {q. in_table n q \<and> p_hostname (n_peer n q) = None}"
  proof (rule set_eqI)
    fix q
    have "p_hostname (n_peer n ?p) \<noteq> None" using ok in_n by (simp add: peers_ok_def kinds_ok_def)
    then show "q \<in> {q. in_table n' q \<and> p_hostname (n_peer n' q) = None} \<longleftrightarrow> q \<in> {q. in_table n q \<and> p_hostname (n_peer n q) = None}"
      using n'(16) [of q] by (cases "q = ?p") (auto simp: in')
  qed
  then have "queries_ok ?n" using ok unfolding queries_ok_def in_n' peers_ok_def by (simp add: n')
  moreover have "ifaces_ok ?n"
    unfolding ifaces_ok_def ifs in_n' in' mem using ok nth filter_update_None [OF i(1)] i(2) by (auto simp: n' peers_ok_def ifaces_ok_def)
  ultimately have "peers_ok ?n" by (simp add: peers_ok_def)
  then show thesis by (rule that [OF run _ n'(1-7)])
qed

lemma refs_ok_upd_iface:
  assumes "\<And>i. if_endpoints (f i) = if_endpoints i \<and> if_endpoint_nr (f i) = if_endpoint_nr i \<and> if_refcount (f i) = if_refcount i"
  shows "refs_ok (upd_iface k f n) = refs_ok n"
proof -
  have "if_endpoints (((n_iface n)(k := f (n_iface n k))) j) = if_endpoints (n_iface n j)"
    "if_endpoint_nr (((n_iface n)(k := f (n_iface n k))) j) = if_endpoint_nr (n_iface n j)"
    "if_refcount (((n_iface n)(k := f (n_iface n k))) j) = if_refcount (n_iface n j)" for j
    using assms by auto
  then show ?thesis by (simp add: refs_ok_def iface_refs_def del: fun_upd_apply)
qed

lemma attached_slot:
  assumes "peers_ok n" "Some k \<in> set (omx_ifaces n)"
  shows "if_index (n_iface n k) < length (omx_ifaces n)" "omx_ifaces n ! if_index (n_iface n k) = Some k"
proof -
  obtain l where l: "l < length (omx_ifaces n)" "omx_ifaces n ! l = Some k" using assms(2) by (auto simp: in_set_conv_nth)
  then have "if_index (n_iface n k) = l" using assms(1) by (simp add: peers_ok_def ifaces_ok_def)
  with l show "if_index (n_iface n k) < length (omx_ifaces n)" "omx_ifaces n ! if_index (n_iface n k) = Some k" by simp_all
qed

lemma detached_refs_ok:
  assumes refs: "refs_ok n" and none: "\<forall>i < omx_endpoint_max n. if_endpoints (n_iface n k) ! i = None"
    and n': "n_endpoint n' = n_endpoint n" "omx_endpoint_max n' = omx_endpoint_max n" "\<And>j. j \<noteq> k \<Longrightarrow> n_iface n' j = n_iface n j"
    and ifs: "\<And>j. Some j \<in> set (omx_ifaces n') \<longleftrightarrow> Some j \<in> set (omx_ifaces n) \<and> j \<noteq> k"
  shows "refs_ok n'"
proof -
  have "iface_refs n' j" if "Some j \<in> set (omx_ifaces n')" for j
    using refs that n' by (simp add: ifs refs_ok_def iface_refs_def)
  moreover have "unused (n_endpoint n' e) \<or>
      (\<exists>j i. Some j \<in> set (omx_ifaces n') \<and> i < omx_endpoint_max n' \<and> if_endpoints (n_iface n' j) ! i = Some e)"
    if "\<not> de_freed (n_endpoint n' e)" for e
  proof -
    have e: "\<not> de_freed (n_endpoint n e)" using that n'(1) by simp
    consider "unused (n_endpoint n e)"
      | j i where "Some j \<in> set (omx_ifaces n)" "i < omx_endpoint_max n" "if_endpoints (n_iface n j) ! i = Some e"
      using refs e unfolding refs_ok_def by blast
    then show ?thesis
    proof cases
      case 2
      then have "j \<noteq> k" using none by auto
      then have "Some j \<in> set (omx_ifaces n')" "i < omx_endpoint_max n'" "if_endpoints (n_iface n' j) ! i = Some e"
        using 2 n'(2,3) ifs by simp_all
      then show ?thesis by blast
    qed (simp add: n'(1))
  qed
  ultimately show ?thesis by (simp add: refs_ok_def)
qed

lemma iface_detach_ok:
  assumes ok: "node_ok n" and k: "Some k \<in> set (omx_ifaces n)"
    and pending: "\<forall>(j, skb) \<in> set (omx_host_query_list n) \<union> set (omx_host_reply_list n). j \<noteq> k"
  shows "\<exists>err n'. omx_iface_detach k force n = Some (err, n') \<and> node_ok n' \<and>
    (force \<longrightarrow> err = None \<and> (\<forall>i < omx_endpoint_max n. \<forall>e. if_endpoints (n_iface n k) ! i = Some e \<longrightarrow> de_freed (n_endpoint n' e)))"
proof -
  have ok': "peers_ok n" "refs_ok n" "pending_ok n" "\<And>j. Some j \<in> set (omx_ifaces n) \<Longrightarrow> if_status (n_iface n j) = OMX_IFACE_STATUS_OK"
    using ok by (auto simp: node_ok_def endpoints_ok_def)
  note slot = attached_slot [OF ok'(1) k]
  show ?thesis
  proof (cases "\<not> force \<and> if_endpoint_nr (n_iface n k) \<noteq> 0")
    case True
    then show ?thesis using ok slot by (simp add: omx_iface_detach_def)
  next
    case False
    define n1 where "n1 = upd_iface k (\<lambda>i. i\<lparr>if_status := OMX_IFACE_STATUS_CLOSING\<rparr>) n"
    have n1: "refs_ok n1" "peers_ok n1" "Some k \<in> set (omx_ifaces n1)"
      using ok' k by (simp_all add: n1_def refs_ok_upd_iface peers_ok_upd_iface)
    obtain n2 where n2: "close_endpoints_loop k [0..<omx_endpoint_max n1] n1 = Some n2" "refs_ok n2" "peers_ok n2" "same_but_endpoints k n1 n2"
        "\<forall>i < omx_endpoint_max n1. if_endpoints (n_iface n2 k) ! i = None"
        "\<forall>x. (\<exists>i \<in> {0..<omx_endpoint_max n1}. if_endpoints (n_iface n1 k) ! i = Some x) \<longrightarrow> de_freed (n_endpoint n2 x)"
      using close_endpoints_loop_ok [OF n1, of "[0..<omx_endpoint_max n1]"] by auto
    have k2: "Some k \<in> set (omx_ifaces n2)" using n1(3) n2(4) by (simp add: same_but_endpoints_def)
    obtain n3 where n3: "omx_peers_notify_iface_detach k n2 = Some n3"
        "peers_ok (n3\<lparr>omx_ifaces := (omx_ifaces n3)[if_index (n_iface n3 k) := None], omx_iface_nr := omx_iface_nr n3 - 1\<rparr>)"
        "n_endpoint n3 = n_endpoint n2" "omx_ifaces n3 = omx_ifaces n2" "omx_endpoint_max n3 = omx_endpoint_max n2"
        "\<And>j. j \<noteq> k \<Longrightarrow> n_iface n3 j = n_iface n2 j" "omx_host_query_list n3 = omx_host_query_list n2" "omx_host_reply_list n3 = omx_host_reply_list n2"
        "if_index (n_iface n3 k) = if_index (n_iface n2 k)"
      using notify_detach_ok [OF n2(3) k2] by blast
    define n4 where "n4 = omx_iface_release k (n3\<lparr>omx_ifaces := (omx_ifaces n3)[if_index (n_iface n3 k) := None], omx_iface_nr := omx_iface_nr n3 - 1\<rparr>)"
    have run: "omx_iface_detach k force n = Some (None, n4)"
      using False slot n2(1) n3(1) by (simp add: omx_iface_detach_def n1_def [symmetric] n4_def Let_def)
    have slot2: "if_index (n_iface n2 k) < length (omx_ifaces n2)" "omx_ifaces n2 ! if_index (n_iface n2 k) = Some k"
      using attached_slot [OF n2(3) k2] by simp_all
    have same: "omx_ifaces n2 = omx_ifaces n" "omx_endpoint_max n2 = omx_endpoint_max n" "\<And>j. j \<noteq> k \<Longrightarrow> n_iface n2 j = n_iface n j"
      "omx_host_query_list n2 = omx_host_query_list n" "omx_host_reply_list n2 = omx_host_reply_list n" "omx_endpoint_max n1 = omx_endpoint_max n"
      using n2(4) by (simp_all add: same_but_endpoints_def n1_def)
    have n4: "n_endpoint n4 = n_endpoint n2" "omx_endpoint_max n4 = omx_endpoint_max n2" "\<And>j. j \<noteq> k \<Longrightarrow> n_iface n4 j = n_iface n2 j"
      "omx_host_query_list n4 = omx_host_query_list n" "omx_host_reply_list n4 = omx_host_reply_list n"
      "omx_ifaces n4 = (omx_ifaces n2)[if_index (n_iface n2 k) := None]"
      using n3 same by (simp_all add: n4_def omx_iface_release_def)
    have ifs: "Some j \<in> set (omx_ifaces n4) \<longleftrightarrow> Some j \<in> set (omx_ifaces n2) \<and> j \<noteq> k" for j
    proof -
      have "l = if_index (n_iface n2 k)" if "l < length (omx_ifaces n2)" "omx_ifaces n2 ! l = Some k" for l
        using n2(3) that by (simp add: peers_ok_def ifaces_ok_def)
      then show ?thesis unfolding n4(6) in_set_conv_nth length_list_update using slot2
        by (metis nth_list_update_eq nth_list_update_neq option.distinct(1) option.inject)
    qed
    have "refs_ok n4"
      by (rule detached_refs_ok [OF n2(2) _ n4(1,2) _ ifs]) (use n2(5) n4(3) same in simp_all)
    moreover have "peers_ok n4"
      using n3(2) unfolding n4_def omx_iface_release_def by (simp add: peers_ok_upd_iface)
    moreover have "if_status (n_iface n4 j) = OMX_IFACE_STATUS_OK" if "Some j \<in> set (omx_ifaces n4)" for j
      using that ok'(4) n4(3) same by (simp add: ifs)
    moreover have "pending_ok n4"
      using ok'(3) pending unfolding pending_ok_def n4(4,5) ifs same by auto
    moreover have "de_freed (n_endpoint n4 e)" if "i < omx_endpoint_max n" "if_endpoints (n_iface n k) ! i = Some e" for i e
      using that n2(6) n4(1) by (auto simp: n1_def Bex_def)
    ultimately show ?thesis using run by (simp add: node_ok_def endpoints_ok_def)
  qed
qed

subsection \<open>Attaching an interface\<close>

lemma same_core_reacquire:
  assumes "same_core n n'"
  shows "same_core (omx_iface_reacquire k n) (omx_iface_reacquire k n')"
proof -
  have core: "iface_core (n_iface n' j) = iface_core (n_iface n j)" for j using assms by (simp add: same_core_def)
  have rc: "iface_core (i\<lparr>if_refcount := r\<rparr>) = (iface_core i)\<lparr>if_refcount := r\<rparr>" for i r by (simp add: iface_core_def)
  have "iface_core (n_iface (omx_iface_reacquire k n') j) = iface_core (n_iface (omx_iface_reacquire k n) j)" for j
    using core [of j] iface_core_eqD(3) [OF core [of k]] core [of k] by (simp add: omx_iface_reacquire_def rc)
  with assms show ?thesis by (simp add: same_core_def omx_iface_reacquire_def upd_iface_def)
qed

lemma init_iface_reverse_core: "omx_init_iface_reverse_indexes k n = Some n' \<Longrightarrow> same_core n n'"
proof -
  assume "omx_init_iface_reverse_indexes k n = Some n'"
  then obtain rs n1 rs' where r: "omx_init_peer_reverse_indexes (ucast (p_index (n_peer n (Iface_peer k)))) True
      (upd_iface k (\<lambda>i. i\<lparr>if_reverse_peer_indexes := rs\<rparr>) n) = Some n1" "n' = upd_iface k (\<lambda>i. i\<lparr>if_reverse_peer_indexes := rs'\<rparr>) n1"
    by (auto simp: omx_init_iface_reverse_indexes_def Let_def split: Option.bind_splits)
  have "same_core n (upd_iface k (\<lambda>i. i\<lparr>if_reverse_peer_indexes := rs\<rparr>) n)" "same_core n1 n'"
    using same_core_only_reverse [OF only_reverse_upd] r(2) by auto
  moreover have "same_core (upd_iface k (\<lambda>i. i\<lparr>if_reverse_peer_indexes := rs\<rparr>) n) n1"
    using r(1) init_peer_reverse_core by (simp add: omx_init_peer_reverse_indexes_def)
  ultimately show ?thesis using same_core_trans by blast
qed

lemma attach_replace_core:
  assumes "attach_replace k p n = Some n'"
  shows "same_core (omx_iface_reacquire k n) n'"
proof -
  let ?n1 = "upd_peer (Iface_peer k) (\<lambda>q. q\<lparr>p_index := p_index (n_peer n p)\<rparr>) (omx_iface_reacquire k n)"
  obtain n2 where n2: "omx_init_iface_reverse_indexes k ?n1 = Some n2" "same_core n2 n'"
    using assms by (auto simp: attach_replace_def Let_def split: Option.bind_splits option.splits if_splits)
  have "same_core (omx_iface_reacquire k n) ?n1" by simp
  then show ?thesis using same_core_trans init_iface_reverse_core [OF n2(1)] n2(2) by blast
qed

lemma attach_insert_core:
  assumes "attach_insert k n = Some n'"
  shows "same_core (omx_iface_reacquire k n) n'"
proof -
  let ?n1 = "upd_peer (Iface_peer k) (\<lambda>q. q\<lparr>p_local_iface := Some k, p_index := of_nat (omx_peer_next_nr n)\<rparr>) n"
  obtain n2 where n2: "omx_init_iface_reverse_indexes k ?n1 = Some n2" "same_core (omx_iface_reacquire k n2) n'"
    using assms by (auto simp: attach_insert_def Let_def split: Option.bind_splits)
  have "same_core n n2" using same_core_trans [OF _ init_iface_reverse_core [OF n2(1)], of n] by simp
  then show ?thesis using same_core_trans [OF same_core_reacquire n2(2)] by blast
qed

lemma notify_attach_core:
  "omx_peers_notify_iface_attach k n = Some (None, n') \<Longrightarrow> same_core (omx_iface_reacquire k n) n'"
  by (auto simp: omx_peers_notify_iface_attach_def split: option.splits if_splits dest: attach_replace_core attach_insert_core)

lemma notify_attach_err:
  "omx_peers_notify_iface_attach k n = Some (Some err, n') \<Longrightarrow> same_core n n'"
  by (auto simp: omx_peers_notify_iface_attach_def split: option.splits if_splits)

lemma new_iface_endpoints_ok:
  assumes ok: "endpoints_ok n" and k: "Some k \<notin> set (omx_ifaces n)"
  shows "endpoints_ok (new_iface_at k a h i n)"
proof -
  let ?n = "new_iface_at k a h i n"
  have "n_iface ?n j = n_iface n j" if "Some j \<in> set (omx_ifaces n)" for j using that k by (auto simp: new_iface_at_def)
  moreover have "n_endpoint ?n = n_endpoint n" "omx_ifaces ?n = omx_ifaces n" "omx_endpoint_max ?n = omx_endpoint_max n"
    by (simp_all add: new_iface_at_def upd_peer_def)
  ultimately show ?thesis using ok by (auto simp: endpoints_ok_def refs_ok_def iface_refs_def)
qed

text \<open>The new interface has no endpoint and two references, that of the array and that of the peer table.\<close>

lemma attached_endpoints_ok:
  assumes ok: "endpoints_ok n" and k: "Some k \<notin> set (omx_ifaces n)"
    and core: "same_core (omx_iface_reacquire k (new_iface_at k a h (new_iface slot ifp da junk (omx_endpoint_max n)) n)) n'"
    and slot: "slot < length (omx_ifaces n)" "omx_ifaces n ! slot = None"
  shows "endpoints_ok (n'\<lparr>omx_ifaces := (omx_ifaces n)[slot := Some k], omx_iface_nr := m\<rparr>)"
proof -
  let ?i = "new_iface slot ifp da junk (omx_endpoint_max n)"
  let ?n0 = "omx_iface_reacquire k (new_iface_at k a h ?i n)" and ?res = "n'\<lparr>omx_ifaces := (omx_ifaces n)[slot := Some k], omx_iface_nr := m\<rparr>"
  have n0: "n_endpoint ?n0 = n_endpoint n" "omx_endpoint_max ?n0 = omx_endpoint_max n" "n_iface ?n0 k = ?i\<lparr>if_refcount := 2\<rparr>"
    "\<And>j. j \<noteq> k \<Longrightarrow> n_iface ?n0 j = n_iface n j"
    by (simp_all add: omx_iface_reacquire_def new_iface_at_def upd_peer_def new_iface_def)
  have same: "n_endpoint n' = n_endpoint n" "omx_endpoint_max n' = omx_endpoint_max n" using core n0 by (simp_all add: same_core_def)
  have c: "iface_core (n_iface n' j) = iface_core (n_iface ?n0 j)" for j using core by (simp add: same_core_def)
  note eq = iface_core_eqD [OF c]
  have i: "Some j \<in> set ((omx_ifaces n)[slot := Some k]) \<longleftrightarrow> j = k \<or> Some j \<in> set (omx_ifaces n)" for j
    using slot by (simp add: set_update_None)
  have "if_endpoints (n_iface n' k) = replicate (omx_endpoint_max n) None" "if_endpoint_nr (n_iface n' k) = 0"
    "if_refcount (n_iface n' k) = 2" "if_status (n_iface n' k) = OMX_IFACE_STATUS_OK"
    by (simp_all only: eq n0(3)) (simp_all add: new_iface_def)
  then have new: "iface_refs ?res k" "if_status (n_iface ?res k) = OMX_IFACE_STATUS_OK"
    by (simp_all add: iface_refs_def same filter_replicate)
  have old: "iface_refs ?res j" "if_status (n_iface ?res j) = OMX_IFACE_STATUS_OK" "if_endpoints (n_iface ?res j) = if_endpoints (n_iface n j)"
    if "Some j \<in> set (omx_ifaces n)" for j
  proof -
    have "j \<noteq> k" using that k by auto
    then show "iface_refs ?res j" "if_status (n_iface ?res j) = OMX_IFACE_STATUS_OK" "if_endpoints (n_iface ?res j) = if_endpoints (n_iface n j)"
      using ok that n0(4) by (simp_all add: iface_refs_def same eq endpoints_ok_def refs_ok_def)
  qed
  have "unused (n_endpoint ?res e) \<or>
      (\<exists>k i. Some k \<in> set (omx_ifaces ?res) \<and> i < omx_endpoint_max ?res \<and> if_endpoints (n_iface ?res k) ! i = Some e)"
    if e: "\<not> de_freed (n_endpoint ?res e)" for e
  proof -
    have "\<not> de_freed (n_endpoint n e)" using e by (simp add: same)
    then consider "unused (n_endpoint n e)"
      | j l where "Some j \<in> set (omx_ifaces n)" "l < omx_endpoint_max n" "if_endpoints (n_iface n j) ! l = Some e"
      using ok unfolding endpoints_ok_def refs_ok_def by blast
    then show ?thesis
    proof cases
      case 2
      then have "Some j \<in> set (omx_ifaces ?res)" "l < omx_endpoint_max ?res" "if_endpoints (n_iface ?res j) ! l = Some e"
        using old(3) [OF 2(1)] by (simp_all add: i same)
      then show ?thesis by blast
    qed (simp add: same)
  qed
  then show ?thesis using new old unfolding endpoints_ok_def refs_ok_def by (auto simp: i)
qed

lemma attach_node_ok:
  assumes ok: "node_ok n" and k: "Some k \<notin> set (omx_ifaces n)"
    and addr: "omx_iface_find_by_addr (omx_board_addr_from_netdevice dev_addr) n = None"
  shows "\<exists>err n'. omx_iface_attach mem_ok k ifp dev_addr hostname n = Some (err, n') \<and> node_ok n'"
proof (cases "omx_iface_nr n = length (omx_ifaces n) \<or> omx_iface_find_by_ifp ifp n \<noteq> None \<or> \<not> mem_ok")
  case True
  then show ?thesis using ok by (auto simp: omx_iface_attach_def)
next
  case False
  have ok': "peers_ok n" "endpoints_ok n" "pending_ok n" using ok by (auto simp: node_ok_def)
  define slot where "slot = length (takeWhile (\<lambda>i. i \<noteq> None) (omx_ifaces n))"
  define i where "i = new_iface slot ifp dev_addr (replicate (omx_peer_max n) 0) (omx_endpoint_max n)"
  have slot: "slot < length (omx_ifaces n)" "omx_ifaces n ! slot = None"
    using first_free_slot [OF ok'(1)] False unfolding slot_def by blast+
  obtain err n' where n': "omx_iface_attach mem_ok k ifp dev_addr hostname n = Some (err, n')" "peers_ok n'"
    using iface_attach_ok [OF ok'(1) k addr] by blast
  let ?n0 = "new_iface_at k (omx_board_addr_from_netdevice dev_addr) hostname i n"
  have "omx_iface_attach mem_ok k ifp dev_addr hostname n = do {
      (err, n') \<leftarrow> omx_peers_notify_iface_attach k ?n0;
      (if err \<noteq> None then Some (err, n')
       else do {
         ifaces \<leftarrow> store slot (Some k) (omx_ifaces n');
         Some (None, n'\<lparr>omx_ifaces := ifaces, omx_iface_nr := omx_iface_nr n' + 1\<rparr>)
       })}"
    using False unfolding omx_iface_attach_def new_iface_at_def Let_def slot_def [symmetric] by (simp add: i_def)
  with n'(1) consider e where "omx_peers_notify_iface_attach k ?n0 = Some (Some e, n')"
    | n1 where "omx_peers_notify_iface_attach k ?n0 = Some (None, n1)"
        "n' = n1\<lparr>omx_ifaces := (omx_ifaces n1)[slot := Some k], omx_iface_nr := omx_iface_nr n1 + 1\<rparr>"
    by (auto simp: store_def split: Option.bind_splits if_splits)
  then have "endpoints_ok n' \<and> pending_ok n'"
  proof cases
    case 1
    note core = notify_attach_err [OF 1]
    have "pending_ok ?n0" using ok'(3) by (simp add: pending_ok_def new_iface_at_def upd_peer_def)
    with core new_iface_endpoints_ok [OF ok'(2) k] show ?thesis using same_core_endpoints_ok same_core_pending_ok by blast
  next
    case 2
    note core = notify_attach_core [OF 2(1)]
    have ifs: "omx_ifaces n1 = omx_ifaces n" "omx_host_query_list n1 = omx_host_query_list n" "omx_host_reply_list n1 = omx_host_reply_list n"
      using core by (simp_all add: same_core_def omx_iface_reacquire_def new_iface_at_def upd_peer_def)
    have "endpoints_ok n'" using attached_endpoints_ok [OF ok'(2) k core [unfolded i_def] slot] 2(2) ifs(1) by simp
    moreover have "pending_ok n'"
      using ok'(3) slot by (auto simp: pending_ok_def 2(2) ifs set_update_None)
    ultimately show ?thesis by simp
  qed
  with n' show ?thesis by (simp add: node_ok_def)
qed

subsection \<open>Opening and releasing\<close>

lemma not_listed:
  assumes "refs_ok n" "de_freed (n_endpoint n e) \<or> de_status (n_endpoint n e) \<noteq> OMX_ENDPOINT_STATUS_OK"
    "Some k \<in> set (omx_ifaces n)" "i < omx_endpoint_max n"
  shows "if_endpoints (n_iface n k) ! i \<noteq> Some e"
  using assms by (auto simp: refs_ok_def iface_refs_def endpoint_in_def)

lemma unlisted_upd_ok:
  assumes refs: "refs_ok n" and e: "de_freed (n_endpoint n e) \<or> de_status (n_endpoint n e) \<noteq> OMX_ENDPOINT_STATUS_OK"
    and f: "de_freed (f (n_endpoint n e)) \<or> unused (f (n_endpoint n e))"
  shows "refs_ok (upd_endpoint e f n)"
proof -
  let ?res = "upd_endpoint e f n"
  have "endpoint_in k i (n_endpoint ?res x)" if "Some k \<in> set (omx_ifaces n)" "i < omx_endpoint_max n" "if_endpoints (n_iface n k) ! i = Some x" for k i x
    using that refs not_listed [OF refs e that(1,2)] by (auto simp: refs_ok_def iface_refs_def)
  then have "iface_refs ?res k" if "Some k \<in> set (omx_ifaces n)" for k
    using that refs by (auto simp: refs_ok_def iface_refs_def)
  moreover have "unused (n_endpoint ?res x) \<or> (\<exists>k i. Some k \<in> set (omx_ifaces n) \<and> i < omx_endpoint_max n \<and> if_endpoints (n_iface n k) ! i = Some x)"
    if "\<not> de_freed (n_endpoint ?res x)" for x
    using that f refs unfolding refs_ok_def by (cases "x = e") auto
  ultimately show ?thesis by (simp add: refs_ok_def)
qed

lemma opened_ok:
  assumes refs: "refs_ok n" and e: "\<not> de_freed (n_endpoint n e)" "unused (n_endpoint n e)"
    and k: "Some k \<in> set (omx_ifaces n)" and i: "i < omx_endpoint_max n" "if_endpoints (n_iface n k) ! i = None"
    and f: "endpoint_in k i (f (n_endpoint n e))"
  shows "refs_ok (upd_endpoint e f (upd_iface k (\<lambda>g. g\<lparr>if_refcount := if_refcount g + 1, if_endpoints := (if_endpoints g)[i := Some e],
    if_endpoint_nr := if_endpoint_nr g + 1\<rparr>) n))" (is "refs_ok ?res")
proof -
  have at: "iface_refs n j" if "Some j \<in> set (omx_ifaces n)" for j using refs that by (simp add: refs_ok_def)
  have len: "length (if_endpoints (n_iface n k)) = omx_endpoint_max n" using at [OF k] by (simp add: iface_refs_def)
  have ends: "if_endpoints (n_iface ?res j) ! l = (if j = k \<and> l = i then Some e else if_endpoints (n_iface n j) ! l)" if "l < omx_endpoint_max n" for j l
    using that len by simp
  have "endpoint_in j l (n_endpoint ?res x)" if "Some j \<in> set (omx_ifaces n)" "l < omx_endpoint_max n" "if_endpoints (n_iface ?res j) ! l = Some x" for j l x
  proof (cases "j = k \<and> l = i")
    case True
    then have "x = e" using that i len by simp
    then show ?thesis using True f by simp
  next
    case False
    then have x: "if_endpoints (n_iface n j) ! l = Some x" using that(3) unfolding ends [OF that(2)] by (simp only: if_False)
    then have "x \<noteq> e" using not_listed [OF refs _ that(1,2), of e] e by (auto simp: unused_def)
    then show ?thesis using x that at by (simp add: iface_refs_def)
  qed
  moreover have "length (filter (\<lambda>x. x \<noteq> None) ((if_endpoints (n_iface n k))[i := Some e])) = Suc (if_endpoint_nr (n_iface n k))"
    using filter_update_Some [of i "if_endpoints (n_iface n k)"] i len at [OF k] by (simp add: iface_refs_def)
  ultimately have "iface_refs ?res j" if "Some j \<in> set (omx_ifaces n)" for j
    using at [OF that] that unfolding iface_refs_def by (cases "j = k") auto
  moreover have "unused (n_endpoint ?res x) \<or> (\<exists>j l. Some j \<in> set (omx_ifaces n) \<and> l < omx_endpoint_max n \<and> if_endpoints (n_iface ?res j) ! l = Some x)"
    if x: "\<not> de_freed (n_endpoint ?res x)" for x
  proof (cases "x = e")
    case True
    have "if_endpoints (n_iface ?res k) ! i = Some x" unfolding ends [OF i(1)] using True by simp
    then show ?thesis using k i(1) by blast
  next
    case False
    then have "\<not> de_freed (n_endpoint n x)" using x by simp
    then consider "unused (n_endpoint n x)" | j l where "Some j \<in> set (omx_ifaces n)" "l < omx_endpoint_max n" "if_endpoints (n_iface n j) ! l = Some x"
      using refs unfolding refs_ok_def by blast
    then show ?thesis
    proof cases
      case 2
      then have "if_endpoints (n_iface ?res j) ! l = Some x" using ends [of l j] i(2) by auto
      then show ?thesis using 2 by blast
    qed (simp add: False)
  qed
  ultimately show ?thesis by (simp add: refs_ok_def)
qed

lemma same_rest_node_ok:
  assumes ok: "node_ok n" and refs: "refs_ok n'" and peers: "peers_ok n'"
    and same: "omx_ifaces n' = omx_ifaces n" "omx_host_query_list n' = omx_host_query_list n" "omx_host_reply_list n' = omx_host_reply_list n"
      "\<And>j. if_status (n_iface n' j) = if_status (n_iface n j)"
  shows "node_ok n'"
  using assms by (simp add: node_ok_def endpoints_ok_def pending_ok_def)

lemma upd_endpoint_twice: "upd_endpoint e f (upd_endpoint e g n) = upd_endpoint e (f \<circ> g) n"
  by (simp add: upd_endpoint_def)

lemma miscdev_open_ok:
  assumes ok: "node_ok n" and e: "de_freed (n_endpoint n e)"
  shows "node_ok (omx_miscdev_open e n)"
proof (rule same_rest_node_ok [OF ok])
  show "refs_ok (omx_miscdev_open e n)" unfolding omx_miscdev_open_def
    by (rule unlisted_upd_ok) (use ok e in \<open>auto simp: node_ok_def endpoints_ok_def unused_def\<close>)
qed (use ok in \<open>simp_all add: omx_miscdev_open_def node_ok_def\<close>)

lemma endpoint_open_ok:
  assumes ok: "node_ok n" and e: "\<not> de_freed (n_endpoint n e)"
  shows "\<exists>err n'. omx_endpoint_open env alloc_ok e bi ei session queues n = Some (err, n') \<and> node_ok n'"
proof (cases "\<not> k_cmd env \<or> de_status (n_endpoint n e) \<noteq> OMX_ENDPOINT_STATUS_FREE \<or> \<not> alloc_ok")
  case True
  then show ?thesis using ok e by (auto simp: omx_endpoint_open_def live_endpoint_def)
next
  case False
  define g :: "d_endpoint \<Rightarrow> d_endpoint" where "g = (\<lambda>ep. ep\<lparr>de_status := OMX_ENDPOINT_STATUS_INITIALIZING, de_session_id := session, de_queues := queues,
    de_board_index := bi, de_endpoint_index := ei\<rparr>)"
  let ?n1 = "upd_endpoint e g n" and ?i = "unat ei"
  have ok': "peers_ok n" "refs_ok n" "\<And>k. Some k \<in> set (omx_ifaces n) \<Longrightarrow> if_status (n_iface n k) = OMX_IFACE_STATUS_OK"
    using ok by (auto simp: node_ok_def endpoints_ok_def)
  have st: "de_status (n_endpoint n e) = OMX_ENDPOINT_STATUS_FREE" using False by blast
  have unused: "unused (n_endpoint n e)"
  proof (rule ccontr)
    assume "\<not> unused (n_endpoint n e)"
    then obtain k i where k: "Some k \<in> set (omx_ifaces n)" "i < omx_endpoint_max n" "if_endpoints (n_iface n k) ! i = Some e"
      using ok'(2) e unfolding refs_ok_def by blast
    have "if_endpoints (n_iface n k) ! i \<noteq> Some e" by (rule not_listed [OF ok'(2) _ k(1,2)]) (simp add: st)
    with k(3) show False by simp
  qed
  have run: "omx_endpoint_open env alloc_ok e bi ei session queues n = do {
      (err, n) \<leftarrow> omx_iface_attach_endpoint e ?n1;
      (if err \<noteq> None then Some (err, upd_endpoint e (\<lambda>ep. ep\<lparr>de_status := OMX_ENDPOINT_STATUS_FREE\<rparr>) n) else Some (None, n))}"
    using False e by (simp add: omx_endpoint_open_def live_endpoint_def g_def Let_def)
  have fail: ?thesis if "omx_iface_attach_endpoint e ?n1 = Some (Some err, ?n1)" for err
  proof -
    let ?n2 = "upd_endpoint e ((\<lambda>ep. ep\<lparr>de_status := OMX_ENDPOINT_STATUS_FREE\<rparr>) \<circ> g) n"
    have "refs_ok ?n2" by (rule unlisted_upd_ok [OF ok'(2)]) (use unused in \<open>simp_all add: unused_def g_def\<close>)
    then have "node_ok ?n2" by (rule same_rest_node_ok [OF ok]) (use ok'(1) in simp_all)
    then show ?thesis using run that by (simp add: upd_endpoint_twice)
  qed
  have live: "live_endpoint e ?n1 = Some (g (n_endpoint n e))" using e by (simp add: live_endpoint_def g_def)
  have flds: "de_status (g ep) = OMX_ENDPOINT_STATUS_INITIALIZING" "de_endpoint_index (g ep) = ei" "de_board_index (g ep) = bi"
    "de_freed (g ep) = de_freed ep" "de_refcount (g ep) = de_refcount ep" for ep by (simp_all add: g_def)
  show ?thesis
  proof (cases "?i \<ge> omx_endpoint_max n \<or> bi \<ge> length (omx_ifaces n) \<or> omx_ifaces n ! bi = None")
    case True
    then have "\<exists>err. omx_iface_attach_endpoint e ?n1 = Some (Some err, ?n1)" by (auto simp: omx_iface_attach_endpoint_def live flds Let_def)
    then show ?thesis using fail by blast
  next
    case ok_i: False
    then obtain k where k: "omx_ifaces n ! bi = Some k" by blast
    then have k_in: "Some k \<in> set (omx_ifaces n)" using ok_i nth_mem by (metis linorder_not_less)
    show ?thesis
    proof (cases "if_endpoints (n_iface n k) ! ?i = None")
      case False
      then have "omx_iface_attach_endpoint e ?n1 = Some (Some EBUSY, ?n1)"
        using k ok_i ok'(3) [OF k_in] by (simp add: omx_iface_attach_endpoint_def live flds Let_def)
      then show ?thesis by (rule fail)
    next
      case True
      define f :: "d_endpoint \<Rightarrow> d_endpoint" where "f = (\<lambda>ep. ep\<lparr>de_iface := Some k, de_status := OMX_ENDPOINT_STATUS_OK\<rparr>) \<circ> g"
      define h :: "omx_iface \<Rightarrow> omx_iface" where "h = (\<lambda>i. i\<lparr>if_refcount := if_refcount i + 1, if_endpoints := (if_endpoints i)[?i := Some e], if_endpoint_nr := if_endpoint_nr i + 1\<rparr>)"
      let ?n2 = "upd_endpoint e f (upd_iface k h n)"
      have "omx_iface_attach_endpoint e ?n1 = Some (None, ?n2)"
        using k ok_i ok'(3) [OF k_in] True
        by (simp add: omx_iface_attach_endpoint_def live flds Let_def omx_iface_reacquire_def)
          (simp add: upd_endpoint_def upd_iface_def f_def h_def)
      moreover have "refs_ok ?n2" unfolding h_def
        by (rule opened_ok [OF ok'(2) e unused k_in _ True])
          (use ok_i e unused in \<open>simp_all add: endpoint_in_def f_def flds unused_def\<close>)
      then have "node_ok ?n2"
        by (rule same_rest_node_ok [OF ok]) (use ok'(1) in \<open>simp_all add: peers_ok_upd_iface h_def\<close>)
      ultimately show ?thesis using run by simp
    qed
  qed
qed

lemma miscdev_release_ok:
  assumes ok: "node_ok n" and e: "\<not> de_freed (n_endpoint n e)"
  shows "\<exists>n'. omx_miscdev_release e n = Some n' \<and> node_ok n'"
proof -
  have ok': "peers_ok n" "refs_ok n" using ok by (auto simp: node_ok_def endpoints_ok_def)
  consider "unused (n_endpoint n e)"
    | k i where "Some k \<in> set (omx_ifaces n)" "i < omx_endpoint_max n" "if_endpoints (n_iface n k) ! i = Some e"
    using ok'(2) e unfolding refs_ok_def by blast
  then show ?thesis
  proof cases
    case 1
    let ?n = "upd_endpoint e (\<lambda>ep. ep\<lparr>de_freed := True\<rparr>) n"
    have "refs_ok ?n" by (rule unlisted_upd_ok [OF ok'(2)]) (use 1 in \<open>simp_all add: unused_def\<close>)
    then have "node_ok ?n" by (rule same_rest_node_ok [OF ok]) (use ok'(1) in simp_all)
    then show ?thesis using e 1 by (simp add: omx_miscdev_release_def omx_endpoint_close_def live_endpoint_def unused_def)
  next
    case 2
    note c = close_ok [OF ok'(2) 2]
    have "node_ok (upd_iface k (left i) (upd_endpoint e closed n))"
      by (rule same_rest_node_ok [OF ok c(2) c(3) [OF ok'(1)]]) (simp_all add: left_def)
    then show ?thesis using c(1) by (simp add: omx_miscdev_release_def)
  qed
qed

subsection \<open>Sequences of operations\<close>

datatype node_op =
    Peer_add kernel_env bool bool u64 "u8 list option"
  | Peers_clear
  | Peers_clear_names "nat \<Rightarrow> kernel_env"
  | Query_work "nat \<Rightarrow> kernel_env"
  | Recv_host_query nat sk_buff
  | Recv_host_reply nat sk_buff
  | Process_work "nat \<Rightarrow> kernel_env"
  | Attach bool nat nat "u8 list" "u8 list"
  | Detach nat bool
  | Dev_open nat
  | Endpoint_open kernel_env bool nat nat u8 u32 driver_eventqs
  | Dev_release nat

fun node_exec :: "node_op \<Rightarrow> omx_node \<Rightarrow> omx_node option" where
  "node_exec (Peer_add env s m a h) n = map_option snd (omx_peer_add env s m a h n)"
| "node_exec Peers_clear n = omx_peers_clear False n"
| "node_exec (Peers_clear_names envs) n = Some (omx_peers_clear_names envs n)"
| "node_exec (Query_work envs) n = Some (omx_host_query_workfunc envs n)"
| "node_exec (Recv_host_query k skb) n = Some (omx_recv_host_query k skb n)"
| "node_exec (Recv_host_reply k skb) n = Some (omx_recv_host_reply k skb n)"
| "node_exec (Process_work envs) n = omx_process_host_queries_and_replies_workfunc envs n"
| "node_exec (Attach m k ifp da h) n = map_option snd (omx_iface_attach m k ifp da h n)"
| "node_exec (Detach k force) n = map_option snd (omx_iface_detach k force n)"
| "node_exec (Dev_open e) n = Some (omx_miscdev_open e n)"
| "node_exec (Endpoint_open env al e bi ei s q) n = map_option snd (omx_endpoint_open env al e bi ei s q n)"
| "node_exec (Dev_release e) n = omx_miscdev_release e n"

text \<open>
  When the kernel calls them: packets come from attached interfaces, a new interface or endpoint structure is one that
  is not in use, a file is released once. The last three conditions are those the driver relies on without checking
  them: no two interfaces have the same address, no reply has an empty name, and no packet waits to be processed when
  its interface goes away.
\<close>

fun node_legal :: "node_op \<Rightarrow> omx_node \<Rightarrow> bool" where
  "node_legal (Recv_host_query k skb) n = (Some k \<in> set (omx_ifaces n))"
| "node_legal (Recv_host_reply k skb) n = (Some k \<in> set (omx_ifaces n) \<and> OMX_NTOH_8 17 (skb_data skb) \<noteq> 0)"
| "node_legal (Attach m k ifp da h) n =
    (Some k \<notin> set (omx_ifaces n) \<and> omx_iface_find_by_addr (omx_board_addr_from_netdevice da) n = None)"
| "node_legal (Detach k force) n = (Some k \<in> set (omx_ifaces n) \<and>
    k \<notin> fst ` set (omx_host_query_list n) \<and> k \<notin> fst ` set (omx_host_reply_list n))"
| "node_legal (Dev_open e) n = de_freed (n_endpoint n e)"
| "node_legal (Endpoint_open env al e bi ei s q) n = (\<not> de_freed (n_endpoint n e))"
| "node_legal (Dev_release e) n = (\<not> de_freed (n_endpoint n e))"
| "node_legal _ n = True"

lemma node_exec_ok:
  assumes ok: "node_ok n" and legal: "node_legal op n"
  shows "\<exists>n'. node_exec op n = Some n' \<and> node_ok n'"
proof -
  have ok': "peers_ok n" "endpoints_ok n" "pending_ok n" using ok by (auto simp: node_ok_def)
  note core = same_core_node_ok [OF _ ok]
  show ?thesis
  proof (cases op)
    case (Peer_add env s m a h)
    obtain err n' where "omx_peer_add env s m a h n = Some (err, n')" "peers_ok n'" using peer_add_ok [OF ok'(1)] by blast
    then show ?thesis using Peer_add core peer_add_core [OF ok'(1)] by auto
  next
    case Peers_clear
    then show ?thesis using peers_clear_ok [OF ok'(1)] core by auto
  next
    case (Peers_clear_names envs)
    then show ?thesis using clear_names_ok [OF ok'(1)] core by simp
  next
    case (Query_work envs)
    then show ?thesis using query_work_ok [OF ok'(1)] core by simp
  next
    case (Recv_host_query k skb)
    then show ?thesis using ok' legal
      by (auto simp: omx_recv_host_query_def node_ok_def endpoints_ok_def refs_ok_def iface_refs_def pending_ok_def)
  next
    case (Recv_host_reply k skb)
    then show ?thesis using ok' legal
      by (auto simp: omx_recv_host_reply_def node_ok_def endpoints_ok_def refs_ok_def iface_refs_def pending_ok_def)
  next
    case (Process_work envs)
    then show ?thesis using process_work_ok [OF ok] by simp
  next
    case (Attach m k ifp da h)
    then have "Some k \<notin> set (omx_ifaces n)" "omx_iface_find_by_addr (omx_board_addr_from_netdevice da) n = None" using legal by simp_all
    then obtain err n' where "omx_iface_attach m k ifp da h n = Some (err, n')" "node_ok n'" using attach_node_ok [OF ok] by blast
    then show ?thesis using Attach by simp
  next
    case (Detach k force)
    have "\<forall>(j, skb) \<in> set (omx_host_query_list n) \<union> set (omx_host_reply_list n). j \<noteq> k" using legal Detach by force
    moreover have "Some k \<in> set (omx_ifaces n)" using legal Detach by simp
    ultimately obtain err n' where "omx_iface_detach k force n = Some (err, n')" "node_ok n'" using iface_detach_ok [OF ok] by blast
    then show ?thesis using Detach by simp
  next
    case (Dev_open e)
    then show ?thesis using miscdev_open_ok [OF ok] legal by simp
  next
    case (Endpoint_open env al e bi ei s q)
    then have "\<not> de_freed (n_endpoint n e)" using legal by simp
    then obtain err n' where "omx_endpoint_open env al e bi ei s q n = Some (err, n')" "node_ok n'" using endpoint_open_ok [OF ok] by blast
    then show ?thesis using Endpoint_open by simp
  next
    case (Dev_release e)
    then show ?thesis using miscdev_release_ok [OF ok] legal by simp
  qed
qed

fun node_run :: "node_op list \<Rightarrow> omx_node \<Rightarrow> omx_node option" where
  "node_run [] n = Some n"
| "node_run (op # ops) n = do { n \<leftarrow> node_exec op n; node_run ops n }"

fun legal_run :: "node_op list \<Rightarrow> omx_node \<Rightarrow> bool" where
  "legal_run [] n = True"
| "legal_run (op # ops) n = (node_legal op n \<and> (case node_exec op n of None \<Rightarrow> True | Some n' \<Rightarrow> legal_run ops n'))"

text \<open>The driver after it was loaded with the given module parameters.\<close>

definition node_start :: "nat \<Rightarrow> nat \<Rightarrow> nat \<Rightarrow> omx_node \<Rightarrow> omx_node" where
  "node_start peer_max iface_max endpoint_max n = omx_peers_init peer_max (n\<lparr>omx_ifaces := replicate iface_max None, omx_iface_nr := 0,
     omx_endpoint_max := endpoint_max, n_endpoint := (\<lambda>e. (n_endpoint n e)\<lparr>de_freed := True\<rparr>), peers_allocated := 0, peers_freed := []\<rparr>)"

lemma node_start_ok: "peer_max \<le> 65536 \<Longrightarrow> node_ok (node_start peer_max iface_max endpoint_max n)"
  by (simp add: node_ok_def node_start_def omx_peers_init_def peers_ok_def indexes_ok_def hash_ok_def kinds_ok_def queries_ok_def ifaces_ok_def
      in_table_def endpoints_ok_def refs_ok_def iface_refs_def pending_ok_def filter_replicate)

lemma node_run_ok: "node_ok n \<Longrightarrow> legal_run ops n \<Longrightarrow> \<exists>n'. node_run ops n = Some n' \<and> node_ok n'"
proof (induction ops arbitrary: n)
  case (Cons op ops)
  then obtain n1 where "node_exec op n = Some n1" "node_ok n1" using node_exec_ok [of n op] by auto
  with Cons show ?case by auto
qed simp

lemma lookups_agree:
  assumes "peers_ok n"
  shows "omx_peer_lookup_by_addr a n = Inr (i, h) \<longleftrightarrow> omx_peer_lookup_by_index i n = Inr (a, h)"
proof -
  have ok: "indexes_ok n" "hash_ok n" using assms by (auto simp: peers_ok_def)
  have addr: "omx_peer_lookup_by_addr_locked a n = Some p \<longleftrightarrow> in_table n p \<and> p_board_addr (n_peer n p) = a" for p
    by (rule lookup_Some [OF ok(2)])
  have ix: "peer_at (unat i) n = Some p \<longleftrightarrow> in_table n p \<and> p_index (n_peer n p) = i" for p
  proof
    assume p: "peer_at (unat i) n = Some p"
    then have p: "unat i < omx_peer_max n" "omx_peer_array n ! unat i = Some p" by (auto simp: peer_at_def split: if_splits)
    then have "p_index (n_peer n p) = of_nat (unat i)" using ok(1) by (simp add: indexes_ok_def)
    moreover have "in_table n p" using p nth_mem [OF p(1)] by (simp add: in_table_def)
    ultimately show "in_table n p \<and> p_index (n_peer n p) = i" by simp
  next
    assume "in_table n p \<and> p_index (n_peer n p) = i"
    then show "peer_at (unat i) n = Some p" using in_table_index(1,2) [OF ok(1), of p] by (simp add: peer_at_def linorder_not_le)
  qed
  let ?name = "\<lambda>p. case p_hostname (n_peer n p) of None \<Rightarrow> [] | Some h \<Rightarrow> h"
  have "omx_peer_lookup_by_addr a n = Inr (i, h) \<longleftrightarrow> (\<exists>p. omx_peer_lookup_by_addr_locked a n = Some p \<and> p_index (n_peer n p) = i \<and> ?name p = h)"
    by (cases "omx_peer_lookup_by_addr_locked a n") (simp_all add: omx_peer_lookup_by_addr_def)
  also have "\<dots> \<longleftrightarrow> (\<exists>p. peer_at (unat i) n = Some p \<and> p_board_addr (n_peer n p) = a \<and> ?name p = h)"
    unfolding addr ix by blast
  also have "\<dots> \<longleftrightarrow> omx_peer_lookup_by_index i n = Inr (a, h)"
    by (cases "peer_at (unat i) n") (simp_all add: omx_peer_lookup_by_index_def)
  finally show ?thesis .
qed

definition node_zero :: omx_node where
  "node_zero = \<lparr>n_peer = (\<lambda>_. \<lparr>p_board_addr = 0, p_hostname = None, p_index = 0, p_local_iface = None\<rparr>),
     n_iface = (\<lambda>_. \<lparr>if_index = 0, if_eth_ifp = 0, if_dev_addr = [], if_reverse_peer_indexes = [], if_status = OMX_IFACE_STATUS_OK,
       if_refcount = 0, if_endpoint_nr = 0, if_endpoints = []\<rparr>),
     n_endpoint = (\<lambda>_. \<lparr>de_board_index = 0, de_endpoint_index = 0, de_session_id = 0, de_status = OMX_ENDPOINT_STATUS_FREE, de_refcount = 0,
       de_freed = True, de_iface = None, de_queues = \<lparr>userdesc_status = 0, waiters = [], d_exp_eventq = [], nextfree_exp_eventq_index = 0,
         nextreleased_exp_eventq_index = 0, d_unexp_eventq = [], nextfree_unexp_eventq_index = 0, nextreserved_unexp_eventq_index = 0,
         nextreleased_unexp_eventq_index = 0, next_recvq_index = 0\<rparr>, de_sendq = (\<lambda>_. 0), de_recvq = (\<lambda>_. 0)\<rparr>),
     omx_ifaces = [], omx_iface_nr = 0, omx_endpoint_max = 0, omx_peer_array = [], omx_peer_addr_hash_array = (\<lambda>_. []), omx_peer_next_nr = 0,
     omx_peer_table_full = False, peer_table_status = 0, omx_host_query_peer_list = [], omx_host_query_timer = False,
     omx_host_query_magic = 0x13052008, omx_host_query_list = [], omx_host_reply_list = [], peers_allocated = 0, peers_freed = [], xmit = []\<rparr>"

text \<open>A kernel with memory, and a machine with one interface on which endpoint 0 is open and that knows a peer.\<close>

definition kernel_ok :: kernel_env where
  "kernel_ok = \<lparr>k_skb = (\<lambda>_. Some (\<lambda>_. 0)), k_kmalloc = (\<lambda>_. Some (\<lambda>_. 0)), k_user = (\<lambda>_. Some 0), k_cmd = True\<rparr>"

definition sample_ops :: "node_op list" where
  "sample_ops = [Attach True 0 7 [2, 0, 0, 0, 0, 1] [104], Dev_open 0, Endpoint_open kernel_ok True 0 0 1 5 (de_queues (n_endpoint node_zero 0)),
     Peer_add kernel_ok True True 0x020000000002 (Some [105])]"

lemma sample_legal: "legal_run sample_ops (node_start 4 2 2 node_zero)"
  by code_simp

lemma sample_result:
  "case node_run sample_ops (node_start 4 2 2 node_zero) of None \<Rightarrow> False
   | Some n \<Rightarrow> omx_peer_lookup_by_addr 0x020000000002 n = Inr (1, [105]) \<and> omx_peer_next_nr n < omx_peer_max n \<and>
       node_legal (Detach 0 True) n \<and> 1 < omx_endpoint_max n \<and> if_endpoints (n_iface n 0) ! 1 = Some 0"
  by code_simp

lemma sample_runs:
  obtains n where "node_run sample_ops (node_start 4 2 2 node_zero) = Some n" "omx_peer_lookup_by_addr 0x020000000002 n = Inr (1, [105])"
    "omx_peer_next_nr n < omx_peer_max n" "node_legal (Detach 0 True) n" "1 < omx_endpoint_max n" "if_endpoints (n_iface n 0) ! 1 = Some 0"
  using sample_result by (auto split: option.splits simp del: node_legal.simps)

subsection \<open>Properties\<close>

text \<open>C5: From the loading of the driver on, any sequence of additions to the peer table, clearings, host queries and
  replies, attached and detached interfaces, opened and closed endpoints runs without hitting a \<^verbatim>\<open>BUG_ON\<close>, an index out
  of range or freed memory. The peer table stays consistent: every peer is in the array under its index and in the list
  of its address, once, and an address is there once; exactly the peers without a name are queried for. Each interface
  has a reference for every endpoint that is open on it, one for the table and one of its own.\<close>

theorem driver_invariant:
  assumes "peer_max \<le> 65536" "legal_run ops (node_start peer_max iface_max endpoint_max n)"
  shows "\<exists>n'. node_run ops (node_start peer_max iface_max endpoint_max n) = Some n' \<and> node_ok n'"
  by (rule node_run_ok [OF node_start_ok [OF assms(1)] assms(2)])

theorem driver_invariant_witness:
  "(4 :: nat) \<le> 65536 \<and> legal_run sample_ops (node_start 4 2 2 node_zero) \<and>
   (\<exists>n'. node_run sample_ops (node_start 4 2 2 node_zero) = Some n' \<and> node_ok n')"
proof -
  note l = sample_legal
  show ?thesis using l driver_invariant [OF _ l] by simp
qed

text \<open>C15: In every reachable state of the driver the two lookups of the peer table are inverse to each other: the index
  found for an address leads back to the address and the name, and the other way around.\<close>

theorem peer_lookup_roundtrip:
  assumes "peer_max \<le> 65536" "legal_run ops (node_start peer_max iface_max endpoint_max n)"
    "node_run ops (node_start peer_max iface_max endpoint_max n) = Some n'"
  shows "omx_peer_lookup_by_addr a n' = Inr (i, h) \<longleftrightarrow> omx_peer_lookup_by_index i n' = Inr (a, h)"
proof (rule lookups_agree)
  show "peers_ok n'" using node_run_ok [OF node_start_ok [OF assms(1)] assms(2)] assms(3) by (simp add: node_ok_def)
qed

theorem peer_lookup_roundtrip_witness:
  "\<exists>n'. node_run sample_ops (node_start 4 2 2 node_zero) = Some n' \<and>
     omx_peer_lookup_by_addr 0x020000000002 n' = Inr (1, [105]) \<and> omx_peer_lookup_by_index 1 n' = Inr (0x020000000002, [105])"
proof -
  note l = sample_legal
  obtain n' where n': "node_run sample_ops (node_start 4 2 2 node_zero) = Some n'" "omx_peer_lookup_by_addr 0x020000000002 n' = Inr (1, [105])"
    using sample_runs by blast
  then show ?thesis using peer_lookup_roundtrip [OF _ l n'(1)] by auto
qed

text \<open>C16: A peer that was added can be looked up, and the peers that were there keep their indexes. Adding fails only
  without memory, or when the table is full and the address is not in it.\<close>

theorem peer_add_keeps_indexes:
  assumes "peer_max \<le> 65536" "legal_run ops (node_start peer_max iface_max endpoint_max n)"
    "node_run ops (node_start peer_max iface_max endpoint_max n) = Some n1"
  shows "\<exists>err n2. omx_peer_add env strdup_ok kmalloc_ok a h n1 = Some (err, n2) \<and>
    (err = None \<longrightarrow> (\<exists>i h'. omx_peer_lookup_by_addr a n2 = Inr (i, h') \<and> omx_peer_lookup_by_index i n2 = Inr (a, h'))) \<and>
    (\<forall>b j g. omx_peer_lookup_by_addr b n1 = Inr (j, g) \<longrightarrow> (\<exists>g'. omx_peer_lookup_by_addr b n2 = Inr (j, g'))) \<and>
    (strdup_ok \<and> kmalloc_ok \<and> omx_peer_next_nr n1 < omx_peer_max n1 \<longrightarrow> err = None)"
proof -
  have ok: "peers_ok n1" using node_run_ok [OF node_start_ok [OF assms(1)] assms(2)] assms(3) by (simp add: node_ok_def)
  have look: "(\<exists>h. omx_peer_lookup_by_addr b m = Inr (j, h)) \<longleftrightarrow> (\<exists>q. in_table m q \<and> p_board_addr (n_peer m q) = b \<and> p_index (n_peer m q) = j)"
    if "peers_ok m" for b j m
  proof -
    have "(\<exists>h. omx_peer_lookup_by_addr b m = Inr (j, h)) \<longleftrightarrow> (\<exists>q. omx_peer_lookup_by_addr_locked b m = Some q \<and> p_index (n_peer m q) = j)"
      by (cases "omx_peer_lookup_by_addr_locked b m") (auto simp: omx_peer_lookup_by_addr_def)
    then show ?thesis using lookup_Some [of m b] that by (simp add: peers_ok_def)
  qed
  obtain err n2 where n2: "omx_peer_add env strdup_ok kmalloc_ok a h n1 = Some (err, n2)" "peers_ok n2"
      "\<forall>q. in_table n1 q \<longrightarrow> in_table n2 q \<and> p_board_addr (n_peer n2 q) = p_board_addr (n_peer n1 q) \<and> p_index (n_peer n2 q) = p_index (n_peer n1 q)"
      "err = None \<longrightarrow> (\<exists>q. in_table n2 q \<and> p_board_addr (n_peer n2 q) = a)"
      "strdup_ok \<and> kmalloc_ok \<and> omx_peer_next_nr n1 < omx_peer_max n1 \<longrightarrow> err = None"
    using peer_add_ok [OF ok] by blast
  have "\<exists>i h'. omx_peer_lookup_by_addr a n2 = Inr (i, h') \<and> omx_peer_lookup_by_index i n2 = Inr (a, h')" if "err = None"
    using that n2(4) look [OF n2(2), of a] lookups_agree [OF n2(2), of a] by blast
  moreover have "\<exists>g'. omx_peer_lookup_by_addr b n2 = Inr (j, g')" if "omx_peer_lookup_by_addr b n1 = Inr (j, g)" for b j g
    using that n2(3) look [OF ok, of b j] look [OF n2(2), of b j] by metis
  ultimately show ?thesis using n2(1,5) by blast
qed

theorem peer_add_keeps_indexes_witness:
  "\<exists>n1 n2 i h'. node_run sample_ops (node_start 4 2 2 node_zero) = Some n1 \<and> omx_peer_add kernel_ok True True 0x020000000003 None n1 = Some (None, n2) \<and>
     omx_peer_lookup_by_addr 0x020000000003 n2 = Inr (i, h') \<and> omx_peer_lookup_by_index i n2 = Inr (0x020000000003, h')"
proof -
  note l = sample_legal
  obtain n1 where n1: "node_run sample_ops (node_start 4 2 2 node_zero) = Some n1" "omx_peer_next_nr n1 < omx_peer_max n1"
    using sample_runs by blast
  from peer_add_keeps_indexes [OF _ l n1(1), of kernel_ok True True "0x020000000003" None] n1 show ?thesis by auto
qed

text \<open>C38: An interface that goes away by force, as when its device is unregistered, closes the endpoints that processes
  have open on it and frees them with their last reference. The file of the process still points to the freed
  endpoint: when the process closes it, the driver uses memory that has been freed.\<close>

theorem forced_detach_use_after_free:
  assumes "peer_max \<le> 65536" "legal_run ops (node_start peer_max iface_max endpoint_max n)"
    "node_run ops (node_start peer_max iface_max endpoint_max n) = Some n1"
    "node_legal (Detach k True) n1" "i < omx_endpoint_max n1" "if_endpoints (n_iface n1 k) ! i = Some e"
  shows "\<exists>n2. omx_iface_detach k True n1 = Some (None, n2) \<and> omx_miscdev_release e n2 = None"
proof -
  have ok: "node_ok n1" using node_run_ok [OF node_start_ok [OF assms(1)] assms(2)] assms(3) by simp
  have "Some k \<in> set (omx_ifaces n1)" "\<forall>(j, skb) \<in> set (omx_host_query_list n1) \<union> set (omx_host_reply_list n1). j \<noteq> k"
    using assms(4) by force+
  then obtain n2 where n2: "omx_iface_detach k True n1 = Some (None, n2)" "de_freed (n_endpoint n2 e)"
    using iface_detach_ok [OF ok, of k True] assms(5,6) by blast
  then show ?thesis by (simp add: omx_miscdev_release_def omx_endpoint_close_def live_endpoint_def)
qed

theorem forced_detach_use_after_free_witness:
  "\<exists>n1 n2. node_run sample_ops (node_start 4 2 2 node_zero) = Some n1 \<and> omx_iface_detach 0 True n1 = Some (None, n2) \<and> omx_miscdev_release 0 n2 = None"
proof -
  note l = sample_legal
  obtain n1 where n1: "node_run sample_ops (node_start 4 2 2 node_zero) = Some n1" "node_legal (Detach 0 True) n1"
      "1 < omx_endpoint_max n1" "if_endpoints (n_iface n1 0) ! 1 = Some 0"
    using sample_runs by blast
  then show ?thesis using forced_detach_use_after_free [OF _ l n1] by auto
qed

end
