(* ===== verification/Driver_Shared.thy ===== *)
theory Driver_Shared
  imports Driver_Iface Limits
begin

text \<open>
  Communication between the endpoints of one machine (\<^verbatim>\<open>driver/linux/omx_shared.c\<close>): the commands write the events
  and the data directly into the queues of the destination endpoint. The parameters of the module have their
  defaults: no DMA engine, regions pinned when they are created. An operation takes and drops its reference on the
  destination within one step, so the count does not show. Results are \<open>None\<close> for a kernel bug (\<^verbatim>\<open>BUG_ON\<close>, an access
  outside of an array), or the error, if any, with the new state. Members of an event that the code leaves
  uninitialised and nobody reads are 0, and what a failed \<^verbatim>\<open>copy_from_user\<close> leaves behind in a slot is not described.
\<close>

subsection \<open>Queues of an endpoint\<close>

definition notify_unexp :: "nat \<Rightarrow> omx_evt \<Rightarrow> omx_node \<Rightarrow> omx_errno option \<times> omx_node" where
  "notify_unexp e evt n =
    (let (err, q) = omx_notify_unexp_event evt (de_queues (n_endpoint n e))
     in (err, upd_endpoint e (\<lambda>ep. ep\<lparr>de_queues := q\<rparr>) n))"

definition notify_exp :: "nat \<Rightarrow> omx_evt \<Rightarrow> omx_node \<Rightarrow> omx_errno option \<times> omx_node" where
  "notify_exp e evt n =
    (let (err, q) = omx_notify_exp_event evt (de_queues (n_endpoint n e))
     in (err, upd_endpoint e (\<lambda>ep. ep\<lparr>de_queues := q\<rparr>) n))"

definition prepare_unexp :: "nat \<Rightarrow> omx_node \<Rightarrow> (omx_errno + u64) \<times> omx_node" where
  "prepare_unexp e n =
    (let (r, q) = omx_prepare_notify_unexp_event_with_recvq (de_queues (n_endpoint n e))
     in (r, upd_endpoint e (\<lambda>ep. ep\<lparr>de_queues := q\<rparr>) n))"

definition prepare_unexps :: "nat \<Rightarrow> nat \<Rightarrow> omx_node \<Rightarrow> (omx_errno + u64 list) \<times> omx_node" where
  "prepare_unexps e nr n =
    (let (r, q) = omx_prepare_notify_unexp_events_with_recvq nr (de_queues (n_endpoint n e))
     in (r, upd_endpoint e (\<lambda>ep. ep\<lparr>de_queues := q\<rparr>) n))"

definition commit_unexp :: "nat \<Rightarrow> omx_evt \<Rightarrow> omx_node \<Rightarrow> omx_node option" where
  "commit_unexp e evt n = do {
     q \<leftarrow> omx_commit_notify_unexp_event_with_recvq evt (de_queues (n_endpoint n e));
     Some (upd_endpoint e (\<lambda>ep. ep\<lparr>de_queues := q\<rparr>) n)
   }"

definition cancel_unexp :: "nat \<Rightarrow> omx_node \<Rightarrow> omx_node option" where
  "cancel_unexp e n = do {
     q \<leftarrow> omx_cancel_notify_unexp_event_with_recvq (de_queues (n_endpoint n e));
     Some (upd_endpoint e (\<lambda>ep. ep\<lparr>de_queues := q\<rparr>) n)
   }"

definition OMX_SENDQ_SIZE :: nat where
  "OMX_SENDQ_SIZE = 1024 * OMX_SENDQ_ENTRY_SIZE"

definition OMX_RECVQ_SIZE :: nat where
  "OMX_RECVQ_SIZE = 1024 * OMX_RECVQ_ENTRY_SIZE"

text \<open>Reading the send queue and writing the receive queue, whose sizes these are.\<close>

definition sendq_bytes :: "nat \<Rightarrow> nat \<Rightarrow> d_endpoint \<Rightarrow> u8 list option" where
  "sendq_bytes off len ep = (if off + len > OMX_SENDQ_SIZE then None else Some (skb_copy_bits off len (de_sendq ep)))"

definition recvq_store :: "nat \<Rightarrow> nat \<Rightarrow> u8 list \<Rightarrow> omx_node \<Rightarrow> omx_node option" where
  "recvq_store e off bs n =
    (if off + length bs > OMX_RECVQ_SIZE then None
     else Some (upd_endpoint e (\<lambda>ep. ep\<lparr>de_recvq := put_data off bs (de_recvq ep)\<rparr>) n))"

definition copy_from_user :: "kernel_env \<Rightarrow> u64 \<Rightarrow> nat \<Rightarrow> u8 list option" where
  "copy_from_user env addr len =
    (let bs = map (\<lambda>i. k_user env (addr + of_nat i)) [0..<len] in if None \<in> set bs then None else Some (map the bs))"

text \<open>\<^verbatim>\<open>endpoint->iface->peer.index\<close>\<close>

definition own_peer_index :: "nat \<Rightarrow> omx_node \<Rightarrow> u32 option" where
  "own_peer_index e n = map_option (\<lambda>k. p_index (n_peer n (Iface_peer k))) (de_iface (n_endpoint n e))"

subsection \<open>The destination endpoint\<close>

definition omx_shared_get_endpoint_or_nack_type :: "u16 \<Rightarrow> u8 \<Rightarrow> u32 \<Rightarrow> omx_node \<Rightarrow> omx_nack_type + nat" where
  "omx_shared_get_endpoint_or_nack_type dst_peer_index dst_endpoint_index session_id n =
    (case omx_local_peer_acquire_endpoint dst_peer_index dst_endpoint_index n of
       None \<Rightarrow> Inl OMX_NACK_TYPE_NONE
     | Some (Inl err) \<Rightarrow> Inl (endpoint_error_to_nack_type err)
     | Some (Inr e) \<Rightarrow> if session_id \<noteq> de_session_id (n_endpoint n e) then Inl OMX_NACK_TYPE_BAD_SESSION else Inr e)"

definition omx_shared_notify_nack :: "nat \<Rightarrow> u16 \<Rightarrow> u8 \<Rightarrow> u16 \<Rightarrow> omx_nack_type \<Rightarrow> omx_node \<Rightarrow> omx_node" where
  "omx_shared_notify_nack src dst_peer_index dst_endpoint_index seqnum nack_type n =
    snd (notify_unexp src (OMX_EVT_RECV_NACK_LIB \<lparr>nack_peer_index = dst_peer_index, nack_src_endpoint = dst_endpoint_index,
      nack_nack_type = nack_event_type (nack_code nack_type), nack_seqnum = seqnum\<rparr>) n)"

definition omx_shared_get_endpoint_or_notify_nack :: "nat \<Rightarrow> u16 \<Rightarrow> u8 \<Rightarrow> u32 \<Rightarrow> u16 \<Rightarrow> omx_node \<Rightarrow> nat option \<times> omx_node" where
  "omx_shared_get_endpoint_or_notify_nack src dst_peer_index dst_endpoint_index session_id seqnum n =
    (case omx_shared_get_endpoint_or_nack_type dst_peer_index dst_endpoint_index session_id n of
       Inr e \<Rightarrow> (Some e, n)
     | Inl nack_type \<Rightarrow>
         if nack_type = OMX_NACK_TYPE_NONE then (None, n)
         else (None, omx_shared_notify_nack src dst_peer_index dst_endpoint_index seqnum nack_type n))"

subsection \<open>Connecting\<close>

text \<open>The result 1, for a peer that is not local, is \<open>Inr 1\<close>, and success \<open>Inr 0\<close>.\<close>

definition omx_shared_try_send_connect_request ::
  "nat \<Rightarrow> omx_cmd_send_connect_request \<Rightarrow> omx_node \<Rightarrow> ((omx_errno + nat) \<times> omx_node) option" where
  "omx_shared_try_send_connect_request src hdr n =
    (case omx_local_peer_acquire_endpoint (conn_peer_index hdr) (conn_dest_endpoint hdr) n of
       None \<Rightarrow> Some (Inr 1, n)
     | Some (Inl err) \<Rightarrow>
         Some (Inr 0, omx_shared_notify_nack src (conn_peer_index hdr) (conn_dest_endpoint hdr) (conn_seqnum hdr)
           (endpoint_error_to_nack_type err) n)
     | Some (Inr dst) \<Rightarrow> do {
         peer_index \<leftarrow> own_peer_index src n;
         let event = OMX_EVT_RECV_CONNECT_REQUEST \<lparr>creq_peer_index = ucast peer_index,
           creq_src_endpoint = de_endpoint_index (n_endpoint n src), creq_shared = True, creq_seqnum = conn_seqnum hdr,
           creq_src_session_id = conn_src_session_id hdr, creq_app_key = conn_app_key hdr,
           creq_target_recv_seqnum_start = conn_target_recv_seqnum_start hdr,
           creq_connect_seqnum = conn_connect_seqnum hdr\<rparr>;
         Some (Inr 0, snd (notify_unexp dst event n))
       })"

definition omx_shared_try_send_connect_reply ::
  "nat \<Rightarrow> omx_cmd_send_connect_reply \<Rightarrow> omx_node \<Rightarrow> ((omx_errno + nat) \<times> omx_node) option" where
  "omx_shared_try_send_connect_reply src hdr n =
    (case omx_local_peer_acquire_endpoint (reply_peer_index hdr) (reply_dest_endpoint hdr) n of
       None \<Rightarrow> Some (Inr 1, n)
     | Some (Inl err) \<Rightarrow>
         Some (Inr 0, omx_shared_notify_nack src (reply_peer_index hdr) (reply_dest_endpoint hdr) (reply_seqnum hdr)
           (endpoint_error_to_nack_type err) n)
     | Some (Inr dst) \<Rightarrow> do {
         peer_index \<leftarrow> own_peer_index src n;
         let event = OMX_EVT_RECV_CONNECT_REPLY \<lparr>crep_peer_index = ucast peer_index,
           crep_src_endpoint = de_endpoint_index (n_endpoint n src), crep_shared = True, crep_seqnum = reply_seqnum hdr,
           crep_src_session_id = reply_src_session_id hdr, crep_target_session_id = reply_target_session_id hdr,
           crep_target_recv_seqnum_start = reply_target_recv_seqnum_start hdr,
           crep_connect_seqnum = reply_connect_seqnum hdr, crep_connect_status_code = reply_connect_status_code hdr\<rparr>;
         Some (Inr 0, snd (notify_unexp dst event n))
       })"

subsection \<open>Messages\<close>

text \<open>The command holds the data of a tiny message; \<open>data_ok\<close> says that it can be read.\<close>

definition omx_shared_send_tiny :: "bool \<Rightarrow> nat \<Rightarrow> omx_cmd_send_tiny \<Rightarrow> omx_node \<Rightarrow> (omx_errno option \<times> omx_node) option" where
  "omx_shared_send_tiny data_ok src hdr n =
    (if ucast (tiny_length hdr) > OMX_TINY_MSG_LENGTH_MAX then None
     else case omx_shared_get_endpoint_or_notify_nack src (tiny_peer_index hdr) (tiny_dest_endpoint hdr)
         (tiny_session_id hdr) (tiny_seqnum hdr) n of
       (None, n) \<Rightarrow> Some (None, n)
     | (Some dst, n) \<Rightarrow> do {
         peer_index \<leftarrow> own_peer_index src n;
         (if \<not> data_ok then Some (Some EFAULT, n)
          else
            let event = OMX_EVT_RECV_TINY \<lparr>msg_peer_index = ucast peer_index,
                  msg_src_endpoint = de_endpoint_index (n_endpoint n src), msg_seqnum = tiny_seqnum hdr,
                  msg_piggyack = tiny_piggyack hdr, msg_match_info = tiny_match_info hdr,
                  msg_specific = Msg_tiny (tiny_checksum hdr) (tiny_length hdr) (take (unat (tiny_length hdr)) (tiny_data hdr))\<rparr>
            in Some (None, snd (notify_unexp dst event n)))
       })"

definition omx_shared_send_small ::
  "kernel_env \<Rightarrow> nat \<Rightarrow> omx_cmd_send_small \<Rightarrow> omx_node \<Rightarrow> (omx_errno option \<times> omx_node) option" where
  "omx_shared_send_small env src hdr n =
    (case omx_shared_get_endpoint_or_notify_nack src (small_peer_index hdr) (small_dest_endpoint hdr)
         (small_session_id hdr) (small_seqnum hdr) n of
       (None, n) \<Rightarrow> Some (None, n)
     | (Some dst, n) \<Rightarrow>
         (case prepare_unexp dst n of
            (Inl _, n) \<Rightarrow> Some (None, n)
          | (Inr roff, n) \<Rightarrow>
              (case copy_from_user env (small_vaddr hdr) (unat (small_length hdr)) of
                 None \<Rightarrow> do {
                   n \<leftarrow> cancel_unexp dst n;
                   Some (Some EFAULT, n)
                 }
               | Some bs \<Rightarrow> do {
                   n \<leftarrow> recvq_store dst (unat roff) bs n;
                   peer_index \<leftarrow> own_peer_index src n;
                   let event = OMX_EVT_RECV_SMALL \<lparr>msg_peer_index = ucast peer_index,
                     msg_src_endpoint = de_endpoint_index (n_endpoint n src), msg_seqnum = small_seqnum hdr,
                     msg_piggyack = small_piggyack hdr, msg_match_info = small_match_info hdr,
                     msg_specific = Msg_small (ucast roff) (small_length hdr) (small_checksum hdr)\<rparr>;
                   n \<leftarrow> commit_unexp dst event n;
                   Some (None, n)
                 })))"

text \<open>
  The field \<^verbatim>\<open>frag_pipeline\<close> is only filled in and used when the wire format of MX is configured; otherwise the library
  leaves it undefined in the command, and the event has 0 here.
\<close>

definition omx_shared_send_mediumsq_frag ::
  "nat \<Rightarrow> omx_cmd_send_mediumsq_frag \<Rightarrow> omx_node \<Rightarrow> (omx_errno option \<times> omx_node) option" where
  "omx_shared_send_mediumsq_frag src hdr n =
    (case omx_shared_get_endpoint_or_notify_nack src (msq_peer_index hdr) (msq_dest_endpoint hdr)
         (msq_session_id hdr) (msq_seqnum hdr) n of
       (None, n) \<Rightarrow> Some (None, n)
     | (Some dst, n) \<Rightarrow>
         (case prepare_unexp dst n of
            (Inl _, n) \<Rightarrow> Some (None, snd (notify_exp src (OMX_EVT_SEND_MEDIUMSQ_FRAG_DONE (msq_sendq_offset hdr)) n))
          | (Inr roff, n) \<Rightarrow> do {
              bs \<leftarrow> sendq_bytes (unat (msq_sendq_offset hdr)) (unat (msq_frag_length hdr)) (n_endpoint n src);
              n \<leftarrow> recvq_store dst (unat roff) bs n;
              peer_index \<leftarrow> own_peer_index src n;
              let event = OMX_EVT_RECV_MEDIUM_FRAG \<lparr>msg_peer_index = ucast peer_index,
                msg_src_endpoint = de_endpoint_index (n_endpoint n src), msg_seqnum = msq_seqnum hdr,
                msg_piggyack = msq_piggyack hdr, msg_match_info = msq_match_info hdr,
                msg_specific = Msg_medium_frag (ucast roff) (msq_msg_length hdr) (msq_frag_length hdr)
                  (msq_frag_seqnum hdr) 0 (msq_checksum hdr)\<rparr>;
              n \<leftarrow> commit_unexp dst event n;
              Some (None, snd (notify_exp src (OMX_EVT_SEND_MEDIUMSQ_FRAG_DONE (msq_sendq_offset hdr)) n))
            }))"

subsection \<open>Medium messages from the memory of the application\<close>

text \<open>
  The position in the segments: \<^verbatim>\<open>cur_useg\<close> (its index), \<^verbatim>\<open>cur_useg_remaining\<close> and \<^verbatim>\<open>cur_udata\<close>. At the end of the last
  segment the code loads the members of \<^verbatim>\<open>usegs[nseg]\<close>; copying from there is an access outside of the array.
\<close>

type_synonym useg_pos = "nat \<times> u32 \<times> u64"

definition useg_start :: "nat \<Rightarrow> omx_cmd_user_segment list \<Rightarrow> useg_pos" where
  "useg_start i usegs =
    (i, if i < length usegs then (ucast (seg_len (usegs ! i)), seg_vaddr (usegs ! i)) else (0, 0))"

text \<open>The loop \<^verbatim>\<open>while (frag_remaining)\<close>: the bytes of the fragment, or an error.\<close>

function copy_frag ::
  "kernel_env \<Rightarrow> omx_cmd_user_segment list \<Rightarrow> u16 \<Rightarrow> useg_pos \<Rightarrow> (omx_errno + u8 list \<times> useg_pos) option" where
  "copy_frag env usegs frag_remaining (i, useg_remaining, udata) =
    (if frag_remaining = 0 then Some (Inr ([], (i, useg_remaining, udata)))
     else if length usegs \<le> i then None
     else
       let chunk = (if ucast frag_remaining > useg_remaining then ucast useg_remaining else frag_remaining)
       in case copy_from_user env udata (unat chunk) of
         None \<Rightarrow> Some (Inl EFAULT)
       | Some bs \<Rightarrow> do {
           r \<leftarrow> (if ucast chunk = useg_remaining
                then copy_frag env usegs (frag_remaining - chunk) (useg_start (i + 1) usegs)
                else copy_frag env usegs (frag_remaining - chunk) (i, useg_remaining - ucast chunk, udata + ucast chunk));
           Some (case r of Inl err \<Rightarrow> Inl err | Inr (bs', pos) \<Rightarrow> Inr (bs @ bs', pos))
         })"
  by pat_completeness auto

lemma chunk_cases:
  fixes rem :: u16 and r :: u32
  assumes "ucast (if ucast rem > r then ucast r else rem) \<noteq> r"
  shows "\<not> ucast rem > r"
proof
  assume r: "ucast rem > r"
  then have "unat r < 2 ^ 16" using unsigned_less [of rem, where ?'a = nat] by (simp add: word_less_nat_alt unsigned_ucast_eq take_bit_nat_def)
  then have "ucast (ucast r :: u16) = r" by (intro word_unat_eq_iff [THEN iffD2]) (simp add: unsigned_ucast_eq unsigned_take_bit_eq take_bit_nat_def)
  with r assms show False by simp
qed

termination copy_frag
proof (relation "measures [\<lambda>(_, usegs, _, pos). length usegs - fst pos, \<lambda>(_, _, rem, _). unat rem]")
qed (auto simp: useg_start_def word_neq_0_conv unat_gt_0 dest: chunk_cases)

declare copy_frag.simps [simp del]

text \<open>The sum of the lengths, in the 32-bit variable of the code.\<close>

definition usegs_length :: "omx_cmd_user_segment list \<Rightarrow> u32" where
  "usegs_length usegs = foldl (\<lambda>remaining s. ucast (ucast remaining + seg_len s)) 0 usegs"

definition recvq_frag_length :: "u32 \<Rightarrow> u16" where
  "recvq_frag_length remaining =
    (if unat remaining > OMX_RECVQ_ENTRY_SIZE then of_nat OMX_RECVQ_ENTRY_SIZE else ucast remaining)"

text \<open>The first loop over the fragments copies the data into the slots, the second one stores their events.\<close>

fun shared_copy_loop ::
  "kernel_env \<Rightarrow> omx_cmd_user_segment list \<Rightarrow> nat \<Rightarrow> u64 list \<Rightarrow> u32 \<Rightarrow> useg_pos \<Rightarrow> omx_node \<Rightarrow>
    (omx_errno option \<times> omx_node) option" where
  "shared_copy_loop env usegs dst [] remaining pos n = Some (None, n)"
| "shared_copy_loop env usegs dst (roff # roffs) remaining pos n = do {
     let frag_length = recvq_frag_length remaining;
     r \<leftarrow> copy_frag env usegs frag_length pos;
     (case r of
        Inl err \<Rightarrow> Some (Some err, n)
      | Inr (bs, pos) \<Rightarrow> do {
          n \<leftarrow> recvq_store dst (unat roff) bs n;
          shared_copy_loop env usegs dst roffs (remaining - ucast frag_length) pos n
        })
   }"

fun shared_commit_loop :: "nat \<Rightarrow> omx_evt_recv_msg \<Rightarrow> u16 \<Rightarrow> nat \<Rightarrow> u64 list \<Rightarrow> u32 \<Rightarrow> u32 \<Rightarrow> omx_node \<Rightarrow> omx_node option" where
  "shared_commit_loop dst event checksum i [] msg_length remaining n = Some n"
| "shared_commit_loop dst event checksum i (roff # roffs) msg_length remaining n = do {
     let frag_length = recvq_frag_length remaining;
     n \<leftarrow> commit_unexp dst (OMX_EVT_RECV_MEDIUM_FRAG (event\<lparr>msg_specific :=
       Msg_medium_frag (ucast roff) msg_length frag_length (of_nat i) (of_nat OMX_RECVQ_ENTRY_SHIFT) checksum\<rparr>)) n;
     shared_commit_loop dst event checksum (i + 1) roffs msg_length (remaining - ucast frag_length) n
   }"

fun shared_cancel_loop :: "nat \<Rightarrow> nat \<Rightarrow> omx_node \<Rightarrow> omx_node option" where
  "shared_cancel_loop dst 0 n = Some n"
| "shared_cancel_loop dst (Suc i) n = do {
     n \<leftarrow> cancel_unexp dst n;
     shared_cancel_loop dst i n
   }"

text \<open>
  \<open>usegs\<close> are the \<^verbatim>\<open>nr_segments\<close> segments in the memory of the application, if they can be read. The array of the offsets has
  \<^verbatim>\<open>msg_length >> OMX_RECVQ_ENTRY_SHIFT\<close> entries, and \<^verbatim>\<open>usegs[0]\<close> is read even if there are no segments.
\<close>

definition omx_shared_send_mediumva ::
  "kernel_env \<Rightarrow> omx_cmd_user_segment list option \<Rightarrow> nat \<Rightarrow> omx_cmd_send_mediumva \<Rightarrow> omx_node \<Rightarrow>
    (omx_errno option \<times> omx_node) option" where
  "omx_shared_send_mediumva env usegs src hdr n =
    (let msg_length = mva_length hdr;
         recvq_offset_nr = unat msg_length div OMX_RECVQ_ENTRY_SIZE;
         frags_nr = (unat msg_length + OMX_RECVQ_ENTRY_SIZE - 1) div OMX_RECVQ_ENTRY_SIZE
     in if k_kmalloc env 0 = None then Some (Some ENOMEM, n)
     else case omx_shared_get_endpoint_or_notify_nack src (mva_peer_index hdr) (mva_dest_endpoint hdr)
         (mva_session_id hdr) (mva_seqnum hdr) n of
       (None, n) \<Rightarrow> Some (None, n)
     | (Some dst, n) \<Rightarrow>
         if k_kmalloc env 1 = None then Some (Some ENOMEM, n)
         else (case usegs of
            None \<Rightarrow> Some (Some EFAULT, n)
          | Some usegs \<Rightarrow>
              if usegs_length usegs \<noteq> msg_length then Some (Some EINVAL, n)
              else if usegs = [] then None
              else (case prepare_unexps dst frags_nr n of
                 (Inl _, n) \<Rightarrow> Some (None, n)
               | (Inr roffs, n) \<Rightarrow>
                   if recvq_offset_nr < frags_nr then None
                   else do {
                     peer_index \<leftarrow> own_peer_index src n;
                     let event = \<lparr>msg_peer_index = ucast peer_index, msg_src_endpoint = de_endpoint_index (n_endpoint n src),
                       msg_seqnum = mva_seqnum hdr, msg_piggyack = mva_piggyack hdr, msg_match_info = mva_match_info hdr,
                       msg_specific = Msg_notify 0 0 0\<rparr>;
                     (err, n) \<leftarrow> shared_copy_loop env usegs dst roffs msg_length (useg_start 0 usegs) n;
                     (case err of
                        Some err \<Rightarrow> do {
                          n \<leftarrow> shared_cancel_loop dst frags_nr n;
                          Some (Some err, n)
                        }
                      | None \<Rightarrow> do {
                          n \<leftarrow> shared_commit_loop dst event (mva_checksum hdr) 0 roffs msg_length msg_length n;
                          Some (None, n)
                        })
                   })))"

subsection \<open>Rendez-vous, notifies and acks\<close>

definition omx_shared_send_rndv :: "nat \<Rightarrow> omx_cmd_send_rndv \<Rightarrow> omx_node \<Rightarrow> (omx_errno option \<times> omx_node) option" where
  "omx_shared_send_rndv src hdr n =
    (case omx_shared_get_endpoint_or_notify_nack src (rndv_peer_index hdr) (rndv_dest_endpoint hdr)
         (rndv_session_id hdr) (rndv_seqnum hdr) n of
       (None, n) \<Rightarrow> Some (None, n)
     | (Some dst, n) \<Rightarrow> do {
         peer_index \<leftarrow> own_peer_index src n;
         let event = OMX_EVT_RECV_RNDV \<lparr>msg_peer_index = ucast peer_index,
           msg_src_endpoint = de_endpoint_index (n_endpoint n src), msg_seqnum = rndv_seqnum hdr,
           msg_piggyack = rndv_piggyack hdr, msg_match_info = rndv_match_info hdr,
           msg_specific = Msg_rndv (rndv_msg_length hdr) (rndv_pulled_rdma_id hdr) (rndv_pulled_rdma_seqnum hdr) 0
             (rndv_checksum hdr)\<rparr>;
         Some (None, snd (notify_unexp dst event n))
       })"

definition omx_shared_send_notify :: "nat \<Rightarrow> omx_cmd_send_notify \<Rightarrow> omx_node \<Rightarrow> (omx_errno option \<times> omx_node) option" where
  "omx_shared_send_notify src hdr n =
    (case omx_shared_get_endpoint_or_notify_nack src (notify_peer_index hdr) (notify_dest_endpoint hdr)
         (notify_session_id hdr) (notify_seqnum hdr) n of
       (None, n) \<Rightarrow> Some (None, n)
     | (Some dst, n) \<Rightarrow> do {
         peer_index \<leftarrow> own_peer_index src n;
         let event = OMX_EVT_RECV_NOTIFY \<lparr>msg_peer_index = ucast peer_index,
           msg_src_endpoint = de_endpoint_index (n_endpoint n src), msg_seqnum = notify_seqnum hdr,
           msg_piggyack = notify_piggyack hdr, msg_match_info = 0,
           msg_specific = Msg_notify (notify_total_length hdr) (notify_pulled_rdma_id hdr) (notify_pulled_rdma_seqnum hdr)\<rparr>;
         Some (None, snd (notify_unexp dst event n))
       })"

definition omx_shared_send_liback :: "nat \<Rightarrow> omx_cmd_send_liback \<Rightarrow> omx_node \<Rightarrow> (omx_errno option \<times> omx_node) option" where
  "omx_shared_send_liback src hdr n =
    (case omx_shared_get_endpoint_or_nack_type (liback_peer_index hdr) (liback_dest_endpoint hdr) (liback_session_id hdr) n of
       Inl _ \<Rightarrow> Some (None, n)
     | Inr dst \<Rightarrow> do {
         peer_index \<leftarrow> own_peer_index src n;
         let event = OMX_EVT_RECV_LIBACK \<lparr>lb_peer_index = ucast peer_index,
           lb_src_endpoint = de_endpoint_index (n_endpoint n src), lb_acknum = liback_acknum hdr,
           lb_lib_seqnum = liback_lib_seqnum hdr, lb_send_seq = liback_send_seq hdr, lb_resent = liback_resent hdr\<rparr>;
         Some (None, snd (notify_unexp dst event n))
       })"

end
