(* ===== verification/Driver_Send.thy ===== *)
theory Driver_Send
  imports Driver_Shared
begin

text \<open>
  The commands that send packets (\<^verbatim>\<open>driver/linux/omx_send.c\<close>). A command runs with the argument the application
  passed, which \<open>k_cmd\<close> says can be read; a packet that is given to the network is appended to \<open>xmit\<close>. The results
  are those of \<^verbatim>\<open>Driver_Shared\<close>. Only \<^verbatim>\<open>omx_ioctl_bench\<close> is left out.
\<close>

definition OMX_PKT_CONNECT_REQUEST_DATA_LENGTH :: u8 where "OMX_PKT_CONNECT_REQUEST_DATA_LENGTH = 16"
definition OMX_PKT_CONNECT_REPLY_DATA_LENGTH :: u8 where "OMX_PKT_CONNECT_REPLY_DATA_LENGTH = 16"
definition OMX_PKT_RNDV_DATA_LENGTH :: u16 where "OMX_PKT_RNDV_DATA_LENGTH = 8"
definition OMX_PKT_TRUC_LIBACK_DATA_LENGTH :: u8 where "OMX_PKT_TRUC_LIBACK_DATA_LENGTH = 16"
definition OMX_PKT_TRUC_DATA_TYPE_ACK :: u8 where "OMX_PKT_TRUC_DATA_TYPE_ACK = 0x55"

lemmas pkt_length_defs =
  OMX_PKT_CONNECT_REQUEST_DATA_LENGTH_def OMX_PKT_CONNECT_REPLY_DATA_LENGTH_def OMX_PKT_RNDV_DATA_LENGTH_def
  OMX_PKT_TRUC_LIBACK_DATA_LENGTH_def OMX_PKT_TRUC_DATA_TYPE_ACK_def

subsection \<open>Connecting\<close>

definition send_connect_request_packet ::
  "kernel_env \<Rightarrow> nat \<Rightarrow> nat \<Rightarrow> omx_cmd_send_connect_request \<Rightarrow> omx_node \<Rightarrow> (omx_errno option \<times> omx_node) option" where
  "send_connect_request_packet env e k cmd n =
    (case omx_new_skb env 0 (max 48 ETH_ZLEN) of
       None \<Rightarrow> Some (Some ENOMEM, n)
     | Some skb \<Rightarrow>
         (case omx_set_target_peer k (conn_peer_index cmd) n (fill_ethhdr (if_dev_addr (n_iface n k)) (skb_data skb)) of
            None \<Rightarrow> Some (Some EINVAL, n)
          | Some f \<Rightarrow>
              let f = OMX_HTON_8 18 (de_endpoint_index (n_endpoint n e)) f;
                  f = OMX_HTON_8 17 (conn_dest_endpoint cmd) f;
                  f = OMX_HTON_8 16 OMX_PKT_TYPE_CONNECT f;
                  f = OMX_HTON_8 20 OMX_PKT_CONNECT_REQUEST_DATA_LENGTH f;
                  f = OMX_HTON_16 24 (conn_seqnum cmd) f;
                  f = OMX_HTON_16 26 (conn_peer_index cmd) f;
                  f = OMX_HTON_8 42 0 f;
                  f = OMX_HTON_32 32 (conn_src_session_id cmd) f;
                  f = OMX_HTON_32 36 (conn_app_key cmd) f;
                  f = OMX_HTON_16 40 (conn_target_recv_seqnum_start cmd) f;
                  f = OMX_HTON_8 43 (conn_connect_seqnum cmd) f
              in Some (None, dev_queue_xmit k (skb\<lparr>skb_data := f\<rparr>) n)))"

text \<open>A peer of this machine is reached without the network unless this is disabled.\<close>

definition omx_ioctl_send_connect_request ::
  "kernel_env \<Rightarrow> nat \<Rightarrow> omx_cmd_send_connect_request \<Rightarrow> omx_node \<Rightarrow> (omx_errno option \<times> omx_node) option" where
  "omx_ioctl_send_connect_request env e cmd n = do {
     k \<leftarrow> de_iface (n_endpoint n e);
     (if \<not> k_cmd env then Some (Some EFAULT, n)
      else if \<not> conn_shared_disabled cmd then do {
        (ret, n) \<leftarrow> omx_shared_try_send_connect_request e cmd n;
        (case ret of
           Inl err \<Rightarrow> Some (Some err, n)
         | Inr v \<Rightarrow> if v = 0 then Some (None, n) else send_connect_request_packet env e k cmd n)
      }
      else send_connect_request_packet env e k cmd n)
   }"

definition send_connect_reply_packet ::
  "kernel_env \<Rightarrow> nat \<Rightarrow> nat \<Rightarrow> omx_cmd_send_connect_reply \<Rightarrow> omx_node \<Rightarrow> (omx_errno option \<times> omx_node) option" where
  "send_connect_reply_packet env e k cmd n =
    (case omx_new_skb env 0 (max 48 ETH_ZLEN) of
       None \<Rightarrow> Some (Some ENOMEM, n)
     | Some skb \<Rightarrow>
         (case omx_set_target_peer k (reply_peer_index cmd) n (fill_ethhdr (if_dev_addr (n_iface n k)) (skb_data skb)) of
            None \<Rightarrow> Some (Some EINVAL, n)
          | Some f \<Rightarrow>
              let f = OMX_HTON_8 18 (de_endpoint_index (n_endpoint n e)) f;
                  f = OMX_HTON_8 17 (reply_dest_endpoint cmd) f;
                  f = OMX_HTON_8 16 OMX_PKT_TYPE_CONNECT f;
                  f = OMX_HTON_8 20 OMX_PKT_CONNECT_REPLY_DATA_LENGTH f;
                  f = OMX_HTON_16 24 (reply_seqnum cmd) f;
                  f = OMX_HTON_16 26 (reply_peer_index cmd) f;
                  f = OMX_HTON_8 42 1 f;
                  f = OMX_HTON_32 32 (reply_src_session_id cmd) f;
                  f = OMX_HTON_32 36 (reply_target_session_id cmd) f;
                  f = OMX_HTON_16 40 (reply_target_recv_seqnum_start cmd) f;
                  f = OMX_HTON_8 43 (reply_connect_seqnum cmd) f;
                  f = OMX_HTON_8 44 (reply_connect_status_code cmd) f
              in Some (None, dev_queue_xmit k (skb\<lparr>skb_data := f\<rparr>) n)))"

definition omx_ioctl_send_connect_reply ::
  "kernel_env \<Rightarrow> nat \<Rightarrow> omx_cmd_send_connect_reply \<Rightarrow> omx_node \<Rightarrow> (omx_errno option \<times> omx_node) option" where
  "omx_ioctl_send_connect_reply env e cmd n = do {
     k \<leftarrow> de_iface (n_endpoint n e);
     (if \<not> k_cmd env then Some (Some EFAULT, n)
      else if \<not> reply_shared_disabled cmd then do {
        (ret, n) \<leftarrow> omx_shared_try_send_connect_reply e cmd n;
        (case ret of
           Inl err \<Rightarrow> Some (Some err, n)
         | Inr v \<Rightarrow> if v = 0 then Some (None, n) else send_connect_reply_packet env e k cmd n)
      }
      else send_connect_reply_packet env e k cmd n)
   }"

subsection \<open>Tiny and small messages\<close>

definition omx_ioctl_send_tiny ::
  "kernel_env \<Rightarrow> bool \<Rightarrow> nat \<Rightarrow> omx_cmd_send_tiny \<Rightarrow> omx_node \<Rightarrow> (omx_errno option \<times> omx_node) option" where
  "omx_ioctl_send_tiny env data_ok e cmd n = do {
     k \<leftarrow> de_iface (n_endpoint n e);
     (if \<not> k_cmd env then Some (Some EFAULT, n)
      else if ucast (tiny_length cmd) > OMX_TINY_MSG_LENGTH_MAX then Some (Some EINVAL, n)
      else if tiny_shared cmd then omx_shared_send_tiny data_ok e cmd n
      else case omx_new_skb env 0 (max (40 + unat (tiny_length cmd)) ETH_ZLEN) of
        None \<Rightarrow> Some (Some ENOMEM, n)
      | Some skb \<Rightarrow>
          (case omx_set_target_peer k (tiny_peer_index cmd) n (fill_ethhdr (if_dev_addr (n_iface n k)) (skb_data skb)) of
             None \<Rightarrow> Some (Some EINVAL, n)
           | Some f \<Rightarrow>
               let f = OMX_HTON_8 18 (de_endpoint_index (n_endpoint n e)) f;
                   f = OMX_HTON_8 17 (tiny_dest_endpoint cmd) f;
                   f = OMX_HTON_8 16 OMX_PKT_TYPE_TINY f;
                   f = OMX_HTON_16 20 (ucast (tiny_length cmd)) f;
                   f = OMX_HTON_16 24 (tiny_seqnum cmd) f;
                   f = OMX_HTON_16 26 (tiny_piggyack cmd) f;
                   f = OMX_HTON_32 36 (tiny_session_id cmd) f;
                   f = OMX_HTON_16 22 (tiny_checksum cmd) f;
                   f = OMX_HTON_MATCH_INFO (tiny_match_info cmd) f
               in if \<not> data_ok then Some (Some EFAULT, n)
                  else Some (None, dev_queue_xmit k
                    (skb\<lparr>skb_data := put_data 40 (take (unat (tiny_length cmd)) (tiny_data cmd)) f\<rparr>) n)))
   }"

definition omx_ioctl_send_small ::
  "kernel_env \<Rightarrow> nat \<Rightarrow> omx_cmd_send_small \<Rightarrow> omx_node \<Rightarrow> (omx_errno option \<times> omx_node) option" where
  "omx_ioctl_send_small env e cmd n = do {
     k \<leftarrow> de_iface (n_endpoint n e);
     (if \<not> k_cmd env then Some (Some EFAULT, n)
      else if ucast (small_length cmd) > OMX_SMALL_MSG_LENGTH_MAX then Some (Some EINVAL, n)
      else if small_shared cmd then omx_shared_send_small env e cmd n
      else case omx_new_skb env 0 (max (40 + unat (small_length cmd)) ETH_ZLEN) of
        None \<Rightarrow> Some (Some ENOMEM, n)
      | Some skb \<Rightarrow>
          (case omx_set_target_peer k (small_peer_index cmd) n (fill_ethhdr (if_dev_addr (n_iface n k)) (skb_data skb)) of
             None \<Rightarrow> Some (Some EINVAL, n)
           | Some f \<Rightarrow>
               let f = OMX_HTON_8 18 (de_endpoint_index (n_endpoint n e)) f;
                   f = OMX_HTON_8 17 (small_dest_endpoint cmd) f;
                   f = OMX_HTON_8 16 OMX_PKT_TYPE_SMALL f;
                   f = OMX_HTON_16 20 (small_length cmd) f;
                   f = OMX_HTON_16 24 (small_seqnum cmd) f;
                   f = OMX_HTON_16 26 (small_piggyack cmd) f;
                   f = OMX_HTON_32 36 (small_session_id cmd) f;
                   f = OMX_HTON_16 22 (small_checksum cmd) f;
                   f = OMX_HTON_MATCH_INFO (small_match_info cmd) f
               in (case copy_from_user env (small_vaddr cmd) (unat (small_length cmd)) of
                     None \<Rightarrow> Some (Some EFAULT, n)
                   | Some bs \<Rightarrow> Some (None, dev_queue_xmit k (skb\<lparr>skb_data := put_data 40 bs f\<rparr>) n))))
   }"

subsection \<open>Medium messages\<close>

definition PAGE_SIZE :: nat where
  "PAGE_SIZE = 4096"

text \<open>
  The pages attached to a packet: the bytes the network device will read. A chunk that does not fit in its page
  would end outside of it.
\<close>

function sendq_pages :: "d_endpoint \<Rightarrow> nat \<Rightarrow> nat \<Rightarrow> u8 list option" where
  "sendq_pages ep current_sendq_offset remaining =
    (if remaining = 0 then Some []
     else
       let chunk = min remaining PAGE_SIZE
       in if OMX_SENDQ_SIZE div PAGE_SIZE \<le> current_sendq_offset div PAGE_SIZE \<or>
             current_sendq_offset mod PAGE_SIZE + chunk > PAGE_SIZE then None
          else do {
            bs \<leftarrow> sendq_pages ep (current_sendq_offset + chunk) (remaining - chunk);
            Some (skb_copy_bits current_sendq_offset chunk (de_sendq ep) @ bs)
          })"
  by pat_completeness auto
termination
  by (relation "measure (\<lambda>(_, _, remaining). remaining)") (auto simp: PAGE_SIZE_def)

declare sendq_pages.simps [simp del]

text \<open>The header of a fragment, after the branches on how its data is attached.\<close>

definition medium_header :: "d_endpoint \<Rightarrow> u8 list \<Rightarrow> omx_cmd_send_mediumsq_frag \<Rightarrow> frame \<Rightarrow> frame" where
  "medium_header ep dev_addr cmd f =
    (let f = fill_ethhdr dev_addr f;
         f = OMX_HTON_8 18 (de_endpoint_index ep) f;
         f = OMX_HTON_8 17 (msq_dest_endpoint cmd) f;
         f = OMX_HTON_8 16 OMX_PKT_TYPE_MEDIUM f;
         f = OMX_HTON_32 20 (msq_msg_length cmd) f;
         f = OMX_HTON_16 24 (msq_seqnum cmd) f;
         f = OMX_HTON_16 26 (msq_piggyack cmd) f;
         f = OMX_HTON_32 36 (msq_session_id cmd) f;
         f = OMX_HTON_MATCH_INFO (msq_match_info cmd) f;
         f = OMX_HTON_16 40 (msq_frag_length cmd) f;
         f = OMX_HTON_8 42 (msq_frag_seqnum cmd) f
     in OMX_HTON_16 44 (msq_checksum cmd) f)"

text \<open>
  With the parameters \<^verbatim>\<open>omx_skb_copy_max\<close> and \<^verbatim>\<open>omx_skb_frags\<close> of the module. The result also has the event that is
  deferred until the packet is sent, with the endpoint it keeps a reference on, if there is one.
\<close>

definition omx_ioctl_send_mediumsq_frag ::
  "nat \<Rightarrow> nat \<Rightarrow> kernel_env \<Rightarrow> nat \<Rightarrow> omx_cmd_send_mediumsq_frag \<Rightarrow> omx_node \<Rightarrow>
    ((omx_errno option \<times> (nat \<times> u32) option) \<times> omx_node) option" where
  "omx_ioctl_send_mediumsq_frag omx_skb_copy_max omx_skb_frags env e cmd n = do {
     k \<leftarrow> de_iface (n_endpoint n e);
     let ep = n_endpoint n e;
     let frag_length = unat (msq_frag_length cmd);
     let sendq_offset = unat (msq_sendq_offset cmd);
     (if \<not> k_cmd env then Some ((Some EFAULT, None), n)
      else if frag_length > OMX_SENDQ_ENTRY_SIZE then Some ((Some EINVAL, None), n)
      else if sendq_offset \<ge> OMX_SENDQ_SIZE then Some ((Some EINVAL, None), n)
      else if msq_shared cmd then map_option (\<lambda>(ret, n). ((ret, None), n)) (omx_shared_send_mediumsq_frag e cmd n)
      else if frag_length > omx_skb_copy_max \<and> 48 + frag_length \<ge> ETH_ZLEN \<and>
              omx_skb_frags \<ge> frag_length div 2 ^ OMX_SENDQ_ENTRY_SHIFT then
        (case omx_new_skb env 0 48 of
           None \<Rightarrow> Some ((Some ENOMEM, None), n)
         | Some skb \<Rightarrow>
             if k_kmalloc env 0 = None then Some ((Some ENOMEM, None), n)
             else (case omx_set_target_peer k (msq_peer_index cmd) n (skb_data skb) of
                None \<Rightarrow> Some ((Some EINVAL, None), n)
              | Some f \<Rightarrow> do {
                  bs \<leftarrow> sendq_pages ep sendq_offset frag_length;
                  let skb = skb\<lparr>skb_len := 48 + frag_length\<rparr>;
                  let n = upd_endpoint e (\<lambda>ep. ep\<lparr>de_refcount := de_refcount ep + 1\<rparr>) n;
                  let f = put_data 48 bs (medium_header ep (if_dev_addr (n_iface n k)) cmd f);
                  Some ((None, Some (e, msq_sendq_offset cmd)), dev_queue_xmit k (skb\<lparr>skb_data := f\<rparr>) n)
                }))
      else
        (case omx_new_skb env 0 (max (48 + frag_length) ETH_ZLEN) of
           None \<Rightarrow> Some ((Some ENOMEM, None), n)
         | Some skb \<Rightarrow>
             (case omx_set_target_peer k (msq_peer_index cmd) n (skb_data skb) of
                None \<Rightarrow> Some ((Some EINVAL, None), n)
              | Some f \<Rightarrow> do {
                  bs \<leftarrow> sendq_bytes sendq_offset frag_length ep;
                  let f = put_data 48 bs f;
                  let n = snd (notify_exp e (OMX_EVT_SEND_MEDIUMSQ_FRAG_DONE (msq_sendq_offset cmd)) n);
                  let f = medium_header ep (if_dev_addr (n_iface n k)) cmd f;
                  Some ((None, None), dev_queue_xmit k (skb\<lparr>skb_data := f\<rparr>) n)
                })))
   }"

definition omx_medium_frag_skb_destructor :: "nat \<times> u32 \<Rightarrow> omx_node \<Rightarrow> omx_node option" where
  "omx_medium_frag_skb_destructor defevent n =
    (let (e, sendq_offset) = defevent
     in omx_endpoint_release e (snd (notify_exp e (OMX_EVT_SEND_MEDIUMSQ_FRAG_DONE sendq_offset) n)))"

text \<open>The loop over the fragments; the packets of the fragments before an error are sent.\<close>

fun mediumva_loop ::
  "kernel_env \<Rightarrow> omx_cmd_user_segment list \<Rightarrow> nat \<Rightarrow> nat \<Rightarrow> omx_cmd_send_mediumva \<Rightarrow> nat list \<Rightarrow> u32 \<Rightarrow> useg_pos \<Rightarrow>
    omx_node \<Rightarrow> (omx_errno option \<times> omx_node) option" where
  "mediumva_loop env usegs e k cmd [] remaining pos n = Some (None, n)"
| "mediumva_loop env usegs e k cmd (i # is) remaining pos n =
    (let frag_length = (if remaining > OMX_MEDIUM_FRAG_LENGTH_MAX then ucast OMX_MEDIUM_FRAG_LENGTH_MAX else ucast remaining) :: u16
     in case omx_new_skb env i (max (48 + unat frag_length) ETH_ZLEN) of
       None \<Rightarrow> Some (Some ENOMEM, n)
     | Some skb \<Rightarrow>
         (case omx_set_target_peer k (mva_peer_index cmd) n (skb_data skb) of
            None \<Rightarrow> Some (Some EINVAL, n)
          | Some f \<Rightarrow> do {
              let f = fill_ethhdr (if_dev_addr (n_iface n k)) f;
              let f = OMX_HTON_8 18 (de_endpoint_index (n_endpoint n e)) f;
              let f = OMX_HTON_8 17 (mva_dest_endpoint cmd) f;
              let f = OMX_HTON_8 16 OMX_PKT_TYPE_MEDIUM f;
              let f = OMX_HTON_32 20 (mva_length cmd) f;
              let f = OMX_HTON_16 24 (mva_seqnum cmd) f;
              let f = OMX_HTON_16 26 (mva_piggyack cmd) f;
              let f = OMX_HTON_32 36 (mva_session_id cmd) f;
              let f = OMX_HTON_MATCH_INFO (mva_match_info cmd) f;
              let f = OMX_HTON_16 40 frag_length f;
              let f = OMX_HTON_8 42 (of_nat i) f;
              r \<leftarrow> copy_frag env usegs frag_length pos;
              (case r of
                 Inl err \<Rightarrow> Some (Some err, n)
               | Inr (bs, pos) \<Rightarrow>
                   mediumva_loop env usegs e k cmd is (remaining - ucast frag_length) pos
                     (dev_queue_xmit k (skb\<lparr>skb_data := put_data 48 bs f\<rparr>) n))
            }))"

definition omx_ioctl_send_mediumva ::
  "kernel_env \<Rightarrow> omx_cmd_user_segment list option \<Rightarrow> nat \<Rightarrow> omx_cmd_send_mediumva \<Rightarrow> omx_node \<Rightarrow>
    (omx_errno option \<times> omx_node) option" where
  "omx_ioctl_send_mediumva env usegs e cmd n = do {
     k \<leftarrow> de_iface (n_endpoint n e);
     let msg_length = mva_length cmd;
     let frag_max = unat OMX_MEDIUM_FRAG_LENGTH_MAX;
     let frags_nr = (unat msg_length + frag_max - 1) div frag_max;
     (if \<not> k_cmd env then Some (Some EFAULT, n)
      else if mva_shared cmd then omx_shared_send_mediumva env usegs e cmd n
      else if k_kmalloc env 0 = None then Some (Some ENOMEM, n)
      else case usegs of
        None \<Rightarrow> Some (Some EFAULT, n)
      | Some usegs \<Rightarrow>
          if usegs_length usegs \<noteq> msg_length then Some (Some EINVAL, n)
          else if usegs = [] then None
          else mediumva_loop env usegs e k cmd [0..<frags_nr] msg_length (useg_start 0 usegs) n)
   }"

subsection \<open>Rendez-vous, notifies and acks\<close>

definition omx_ioctl_send_rndv ::
  "kernel_env \<Rightarrow> nat \<Rightarrow> omx_cmd_send_rndv \<Rightarrow> omx_node \<Rightarrow> (omx_errno option \<times> omx_node) option" where
  "omx_ioctl_send_rndv env e cmd n = do {
     k \<leftarrow> de_iface (n_endpoint n e);
     (if \<not> k_cmd env then Some (Some EFAULT, n)
      else if rndv_shared cmd then omx_shared_send_rndv e cmd n
      else case omx_new_skb env 0 (max 48 ETH_ZLEN) of
        None \<Rightarrow> Some (Some ENOMEM, n)
      | Some skb \<Rightarrow>
          (case omx_set_target_peer k (rndv_peer_index cmd) n (fill_ethhdr (if_dev_addr (n_iface n k)) (skb_data skb)) of
             None \<Rightarrow> Some (Some EINVAL, n)
           | Some f \<Rightarrow>
               let f = OMX_HTON_8 18 (de_endpoint_index (n_endpoint n e)) f;
                   f = OMX_HTON_8 17 (rndv_dest_endpoint cmd) f;
                   f = OMX_HTON_8 16 OMX_PKT_TYPE_RNDV f;
                   f = OMX_HTON_16 20 OMX_PKT_RNDV_DATA_LENGTH f;
                   f = OMX_HTON_16 24 (rndv_seqnum cmd) f;
                   f = OMX_HTON_16 26 (rndv_piggyack cmd) f;
                   f = OMX_HTON_32 36 (rndv_session_id cmd) f;
                   f = OMX_HTON_MATCH_INFO (rndv_match_info cmd) f;
                   f = OMX_HTON_32 40 (rndv_msg_length cmd) f;
                   f = OMX_HTON_8 44 (rndv_pulled_rdma_id cmd) f;
                   f = OMX_HTON_8 45 (rndv_pulled_rdma_seqnum cmd) f;
                   f = OMX_HTON_16 22 (rndv_checksum cmd) f;
                   f = OMX_HTON_16 46 0 f
               in Some (None, dev_queue_xmit k (skb\<lparr>skb_data := f\<rparr>) n)))
   }"

definition omx_ioctl_send_notify ::
  "kernel_env \<Rightarrow> nat \<Rightarrow> omx_cmd_send_notify \<Rightarrow> omx_node \<Rightarrow> (omx_errno option \<times> omx_node) option" where
  "omx_ioctl_send_notify env e cmd n = do {
     k \<leftarrow> de_iface (n_endpoint n e);
     (if \<not> k_cmd env then Some (Some EFAULT, n)
      else if notify_shared cmd then omx_shared_send_notify e cmd n
      else case omx_new_skb env 0 (max 40 ETH_ZLEN) of
        None \<Rightarrow> Some (Some ENOMEM, n)
      | Some skb \<Rightarrow>
          (case omx_set_target_peer k (notify_peer_index cmd) n (fill_ethhdr (if_dev_addr (n_iface n k)) (skb_data skb)) of
             None \<Rightarrow> Some (Some EINVAL, n)
           | Some f \<Rightarrow>
               let f = OMX_HTON_8 18 (de_endpoint_index (n_endpoint n e)) f;
                   f = OMX_HTON_8 17 (notify_dest_endpoint cmd) f;
                   f = OMX_HTON_8 16 OMX_PKT_TYPE_NOTIFY f;
                   f = OMX_HTON_32 24 (notify_total_length cmd) f;
                   f = OMX_HTON_16 34 (notify_seqnum cmd) f;
                   f = OMX_HTON_16 36 (notify_piggyack cmd) f;
                   f = OMX_HTON_32 20 (notify_session_id cmd) f;
                   f = OMX_HTON_8 28 (notify_pulled_rdma_id cmd) f;
                   f = OMX_HTON_8 29 (notify_pulled_rdma_seqnum cmd) f
               in Some (None, dev_queue_xmit k (skb\<lparr>skb_data := f\<rparr>) n)))
   }"

definition omx_ioctl_send_liback ::
  "kernel_env \<Rightarrow> nat \<Rightarrow> omx_cmd_send_liback \<Rightarrow> omx_node \<Rightarrow> (omx_errno option \<times> omx_node) option" where
  "omx_ioctl_send_liback env e cmd n = do {
     k \<leftarrow> de_iface (n_endpoint n e);
     (if \<not> k_cmd env then Some (Some EFAULT, n)
      else if liback_shared cmd then omx_shared_send_liback e cmd n
      else case omx_new_skb env 0 (max 44 ETH_ZLEN) of
        None \<Rightarrow> Some (Some ENOMEM, n)
      | Some skb \<Rightarrow>
          (case omx_set_target_peer k (liback_peer_index cmd) n (fill_ethhdr (if_dev_addr (n_iface n k)) (skb_data skb)) of
             None \<Rightarrow> Some (Some EINVAL, n)
           | Some f \<Rightarrow>
               let f = OMX_HTON_8 18 (de_endpoint_index (n_endpoint n e)) f;
                   f = OMX_HTON_8 17 (liback_dest_endpoint cmd) f;
                   f = OMX_HTON_8 16 OMX_PKT_TYPE_TRUC f;
                   f = OMX_HTON_8 20 OMX_PKT_TRUC_LIBACK_DATA_LENGTH f;
                   f = OMX_HTON_32 24 (liback_session_id cmd) f;
                   f = OMX_HTON_8 28 OMX_PKT_TRUC_DATA_TYPE_ACK f;
                   f = OMX_HTON_16 30 (liback_lib_seqnum cmd) f;
                   f = OMX_HTON_32 32 (liback_session_id cmd) f;
                   f = OMX_HTON_32 36 (liback_acknum cmd) f;
                   f = OMX_HTON_16 40 (liback_send_seq cmd) f;
                   f = OMX_HTON_8 42 (if liback_resent cmd then 1 else 0) f
               in Some (None, dev_queue_xmit k (skb\<lparr>skb_data := f\<rparr>) n)))
   }"

subsection \<open>Nacks\<close>

text \<open>The index of the peer in the table of the other machine is also in the body.\<close>

definition omx_send_nack_lib ::
  "kernel_env \<Rightarrow> nat \<Rightarrow> u16 \<Rightarrow> omx_nack_type \<Rightarrow> u8 \<Rightarrow> u8 \<Rightarrow> u16 \<Rightarrow> omx_node \<Rightarrow> omx_node" where
  "omx_send_nack_lib env k peer_index nack_type src_endpoint dst_endpoint lib_seqnum n =
    (case omx_new_skb env 0 (max 32 ETH_ZLEN) of
       None \<Rightarrow> n
     | Some skb \<Rightarrow>
         (case omx_set_target_peer k peer_index n (fill_ethhdr (if_dev_addr (n_iface n k)) (skb_data skb)) of
            None \<Rightarrow> n
          | Some f \<Rightarrow>
              let f = OMX_HTON_16 26 (OMX_NTOH_16 14 f) f;
                  f = OMX_HTON_8 17 src_endpoint f;
                  f = OMX_HTON_8 25 dst_endpoint f;
                  f = OMX_HTON_8 16 OMX_PKT_TYPE_NACK_LIB f;
                  f = OMX_HTON_8 19 (nack_code nack_type) f;
                  f = OMX_HTON_16 28 lib_seqnum f
              in dev_queue_xmit k (skb\<lparr>skb_data := f\<rparr>) n))"

definition omx_send_nack_mcp ::
  "kernel_env \<Rightarrow> nat \<Rightarrow> u16 \<Rightarrow> omx_nack_type \<Rightarrow> u8 \<Rightarrow> u32 \<Rightarrow> u32 \<Rightarrow> omx_node \<Rightarrow> omx_node" where
  "omx_send_nack_mcp env k peer_index nack_type src_endpoint src_pull_handle src_magic n =
    (case omx_new_skb env 0 (max 32 ETH_ZLEN) of
       None \<Rightarrow> n
     | Some skb \<Rightarrow>
         (case omx_set_target_peer k peer_index n (fill_ethhdr (if_dev_addr (n_iface n k)) (skb_data skb)) of
            None \<Rightarrow> n
          | Some f \<Rightarrow>
              let f = OMX_HTON_8 17 src_endpoint f;
                  f = OMX_HTON_8 16 OMX_PKT_TYPE_NACK_MCP f;
                  f = OMX_HTON_8 19 (nack_code nack_type) f;
                  f = OMX_HTON_32 24 src_pull_handle f;
                  f = OMX_HTON_32 28 src_magic f
              in dev_queue_xmit k (skb\<lparr>skb_data := f\<rparr>) n))"

subsection \<open>Commands of an open endpoint\<close>

text \<open>
  What the kernel and the application provide to a command: the environment, whether the data of a tiny message can be
  read, the segments of a medium one, and the two parameters of the module that choose how a packet is built.
\<close>

record ioctl_env =
  ie_kernel :: kernel_env
  ie_data_ok :: bool
  ie_usegs :: "omx_cmd_user_segment list option"
  ie_skb_copy_max :: nat
  ie_skb_frags :: nat

definition on_queues ::
  "nat \<Rightarrow> (driver_eventqs \<Rightarrow> omx_errno option \<times> driver_eventqs) \<Rightarrow> omx_node \<Rightarrow> omx_errno option \<times> omx_node" where
  "on_queues e f n =
    (let (ret, q) = f (de_queues (n_endpoint n e)) in (ret, upd_endpoint e (\<lambda>ep. ep\<lparr>de_queues := q\<rparr>) n))"

text \<open>
  \<^verbatim>\<open>omx_ioctl_with_endpoint_handlers\<close>. Pulling and the regions are the argument \<open>other\<close>. Sleeping is modelled in
  \<^verbatim>\<open>Driver_Event\<close>.
\<close>

definition omx_ioctl_with_endpoint_handler ::
  "(omx_cmd \<Rightarrow> nat \<Rightarrow> omx_node \<Rightarrow> (omx_errno option \<times> omx_node) option) \<Rightarrow> ioctl_env \<Rightarrow> omx_cmd \<Rightarrow> nat \<Rightarrow> omx_node \<Rightarrow>
    ((omx_errno option \<times> (nat \<times> u32) option) \<times> omx_node) option" where
  "omx_ioctl_with_endpoint_handler other ie cmd e n =
    (let env = ie_kernel ie; plain = map_option (\<lambda>(ret, n). ((ret, None), n))
     in case cmd of
       OMX_CMD_SEND_TINY c \<Rightarrow> plain (omx_ioctl_send_tiny env (ie_data_ok ie) e c n)
     | OMX_CMD_SEND_SMALL c \<Rightarrow> plain (omx_ioctl_send_small env e c n)
     | OMX_CMD_SEND_MEDIUMSQ_FRAG c \<Rightarrow> omx_ioctl_send_mediumsq_frag (ie_skb_copy_max ie) (ie_skb_frags ie) env e c n
     | OMX_CMD_SEND_MEDIUMVA c \<Rightarrow> plain (omx_ioctl_send_mediumva env (ie_usegs ie) e c n)
     | OMX_CMD_SEND_RNDV c \<Rightarrow> plain (omx_ioctl_send_rndv env e c n)
     | OMX_CMD_SEND_NOTIFY c \<Rightarrow> plain (omx_ioctl_send_notify env e c n)
     | OMX_CMD_SEND_CONNECT_REQUEST c \<Rightarrow> plain (omx_ioctl_send_connect_request env e c n)
     | OMX_CMD_SEND_CONNECT_REPLY c \<Rightarrow> plain (omx_ioctl_send_connect_reply env e c n)
     | OMX_CMD_SEND_LIBACK c \<Rightarrow> plain (omx_ioctl_send_liback env e c n)
     | OMX_CMD_WAKEUP st \<Rightarrow> plain (Some (if \<not> k_cmd env then (Some EFAULT, n) else on_queues e (\<lambda>q. (None, omx_ioctl_wakeup st q)) n))
     | OMX_CMD_RELEASE_EXP_SLOTS \<Rightarrow> plain (Some (on_queues e omx_ioctl_release_exp_slots n))
     | OMX_CMD_RELEASE_UNEXP_SLOTS \<Rightarrow> plain (Some (on_queues e omx_ioctl_release_unexp_slots n))
     | _ \<Rightarrow> plain (other cmd e n))"

definition omx_miscdev_ioctl ::
  "(omx_cmd \<Rightarrow> nat \<Rightarrow> omx_node \<Rightarrow> (omx_errno option \<times> omx_node) option) \<Rightarrow> ioctl_env \<Rightarrow> omx_cmd \<Rightarrow> nat \<Rightarrow> omx_node \<Rightarrow>
    ((omx_errno option \<times> (nat \<times> u32) option) \<times> omx_node) option" where
  "omx_miscdev_ioctl other ie cmd e n =
    (if de_status (n_endpoint n e) \<noteq> OMX_ENDPOINT_STATUS_OK then Some ((Some EINVAL, None), n)
     else omx_ioctl_with_endpoint_handler other ie cmd e n)"

end
