(* ===== verification/Driver_Recv.thy ===== *)
theory Driver_Recv
  imports Driver_Send
begin

text \<open>
  Receiving packets (\<^verbatim>\<open>driver/linux/omx_recv.c\<close>). A handler checks the packet, finds the endpoint and stores an event
  in its queue; the sender of a message that cannot be delivered gets a nack. The error a handler returns is the
  first component of its result; \<^verbatim>\<open>omx_recv\<close> ignores it. \<open>None\<close> is a kernel bug. Copies are done by the processor (the DMA
  engine is disabled by default). The header is the beginning of the data of the packet, linear or not.
\<close>

text \<open>\<^verbatim>\<open>skb->len - hdr_len\<close>, an unsigned long, and \<^verbatim>\<open>skb_copy_bits\<close> with the check of its result.\<close>

definition skb_data_len :: "sk_buff \<Rightarrow> nat \<Rightarrow> u64" where
  "skb_data_len skb hdr_len = of_nat (skb_len skb) - of_nat hdr_len"

definition skb_bits :: "sk_buff \<Rightarrow> nat \<Rightarrow> nat \<Rightarrow> u8 list option" where
  "skb_bits skb off len = (if off + len > skb_len skb then None else Some (skb_copy_bits off len (skb_data skb)))"

subsection \<open>Connect\<close>

definition omx_recv_connect :: "kernel_env \<Rightarrow> nat \<Rightarrow> sk_buff \<Rightarrow> omx_node \<Rightarrow> (omx_errno option \<times> omx_node) option" where
  "omx_recv_connect env k skb n =
    (let mh = skb_data skb;
         src_addr = omx_board_addr_from_ethhdr_src mh;
         connect_data_length = OMX_NTOH_8 20 mh;
         dst_endpoint = OMX_NTOH_8 17 mh;
         src_endpoint = OMX_NTOH_8 18 mh;
         reverse_peer_index = OMX_NTOH_16 26 mh;
         lib_seqnum = OMX_NTOH_16 24 mh;
         is_reply = OMX_NTOH_8 42 mh
     in if connect_data_length < OMX_PKT_CONNECT_REQUEST_DATA_LENGTH then Some (Some EINVAL, n)
     else case omx_peer_lookup_by_addr_locked src_addr n of
       None \<Rightarrow> Some (None, n)
     | Some peer \<Rightarrow> do {
         n \<leftarrow> omx_peer_set_reverse_index peer k reverse_peer_index n;
         let peer_index = p_index (n_peer n peer);
         (case omx_endpoint_acquire_by_iface_index k dst_endpoint n of
            Inl err \<Rightarrow>
              Some (Some err, omx_send_nack_lib env k (ucast peer_index) (endpoint_error_to_nack_type err)
                dst_endpoint src_endpoint lib_seqnum n)
          | Inr e \<Rightarrow>
              if is_reply = 0 then
                Some (notify_unexp e (OMX_EVT_RECV_CONNECT_REQUEST \<lparr>creq_peer_index = ucast peer_index,
                  creq_src_endpoint = src_endpoint, creq_shared = False, creq_seqnum = lib_seqnum,
                  creq_src_session_id = OMX_NTOH_32 32 mh, creq_app_key = OMX_NTOH_32 36 mh,
                  creq_target_recv_seqnum_start = OMX_NTOH_16 40 mh, creq_connect_seqnum = OMX_NTOH_8 43 mh\<rparr>) n)
              else
                Some (notify_unexp e (OMX_EVT_RECV_CONNECT_REPLY \<lparr>crep_peer_index = ucast peer_index,
                  crep_src_endpoint = src_endpoint, crep_shared = False, crep_seqnum = lib_seqnum,
                  crep_src_session_id = OMX_NTOH_32 32 mh, crep_target_session_id = OMX_NTOH_32 36 mh,
                  crep_target_recv_seqnum_start = OMX_NTOH_16 40 mh, crep_connect_seqnum = OMX_NTOH_8 43 mh,
                  crep_connect_status_code = OMX_NTOH_8 44 mh\<rparr>) n))
       })"

subsection \<open>Messages\<close>

definition omx_recv_tiny :: "kernel_env \<Rightarrow> nat \<Rightarrow> sk_buff \<Rightarrow> omx_node \<Rightarrow> (omx_errno option \<times> omx_node) option" where
  "omx_recv_tiny env k skb n =
    (let mh = skb_data skb;
         peer_index = OMX_NTOH_16 14 mh;
         len = OMX_NTOH_16 20 mh;
         dst_endpoint = OMX_NTOH_8 17 mh;
         src_endpoint = OMX_NTOH_8 18 mh;
         session_id = OMX_NTOH_32 36 mh;
         lib_seqnum = OMX_NTOH_16 24 mh;
         lib_piggyack = OMX_NTOH_16 26 mh
     in if ucast len > OMX_TINY_MSG_LENGTH_MAX then Some (Some EINVAL, n)
     else if ucast len > skb_data_len skb 40 then Some (Some EINVAL, n)
     else if \<not> omx_check_recv_peer_index peer_index n then Some (Some EINVAL, n)
     else case omx_endpoint_acquire_by_iface_index k dst_endpoint n of
       Inl err \<Rightarrow>
         Some (Some err, omx_send_nack_lib env k peer_index (endpoint_error_to_nack_type err)
           dst_endpoint src_endpoint lib_seqnum n)
     | Inr e \<Rightarrow>
         if session_id \<noteq> de_session_id (n_endpoint n e) then
           Some (Some EINVAL, omx_send_nack_lib env k peer_index OMX_NACK_TYPE_BAD_SESSION
             dst_endpoint src_endpoint lib_seqnum n)
         else do {
           bs \<leftarrow> skb_bits skb 40 (unat len);
           Some (notify_unexp e (OMX_EVT_RECV_TINY \<lparr>msg_peer_index = peer_index, msg_src_endpoint = src_endpoint,
             msg_seqnum = lib_seqnum, msg_piggyack = lib_piggyack, msg_match_info = OMX_NTOH_MATCH_INFO mh,
             msg_specific = Msg_tiny (OMX_NTOH_16 22 mh) (ucast len) bs\<rparr>) n)
         })"

definition omx_recv_small :: "kernel_env \<Rightarrow> nat \<Rightarrow> sk_buff \<Rightarrow> omx_node \<Rightarrow> (omx_errno option \<times> omx_node) option" where
  "omx_recv_small env k skb n =
    (let mh = skb_data skb;
         peer_index = OMX_NTOH_16 14 mh;
         len = OMX_NTOH_16 20 mh;
         dst_endpoint = OMX_NTOH_8 17 mh;
         src_endpoint = OMX_NTOH_8 18 mh;
         session_id = OMX_NTOH_32 36 mh;
         lib_seqnum = OMX_NTOH_16 24 mh;
         lib_piggyack = OMX_NTOH_16 26 mh
     in if ucast len > OMX_SMALL_MSG_LENGTH_MAX then Some (Some EINVAL, n)
     else if ucast len > skb_data_len skb 40 then Some (Some EINVAL, n)
     else if \<not> omx_check_recv_peer_index peer_index n then Some (Some EINVAL, n)
     else case omx_endpoint_acquire_by_iface_index k dst_endpoint n of
       Inl err \<Rightarrow>
         Some (Some err, omx_send_nack_lib env k peer_index (endpoint_error_to_nack_type err)
           dst_endpoint src_endpoint lib_seqnum n)
     | Inr e \<Rightarrow>
         if session_id \<noteq> de_session_id (n_endpoint n e) then
           Some (Some EINVAL, omx_send_nack_lib env k peer_index OMX_NACK_TYPE_BAD_SESSION
             dst_endpoint src_endpoint lib_seqnum n)
         else (case prepare_unexp e n of
            (Inl err, n) \<Rightarrow> Some (Some err, n)
          | (Inr roff, n) \<Rightarrow> do {
              bs \<leftarrow> skb_bits skb 40 (unat len);
              n \<leftarrow> recvq_store e (unat roff) bs n;
              n \<leftarrow> commit_unexp e (OMX_EVT_RECV_SMALL \<lparr>msg_peer_index = peer_index, msg_src_endpoint = src_endpoint,
                msg_seqnum = lib_seqnum, msg_piggyack = lib_piggyack, msg_match_info = OMX_NTOH_MATCH_INFO mh,
                msg_specific = Msg_small (ucast roff) len (OMX_NTOH_16 22 mh)\<rparr>) n;
              Some (None, n)
            }))"

definition omx_recv_medium_frag :: "kernel_env \<Rightarrow> nat \<Rightarrow> sk_buff \<Rightarrow> omx_node \<Rightarrow> (omx_errno option \<times> omx_node) option" where
  "omx_recv_medium_frag env k skb n =
    (let mh = skb_data skb;
         peer_index = OMX_NTOH_16 14 mh;
         frag_length = OMX_NTOH_16 40 mh;
         dst_endpoint = OMX_NTOH_8 17 mh;
         src_endpoint = OMX_NTOH_8 18 mh;
         session_id = OMX_NTOH_32 36 mh;
         lib_seqnum = OMX_NTOH_16 24 mh;
         lib_piggyack = OMX_NTOH_16 26 mh
     in if unat frag_length > OMX_RECVQ_ENTRY_SIZE then Some (Some EINVAL, n)
     else if ucast frag_length > skb_data_len skb 48 then Some (Some EINVAL, n)
     else if \<not> omx_check_recv_peer_index peer_index n then Some (Some EINVAL, n)
     else case omx_endpoint_acquire_by_iface_index k dst_endpoint n of
       Inl err \<Rightarrow>
         Some (Some err, omx_send_nack_lib env k peer_index (endpoint_error_to_nack_type err)
           dst_endpoint src_endpoint lib_seqnum n)
     | Inr e \<Rightarrow>
         if session_id \<noteq> de_session_id (n_endpoint n e) then
           Some (Some EINVAL, omx_send_nack_lib env k peer_index OMX_NACK_TYPE_BAD_SESSION
             dst_endpoint src_endpoint lib_seqnum n)
         else (case prepare_unexp e n of
            (Inl err, n) \<Rightarrow> Some (Some err, n)
          | (Inr roff, n) \<Rightarrow> do {
              bs \<leftarrow> skb_bits skb 48 (unat frag_length);
              n \<leftarrow> recvq_store e (unat roff) bs n;
              n \<leftarrow> commit_unexp e (OMX_EVT_RECV_MEDIUM_FRAG \<lparr>msg_peer_index = peer_index, msg_src_endpoint = src_endpoint,
                msg_seqnum = lib_seqnum, msg_piggyack = lib_piggyack, msg_match_info = OMX_NTOH_MATCH_INFO mh,
                msg_specific = Msg_medium_frag (ucast roff) (OMX_NTOH_32 20 mh) frag_length (OMX_NTOH_8 42 mh) 0
                  (OMX_NTOH_16 44 mh)\<rparr>) n;
              Some (None, n)
            }))"

definition omx_recv_rndv :: "kernel_env \<Rightarrow> nat \<Rightarrow> sk_buff \<Rightarrow> omx_node \<Rightarrow> (omx_errno option \<times> omx_node) option" where
  "omx_recv_rndv env k skb n =
    (let mh = skb_data skb;
         peer_index = OMX_NTOH_16 14 mh;
         rndv_data_length = OMX_NTOH_16 20 mh;
         dst_endpoint = OMX_NTOH_8 17 mh;
         src_endpoint = OMX_NTOH_8 18 mh;
         session_id = OMX_NTOH_32 36 mh;
         lib_seqnum = OMX_NTOH_16 24 mh;
         lib_piggyack = OMX_NTOH_16 26 mh
     in if rndv_data_length < OMX_PKT_RNDV_DATA_LENGTH then Some (Some EINVAL, n)
     else if \<not> omx_check_recv_peer_index peer_index n then Some (Some EINVAL, n)
     else case omx_endpoint_acquire_by_iface_index k dst_endpoint n of
       Inl err \<Rightarrow>
         Some (Some err, omx_send_nack_lib env k peer_index (endpoint_error_to_nack_type err)
           dst_endpoint src_endpoint lib_seqnum n)
     | Inr e \<Rightarrow>
         if session_id \<noteq> de_session_id (n_endpoint n e) then
           Some (Some EINVAL, omx_send_nack_lib env k peer_index OMX_NACK_TYPE_BAD_SESSION
             dst_endpoint src_endpoint lib_seqnum n)
         else
           Some (notify_unexp e (OMX_EVT_RECV_RNDV \<lparr>msg_peer_index = peer_index, msg_src_endpoint = src_endpoint,
             msg_seqnum = lib_seqnum, msg_piggyack = lib_piggyack, msg_match_info = OMX_NTOH_MATCH_INFO mh,
             msg_specific = Msg_rndv (OMX_NTOH_32 40 mh) (OMX_NTOH_8 44 mh) (OMX_NTOH_8 45 mh) (OMX_NTOH_16 46 mh)
               (OMX_NTOH_16 22 mh)\<rparr>) n))"

definition omx_recv_notify :: "kernel_env \<Rightarrow> nat \<Rightarrow> sk_buff \<Rightarrow> omx_node \<Rightarrow> (omx_errno option \<times> omx_node) option" where
  "omx_recv_notify env k skb n =
    (let mh = skb_data skb;
         peer_index = OMX_NTOH_16 14 mh;
         dst_endpoint = OMX_NTOH_8 17 mh;
         src_endpoint = OMX_NTOH_8 18 mh;
         session_id = OMX_NTOH_32 20 mh;
         lib_seqnum = OMX_NTOH_16 34 mh;
         lib_piggyack = OMX_NTOH_16 36 mh
     in if \<not> omx_check_recv_peer_index peer_index n then Some (Some EINVAL, n)
     else case omx_endpoint_acquire_by_iface_index k dst_endpoint n of
       Inl err \<Rightarrow>
         Some (Some err, omx_send_nack_lib env k peer_index (endpoint_error_to_nack_type err)
           dst_endpoint src_endpoint lib_seqnum n)
     | Inr e \<Rightarrow>
         if session_id \<noteq> de_session_id (n_endpoint n e) then
           Some (Some EINVAL, omx_send_nack_lib env k peer_index OMX_NACK_TYPE_BAD_SESSION
             dst_endpoint src_endpoint lib_seqnum n)
         else
           Some (notify_unexp e (OMX_EVT_RECV_NOTIFY \<lparr>msg_peer_index = peer_index, msg_src_endpoint = src_endpoint,
             msg_seqnum = lib_seqnum, msg_piggyack = lib_piggyack, msg_match_info = 0,
             msg_specific = Msg_notify (OMX_NTOH_32 24 mh) (OMX_NTOH_8 28 mh) (OMX_NTOH_8 29 mh)\<rparr>) n))"

subsection \<open>Acks and nacks\<close>

text \<open>A truc packet that cannot be delivered is dropped without a nack, and one of an unknown type without an error.\<close>

definition omx_recv_truc :: "nat \<Rightarrow> sk_buff \<Rightarrow> omx_node \<Rightarrow> omx_errno option \<times> omx_node" where
  "omx_recv_truc k skb n =
    (let mh = skb_data skb;
         peer_index = OMX_NTOH_16 14 mh;
         data_length = OMX_NTOH_8 20 mh;
         dst_endpoint = OMX_NTOH_8 17 mh;
         src_endpoint = OMX_NTOH_8 18 mh;
         session_id = OMX_NTOH_32 24 mh;
         truc_type = OMX_NTOH_8 28 mh
     in if \<not> omx_check_recv_peer_index peer_index n then (Some EINVAL, n)
     else case omx_endpoint_acquire_by_iface_index k dst_endpoint n of
       Inl err \<Rightarrow> (Some err, n)
     | Inr e \<Rightarrow>
         if session_id \<noteq> de_session_id (n_endpoint n e) then (Some EINVAL, n)
         else if truc_type = OMX_PKT_TRUC_DATA_TYPE_ACK then
           if data_length < OMX_PKT_TRUC_LIBACK_DATA_LENGTH then (Some EINVAL, n)
           else if session_id \<noteq> OMX_NTOH_32 32 mh then (Some EINVAL, n)
           else
             notify_unexp e (OMX_EVT_RECV_LIBACK \<lparr>lb_peer_index = peer_index, lb_src_endpoint = src_endpoint,
               lb_acknum = OMX_NTOH_32 36 mh, lb_lib_seqnum = OMX_NTOH_16 30 mh, lb_send_seq = OMX_NTOH_16 40 mh,
               lb_resent = (OMX_NTOH_8 42 mh \<noteq> 0)\<rparr>) n
         else (None, n))"

text \<open>A nack may come from a machine that does not know our index; then its address gives the peer.\<close>

definition nack_peer :: "frame \<Rightarrow> omx_node \<Rightarrow> u16 option" where
  "nack_peer mh n =
    (let peer_index = OMX_NTOH_16 14 mh in
     if omx_check_recv_peer_index peer_index n then Some peer_index
     else if peer_index \<noteq> -1 then None
     else map_option (\<lambda>p. ucast (p_index (n_peer n p))) (omx_peer_lookup_by_addr_locked (omx_board_addr_from_ethhdr_src mh) n))"

definition omx_recv_nack_lib :: "nat \<Rightarrow> sk_buff \<Rightarrow> omx_node \<Rightarrow> omx_errno option \<times> omx_node" where
  "omx_recv_nack_lib k skb n =
    (let mh = skb_data skb;
         dst_endpoint = OMX_NTOH_8 25 mh;
         src_endpoint = OMX_NTOH_8 17 mh;
         nack_type = OMX_NTOH_8 19 mh;
         lib_seqnum = OMX_NTOH_16 28 mh
     in case nack_peer mh n of
       None \<Rightarrow> (Some EINVAL, n)
     | Some peer_index \<Rightarrow>
         (case omx_endpoint_acquire_by_iface_index k dst_endpoint n of
            Inl err \<Rightarrow> (Some err, n)
          | Inr e \<Rightarrow>
              notify_unexp e (OMX_EVT_RECV_NACK_LIB \<lparr>nack_peer_index = peer_index, nack_src_endpoint = src_endpoint,
                nack_nack_type = nack_event_type nack_type, nack_seqnum = lib_seqnum\<rparr>) n))"

subsection \<open>The types of packets\<close>

datatype pkt_handler =
    Recv_error | Recv_invalid | Recv_raw | Recv_host_query | Recv_host_reply | Recv_truc | Recv_connect | Recv_tiny
  | Recv_small | Recv_medium_frag | Recv_rndv | Recv_pull_request | Recv_pull_reply | Recv_notify | Recv_nack_lib
  | Recv_nack_mcp

text \<open>The two arrays \<^verbatim>\<open>omx_pkt_types_init\<close> fills.\<close>

definition omx_pkt_type_handler :: "u8 \<Rightarrow> pkt_handler" where
  "omx_pkt_type_handler = (\<lambda>_. Recv_error)(
     OMX_PKT_TYPE_RAW := Recv_raw,
     OMX_PKT_TYPE_MFM_NIC_REPLY := Recv_invalid,
     OMX_PKT_TYPE_HOST_QUERY := Recv_host_query,
     OMX_PKT_TYPE_HOST_REPLY := Recv_host_reply,
     OMX_PKT_TYPE_ETHER_UNICAST := Recv_invalid,
     OMX_PKT_TYPE_ETHER_MULTICAST := Recv_invalid,
     OMX_PKT_TYPE_ETHER_NATIVE := Recv_invalid,
     OMX_PKT_TYPE_TRUC := Recv_truc,
     OMX_PKT_TYPE_CONNECT := Recv_connect,
     OMX_PKT_TYPE_TINY := Recv_tiny,
     OMX_PKT_TYPE_SMALL := Recv_small,
     OMX_PKT_TYPE_MEDIUM := Recv_medium_frag,
     OMX_PKT_TYPE_RNDV := Recv_rndv,
     OMX_PKT_TYPE_PULL := Recv_pull_request,
     OMX_PKT_TYPE_PULL_REPLY := Recv_pull_reply,
     OMX_PKT_TYPE_NOTIFY := Recv_notify,
     OMX_PKT_TYPE_NACK_LIB := Recv_nack_lib,
     OMX_PKT_TYPE_NACK_MCP := Recv_nack_mcp)"

definition omx_pkt_type_hdr_len :: "u8 \<Rightarrow> nat" where
  "omx_pkt_type_hdr_len = (\<lambda>_. 16)(
     OMX_PKT_TYPE_HOST_QUERY := 16 + 16,
     OMX_PKT_TYPE_HOST_REPLY := 16 + 16,
     OMX_PKT_TYPE_TRUC := 16 + 28,
     OMX_PKT_TYPE_CONNECT := 16 + 32,
     OMX_PKT_TYPE_TINY := 16 + 24,
     OMX_PKT_TYPE_SMALL := 16 + 24,
     OMX_PKT_TYPE_MEDIUM := 16 + 32,
     OMX_PKT_TYPE_RNDV := 16 + 24,
     OMX_PKT_TYPE_PULL := 16 + 44,
     OMX_PKT_TYPE_PULL_REPLY := 16 + 16,
     OMX_PKT_TYPE_NOTIFY := 16 + 24,
     OMX_PKT_TYPE_NACK_LIB := 16 + 16,
     OMX_PKT_TYPE_NACK_MCP := 16 + 16)"

text \<open>The handlers of raw packets and of the pull protocol are the argument \<open>other\<close>.\<close>

definition handle_packet ::
  "(pkt_handler \<Rightarrow> nat \<Rightarrow> sk_buff \<Rightarrow> omx_node \<Rightarrow> omx_node option) \<Rightarrow> kernel_env \<Rightarrow> pkt_handler \<Rightarrow>
    nat \<Rightarrow> sk_buff \<Rightarrow> omx_node \<Rightarrow> omx_node option" where
  "handle_packet other env h k skb n =
    (case h of
       Recv_error \<Rightarrow> Some n
     | Recv_invalid \<Rightarrow> Some n
     | Recv_host_query \<Rightarrow> Some (omx_recv_host_query k skb n)
     | Recv_host_reply \<Rightarrow> Some (omx_recv_host_reply k skb n)
     | Recv_truc \<Rightarrow> Some (snd (omx_recv_truc k skb n))
     | Recv_connect \<Rightarrow> map_option snd (omx_recv_connect env k skb n)
     | Recv_tiny \<Rightarrow> map_option snd (omx_recv_tiny env k skb n)
     | Recv_small \<Rightarrow> map_option snd (omx_recv_small env k skb n)
     | Recv_medium_frag \<Rightarrow> map_option snd (omx_recv_medium_frag env k skb n)
     | Recv_rndv \<Rightarrow> map_option snd (omx_recv_rndv env k skb n)
     | Recv_notify \<Rightarrow> map_option snd (omx_recv_notify env k skb n)
     | Recv_nack_lib \<Rightarrow> Some (snd (omx_recv_nack_lib k skb n))
     | _ \<Rightarrow> other h k skb n)"

text \<open>A packet that is shorter than its header is the bug of \<^verbatim>\<open>BUG_ON\<close>.\<close>

definition omx_recv ::
  "(pkt_handler \<Rightarrow> nat \<Rightarrow> sk_buff \<Rightarrow> omx_node \<Rightarrow> omx_node option) \<Rightarrow> kernel_env \<Rightarrow> nat \<Rightarrow> sk_buff \<Rightarrow>
    omx_node \<Rightarrow> omx_node option" where
  "omx_recv other env ifp skb n =
    (case omx_iface_find_by_ifp ifp n of
       None \<Rightarrow> Some n
     | Some k \<Rightarrow>
         if skb_len skb < 17 then Some n
         else
           let ptype = OMX_NTOH_8 16 (skb_data skb)
           in if skb_len skb < omx_pkt_type_hdr_len ptype then None
              else handle_packet other env (omx_pkt_type_handler ptype) k skb n)"

end
