(* ===== verification/Driver_Queue.thy ===== *)
theory Driver_Queue
  imports Driver_Ring Driver_Shared Driver_Lifecycle
begin

text \<open>
  The queues of an endpoint between two operations of the driver, as the list of all the events it got: \<open>L\<close> of them have
  been read by the library. This is the view of \<^verbatim>\<open>Driver_Ring\<close> when no context is in the middle of an operation.
\<close>

definition ring_of :: "omx_evt list \<Rightarrow> nat \<Rightarrow> driver_eventqs \<Rightarrow> ring_system" where
  "ring_of log L d = \<lparr>rs_driver = d, rs_held = 0, rs_taken = [], rs_next = of_nat L, rs_log = log, rs_got = take L log,
     rs_failed = False\<rparr>"

definition quiet :: "omx_evt list \<Rightarrow> nat \<Rightarrow> driver_eventqs \<Rightarrow> bool" where
  "quiet log L d \<longleftrightarrow> L \<le> length log \<and> ring_inv (ring_of log L d)"

text \<open>There is a free slot: fewer than 1024 events since the last ones the library released.\<close>

definition room :: "omx_evt list \<Rightarrow> nat \<Rightarrow> bool" where
  "room log L \<longleftrightarrow> length log < released_of L + 1024"

lemma quiet_start: "length unexp = 1024 \<Longrightarrow> quiet [] 0 (omx_endpoint_queues_init exp unexp d)"
  using ring_inv_start [of unexp exp d] by (simp add: quiet_def ring_of_def ring_start_def)

lemma quiet_next:
  assumes "quiet log L d"
  shows "ring_read (d_unexp_eventq d) (of_nat L) = (if L < length log then Some (log ! L) else None)"
  using ring_read_next [of "ring_of log L d"] assms by (simp add: quiet_def ring_of_def unread_def min_absorb2)

lemma quiet_frame:
  assumes "quiet log L d" "d_unexp_eventq d' = d_unexp_eventq d"
    "nextfree_unexp_eventq_index d' = nextfree_unexp_eventq_index d"
    "nextreserved_unexp_eventq_index d' = nextreserved_unexp_eventq_index d"
    "nextreleased_unexp_eventq_index d' = nextreleased_unexp_eventq_index d"
  shows "quiet log L d'"
  using assms(1) unfolding quiet_def ring_of_def ring_inv_def Let_def ring_system.simps assms(2-5) .

lemma quiet_full:
  assumes "quiet log L d" "n < 2 ^ 31"
  shows "unexp_full (d\<lparr>nextfree_unexp_eventq_index := nextfree_unexp_eventq_index d + of_nat n\<rparr>) \<longleftrightarrow>
    released_of L + 1024 < length log + n"
  using unexp_full_iff [of "ring_of log L d" n] assms by (simp add: quiet_def ring_of_def min_absorb2)

text \<open>What is read from a queue after an event has been taken and written.\<close>

lemma quiet_written:
  assumes q: "quiet log L d" and inv: "ring_inv (take_event index evt d' (ring_of log L d))" and evt: "evt \<noteq> OMX_EVT_IGNORE"
  shows "quiet (log @ [evt]) L (notify_unexp_write index evt d')"
proof -
  have "ring_inv (ring_exec (Write 0) (take_event index evt d' (ring_of log L d)))" by (rule ring_inv_write [OF inv])
  moreover have "ring_exec (Write 0) (take_event index evt d' (ring_of log L d)) =
      ring_of (log @ [evt]) L (notify_unexp_write index evt d')"
    using evt q by (simp add: take_event_def ring_of_def quiet_def)
  ultimately show ?thesis using q by (simp add: quiet_def)
qed

lemma quiet_ignored:
  assumes q: "quiet log L d" and inv: "ring_inv (take_event index OMX_EVT_IGNORE d' (ring_of log L d))"
  shows "quiet (log @ [OMX_EVT_IGNORE]) L (cancel_unexp_write index d')"
proof -
  have "ring_inv (ring_exec (Write 0) (take_event index OMX_EVT_IGNORE d' (ring_of log L d)))" by (rule ring_inv_write [OF inv])
  moreover have "ring_exec (Write 0) (take_event index OMX_EVT_IGNORE d' (ring_of log L d)) =
      ring_of (log @ [OMX_EVT_IGNORE]) L (cancel_unexp_write index d')"
    using q by (simp add: take_event_def ring_of_def quiet_def)
  ultimately show ?thesis using q by (simp add: quiet_def)
qed

subsection \<open>Events without a slot of the receive queue\<close>

lemma notify_quiet:
  assumes q: "quiet log L d" and evt: "evt \<noteq> OMX_EVT_IGNORE"
  shows "if room log L then \<exists>d'. omx_notify_unexp_event evt d = (None, d') \<and> quiet (log @ [evt]) L d'
    else \<exists>d'. omx_notify_unexp_event evt d = (Some EBUSY, d') \<and> quiet log L d'"
proof -
  let ?d = "d\<lparr>nextfree_unexp_eventq_index := nextfree_unexp_eventq_index d + 1,
    nextreserved_unexp_eventq_index := nextreserved_unexp_eventq_index d + 1\<rparr>"
  have full: "unexp_full ?d \<longleftrightarrow> \<not> room log L"
    using quiet_full [OF q, of 1] by (auto simp: unexp_full_def room_def)
  have step: "ring_exec (Notify evt) (ring_of log L d) =
      (if room log L then take_event (nextreserved_unexp_eventq_index d) evt ?d (ring_of log L d)
       else (ring_of log L d)\<lparr>rs_driver := notify_unexp_rollback ?d\<rparr>)"
    using full by (simp add: notify_unexp_take_def ring_of_def)
  have inv: "ring_inv (ring_exec (Notify evt) (ring_of log L d))"
    using q by (intro ring_inv_notify) (simp add: quiet_def)
  have op: "omx_notify_unexp_event evt d =
      (if room log L then (None, notify_unexp_write (nextreserved_unexp_eventq_index d) evt ?d)
       else (Some EBUSY, notify_unexp_rollback ?d))"
    using full by (simp add: omx_notify_unexp_event_def notify_unexp_take_def)
  have "quiet log L (notify_unexp_rollback ?d)"
    by (rule quiet_frame [OF q]) (simp_all add: notify_unexp_rollback_def)
  moreover have "quiet (log @ [evt]) L (notify_unexp_write (nextreserved_unexp_eventq_index d) evt ?d)" if "room log L"
    using inv that unfolding step by (intro quiet_written [OF q _ evt]) simp
  ultimately show ?thesis unfolding op by simp
qed

lemma notify_exp_quiet: "quiet log L d \<Longrightarrow> quiet log L (snd (omx_notify_exp_event evt d))"
  by (erule quiet_frame) (simp_all add: omx_notify_exp_event_def notify_exp_take_def notify_exp_finish_def
      omx_wakeup_waiter_list_def Let_def)

subsection \<open>Events with slots\<close>

lemma prepare_one:
  "omx_prepare_notify_unexp_event_with_recvq d =
    (case omx_prepare_notify_unexp_events_with_recvq 1 d of (Inl err, d') \<Rightarrow> (Inl err, d') | (Inr offs, d') \<Rightarrow> (Inr (hd offs), d'))"
  by (simp add: omx_prepare_notify_unexp_event_with_recvq_def omx_prepare_notify_unexp_events_with_recvq_def Let_def)

text \<open>Every slot of the receive queue is inside of it.\<close>

lemma recvq_offset_bound: "unat (recvq_offset i) + 8192 \<le> OMX_RECVQ_SIZE"
proof -
  have "unat i mod 1024 < 1024" by simp
  then have "unat (of_nat (unat i mod 1024) * 8192 :: u64) = unat i mod 1024 * 8192"
    by (simp add: unat_word_ariths unat_of_nat take_bit_nat_def)
  moreover have "RECVQ_ENTRY_SIZE = 8192" by (simp add: RECVQ_ENTRY_SIZE_def)
  ultimately show ?thesis
    by (simp add: recvq_offset_def OMX_EVENTQ_ENTRY_NR_def OMX_RECVQ_SIZE_def limit_values)
qed

text \<open>Preparing one slot and committing or cancelling it, with the receive queue written in between.\<close>

lemma prepare_quiet:
  assumes q: "quiet log L d"
  shows "if room log L then
      \<exists>d'. omx_prepare_notify_unexp_event_with_recvq d = (Inr (recvq_offset (next_recvq_index d)), d') \<and>
        (\<forall>evt. evt \<noteq> OMX_EVT_IGNORE \<longrightarrow>
          (\<exists>d''. omx_commit_notify_unexp_event_with_recvq evt d' = Some d'' \<and> quiet (log @ [evt]) L d'')) \<and>
        (\<exists>d''. omx_cancel_notify_unexp_event_with_recvq d' = Some d'' \<and> quiet (log @ [OMX_EVT_IGNORE]) L d'')
    else \<exists>d'. omx_prepare_notify_unexp_event_with_recvq d = (Inl EBUSY, d') \<and> quiet log L d'"
proof -
  let ?d = "d\<lparr>nextfree_unexp_eventq_index := nextfree_unexp_eventq_index d + 1, next_recvq_index := next_recvq_index d + 1\<rparr>"
  let ?e = "d\<lparr>nextfree_unexp_eventq_index := nextfree_unexp_eventq_index d, next_recvq_index := next_recvq_index d,
    userdesc_status := userdesc_status d OR DESC_STATUS_UNEXP_EVENTQ_FULL\<rparr>"
  let ?c = "?d\<lparr>nextreserved_unexp_eventq_index := nextreserved_unexp_eventq_index d + 1\<rparr>"
  let ?s = "(ring_of log L d)\<lparr>rs_driver := ?d, rs_held := 1\<rparr>"
  have full: "unexp_full ?d \<longleftrightarrow> \<not> room log L"
    using quiet_full [OF q, of 1] by (auto simp: unexp_full_def room_def)
  have op: "omx_prepare_notify_unexp_event_with_recvq d =
      (if room log L then (Inr (recvq_offset (next_recvq_index d)), ?d) else (Inl EBUSY, ?e))"
    using full by (simp add: omx_prepare_notify_unexp_event_with_recvq_def Let_def)
  have "quiet log L ?e" by (rule quiet_frame [OF q]) simp_all
  moreover have "(\<exists>d''. omx_commit_notify_unexp_event_with_recvq evt ?d = Some d'' \<and> quiet (log @ [evt]) L d'')"
      "(\<exists>d''. omx_cancel_notify_unexp_event_with_recvq ?d = Some d'' \<and> quiet (log @ [OMX_EVT_IGNORE]) L d'')"
    if "room log L" "evt \<noteq> OMX_EVT_IGNORE" for evt
  proof -
    have step: "ring_exec (Prepare 1) (ring_of log L d) = ?s"
      using that(1) full by (simp add: omx_prepare_notify_unexp_events_with_recvq_def ring_of_def Let_def)
    have inv: "ring_inv ?s"
      using ring_inv_prepare [of "ring_of log L d" 1] q unfolding step quiet_def by blast
    have res: "unexp_reserved ?d" using unexp_reserved_iff [OF inv] by simp
    then have commit: "commit_event e ?s = take_event (nextreserved_unexp_eventq_index d) e ?c (ring_of log L d)" for e
      by (simp add: commit_event_def commit_unexp_take_def take_event_def ring_of_def)
    have inv': "ring_inv (take_event (nextreserved_unexp_eventq_index d) e ?c (ring_of log L d))" for e
      using ring_inv_commit [OF inv, of e] unfolding commit .
    show "\<exists>d''. omx_commit_notify_unexp_event_with_recvq evt ?d = Some d'' \<and> quiet (log @ [evt]) L d''"
      using res quiet_written [OF q inv' that(2)] by (simp add: omx_commit_notify_unexp_event_with_recvq_def commit_unexp_take_def)
    show "\<exists>d''. omx_cancel_notify_unexp_event_with_recvq ?d = Some d'' \<and> quiet (log @ [OMX_EVT_IGNORE]) L d''"
      using res quiet_ignored [OF q inv'] by (simp add: omx_cancel_notify_unexp_event_with_recvq_def commit_unexp_take_def)
  qed
  moreover have "OMX_EVT_NONE \<noteq> OMX_EVT_IGNORE" by simp
  ultimately show ?thesis unfolding op by (simp split: if_split) blast
qed

end
