(* ===== verification/Driver_Packets.thy ===== *)
theory Driver_Packets
  imports Driver_Recv Driver_Queue
begin

text \<open>
  The packets of the commands that send: what an event has to contain, and that the fields of the packet a command gives to
  the network are those of the command.
\<close>

subsection \<open>Events and slots of a destination\<close>

lemma upd_endpoint_upd_endpoint [simp]: "upd_endpoint e f (upd_endpoint e g n) = upd_endpoint e (\<lambda>ep. f (g ep)) n"
  by (simp add: upd_endpoint_def)

lemma notify_deliver:
  assumes "quiet log L (de_queues (n_endpoint n e))" "evt \<noteq> OMX_EVT_IGNORE"
  shows "room log L \<Longrightarrow> \<exists>q. notify_unexp e evt n = (None, upd_endpoint e (\<lambda>ep. ep\<lparr>de_queues := q\<rparr>) n) \<and> quiet (log @ [evt]) L q"
    "\<not> room log L \<Longrightarrow> \<exists>q. notify_unexp e evt n = (Some EBUSY, upd_endpoint e (\<lambda>ep. ep\<lparr>de_queues := q\<rparr>) n) \<and> quiet log L q"
  using notify_quiet [OF assms] by (auto simp: notify_unexp_def)

lemma recvq_deliver:
  assumes q: "quiet log L (de_queues (n_endpoint n e))" and bs: "length bs \<le> 8192" and room: "room log L"
  obtains i n1 n2 where "prepare_unexp e n = (Inr (recvq_offset i), n1)" "recvq_store e (unat (recvq_offset i)) bs n1 = Some n2"
    "n_endpoint n1 = (n_endpoint n)(e := (n_endpoint n e)\<lparr>de_queues := de_queues (n_endpoint n1 e)\<rparr>)"
    "\<And>evt. evt \<noteq> OMX_EVT_IGNORE \<Longrightarrow> \<exists>q. commit_unexp e evt n2 =
       Some (upd_endpoint e (\<lambda>ep. ep\<lparr>de_recvq := put_data (unat (recvq_offset i)) bs (de_recvq ep), de_queues := q\<rparr>) n) \<and>
       quiet (log @ [evt]) L q"
proof -
  let ?d = "de_queues (n_endpoint n e)"
  let ?off = "unat (recvq_offset (next_recvq_index ?d))"
  obtain d' where d': "omx_prepare_notify_unexp_event_with_recvq ?d = (Inr (recvq_offset (next_recvq_index ?d)), d')"
      "\<And>evt. evt \<noteq> OMX_EVT_IGNORE \<Longrightarrow> \<exists>d''. omx_commit_notify_unexp_event_with_recvq evt d' = Some d'' \<and> quiet (log @ [evt]) L d''"
    using prepare_quiet [OF q] room by auto
  let ?n1 = "upd_endpoint e (\<lambda>ep. ep\<lparr>de_queues := d'\<rparr>) n"
  let ?n2 = "upd_endpoint e (\<lambda>ep. ep\<lparr>de_queues := d', de_recvq := put_data ?off bs (de_recvq ep)\<rparr>) n"
  have 1: "prepare_unexp e n = (Inr (recvq_offset (next_recvq_index ?d)), ?n1)" by (simp add: prepare_unexp_def d'(1))
  have 2: "recvq_store e ?off bs ?n1 = Some ?n2"
    using recvq_offset_bound [of "next_recvq_index ?d"] bs by (simp add: recvq_store_def)
  have 3: "n_endpoint ?n1 = (n_endpoint n)(e := (n_endpoint n e)\<lparr>de_queues := de_queues (n_endpoint ?n1 e)\<rparr>)" by simp
  have 4: "\<exists>q. commit_unexp e evt ?n2 =
       Some (upd_endpoint e (\<lambda>ep. ep\<lparr>de_recvq := put_data ?off bs (de_recvq ep), de_queues := q\<rparr>) n) \<and> quiet (log @ [evt]) L q"
    if evt: "evt \<noteq> OMX_EVT_IGNORE" for evt
  proof -
    obtain d'' where "omx_commit_notify_unexp_event_with_recvq evt d' = Some d''" "quiet (log @ [evt]) L d''" using d'(2) [OF evt] by blast
    then show ?thesis by (intro exI [of _ d'']) (simp add: commit_unexp_def)
  qed
  show thesis by (rule that [OF 1 2 3 4])
qed

text \<open>Reading back what was stored, at the offset in the event.\<close>

lemma recvq_offset_small: "unat (ucast (recvq_offset i) :: u32) = unat (recvq_offset i)"
  using recvq_offset_bound [of i]
  by (simp add: unsigned_ucast_eq unsigned_take_bit_eq take_bit_nat_def OMX_RECVQ_SIZE_def limit_values)

lemma skb_copy_bits_split: "m \<le> len \<Longrightarrow> skb_copy_bits off len f = skb_copy_bits off m f @ skb_copy_bits (off + m) (len - m) f"
  by (rule nth_equalityI) (auto simp: skb_copy_bits_def nth_append)

lemma sendq_pages_bytes: "sendq_pages ep off len = Some bs \<Longrightarrow> bs = skb_copy_bits off len (de_sendq ep)"
proof (induction ep off len arbitrary: bs rule: sendq_pages.induct)
  case (1 ep off len)
  show ?case
  proof (cases "len = 0")
    case False
    let ?c = "min len PAGE_SIZE"
    have ok: "\<not> (OMX_SENDQ_SIZE div PAGE_SIZE \<le> off div PAGE_SIZE \<or> off mod PAGE_SIZE + ?c > PAGE_SIZE)"
      using 1(2) False by (subst (asm) sendq_pages.simps) (auto simp: Let_def)
    then obtain bs' where bs': "sendq_pages ep (off + ?c) (len - ?c) = Some bs'" "bs = skb_copy_bits off ?c (de_sendq ep) @ bs'"
      using 1(2) False by (subst (asm) sendq_pages.simps) (auto simp: Let_def split: Option.bind_splits)
    then show ?thesis using 1(1) [OF False refl ok bs'(1)] skb_copy_bits_split [of ?c len off "de_sendq ep"] by simp
  qed (use 1 in \<open>simp add: skb_copy_bits_def sendq_pages.simps\<close>)
qed

subsection \<open>What a command promises\<close>

text \<open>
  The event a message has to become: \<open>peer\<close> is the index of the sending machine in the table of the receiving one,
  \<open>src\<close> the index of the endpoint. The data of the longer messages is in the receive queue at the offset \<open>off\<close>.
\<close>

fun cmd_event :: "u16 \<Rightarrow> u8 \<Rightarrow> u32 \<Rightarrow> omx_cmd \<Rightarrow> omx_evt" where
  "cmd_event peer src off (OMX_CMD_SEND_TINY c) =
    OMX_EVT_RECV_TINY \<lparr>msg_peer_index = peer, msg_src_endpoint = src, msg_seqnum = tiny_seqnum c,
      msg_piggyack = tiny_piggyack c, msg_match_info = tiny_match_info c,
      msg_specific = Msg_tiny (tiny_checksum c) (tiny_length c) (take (unat (tiny_length c)) (tiny_data c))\<rparr>"
| "cmd_event peer src off (OMX_CMD_SEND_SMALL c) =
    OMX_EVT_RECV_SMALL \<lparr>msg_peer_index = peer, msg_src_endpoint = src, msg_seqnum = small_seqnum c,
      msg_piggyack = small_piggyack c, msg_match_info = small_match_info c,
      msg_specific = Msg_small off (small_length c) (small_checksum c)\<rparr>"
| "cmd_event peer src off (OMX_CMD_SEND_MEDIUMSQ_FRAG c) =
    OMX_EVT_RECV_MEDIUM_FRAG \<lparr>msg_peer_index = peer, msg_src_endpoint = src, msg_seqnum = msq_seqnum c,
      msg_piggyack = msq_piggyack c, msg_match_info = msq_match_info c,
      msg_specific = Msg_medium_frag off (msq_msg_length c) (msq_frag_length c) (msq_frag_seqnum c) 0 (msq_checksum c)\<rparr>"
| "cmd_event peer src off (OMX_CMD_SEND_RNDV c) =
    OMX_EVT_RECV_RNDV \<lparr>msg_peer_index = peer, msg_src_endpoint = src, msg_seqnum = rndv_seqnum c,
      msg_piggyack = rndv_piggyack c, msg_match_info = rndv_match_info c,
      msg_specific = Msg_rndv (rndv_msg_length c) (rndv_pulled_rdma_id c) (rndv_pulled_rdma_seqnum c) 0 (rndv_checksum c)\<rparr>"
| "cmd_event peer src off (OMX_CMD_SEND_NOTIFY c) =
    OMX_EVT_RECV_NOTIFY \<lparr>msg_peer_index = peer, msg_src_endpoint = src, msg_seqnum = notify_seqnum c,
      msg_piggyack = notify_piggyack c, msg_match_info = 0,
      msg_specific = Msg_notify (notify_total_length c) (notify_pulled_rdma_id c) (notify_pulled_rdma_seqnum c)\<rparr>"
| "cmd_event peer src off (OMX_CMD_SEND_LIBACK c) =
    OMX_EVT_RECV_LIBACK \<lparr>lb_peer_index = peer, lb_src_endpoint = src, lb_acknum = liback_acknum c,
      lb_lib_seqnum = liback_lib_seqnum c, lb_send_seq = liback_send_seq c, lb_resent = liback_resent c\<rparr>"
| "cmd_event peer src off _ = OMX_EVT_NONE"

text \<open>The data that is not in the event: in the memory of the application or in the send queue of the endpoint.\<close>

fun cmd_data :: "kernel_env \<Rightarrow> frame \<Rightarrow> omx_cmd \<Rightarrow> u8 list option" where
  "cmd_data env sendq (OMX_CMD_SEND_SMALL c) = copy_from_user env (small_vaddr c) (unat (small_length c))"
| "cmd_data env sendq (OMX_CMD_SEND_MEDIUMSQ_FRAG c) =
    Some (skb_copy_bits (unat (msq_sendq_offset c)) (unat (msq_frag_length c)) sendq)"
| "cmd_data env sendq _ = Some []"

definition delivers :: "kernel_env \<Rightarrow> frame \<Rightarrow> u16 \<Rightarrow> u8 \<Rightarrow> omx_cmd \<Rightarrow> frame \<Rightarrow> omx_evt \<Rightarrow> bool" where
  "delivers env sendq peer src cmd recvq evt \<longleftrightarrow>
    (\<exists>off bs. evt = cmd_event peer src off cmd \<and> cmd_data env sendq cmd = Some bs \<and>
      skb_copy_bits (unat off) (length bs) recvq = bs)"

text \<open>The fields all messages have: the peer and the endpoint they go to, the session, whether they stay on the machine.\<close>

record cmd_route =
  to_peer :: u16
  to_endpoint :: u8
  to_session :: u32
  to_shared :: bool
  cmd_seqnum :: u16
  cmd_nacked :: bool

fun route :: "omx_cmd \<Rightarrow> cmd_route option" where
  "route (OMX_CMD_SEND_TINY c) = Some \<lparr>to_peer = tiny_peer_index c, to_endpoint = tiny_dest_endpoint c,
     to_session = tiny_session_id c, to_shared = tiny_shared c, cmd_seqnum = tiny_seqnum c, cmd_nacked = True\<rparr>"
| "route (OMX_CMD_SEND_SMALL c) = Some \<lparr>to_peer = small_peer_index c, to_endpoint = small_dest_endpoint c,
     to_session = small_session_id c, to_shared = small_shared c, cmd_seqnum = small_seqnum c, cmd_nacked = True\<rparr>"
| "route (OMX_CMD_SEND_MEDIUMSQ_FRAG c) = Some \<lparr>to_peer = msq_peer_index c, to_endpoint = msq_dest_endpoint c,
     to_session = msq_session_id c, to_shared = msq_shared c, cmd_seqnum = msq_seqnum c, cmd_nacked = True\<rparr>"
| "route (OMX_CMD_SEND_RNDV c) = Some \<lparr>to_peer = rndv_peer_index c, to_endpoint = rndv_dest_endpoint c,
     to_session = rndv_session_id c, to_shared = rndv_shared c, cmd_seqnum = rndv_seqnum c, cmd_nacked = True\<rparr>"
| "route (OMX_CMD_SEND_NOTIFY c) = Some \<lparr>to_peer = notify_peer_index c, to_endpoint = notify_dest_endpoint c,
     to_session = notify_session_id c, to_shared = notify_shared c, cmd_seqnum = notify_seqnum c, cmd_nacked = True\<rparr>"
| "route (OMX_CMD_SEND_LIBACK c) = Some \<lparr>to_peer = liback_peer_index c, to_endpoint = liback_dest_endpoint c,
     to_session = liback_session_id c, to_shared = liback_shared c, cmd_seqnum = 0, cmd_nacked = False\<rparr>"
| "route _ = None"

text \<open>A tiny command has room for 32 bytes of data.\<close>

fun cmd_wf :: "omx_cmd \<Rightarrow> bool" where
  "cmd_wf (OMX_CMD_SEND_TINY c) \<longleftrightarrow> length (tiny_data c) = 32"
| "cmd_wf _ \<longleftrightarrow> True"

subsection \<open>On the wire\<close>

text \<open>The fields of the packet of a command: what a receiver reads.\<close>

definition msg_fields :: "u8 \<Rightarrow> u16 \<Rightarrow> u8 \<Rightarrow> cmd_route \<Rightarrow> u16 \<Rightarrow> u64 \<Rightarrow> frame \<Rightarrow> bool" where
  "msg_fields ptype peer src rt piggyack match_info f \<longleftrightarrow>
    OMX_NTOH_16 14 f = peer \<and> OMX_NTOH_8 16 f = ptype \<and> OMX_NTOH_8 17 f = to_endpoint rt \<and> OMX_NTOH_8 18 f = src \<and>
    OMX_NTOH_16 24 f = cmd_seqnum rt \<and> OMX_NTOH_16 26 f = piggyack \<and> OMX_NTOH_32 36 f = to_session rt \<and>
    OMX_NTOH_MATCH_INFO f = match_info"

fun on_wire :: "kernel_env \<Rightarrow> frame \<Rightarrow> u16 \<Rightarrow> u8 \<Rightarrow> omx_cmd \<Rightarrow> nat \<Rightarrow> frame \<Rightarrow> bool" where
  "on_wire env sendq peer src (OMX_CMD_SEND_TINY c) len f \<longleftrightarrow>
    msg_fields OMX_PKT_TYPE_TINY peer src (the (route (OMX_CMD_SEND_TINY c))) (tiny_piggyack c) (tiny_match_info c) f \<and>
    OMX_NTOH_16 20 f = ucast (tiny_length c) \<and> OMX_NTOH_16 22 f = tiny_checksum c \<and>
    ucast (tiny_length c) \<le> OMX_TINY_MSG_LENGTH_MAX \<and> len = max (40 + unat (tiny_length c)) ETH_ZLEN \<and>
    skb_copy_bits 40 (unat (tiny_length c)) f = take (unat (tiny_length c)) (tiny_data c)"
| "on_wire env sendq peer src (OMX_CMD_SEND_SMALL c) len f \<longleftrightarrow>
    msg_fields OMX_PKT_TYPE_SMALL peer src (the (route (OMX_CMD_SEND_SMALL c))) (small_piggyack c) (small_match_info c) f \<and>
    OMX_NTOH_16 20 f = small_length c \<and> OMX_NTOH_16 22 f = small_checksum c \<and>
    ucast (small_length c) \<le> OMX_SMALL_MSG_LENGTH_MAX \<and> len = max (40 + unat (small_length c)) ETH_ZLEN \<and>
    copy_from_user env (small_vaddr c) (unat (small_length c)) = Some (skb_copy_bits 40 (unat (small_length c)) f)"
| "on_wire env sendq peer src (OMX_CMD_SEND_MEDIUMSQ_FRAG c) len f \<longleftrightarrow>
    msg_fields OMX_PKT_TYPE_MEDIUM peer src (the (route (OMX_CMD_SEND_MEDIUMSQ_FRAG c))) (msq_piggyack c) (msq_match_info c) f \<and>
    OMX_NTOH_32 20 f = msq_msg_length c \<and> OMX_NTOH_16 40 f = msq_frag_length c \<and>
    OMX_NTOH_8 42 f = msq_frag_seqnum c \<and> OMX_NTOH_16 44 f = msq_checksum c \<and>
    unat (msq_frag_length c) \<le> OMX_SENDQ_ENTRY_SIZE \<and> len = max (48 + unat (msq_frag_length c)) ETH_ZLEN \<and>
    skb_copy_bits 48 (unat (msq_frag_length c)) f = skb_copy_bits (unat (msq_sendq_offset c)) (unat (msq_frag_length c)) sendq"
| "on_wire env sendq peer src (OMX_CMD_SEND_RNDV c) len f \<longleftrightarrow>
    msg_fields OMX_PKT_TYPE_RNDV peer src (the (route (OMX_CMD_SEND_RNDV c))) (rndv_piggyack c) (rndv_match_info c) f \<and>
    OMX_NTOH_16 20 f = OMX_PKT_RNDV_DATA_LENGTH \<and> OMX_NTOH_16 22 f = rndv_checksum c \<and>
    OMX_NTOH_32 40 f = rndv_msg_length c \<and> OMX_NTOH_8 44 f = rndv_pulled_rdma_id c \<and>
    OMX_NTOH_8 45 f = rndv_pulled_rdma_seqnum c \<and> OMX_NTOH_16 46 f = 0 \<and> len = ETH_ZLEN"
| "on_wire env sendq peer src (OMX_CMD_SEND_NOTIFY c) len f \<longleftrightarrow>
    OMX_NTOH_16 14 f = peer \<and> OMX_NTOH_8 16 f = OMX_PKT_TYPE_NOTIFY \<and> OMX_NTOH_8 17 f = notify_dest_endpoint c \<and>
    OMX_NTOH_8 18 f = src \<and> OMX_NTOH_32 20 f = notify_session_id c \<and> OMX_NTOH_32 24 f = notify_total_length c \<and>
    OMX_NTOH_8 28 f = notify_pulled_rdma_id c \<and> OMX_NTOH_8 29 f = notify_pulled_rdma_seqnum c \<and>
    OMX_NTOH_16 34 f = notify_seqnum c \<and> OMX_NTOH_16 36 f = notify_piggyack c \<and> len = ETH_ZLEN"
| "on_wire env sendq peer src (OMX_CMD_SEND_LIBACK c) len f \<longleftrightarrow>
    OMX_NTOH_16 14 f = peer \<and> OMX_NTOH_8 16 f = OMX_PKT_TYPE_TRUC \<and> OMX_NTOH_8 17 f = liback_dest_endpoint c \<and>
    OMX_NTOH_8 18 f = src \<and> OMX_NTOH_8 20 f = OMX_PKT_TRUC_LIBACK_DATA_LENGTH \<and> OMX_NTOH_32 24 f = liback_session_id c \<and>
    OMX_NTOH_8 28 f = OMX_PKT_TRUC_DATA_TYPE_ACK \<and> OMX_NTOH_16 30 f = liback_lib_seqnum c \<and>
    OMX_NTOH_32 32 f = liback_session_id c \<and> OMX_NTOH_32 36 f = liback_acknum c \<and> OMX_NTOH_16 40 f = liback_send_seq c \<and>
    OMX_NTOH_8 42 f = (if liback_resent c then 1 else 0) \<and> len = ETH_ZLEN"
| "on_wire env sendq peer src _ len f \<longleftrightarrow> False"

text \<open>A packet with the address of the target peer.\<close>

lemma set_target_peer_fields:
  assumes "omx_set_target_peer k index n f = Some g"
  shows "OMX_NTOH_16 14 g = ucast (if_reverse_peer_indexes (n_iface n k) ! unat index)"
    "omx_board_addr_from_ethhdr_src g = omx_board_addr_from_ethhdr_src f"
  using assms by (auto simp: omx_set_target_peer_def split: option.splits)

lemma new_skb_eq: "omx_new_skb env i len = Some skb \<Longrightarrow> skb\<lparr>skb_data := f\<rparr> = \<lparr>skb_len = len, skb_data = f\<rparr>"
  by (auto simp: omx_new_skb_def split: option.splits)

text \<open>The state after a packet was sent: besides the packet, only the reference and the expected events of the sender.\<close>

definition sent :: "nat \<Rightarrow> nat \<Rightarrow> nat \<Rightarrow> frame \<Rightarrow> omx_node \<Rightarrow> omx_node \<Rightarrow> bool" where
  "sent e k len f n n' \<longleftrightarrow> (\<exists>q r. n' = (upd_endpoint e (\<lambda>ep. ep\<lparr>de_refcount := r, de_queues := q\<rparr>) n)
      \<lparr>xmit := xmit n @ [(k, \<lparr>skb_len = len, skb_data = f\<rparr>)]\<rparr> \<and>
    (\<forall>log L. quiet log L (de_queues (n_endpoint n e)) \<longrightarrow> quiet log L q))"

lemma sent_plain: "sent e k len f n (dev_queue_xmit k \<lparr>skb_len = len, skb_data = f\<rparr> n)"
  unfolding sent_def
  by (intro exI [of _ "de_queues (n_endpoint n e)"] exI [of _ "de_refcount (n_endpoint n e)"])
    (simp add: dev_queue_xmit_def upd_endpoint_def)

lemma sentI: "P len f \<Longrightarrow> \<exists>len' f'. sent e k len' f' n (dev_queue_xmit k \<lparr>skb_len = len, skb_data = f\<rparr> n) \<and> P len' f'"
  using sent_plain by blast

lemma tiny_sent:
  assumes "omx_ioctl_send_tiny env ok e c n = Some (None, n')" "\<not> tiny_shared c" "de_iface (n_endpoint n e) = Some k" "length (tiny_data c) = 32"
  shows "\<exists>len f. sent e k len f n n' \<and> on_wire env (de_sendq (n_endpoint n e))
    (ucast (if_reverse_peer_indexes (n_iface n k) ! unat (tiny_peer_index c))) (de_endpoint_index (n_endpoint n e)) (OMX_CMD_SEND_TINY c) len f"
proof -
  from assms(1-3) obtain skb g where len: "ucast (tiny_length c) \<le> OMX_TINY_MSG_LENGTH_MAX"
    and skb: "omx_new_skb env 0 (max (40 + unat (tiny_length c)) ETH_ZLEN) = Some skb"
    and g: "omx_set_target_peer k (tiny_peer_index c) n (fill_ethhdr (if_dev_addr (n_iface n k)) (skb_data skb)) = Some g"
    and n': "n' = dev_queue_xmit k (skb\<lparr>skb_data := put_data 40 (take (unat (tiny_length c)) (tiny_data c))
      (OMX_HTON_MATCH_INFO (tiny_match_info c) (OMX_HTON_16 22 (tiny_checksum c) (OMX_HTON_32 36 (tiny_session_id c)
        (OMX_HTON_16 26 (tiny_piggyack c) (OMX_HTON_16 24 (tiny_seqnum c) (OMX_HTON_16 20 (ucast (tiny_length c))
          (OMX_HTON_8 16 OMX_PKT_TYPE_TINY (OMX_HTON_8 17 (tiny_dest_endpoint c) (OMX_HTON_8 18 (de_endpoint_index (n_endpoint n e)) g)))))))))\<rparr>) n"
    by (auto simp: omx_ioctl_send_tiny_def Let_def linorder_not_less split: if_splits option.splits)
  have "length (take (unat (tiny_length c)) (tiny_data c)) = unat (tiny_length c)"
    using len assms(4) by (simp add: OMX_TINY_MSG_LENGTH_MAX_def word_le_nat_alt unsigned_ucast_eq take_bit_nat_def)
  then have data: "skb_copy_bits 40 (unat (tiny_length c)) (put_data 40 (take (unat (tiny_length c)) (tiny_data c)) h) =
      take (unat (tiny_length c)) (tiny_data c)" for h
    using skb_copy_bits_put_data [of 40 "take (unat (tiny_length c)) (tiny_data c)"] by metis
  show ?thesis
    unfolding n' new_skb_eq [OF skb]
    by (rule sentI) (use len in \<open>simp add: msg_fields_def set_target_peer_fields [OF g] data\<close>)
qed

lemma copy_from_user_length: "copy_from_user env addr len = Some bs \<Longrightarrow> length bs = len"
  by (auto simp: copy_from_user_def Let_def split: if_splits)

lemma small_sent:
  assumes "omx_ioctl_send_small env e c n = Some (None, n')" "\<not> small_shared c" "de_iface (n_endpoint n e) = Some k"
  shows "\<exists>len f. sent e k len f n n' \<and> on_wire env (de_sendq (n_endpoint n e))
    (ucast (if_reverse_peer_indexes (n_iface n k) ! unat (small_peer_index c))) (de_endpoint_index (n_endpoint n e)) (OMX_CMD_SEND_SMALL c) len f"
proof -
  from assms obtain skb g bs where len: "ucast (small_length c) \<le> OMX_SMALL_MSG_LENGTH_MAX"
    and skb: "omx_new_skb env 0 (max (40 + unat (small_length c)) ETH_ZLEN) = Some skb"
    and g: "omx_set_target_peer k (small_peer_index c) n (fill_ethhdr (if_dev_addr (n_iface n k)) (skb_data skb)) = Some g"
    and bs: "copy_from_user env (small_vaddr c) (unat (small_length c)) = Some bs"
    and n': "n' = dev_queue_xmit k (skb\<lparr>skb_data := put_data 40 bs
      (OMX_HTON_MATCH_INFO (small_match_info c) (OMX_HTON_16 22 (small_checksum c) (OMX_HTON_32 36 (small_session_id c)
        (OMX_HTON_16 26 (small_piggyack c) (OMX_HTON_16 24 (small_seqnum c) (OMX_HTON_16 20 (small_length c)
          (OMX_HTON_8 16 OMX_PKT_TYPE_SMALL (OMX_HTON_8 17 (small_dest_endpoint c) (OMX_HTON_8 18 (de_endpoint_index (n_endpoint n e)) g)))))))))\<rparr>) n"
    by (auto simp: omx_ioctl_send_small_def Let_def linorder_not_less split: if_splits option.splits)
  have data: "skb_copy_bits 40 (unat (small_length c)) (put_data 40 bs h) = bs" for h
    using skb_copy_bits_put_data [of 40 bs] copy_from_user_length [OF bs] by metis
  show ?thesis
    unfolding n' new_skb_eq [OF skb]
    by (rule sentI) (use len bs in \<open>simp add: msg_fields_def set_target_peer_fields [OF g] data\<close>)
qed

lemma rndv_sent:
  assumes "omx_ioctl_send_rndv env e c n = Some (None, n')" "\<not> rndv_shared c" "de_iface (n_endpoint n e) = Some k"
  shows "\<exists>len f. sent e k len f n n' \<and> on_wire env (de_sendq (n_endpoint n e))
    (ucast (if_reverse_peer_indexes (n_iface n k) ! unat (rndv_peer_index c))) (de_endpoint_index (n_endpoint n e)) (OMX_CMD_SEND_RNDV c) len f"
proof -
  from assms obtain skb g where skb: "omx_new_skb env 0 (max 48 ETH_ZLEN) = Some skb"
    and g: "omx_set_target_peer k (rndv_peer_index c) n (fill_ethhdr (if_dev_addr (n_iface n k)) (skb_data skb)) = Some g"
    and n': "n' = dev_queue_xmit k (skb\<lparr>skb_data := OMX_HTON_16 46 0 (OMX_HTON_16 22 (rndv_checksum c) (OMX_HTON_8 45 (rndv_pulled_rdma_seqnum c)
      (OMX_HTON_8 44 (rndv_pulled_rdma_id c) (OMX_HTON_32 40 (rndv_msg_length c) (OMX_HTON_MATCH_INFO (rndv_match_info c)
        (OMX_HTON_32 36 (rndv_session_id c) (OMX_HTON_16 26 (rndv_piggyack c) (OMX_HTON_16 24 (rndv_seqnum c)
          (OMX_HTON_16 20 OMX_PKT_RNDV_DATA_LENGTH (OMX_HTON_8 16 OMX_PKT_TYPE_RNDV (OMX_HTON_8 17 (rndv_dest_endpoint c)
            (OMX_HTON_8 18 (de_endpoint_index (n_endpoint n e)) g))))))))))))\<rparr>) n"
    by (auto simp: omx_ioctl_send_rndv_def Let_def split: if_splits option.splits)
  show ?thesis
    unfolding n' new_skb_eq [OF skb]
    by (rule sentI) (simp add: msg_fields_def set_target_peer_fields [OF g] ETH_ZLEN_def)
qed

lemma notify_sent:
  assumes "omx_ioctl_send_notify env e c n = Some (None, n')" "\<not> notify_shared c" "de_iface (n_endpoint n e) = Some k"
  shows "\<exists>len f. sent e k len f n n' \<and> on_wire env (de_sendq (n_endpoint n e))
    (ucast (if_reverse_peer_indexes (n_iface n k) ! unat (notify_peer_index c))) (de_endpoint_index (n_endpoint n e)) (OMX_CMD_SEND_NOTIFY c) len f"
proof -
  from assms obtain skb g where skb: "omx_new_skb env 0 (max 40 ETH_ZLEN) = Some skb"
    and g: "omx_set_target_peer k (notify_peer_index c) n (fill_ethhdr (if_dev_addr (n_iface n k)) (skb_data skb)) = Some g"
    and n': "n' = dev_queue_xmit k (skb\<lparr>skb_data := OMX_HTON_8 29 (notify_pulled_rdma_seqnum c) (OMX_HTON_8 28 (notify_pulled_rdma_id c)
      (OMX_HTON_32 20 (notify_session_id c) (OMX_HTON_16 36 (notify_piggyack c) (OMX_HTON_16 34 (notify_seqnum c)
        (OMX_HTON_32 24 (notify_total_length c) (OMX_HTON_8 16 OMX_PKT_TYPE_NOTIFY (OMX_HTON_8 17 (notify_dest_endpoint c)
          (OMX_HTON_8 18 (de_endpoint_index (n_endpoint n e)) g))))))))\<rparr>) n"
    by (auto simp: omx_ioctl_send_notify_def Let_def split: if_splits option.splits)
  show ?thesis
    unfolding n' new_skb_eq [OF skb]
    by (rule sentI) (simp add: set_target_peer_fields [OF g] ETH_ZLEN_def)
qed

lemma liback_sent:
  assumes "omx_ioctl_send_liback env e c n = Some (None, n')" "\<not> liback_shared c" "de_iface (n_endpoint n e) = Some k"
  shows "\<exists>len f. sent e k len f n n' \<and> on_wire env (de_sendq (n_endpoint n e))
    (ucast (if_reverse_peer_indexes (n_iface n k) ! unat (liback_peer_index c))) (de_endpoint_index (n_endpoint n e)) (OMX_CMD_SEND_LIBACK c) len f"
proof -
  from assms obtain skb g where skb: "omx_new_skb env 0 (max 44 ETH_ZLEN) = Some skb"
    and g: "omx_set_target_peer k (liback_peer_index c) n (fill_ethhdr (if_dev_addr (n_iface n k)) (skb_data skb)) = Some g"
    and n': "n' = dev_queue_xmit k (skb\<lparr>skb_data := OMX_HTON_8 42 (if liback_resent c then 1 else 0) (OMX_HTON_16 40 (liback_send_seq c)
      (OMX_HTON_32 36 (liback_acknum c) (OMX_HTON_32 32 (liback_session_id c) (OMX_HTON_16 30 (liback_lib_seqnum c)
        (OMX_HTON_8 28 OMX_PKT_TRUC_DATA_TYPE_ACK (OMX_HTON_32 24 (liback_session_id c) (OMX_HTON_8 20 OMX_PKT_TRUC_LIBACK_DATA_LENGTH
          (OMX_HTON_8 16 OMX_PKT_TYPE_TRUC (OMX_HTON_8 17 (liback_dest_endpoint c)
            (OMX_HTON_8 18 (de_endpoint_index (n_endpoint n e)) g))))))))))\<rparr>) n"
    by (auto simp: omx_ioctl_send_liback_def Let_def split: if_splits option.splits)
  show ?thesis
    unfolding n' new_skb_eq [OF skb]
    by (rule sentI) (simp add: set_target_peer_fields [OF g] ETH_ZLEN_def)
qed

lemma medium_header_data: "skb_copy_bits 48 len (medium_header ep da c f) = skb_copy_bits 48 len f"
  by (simp add: skb_copy_bits_def medium_header_def Let_def OMX_HTON_8_def OMX_HTON_16_def OMX_HTON_32_def
      OMX_HTON_MATCH_INFO_def fill_ethhdr_def)

lemma medium_header_fields:
  assumes "OMX_NTOH_16 14 f = peer"
  shows "msg_fields OMX_PKT_TYPE_MEDIUM peer (de_endpoint_index ep) (the (route (OMX_CMD_SEND_MEDIUMSQ_FRAG c)))
      (msq_piggyack c) (msq_match_info c) (medium_header ep da c f)"
    "OMX_NTOH_32 20 (medium_header ep da c f) = msq_msg_length c" "OMX_NTOH_16 40 (medium_header ep da c f) = msq_frag_length c"
    "OMX_NTOH_8 42 (medium_header ep da c f) = msq_frag_seqnum c" "OMX_NTOH_16 44 (medium_header ep da c f) = msq_checksum c"
  using assms by (simp_all add: medium_header_def Let_def msg_fields_def)

lemma msg_fields_put_data [simp]: "48 \<le> off \<Longrightarrow> msg_fields t p src rt a m (put_data off bs f) = msg_fields t p src rt a m f"
  by (simp add: msg_fields_def)

lemma notify_exp_keeps:
  "\<exists>q. snd (notify_exp e evt n) = upd_endpoint e (\<lambda>ep. ep\<lparr>de_queues := q\<rparr>) n \<and>
    (\<forall>log L. quiet log L (de_queues (n_endpoint n e)) \<longrightarrow> quiet log L q)"
  by (rule exI [of _ "snd (omx_notify_exp_event evt (de_queues (n_endpoint n e)))"])
    (auto simp: notify_exp_def split: prod.splits intro: notify_exp_quiet)

lemma mediumsq_sent:
  assumes "omx_ioctl_send_mediumsq_frag cm fr env e c n = Some ((None, def), n')" "\<not> msq_shared c" "de_iface (n_endpoint n e) = Some k"
  shows "\<exists>len f. sent e k len f n n' \<and> on_wire env (de_sendq (n_endpoint n e))
    (ucast (if_reverse_peer_indexes (n_iface n k) ! unat (msq_peer_index c))) (de_endpoint_index (n_endpoint n e))
    (OMX_CMD_SEND_MEDIUMSQ_FRAG c) len f"
proof -
  let ?len = "unat (msq_frag_length c)" and ?off = "unat (msq_sendq_offset c)" and ?ep = "n_endpoint n e"
  let ?paged = "?len > cm \<and> 48 + ?len \<ge> ETH_ZLEN \<and> fr \<ge> ?len div 2 ^ OMX_SENDQ_ENTRY_SHIFT"
  let ?w = "on_wire env (de_sendq ?ep) (ucast (if_reverse_peer_indexes (n_iface n k) ! unat (msq_peer_index c)))
    (de_endpoint_index ?ep) (OMX_CMD_SEND_MEDIUMSQ_FRAG c)"
  let ?bytes = "skb_copy_bits ?off ?len (de_sendq ?ep)"
  have max: "?len \<le> OMX_SENDQ_ENTRY_SIZE"
    using assms by (auto simp: omx_ioctl_send_mediumsq_frag_def Let_def split: if_splits)
  have data: "skb_copy_bits 48 ?len (put_data 48 ?bytes h) = ?bytes" for h
    using skb_copy_bits_put_data [of 48 ?bytes] by (simp add: skb_copy_bits_def)
  show ?thesis
  proof (cases ?paged)
    case True
    with assms obtain skb g bs where skb: "omx_new_skb env 0 48 = Some skb"
      and g: "omx_set_target_peer k (msq_peer_index c) n (skb_data skb) = Some g" and bs: "sendq_pages ?ep ?off ?len = Some bs"
      and n': "n' = dev_queue_xmit k (skb\<lparr>skb_len := 48 + ?len, skb_data := put_data 48 bs (medium_header ?ep (if_dev_addr (n_iface n k)) c g)\<rparr>)
        (upd_endpoint e (\<lambda>ep. ep\<lparr>de_refcount := de_refcount ep + 1\<rparr>) n)"
      by (auto simp: omx_ioctl_send_mediumsq_frag_def Let_def split: if_splits option.splits Option.bind_splits)
    have "sent e k (48 + ?len) (put_data 48 bs (medium_header ?ep (if_dev_addr (n_iface n k)) c g)) n n'"
      unfolding sent_def n' by (intro exI [of _ "de_queues ?ep"] exI [of _ "de_refcount ?ep + 1"])
        (auto simp: dev_queue_xmit_def upd_endpoint_def)
    moreover have "?w (48 + ?len) (put_data 48 bs (medium_header ?ep (if_dev_addr (n_iface n k)) c g))"
      using True max by (simp add: medium_header_fields [simplified] set_target_peer_fields [OF g] sendq_pages_bytes [OF bs] data)
    ultimately show ?thesis by blast
  next
    case False
    with assms obtain skb g bs where skb: "omx_new_skb env 0 (max (48 + ?len) ETH_ZLEN) = Some skb"
      and g: "omx_set_target_peer k (msq_peer_index c) n (skb_data skb) = Some g" and bs: "sendq_bytes ?off ?len ?ep = Some bs"
      and n': "n' = dev_queue_xmit k (skb\<lparr>skb_data := medium_header ?ep
          (if_dev_addr (n_iface (snd (notify_exp e (OMX_EVT_SEND_MEDIUMSQ_FRAG_DONE (msq_sendq_offset c)) n)) k)) c (put_data 48 bs g)\<rparr>)
        (snd (notify_exp e (OMX_EVT_SEND_MEDIUMSQ_FRAG_DONE (msq_sendq_offset c)) n))"
      by (auto simp: omx_ioctl_send_mediumsq_frag_def Let_def split: if_splits option.splits Option.bind_splits)
    obtain q where q: "snd (notify_exp e (OMX_EVT_SEND_MEDIUMSQ_FRAG_DONE (msq_sendq_offset c)) n) = upd_endpoint e (\<lambda>ep. ep\<lparr>de_queues := q\<rparr>) n"
        "\<forall>log L. quiet log L (de_queues ?ep) \<longrightarrow> quiet log L q"
      using notify_exp_keeps by blast
    have "sent e k (max (48 + ?len) ETH_ZLEN) (medium_header ?ep (if_dev_addr (n_iface n k)) c (put_data 48 bs g)) n n'"
      unfolding sent_def n' new_skb_eq [OF skb] q(1) using q(2) by (intro exI [of _ q] exI [of _ "de_refcount ?ep"])
        (auto simp: dev_queue_xmit_def upd_endpoint_def)
    moreover have "bs = ?bytes" using bs by (simp add: sendq_bytes_def split: if_splits)
    then have "?w (max (48 + ?len) ETH_ZLEN) (medium_header ?ep (if_dev_addr (n_iface n k)) c (put_data 48 bs g))"
      using max by (simp add: medium_header_fields [simplified] medium_header_data set_target_peer_fields [OF g] data)
    ultimately show ?thesis by blast
  qed
qed

lemma ioctl_sent:
  assumes "omx_miscdev_ioctl other ie cmd e n = Some ((None, def), n')" "route cmd = Some rt" "\<not> to_shared rt" "cmd_wf cmd"
    "de_iface (n_endpoint n e) = Some k"
  shows "\<exists>len f. sent e k len f n n' \<and> on_wire (ie_kernel ie) (de_sendq (n_endpoint n e))
    (ucast (if_reverse_peer_indexes (n_iface n k) ! unat (to_peer rt))) (de_endpoint_index (n_endpoint n e)) cmd len f"
proof -
  have h: "omx_ioctl_with_endpoint_handler other ie cmd e n = Some ((None, def), n')"
    using assms(1) by (simp add: omx_miscdev_ioctl_def split: if_splits)
  show ?thesis
  proof (cases cmd)
    case (OMX_CMD_SEND_TINY c)
    with h assms show ?thesis by (auto simp: omx_ioctl_with_endpoint_handler_def simp del: on_wire.simps intro!: tiny_sent)
  next
    case (OMX_CMD_SEND_SMALL c)
    with h assms show ?thesis by (auto simp: omx_ioctl_with_endpoint_handler_def simp del: on_wire.simps intro!: small_sent)
  next
    case (OMX_CMD_SEND_MEDIUMSQ_FRAG c)
    with h assms show ?thesis by (auto simp: omx_ioctl_with_endpoint_handler_def simp del: on_wire.simps intro!: mediumsq_sent)
  next
    case (OMX_CMD_SEND_RNDV c)
    with h assms show ?thesis by (auto simp: omx_ioctl_with_endpoint_handler_def simp del: on_wire.simps intro!: rndv_sent)
  next
    case (OMX_CMD_SEND_NOTIFY c)
    with h assms show ?thesis by (auto simp: omx_ioctl_with_endpoint_handler_def simp del: on_wire.simps intro!: notify_sent)
  next
    case (OMX_CMD_SEND_LIBACK c)
    with h assms show ?thesis by (auto simp: omx_ioctl_with_endpoint_handler_def simp del: on_wire.simps intro!: liback_sent)
  qed (use assms in simp_all)
qed

end
