(* ===== verification/Driver_Transfer.thy ===== *)
theory Driver_Transfer
  imports Driver_Packets
begin

text \<open>
  From the command of one endpoint to the event of another one, through the network or within the machine: what the
  driver promises to the library about the commands that send.
\<close>

subsection \<open>Delivery\<close>

text \<open>The receiver knows the peer, and the endpoint is open in the session the message is for.\<close>

definition reaches :: "omx_node \<Rightarrow> nat \<Rightarrow> u16 \<Rightarrow> cmd_route \<Rightarrow> nat \<Rightarrow> bool" where
  "reaches m k peer rt e \<longleftrightarrow> peer_at (unat peer) m \<noteq> None \<and> omx_endpoint_acquire_by_iface_index k (to_endpoint rt) m = Inr e \<and>
    to_session rt = de_session_id (n_endpoint m e)"

text \<open>The event of a message has arrived at an endpoint, and nothing else has changed.\<close>

definition arrived :: "kernel_env \<Rightarrow> frame \<Rightarrow> u16 \<Rightarrow> u8 \<Rightarrow> omx_cmd \<Rightarrow> omx_evt list \<Rightarrow> nat \<Rightarrow> nat \<Rightarrow> omx_node \<Rightarrow> omx_node \<Rightarrow> bool" where
  "arrived env sendq peer src cmd log L e m m' \<longleftrightarrow>
    (\<exists>r q evt. m' = upd_endpoint e (\<lambda>ep. ep\<lparr>de_recvq := r, de_queues := q\<rparr>) m \<and> quiet (log @ [evt]) L q \<and>
      delivers env sendq peer src cmd r evt)"

lemma cmd_event_not_ignored: "cmd_event peer src off cmd \<noteq> OMX_EVT_IGNORE"
  by (cases cmd) auto

lemma arrived_notify:
  assumes "quiet log L (de_queues (n_endpoint m e))" "room log L" "cmd_data env sendq cmd = Some []"
  shows "arrived env sendq peer src cmd log L e m (snd (notify_unexp e (cmd_event peer src off cmd) m))"
proof -
  let ?evt = "cmd_event peer src off cmd"
  obtain q where q: "notify_unexp e ?evt m = (None, upd_endpoint e (\<lambda>ep. ep\<lparr>de_queues := q\<rparr>) m)" "quiet (log @ [?evt]) L q"
    using notify_deliver(1) [OF assms(1) cmd_event_not_ignored assms(2)] by blast
  have "delivers env sendq peer src cmd r ?evt" for r
    unfolding delivers_def using assms(3) by (intro exI [of _ off] exI [of _ "[]"]) (simp add: skb_copy_bits_def)
  then show ?thesis
    unfolding arrived_def using q
    by (intro exI [of _ "de_recvq (n_endpoint m e)"] exI [of _ q] exI [of _ ?evt]) (simp add: upd_endpoint_def)
qed

text \<open>A message with data: a slot is prepared, filled and committed.\<close>

lemma arrived_slot:
  assumes q: "quiet log L (de_queues (n_endpoint m e))" and "room log L" "cmd_data env sendq cmd = Some bs" "length bs \<le> 8192"
  obtains roff m1 m2 m3 where "prepare_unexp e m = (Inr roff, m1)" "recvq_store e (unat roff) bs m1 = Some m2"
    "commit_unexp e (cmd_event peer src (ucast roff) cmd) m2 = Some m3" "arrived env sendq peer src cmd log L e m m3"
    "\<exists>q. m1 = upd_endpoint e (\<lambda>ep. ep\<lparr>de_queues := q\<rparr>) m"
proof -
  obtain i m1 m2 where s: "prepare_unexp e m = (Inr (recvq_offset i), m1)" "recvq_store e (unat (recvq_offset i)) bs m1 = Some m2"
      "\<And>evt. evt \<noteq> OMX_EVT_IGNORE \<Longrightarrow> \<exists>q. commit_unexp e evt m2 =
         Some (upd_endpoint e (\<lambda>ep. ep\<lparr>de_recvq := put_data (unat (recvq_offset i)) bs (de_recvq ep), de_queues := q\<rparr>) m) \<and>
         quiet (log @ [evt]) L q"
    by (rule recvq_deliver [OF q assms(4,2)]) blast
  let ?evt = "cmd_event peer src (ucast (recvq_offset i)) cmd"
  let ?r = "put_data (unat (recvq_offset i)) bs (de_recvq (n_endpoint m e))"
  obtain q where q: "commit_unexp e ?evt m2 =
        Some (upd_endpoint e (\<lambda>ep. ep\<lparr>de_recvq := put_data (unat (recvq_offset i)) bs (de_recvq ep), de_queues := q\<rparr>) m)"
      "quiet (log @ [?evt]) L q"
    using s(3) [OF cmd_event_not_ignored] by blast
  have "delivers env sendq peer src cmd ?r ?evt"
    unfolding delivers_def using assms(3)
    by (intro exI [of _ "ucast (recvq_offset i)"] exI [of _ bs]) (simp add: recvq_offset_small)
  then have "arrived env sendq peer src cmd log L e m
      (upd_endpoint e (\<lambda>ep. ep\<lparr>de_recvq := put_data (unat (recvq_offset i)) bs (de_recvq ep), de_queues := q\<rparr>) m)"
    unfolding arrived_def using q(2) by (intro exI [of _ ?r] exI [of _ q] exI [of _ ?evt]) (simp add: upd_endpoint_def)
  moreover have "\<exists>q. m1 = upd_endpoint e (\<lambda>ep. ep\<lparr>de_queues := q\<rparr>) m"
    using s(1) by (auto simp: prepare_unexp_def split: prod.splits)
  ultimately show thesis by (rule that [OF s(1,2) q(1)])
qed

lemma pkt_type_tables:
  "omx_pkt_type_handler OMX_PKT_TYPE_TINY = Recv_tiny" "omx_pkt_type_hdr_len OMX_PKT_TYPE_TINY = 40"
  "omx_pkt_type_handler OMX_PKT_TYPE_SMALL = Recv_small" "omx_pkt_type_hdr_len OMX_PKT_TYPE_SMALL = 40"
  "omx_pkt_type_handler OMX_PKT_TYPE_MEDIUM = Recv_medium_frag" "omx_pkt_type_hdr_len OMX_PKT_TYPE_MEDIUM = 48"
  "omx_pkt_type_handler OMX_PKT_TYPE_RNDV = Recv_rndv" "omx_pkt_type_hdr_len OMX_PKT_TYPE_RNDV = 40"
  "omx_pkt_type_handler OMX_PKT_TYPE_NOTIFY = Recv_notify" "omx_pkt_type_hdr_len OMX_PKT_TYPE_NOTIFY = 40"
  "omx_pkt_type_handler OMX_PKT_TYPE_TRUC = Recv_truc" "omx_pkt_type_hdr_len OMX_PKT_TYPE_TRUC = 44"
  "omx_pkt_type_handler OMX_PKT_TYPE_CONNECT = Recv_connect" "omx_pkt_type_hdr_len OMX_PKT_TYPE_CONNECT = 48"
  "omx_pkt_type_handler OMX_PKT_TYPE_NACK_LIB = Recv_nack_lib" "omx_pkt_type_hdr_len OMX_PKT_TYPE_NACK_LIB = 32"
  by (simp_all add: omx_pkt_type_handler_def omx_pkt_type_hdr_len_def pkt_type_defs)

lemma data_fits:
  assumes "hdr + unat l \<le> len" "len < 2 ^ 20"
  shows "\<not> ucast (l :: u16) > skb_data_len \<lparr>skb_len = len, skb_data = f\<rparr> hdr"
proof -
  have "unat (of_nat len - of_nat hdr :: u64) = len - hdr"
    using assms by (simp add: of_nat_diff [symmetric] unat_of_nat take_bit_nat_def del: of_nat_diff)
  moreover have "unat (ucast l :: u64) = unat l" by (simp add: unsigned_ucast_eq take_bit_nat_def)
  ultimately show ?thesis using assms(1) by (simp add: skb_data_len_def word_less_nat_alt)
qed

lemma tiny_length_small:
  assumes "\<not> ucast (l :: u8) > OMX_TINY_MSG_LENGTH_MAX"
  shows "unat l \<le> 32" "unat (ucast l :: u16) = unat l" "ucast (ucast l :: u16) = l" "ucast (ucast l :: u16) = (ucast l :: u32)"
proof -
  show l: "unat l \<le> 32"
    using assms by (simp add: OMX_TINY_MSG_LENGTH_MAX_def word_less_nat_alt unsigned_ucast_eq take_bit_nat_def)
  then show "unat (ucast l :: u16) = unat l" "ucast (ucast l :: u16) = l" "ucast (ucast l :: u16) = (ucast l :: u32)"
    by (simp_all add: word_unat_eq_iff unsigned_ucast_eq unsigned_take_bit_eq take_bit_nat_def)
qed

lemma small_length_small: "\<not> ucast (l :: u16) > OMX_SMALL_MSG_LENGTH_MAX \<Longrightarrow> unat l \<le> 128"
  by (simp add: OMX_SMALL_MSG_LENGTH_MAX_def word_less_nat_alt unsigned_ucast_eq take_bit_nat_def)

lemma tiny_arrives:
  assumes w: "on_wire env sendq peer src (OMX_CMD_SEND_TINY c) len f" and r: "reaches m k peer (the (route (OMX_CMD_SEND_TINY c))) e"
  shows "omx_recv_tiny env' k \<lparr>skb_len = len, skb_data = f\<rparr> m = Some (notify_unexp e (cmd_event peer src 0 (OMX_CMD_SEND_TINY c)) m)"
proof -
  have l: "\<not> ucast (tiny_length c) > OMX_TINY_MSG_LENGTH_MAX" using w by (simp add: linorder_not_less)
  note u = tiny_length_small [OF l]
  have len: "40 + unat (OMX_NTOH_16 20 f) \<le> len" "len < 2 ^ 20" using w u(1,2) by (simp_all add: ETH_ZLEN_def)
  show ?thesis
    using w r l data_fits [OF len, of f] len(1)
    by (simp add: reaches_def omx_recv_tiny_def Let_def msg_fields_def skb_bits_def u omx_check_recv_peer_index_def)
qed

lemma wire_arrives:
  assumes "on_wire env sendq peer src cmd len f" "route cmd = Some rt" "reaches m k peer rt e"
    "omx_iface_find_by_ifp ifp m = Some k" "quiet log L (de_queues (n_endpoint m e))" "room log L"
  shows "\<exists>m'. omx_recv other env' ifp \<lparr>skb_len = len, skb_data = f\<rparr> m = Some m' \<and> arrived env sendq peer src cmd log L e m m'"
proof -
  obtain p where p: "peer_at (unat peer) m = Some p" using assms(3) by (auto simp: reaches_def)
  have acq: "omx_endpoint_acquire_by_iface_index k (to_endpoint rt) m = Inr e" "to_session rt = de_session_id (n_endpoint m e)"
    using assms(3) by (simp_all add: reaches_def)
  show ?thesis
  proof (cases cmd)
    case (OMX_CMD_SEND_TINY c)
    have "40 \<le> len" "OMX_NTOH_8 16 f = OMX_PKT_TYPE_TINY" using assms(1) OMX_CMD_SEND_TINY by (simp_all add: msg_fields_def)
    then have "omx_recv other env' ifp \<lparr>skb_len = len, skb_data = f\<rparr> m = Some (snd (notify_unexp e (cmd_event peer src 0 cmd) m))"
      using tiny_arrives [of env sendq peer src c len f m k e env'] assms(1-4) OMX_CMD_SEND_TINY
      by (simp add: omx_recv_def handle_packet_def pkt_type_tables)
    moreover have "cmd_data env sendq cmd = Some []" using OMX_CMD_SEND_TINY by simp
    ultimately show ?thesis using arrived_notify [OF assms(5,6)] by blast
  next
    case (OMX_CMD_SEND_RNDV c)
    have rt: "to_endpoint rt = rndv_dest_endpoint c" "to_session rt = rndv_session_id c" using assms(2) OMX_CMD_SEND_RNDV by auto
    have "omx_recv_rndv env' k \<lparr>skb_len = len, skb_data = f\<rparr> m = Some (notify_unexp e (cmd_event peer src 0 cmd) m)"
      using assms(1) OMX_CMD_SEND_RNDV p acq [unfolded rt]
      by (simp add: omx_recv_rndv_def Let_def msg_fields_def omx_check_recv_peer_index_def)
    then have "omx_recv other env' ifp \<lparr>skb_len = len, skb_data = f\<rparr> m = Some (snd (notify_unexp e (cmd_event peer src 0 cmd) m))"
      using assms(1,4) OMX_CMD_SEND_RNDV by (simp add: omx_recv_def handle_packet_def msg_fields_def pkt_type_tables ETH_ZLEN_def)
    moreover have "cmd_data env sendq cmd = Some []" using OMX_CMD_SEND_RNDV by simp
    ultimately show ?thesis using arrived_notify [OF assms(5,6)] by blast
  next
    case (OMX_CMD_SEND_NOTIFY c)
    have rt: "to_endpoint rt = notify_dest_endpoint c" "to_session rt = notify_session_id c" using assms(2) OMX_CMD_SEND_NOTIFY by auto
    have "omx_recv_notify env' k \<lparr>skb_len = len, skb_data = f\<rparr> m = Some (notify_unexp e (cmd_event peer src 0 cmd) m)"
      using assms(1) OMX_CMD_SEND_NOTIFY p acq [unfolded rt]
      by (simp add: omx_recv_notify_def Let_def msg_fields_def omx_check_recv_peer_index_def)
    then have "omx_recv other env' ifp \<lparr>skb_len = len, skb_data = f\<rparr> m = Some (snd (notify_unexp e (cmd_event peer src 0 cmd) m))"
      using assms(1,4) OMX_CMD_SEND_NOTIFY by (simp add: omx_recv_def handle_packet_def msg_fields_def pkt_type_tables ETH_ZLEN_def)
    moreover have "cmd_data env sendq cmd = Some []" using OMX_CMD_SEND_NOTIFY by simp
    ultimately show ?thesis using arrived_notify [OF assms(5,6)] by blast
  next
    case (OMX_CMD_SEND_LIBACK c)
    have rt: "to_endpoint rt = liback_dest_endpoint c" "to_session rt = liback_session_id c" using assms(2) OMX_CMD_SEND_LIBACK by auto
    have "omx_recv other env' ifp \<lparr>skb_len = len, skb_data = f\<rparr> m = Some (snd (notify_unexp e (cmd_event peer src 0 cmd) m))"
      using assms(1,4) OMX_CMD_SEND_LIBACK p acq [unfolded rt]
      by (simp add: omx_recv_def handle_packet_def omx_recv_truc_def Let_def pkt_type_tables ETH_ZLEN_def omx_check_recv_peer_index_def)
    moreover have "cmd_data env sendq cmd = Some []" using OMX_CMD_SEND_LIBACK by simp
    ultimately show ?thesis using arrived_notify [OF assms(5,6)] by blast
  next
    case (OMX_CMD_SEND_SMALL c)
    let ?n = "unat (small_length c)" and ?bs = "skb_copy_bits 40 (unat (small_length c)) f"
    have l: "\<not> ucast (small_length c) > OMX_SMALL_MSG_LENGTH_MAX" using assms(1) OMX_CMD_SEND_SMALL by (simp add: linorder_not_less)
    have len: "40 + unat (OMX_NTOH_16 20 f) \<le> len" "len < 2 ^ 20"
      using assms(1) OMX_CMD_SEND_SMALL small_length_small [OF l] by (simp_all add: ETH_ZLEN_def)
    have rt: "to_endpoint rt = small_dest_endpoint c" "to_session rt = small_session_id c" using assms(2) OMX_CMD_SEND_SMALL by auto
    have "cmd_data env sendq cmd = Some ?bs" "length ?bs \<le> 8192"
      using assms(1) OMX_CMD_SEND_SMALL small_length_small [OF l] by (simp_all add: skb_copy_bits_def)
    then obtain roff m1 m2 m3 where m: "prepare_unexp e m = (Inr roff, m1)" "recvq_store e (unat roff) ?bs m1 = Some m2"
        "commit_unexp e (cmd_event peer src (ucast roff) cmd) m2 = Some m3" "arrived env sendq peer src cmd log L e m m3"
      by (rule arrived_slot [OF assms(5,6)]) blast
    have "omx_recv_small env' k \<lparr>skb_len = len, skb_data = f\<rparr> m = Some (None, m3)"
      using assms(1) OMX_CMD_SEND_SMALL l data_fits [OF len, of f] len(1) p acq [unfolded rt] m(1-3)
      by (simp add: omx_recv_small_def Let_def msg_fields_def skb_bits_def omx_check_recv_peer_index_def)
    then have "omx_recv other env' ifp \<lparr>skb_len = len, skb_data = f\<rparr> m = Some m3"
      using assms(1,4) OMX_CMD_SEND_SMALL by (simp add: omx_recv_def handle_packet_def pkt_type_tables msg_fields_def)
    then show ?thesis using m(4) by blast
  next
    case (OMX_CMD_SEND_MEDIUMSQ_FRAG c)
    let ?n = "unat (msq_frag_length c)" and ?bs = "skb_copy_bits 48 (unat (msq_frag_length c)) f"
    have l: "?n \<le> 8192" using assms(1) OMX_CMD_SEND_MEDIUMSQ_FRAG by (simp add: limit_values)
    have len: "48 + unat (OMX_NTOH_16 40 f) \<le> len" "len < 2 ^ 20"
      using assms(1) OMX_CMD_SEND_MEDIUMSQ_FRAG l by (simp_all add: ETH_ZLEN_def)
    have rt: "to_endpoint rt = msq_dest_endpoint c" "to_session rt = msq_session_id c" using assms(2) OMX_CMD_SEND_MEDIUMSQ_FRAG by auto
    have "cmd_data env sendq cmd = Some ?bs" "length ?bs \<le> 8192"
      using assms(1) OMX_CMD_SEND_MEDIUMSQ_FRAG l by (simp_all add: skb_copy_bits_def)
    then obtain roff m1 m2 m3 where m: "prepare_unexp e m = (Inr roff, m1)" "recvq_store e (unat roff) ?bs m1 = Some m2"
        "commit_unexp e (cmd_event peer src (ucast roff) cmd) m2 = Some m3" "arrived env sendq peer src cmd log L e m m3"
      by (rule arrived_slot [OF assms(5,6)]) blast
    have "omx_recv_medium_frag env' k \<lparr>skb_len = len, skb_data = f\<rparr> m = Some (None, m3)"
      using assms(1) OMX_CMD_SEND_MEDIUMSQ_FRAG l data_fits [OF len, of f] len(1) p acq [unfolded rt] m(1-3)
      by (simp add: omx_recv_medium_frag_def Let_def msg_fields_def skb_bits_def omx_check_recv_peer_index_def limit_values)
    then have "omx_recv other env' ifp \<lparr>skb_len = len, skb_data = f\<rparr> m = Some m3"
      using assms(1,4) OMX_CMD_SEND_MEDIUMSQ_FRAG by (simp add: omx_recv_def handle_packet_def pkt_type_tables msg_fields_def)
    then show ?thesis using m(4) by blast
  qed (use assms in simp_all)
qed

subsection \<open>Within the machine\<close>

text \<open>The destination is an endpoint of this machine that is open in the session of the message.\<close>

definition reaches_local :: "omx_node \<Rightarrow> cmd_route \<Rightarrow> nat \<Rightarrow> bool" where
  "reaches_local n rt e \<longleftrightarrow> omx_local_peer_acquire_endpoint (to_peer rt) (to_endpoint rt) n = Some (Inr e) \<and>
    to_session rt = de_session_id (n_endpoint n e)"

lemma shared_dest:
  assumes "reaches_local n rt e"
  shows "omx_shared_get_endpoint_or_nack_type (to_peer rt) (to_endpoint rt) (to_session rt) n = Inr e"
    "omx_shared_get_endpoint_or_notify_nack src (to_peer rt) (to_endpoint rt) (to_session rt) seq n = (Some e, n)"
  using assms by (simp_all add: omx_shared_get_endpoint_or_notify_nack_def omx_shared_get_endpoint_or_nack_type_def reaches_local_def)

text \<open>The message is in the queues of the destination.\<close>

definition arrived_in :: "kernel_env \<Rightarrow> frame \<Rightarrow> u16 \<Rightarrow> u8 \<Rightarrow> omx_cmd \<Rightarrow> omx_evt list \<Rightarrow> nat \<Rightarrow> d_endpoint \<Rightarrow> bool" where
  "arrived_in env sendq peer src cmd log L ep \<longleftrightarrow>
    (\<exists>evt. quiet (log @ [evt]) L (de_queues ep) \<and> delivers env sendq peer src cmd (de_recvq ep) evt)"

lemma arrived_in_endpoint: "arrived env sendq peer src cmd log L e m m' \<Longrightarrow> arrived_in env sendq peer src cmd log L (n_endpoint m' e)"
  by (auto simp: arrived_def arrived_in_def)

lemma arrived_in_notify_exp:
  assumes "arrived_in env sendq peer src cmd log L (n_endpoint n e)"
  shows "arrived_in env sendq peer src cmd log L (n_endpoint (snd (notify_exp e' evt n)) e)"
proof -
  obtain q where "snd (notify_exp e' evt n) = upd_endpoint e' (\<lambda>ep. ep\<lparr>de_queues := q\<rparr>) n"
      "\<forall>log L. quiet log L (de_queues (n_endpoint n e')) \<longrightarrow> quiet log L q"
    using notify_exp_keeps by blast
  then show ?thesis using assms by (auto simp: arrived_in_def)
qed

lemma own_peer_index_upd [simp]:
  "own_peer_index e (upd_endpoint d (\<lambda>ep. ep\<lparr>de_queues := q\<rparr>) n) = own_peer_index e n"
  "own_peer_index e (upd_endpoint d (\<lambda>ep. ep\<lparr>de_recvq := r ep, de_queues := q\<rparr>) n) = own_peer_index e n"
  "own_peer_index e (upd_endpoint d (\<lambda>ep. ep\<lparr>de_queues := q, de_recvq := r ep\<rparr>) n) = own_peer_index e n"
  by (simp_all add: own_peer_index_def)

lemma recvq_store_keeps:
  assumes "recvq_store d off bs (upd_endpoint d (\<lambda>ep. ep\<lparr>de_queues := q\<rparr>) n) = Some n'"
  shows "own_peer_index e n' = own_peer_index e n" "de_endpoint_index (n_endpoint n' e) = de_endpoint_index (n_endpoint n e)"
    "de_sendq (n_endpoint n' e) = de_sendq (n_endpoint n e)"
  using assms by (auto simp: recvq_store_def own_peer_index_def split: if_splits)

lemma shared_arrives_notified:
  assumes h: "omx_ioctl_with_endpoint_handler other ie cmd e n = Some ((None, def), n')" and rt: "route cmd = Some rt" "to_shared rt"
    and dst: "reaches_local n rt d" and own: "own_peer_index e n = Some p"
    and data: "case cmd of OMX_CMD_SEND_SMALL _ \<Rightarrow> False | OMX_CMD_SEND_MEDIUMSQ_FRAG _ \<Rightarrow> False | _ \<Rightarrow> True"
  shows "n' = snd (notify_unexp d (cmd_event (ucast p) (de_endpoint_index (n_endpoint n e)) 0 cmd) n)"
proof -
  note d = shared_dest [OF dst]
  show ?thesis
  proof (cases cmd)
    case (OMX_CMD_SEND_TINY c)
    then have r: "rt = the (route (OMX_CMD_SEND_TINY c))" using rt by simp
    show ?thesis using h OMX_CMD_SEND_TINY rt(2) own d [unfolded r]
      by (auto simp: r omx_ioctl_with_endpoint_handler_def omx_ioctl_send_tiny_def omx_shared_send_tiny_def Let_def
          split: if_splits Option.bind_splits)
  next
    case (OMX_CMD_SEND_RNDV c)
    then have r: "rt = the (route (OMX_CMD_SEND_RNDV c))" using rt by simp
    show ?thesis using h OMX_CMD_SEND_RNDV rt(2) own d [unfolded r]
      by (auto simp: r omx_ioctl_with_endpoint_handler_def omx_ioctl_send_rndv_def omx_shared_send_rndv_def Let_def
          split: if_splits Option.bind_splits)
  next
    case (OMX_CMD_SEND_NOTIFY c)
    then have r: "rt = the (route (OMX_CMD_SEND_NOTIFY c))" using rt by simp
    show ?thesis using h OMX_CMD_SEND_NOTIFY rt(2) own d [unfolded r]
      by (auto simp: r omx_ioctl_with_endpoint_handler_def omx_ioctl_send_notify_def omx_shared_send_notify_def Let_def
          split: if_splits Option.bind_splits)
  next
    case (OMX_CMD_SEND_LIBACK c)
    then have r: "rt = the (route (OMX_CMD_SEND_LIBACK c))" using rt by simp
    show ?thesis using h OMX_CMD_SEND_LIBACK rt(2) own d [unfolded r]
      by (auto simp: r omx_ioctl_with_endpoint_handler_def omx_ioctl_send_liback_def omx_shared_send_liback_def Let_def
          split: if_splits Option.bind_splits)
  qed (use rt data in simp_all)
qed

lemma shared_small_arrives:
  assumes h: "omx_ioctl_with_endpoint_handler other ie (OMX_CMD_SEND_SMALL c) e n = Some ((None, def), n')"
    and sh: "small_shared c" and dst: "reaches_local n (the (route (OMX_CMD_SEND_SMALL c))) d" and own: "own_peer_index e n = Some p"
    and q: "quiet log L (de_queues (n_endpoint n d))" "room log L"
  shows "arrived (ie_kernel ie) (de_sendq (n_endpoint n e)) (ucast p) (de_endpoint_index (n_endpoint n e)) (OMX_CMD_SEND_SMALL c) log L d n n'"
proof -
  let ?env = "ie_kernel ie" and ?cmd = "OMX_CMD_SEND_SMALL c"
  have s: "omx_shared_send_small ?env e c n = Some (None, n')" and l: "\<not> ucast (small_length c) > OMX_SMALL_MSG_LENGTH_MAX"
    using h sh by (auto simp: omx_ioctl_with_endpoint_handler_def omx_ioctl_send_small_def Let_def split: if_splits Option.bind_splits)
  obtain bs where bs: "copy_from_user ?env (small_vaddr c) (unat (small_length c)) = Some bs"
    using s shared_dest(2) [OF dst, of e "small_seqnum c"] prepare_quiet [OF q(1)] q(2)
    by (auto simp: omx_shared_send_small_def prepare_unexp_def cancel_unexp_def split: option.splits Option.bind_splits)
  then have "cmd_data ?env (de_sendq (n_endpoint n e)) ?cmd = Some bs" "length bs \<le> 8192"
    using copy_from_user_length [OF bs] small_length_small [OF l] by simp_all
  then obtain roff n1 n2 n3 x where m: "prepare_unexp d n = (Inr roff, n1)" "recvq_store d (unat roff) bs n1 = Some n2"
      "commit_unexp d (cmd_event (ucast p) (de_endpoint_index (n_endpoint n e)) (ucast roff) ?cmd) n2 = Some n3"
      "arrived ?env (de_sendq (n_endpoint n e)) (ucast p) (de_endpoint_index (n_endpoint n e)) ?cmd log L d n n3"
      "n1 = upd_endpoint d (\<lambda>ep. ep\<lparr>de_queues := x\<rparr>) n"
    by (rule arrived_slot [OF q]) blast
  have "own_peer_index e n2 = Some p" "de_endpoint_index (n_endpoint n2 e) = de_endpoint_index (n_endpoint n e)"
    using recvq_store_keeps [OF m(2) [unfolded m(5)], of e] own by simp_all
  then have "n' = n3"
    using s shared_dest(2) [OF dst, of e "small_seqnum c"] m(1-3) bs by (simp add: omx_shared_send_small_def)
  then show ?thesis using m(4) by simp
qed

lemma shared_mediumsq_arrives:
  assumes h: "omx_ioctl_with_endpoint_handler other ie (OMX_CMD_SEND_MEDIUMSQ_FRAG c) e n = Some ((None, def), n')"
    and sh: "msq_shared c" and dst: "reaches_local n (the (route (OMX_CMD_SEND_MEDIUMSQ_FRAG c))) d" and own: "own_peer_index e n = Some p"
    and q: "quiet log L (de_queues (n_endpoint n d))" "room log L"
  shows "\<exists>m. arrived (ie_kernel ie) (de_sendq (n_endpoint n e)) (ucast p) (de_endpoint_index (n_endpoint n e)) (OMX_CMD_SEND_MEDIUMSQ_FRAG c) log L d n m \<and>
    n' = snd (notify_exp e (OMX_EVT_SEND_MEDIUMSQ_FRAG_DONE (msq_sendq_offset c)) m)"
proof -
  let ?env = "ie_kernel ie" and ?cmd = "OMX_CMD_SEND_MEDIUMSQ_FRAG c"
  let ?off = "unat (msq_sendq_offset c)" and ?len = "unat (msq_frag_length c)"
  let ?bs = "skb_copy_bits ?off ?len (de_sendq (n_endpoint n e))"
  have s: "omx_shared_send_mediumsq_frag e c n = Some (None, n')" and l: "?len \<le> 8192"
    using h sh by (auto simp: omx_ioctl_with_endpoint_handler_def omx_ioctl_send_mediumsq_frag_def Let_def limit_values
        split: if_splits Option.bind_splits)
  have "cmd_data ?env (de_sendq (n_endpoint n e)) ?cmd = Some ?bs" "length ?bs \<le> 8192" using l by (simp_all add: skb_copy_bits_def)
  then obtain roff n1 n2 n3 x where m: "prepare_unexp d n = (Inr roff, n1)" "recvq_store d (unat roff) ?bs n1 = Some n2"
      "commit_unexp d (cmd_event (ucast p) (de_endpoint_index (n_endpoint n e)) (ucast roff) ?cmd) n2 = Some n3"
      "arrived ?env (de_sendq (n_endpoint n e)) (ucast p) (de_endpoint_index (n_endpoint n e)) ?cmd log L d n n3"
      "n1 = upd_endpoint d (\<lambda>ep. ep\<lparr>de_queues := x\<rparr>) n"
    by (rule arrived_slot [OF q]) blast
  have "sendq_bytes ?off ?len (n_endpoint n1 e) = Some bs \<Longrightarrow> bs = ?bs" for bs
    by (auto simp: sendq_bytes_def m(5) split: if_splits)
  moreover have "own_peer_index e n2 = Some p" "de_endpoint_index (n_endpoint n2 e) = de_endpoint_index (n_endpoint n e)"
    using recvq_store_keeps [OF m(2) [unfolded m(5)], of e] own by simp_all
  ultimately have "n' = snd (notify_exp e (OMX_EVT_SEND_MEDIUMSQ_FRAG_DONE (msq_sendq_offset c)) n3)"
    using s shared_dest(2) [OF dst, of e "msq_seqnum c"] m(1-3)
    by (auto simp: omx_shared_send_mediumsq_frag_def split: Option.bind_splits)
  then show ?thesis using m(4) by blast
qed

lemma shared_arrives:
  assumes h: "omx_miscdev_ioctl other ie cmd e n = Some ((None, def), n')" and rt: "route cmd = Some rt" "to_shared rt"
    and dst: "reaches_local n rt d" and own: "own_peer_index e n = Some p"
    and q: "quiet log L (de_queues (n_endpoint n d))" "room log L"
  shows "arrived_in (ie_kernel ie) (de_sendq (n_endpoint n e)) (ucast p) (de_endpoint_index (n_endpoint n e)) cmd log L (n_endpoint n' d)"
proof -
  have h': "omx_ioctl_with_endpoint_handler other ie cmd e n = Some ((None, def), n')"
    using h by (simp add: omx_miscdev_ioctl_def split: if_splits)
  consider c where "cmd = OMX_CMD_SEND_SMALL c" | c where "cmd = OMX_CMD_SEND_MEDIUMSQ_FRAG c"
    | "case cmd of OMX_CMD_SEND_SMALL _ \<Rightarrow> False | OMX_CMD_SEND_MEDIUMSQ_FRAG _ \<Rightarrow> False | _ \<Rightarrow> True"
    by (cases cmd) auto
  then show ?thesis
  proof cases
    case 1
    then show ?thesis
      using shared_small_arrives [of other ie c e n def n' d p log L] h' rt dst own q by (auto intro: arrived_in_endpoint)
  next
    case 2
    then show ?thesis
      using shared_mediumsq_arrives [of other ie c e n def n' d p log L] h' rt dst own q
      by (auto intro!: arrived_in_notify_exp intro: arrived_in_endpoint)
  next
    case 3
    then have "cmd_data (ie_kernel ie) (de_sendq (n_endpoint n e)) cmd = Some []" by (cases cmd) auto
    from arrived_in_endpoint [OF arrived_notify [OF q this]] show ?thesis
      unfolding shared_arrives_notified [OF h' rt dst own 3] .
  qed
qed

subsection \<open>Messages that cannot be delivered\<close>

text \<open>Why a receiver refuses a message.\<close>

definition refusal :: "omx_node \<Rightarrow> nat \<Rightarrow> cmd_route \<Rightarrow> omx_nack_type option" where
  "refusal m k rt =
    (case omx_endpoint_acquire_by_iface_index k (to_endpoint rt) m of
       Inl err \<Rightarrow> Some (endpoint_error_to_nack_type err)
     | Inr e \<Rightarrow> if to_session rt \<noteq> de_session_id (n_endpoint m e) then Some OMX_NACK_TYPE_BAD_SESSION else None)"

lemma wire_refused:
  assumes "on_wire env sendq peer src cmd len f" "route cmd = Some rt" "cmd_nacked rt" "peer_at (unat peer) m = Some p"
    "refusal m k rt = Some nt" "omx_iface_find_by_ifp ifp m = Some k"
  shows "omx_recv other env' ifp \<lparr>skb_len = len, skb_data = f\<rparr> m =
    Some (omx_send_nack_lib env' k peer nt (to_endpoint rt) src (cmd_seqnum rt) m)"
proof (cases cmd)
  case (OMX_CMD_SEND_TINY c)
  then have r: "rt = the (route (OMX_CMD_SEND_TINY c))" using assms(2) by simp
  have l: "\<not> ucast (tiny_length c) > OMX_TINY_MSG_LENGTH_MAX" using assms(1) OMX_CMD_SEND_TINY by (simp add: linorder_not_less)
  note u = tiny_length_small [OF l]
  have len: "40 + unat (OMX_NTOH_16 20 f) \<le> len" "len < 2 ^ 20" using assms(1) OMX_CMD_SEND_TINY u(1,2) by (simp_all add: ETH_ZLEN_def)
  have "map_option snd (omx_recv_tiny env' k \<lparr>skb_len = len, skb_data = f\<rparr> m) =
      Some (omx_send_nack_lib env' k peer nt (to_endpoint rt) src (cmd_seqnum rt) m)"
    using assms(1,4,5) OMX_CMD_SEND_TINY l data_fits [OF len, of f]
    by (auto simp: r refusal_def omx_recv_tiny_def Let_def msg_fields_def u omx_check_recv_peer_index_def split: sum.splits if_splits)
  then show ?thesis using assms(1,6) OMX_CMD_SEND_TINY by (simp add: omx_recv_def handle_packet_def pkt_type_tables msg_fields_def)
next
  case (OMX_CMD_SEND_SMALL c)
  then have r: "rt = the (route (OMX_CMD_SEND_SMALL c))" using assms(2) by simp
  have l: "\<not> ucast (small_length c) > OMX_SMALL_MSG_LENGTH_MAX" using assms(1) OMX_CMD_SEND_SMALL by (simp add: linorder_not_less)
  have len: "40 + unat (OMX_NTOH_16 20 f) \<le> len" "len < 2 ^ 20"
    using assms(1) OMX_CMD_SEND_SMALL small_length_small [OF l] by (simp_all add: ETH_ZLEN_def)
  have "map_option snd (omx_recv_small env' k \<lparr>skb_len = len, skb_data = f\<rparr> m) =
      Some (omx_send_nack_lib env' k peer nt (to_endpoint rt) src (cmd_seqnum rt) m)"
    using assms(1,4,5) OMX_CMD_SEND_SMALL l data_fits [OF len, of f]
    by (auto simp: r refusal_def omx_recv_small_def Let_def msg_fields_def omx_check_recv_peer_index_def split: sum.splits if_splits)
  then show ?thesis using assms(1,6) OMX_CMD_SEND_SMALL by (simp add: omx_recv_def handle_packet_def pkt_type_tables msg_fields_def)
next
  case (OMX_CMD_SEND_MEDIUMSQ_FRAG c)
  then have r: "rt = the (route (OMX_CMD_SEND_MEDIUMSQ_FRAG c))" using assms(2) by simp
  have l: "unat (msq_frag_length c) \<le> 8192" using assms(1) OMX_CMD_SEND_MEDIUMSQ_FRAG by (simp add: limit_values)
  have len: "48 + unat (OMX_NTOH_16 40 f) \<le> len" "len < 2 ^ 20"
    using assms(1) OMX_CMD_SEND_MEDIUMSQ_FRAG l by (simp_all add: ETH_ZLEN_def)
  have "map_option snd (omx_recv_medium_frag env' k \<lparr>skb_len = len, skb_data = f\<rparr> m) =
      Some (omx_send_nack_lib env' k peer nt (to_endpoint rt) src (cmd_seqnum rt) m)"
    using assms(1,4,5) OMX_CMD_SEND_MEDIUMSQ_FRAG l data_fits [OF len, of f]
    by (auto simp: r refusal_def omx_recv_medium_frag_def Let_def msg_fields_def omx_check_recv_peer_index_def limit_values
        split: sum.splits if_splits)
  then show ?thesis using assms(1,6) OMX_CMD_SEND_MEDIUMSQ_FRAG by (simp add: omx_recv_def handle_packet_def pkt_type_tables msg_fields_def)
next
  case (OMX_CMD_SEND_RNDV c)
  then have r: "rt = the (route (OMX_CMD_SEND_RNDV c))" using assms(2) by simp
  have "map_option snd (omx_recv_rndv env' k \<lparr>skb_len = len, skb_data = f\<rparr> m) =
      Some (omx_send_nack_lib env' k peer nt (to_endpoint rt) src (cmd_seqnum rt) m)"
    using assms(1,4,5) OMX_CMD_SEND_RNDV
    by (auto simp: r refusal_def omx_recv_rndv_def Let_def msg_fields_def omx_check_recv_peer_index_def split: sum.splits if_splits)
  then show ?thesis using assms(1,6) OMX_CMD_SEND_RNDV by (simp add: omx_recv_def handle_packet_def pkt_type_tables msg_fields_def ETH_ZLEN_def)
next
  case (OMX_CMD_SEND_NOTIFY c)
  then have r: "rt = the (route (OMX_CMD_SEND_NOTIFY c))" using assms(2) by simp
  have "map_option snd (omx_recv_notify env' k \<lparr>skb_len = len, skb_data = f\<rparr> m) =
      Some (omx_send_nack_lib env' k peer nt (to_endpoint rt) src (cmd_seqnum rt) m)"
    using assms(1,4,5) OMX_CMD_SEND_NOTIFY
    by (auto simp: r refusal_def omx_recv_notify_def Let_def omx_check_recv_peer_index_def split: sum.splits if_splits)
  then show ?thesis using assms(1,6) OMX_CMD_SEND_NOTIFY by (simp add: omx_recv_def handle_packet_def pkt_type_tables ETH_ZLEN_def)
qed (use assms in auto)

text \<open>The nack, and the event it becomes.\<close>

definition nack_event :: "omx_nack_type \<Rightarrow> cmd_route \<Rightarrow> omx_evt" where
  "nack_event nt rt = OMX_EVT_RECV_NACK_LIB \<lparr>nack_peer_index = to_peer rt, nack_src_endpoint = to_endpoint rt,
     nack_nack_type = nack_event_type (nack_code nt), nack_seqnum = cmd_seqnum rt\<rparr>"

lemma nack_sent:
  assumes "k_skb env 0 \<noteq> None" "peer_at (unat peer) m = Some p" "if_reverse_peer_indexes (n_iface m k) ! unat peer = ucast back_index"
  obtains f where "omx_send_nack_lib env k peer nt dst src seq m = m\<lparr>xmit := xmit m @ [(k, \<lparr>skb_len = 60, skb_data = f\<rparr>)]\<rparr>"
    "OMX_NTOH_8 16 f = OMX_PKT_TYPE_NACK_LIB" "OMX_NTOH_16 14 f = back_index" "OMX_NTOH_8 17 f = dst" "OMX_NTOH_8 25 f = src"
    "OMX_NTOH_8 19 f = nack_code nt" "OMX_NTOH_16 28 f = seq"
proof -
  obtain g where "k_skb env 0 = Some g" using assms(1) by blast
  moreover have "ucast (ucast back_index :: u32) = (back_index :: u16)" by (rule bit_word_eqI) (auto simp: bit_simps)
  ultimately show thesis using assms(2,3)
    by (intro that) (auto simp: omx_send_nack_lib_def omx_new_skb_def omx_set_target_peer_def Let_def dev_queue_xmit_def ETH_ZLEN_def)
qed

lemma nack_received:
  assumes f: "OMX_NTOH_8 16 f = OMX_PKT_TYPE_NACK_LIB" "OMX_NTOH_16 14 f = to_peer rt" "OMX_NTOH_8 17 f = to_endpoint rt"
      "OMX_NTOH_8 25 f = src" "OMX_NTOH_8 19 f = nack_code nt" "OMX_NTOH_16 28 f = cmd_seqnum rt"
    and n: "peer_at (unat (to_peer rt)) n \<noteq> None" "omx_endpoint_acquire_by_iface_index k src n = Inr e"
      "omx_iface_find_by_ifp ifp n = Some k" "quiet log L (de_queues (n_endpoint n e))" "room log L"
  shows "\<exists>q. omx_recv other env ifp \<lparr>skb_len = 60, skb_data = f\<rparr> n = Some (upd_endpoint e (\<lambda>ep. ep\<lparr>de_queues := q\<rparr>) n) \<and>
    quiet (log @ [nack_event nt rt]) L q"
proof -
  have "omx_recv_nack_lib k \<lparr>skb_len = 60, skb_data = f\<rparr> n = notify_unexp e (nack_event nt rt) n"
    using f n(1,2) by (simp add: omx_recv_nack_lib_def nack_peer_def omx_check_recv_peer_index_def nack_event_def Let_def)
  then have "omx_recv other env ifp \<lparr>skb_len = 60, skb_data = f\<rparr> n = Some (snd (notify_unexp e (nack_event nt rt) n))"
    using f(1) n(3) by (simp add: omx_recv_def handle_packet_def pkt_type_tables)
  moreover have "nack_event nt rt \<noteq> OMX_EVT_IGNORE" by (simp add: nack_event_def)
  ultimately show ?thesis using notify_deliver(1) [OF n(4) _ n(5)] by fastforce
qed

subsection \<open>Connecting\<close>

text \<open>The event of a connect request or reply that came through the network.\<close>

fun connect_event :: "u16 \<Rightarrow> u8 \<Rightarrow> omx_cmd \<Rightarrow> omx_evt option" where
  "connect_event peer src (OMX_CMD_SEND_CONNECT_REQUEST c) = Some (OMX_EVT_RECV_CONNECT_REQUEST \<lparr>creq_peer_index = peer,
     creq_src_endpoint = src, creq_shared = False, creq_seqnum = conn_seqnum c, creq_src_session_id = conn_src_session_id c,
     creq_app_key = conn_app_key c, creq_target_recv_seqnum_start = conn_target_recv_seqnum_start c,
     creq_connect_seqnum = conn_connect_seqnum c\<rparr>)"
| "connect_event peer src (OMX_CMD_SEND_CONNECT_REPLY c) = Some (OMX_EVT_RECV_CONNECT_REPLY \<lparr>crep_peer_index = peer,
     crep_src_endpoint = src, crep_shared = False, crep_seqnum = reply_seqnum c, crep_src_session_id = reply_src_session_id c,
     crep_target_session_id = reply_target_session_id c, crep_target_recv_seqnum_start = reply_target_recv_seqnum_start c,
     crep_connect_seqnum = reply_connect_seqnum c, crep_connect_status_code = reply_connect_status_code c\<rparr>)"
| "connect_event peer src _ = None"

text \<open>The peer, the endpoint, and whether the command is for the network only.\<close>

fun connect_target :: "omx_cmd \<Rightarrow> (u16 \<times> u8 \<times> bool) option" where
  "connect_target (OMX_CMD_SEND_CONNECT_REQUEST c) = Some (conn_peer_index c, conn_dest_endpoint c, conn_shared_disabled c)"
| "connect_target (OMX_CMD_SEND_CONNECT_REPLY c) = Some (reply_peer_index c, reply_dest_endpoint c, reply_shared_disabled c)"
| "connect_target _ = None"

definition connect_fields :: "u16 \<Rightarrow> u8 \<Rightarrow> u64 \<Rightarrow> u8 \<Rightarrow> frame \<Rightarrow> bool" where
  "connect_fields index dst addr src f \<longleftrightarrow> OMX_NTOH_8 16 f = OMX_PKT_TYPE_CONNECT \<and> OMX_NTOH_8 17 f = dst \<and> OMX_NTOH_8 18 f = src \<and>
    OMX_NTOH_8 20 f = 16 \<and> OMX_NTOH_16 26 f = index \<and> omx_board_addr_from_ethhdr_src f = addr"

fun connect_body :: "omx_cmd \<Rightarrow> frame \<Rightarrow> bool" where
  "connect_body (OMX_CMD_SEND_CONNECT_REQUEST c) f \<longleftrightarrow> OMX_NTOH_16 24 f = conn_seqnum c \<and> OMX_NTOH_8 42 f = 0 \<and>
    OMX_NTOH_32 32 f = conn_src_session_id c \<and> OMX_NTOH_32 36 f = conn_app_key c \<and>
    OMX_NTOH_16 40 f = conn_target_recv_seqnum_start c \<and> OMX_NTOH_8 43 f = conn_connect_seqnum c"
| "connect_body (OMX_CMD_SEND_CONNECT_REPLY c) f \<longleftrightarrow> OMX_NTOH_16 24 f = reply_seqnum c \<and> OMX_NTOH_8 42 f = 1 \<and>
    OMX_NTOH_32 32 f = reply_src_session_id c \<and> OMX_NTOH_32 36 f = reply_target_session_id c \<and>
    OMX_NTOH_16 40 f = reply_target_recv_seqnum_start c \<and> OMX_NTOH_8 43 f = reply_connect_seqnum c \<and>
    OMX_NTOH_8 44 f = reply_connect_status_code c"
| "connect_body _ f \<longleftrightarrow> False"

lemma connect_request_sent:
  assumes "send_connect_request_packet env e k c n = Some (None, n')"
  shows "\<exists>f. n' = n\<lparr>xmit := xmit n @ [(k, \<lparr>skb_len = 60, skb_data = f\<rparr>)]\<rparr> \<and> connect_body (OMX_CMD_SEND_CONNECT_REQUEST c) f \<and>
    connect_fields (conn_peer_index c) (conn_dest_endpoint c) (omx_board_addr_from_netdevice (if_dev_addr (n_iface n k)))
      (de_endpoint_index (n_endpoint n e)) f"
proof -
  from assms obtain skb g where skb: "omx_new_skb env 0 (max 48 ETH_ZLEN) = Some skb"
    and g: "omx_set_target_peer k (conn_peer_index c) n (fill_ethhdr (if_dev_addr (n_iface n k)) (skb_data skb)) = Some g"
    and n': "n' = dev_queue_xmit k (skb\<lparr>skb_data := OMX_HTON_8 43 (conn_connect_seqnum c) (OMX_HTON_16 40 (conn_target_recv_seqnum_start c)
      (OMX_HTON_32 36 (conn_app_key c) (OMX_HTON_32 32 (conn_src_session_id c) (OMX_HTON_8 42 0 (OMX_HTON_16 26 (conn_peer_index c)
        (OMX_HTON_16 24 (conn_seqnum c) (OMX_HTON_8 20 OMX_PKT_CONNECT_REQUEST_DATA_LENGTH (OMX_HTON_8 16 OMX_PKT_TYPE_CONNECT
          (OMX_HTON_8 17 (conn_dest_endpoint c) (OMX_HTON_8 18 (de_endpoint_index (n_endpoint n e)) g))))))))))\<rparr>) n"
    by (auto simp: send_connect_request_packet_def Let_def split: option.splits)
  show ?thesis
    unfolding n' new_skb_eq [OF skb] dev_queue_xmit_def
    by (intro exI conjI, simp add: ETH_ZLEN_def, simp, simp add: connect_fields_def set_target_peer_fields [OF g] pkt_length_defs)
qed

lemma connect_reply_sent:
  assumes "send_connect_reply_packet env e k c n = Some (None, n')"
  shows "\<exists>f. n' = n\<lparr>xmit := xmit n @ [(k, \<lparr>skb_len = 60, skb_data = f\<rparr>)]\<rparr> \<and> connect_body (OMX_CMD_SEND_CONNECT_REPLY c) f \<and>
    connect_fields (reply_peer_index c) (reply_dest_endpoint c) (omx_board_addr_from_netdevice (if_dev_addr (n_iface n k)))
      (de_endpoint_index (n_endpoint n e)) f"
proof -
  from assms obtain skb g where skb: "omx_new_skb env 0 (max 48 ETH_ZLEN) = Some skb"
    and g: "omx_set_target_peer k (reply_peer_index c) n (fill_ethhdr (if_dev_addr (n_iface n k)) (skb_data skb)) = Some g"
    and n': "n' = dev_queue_xmit k (skb\<lparr>skb_data := OMX_HTON_8 44 (reply_connect_status_code c) (OMX_HTON_8 43 (reply_connect_seqnum c)
      (OMX_HTON_16 40 (reply_target_recv_seqnum_start c) (OMX_HTON_32 36 (reply_target_session_id c) (OMX_HTON_32 32 (reply_src_session_id c)
        (OMX_HTON_8 42 1 (OMX_HTON_16 26 (reply_peer_index c) (OMX_HTON_16 24 (reply_seqnum c)
          (OMX_HTON_8 20 OMX_PKT_CONNECT_REPLY_DATA_LENGTH (OMX_HTON_8 16 OMX_PKT_TYPE_CONNECT
            (OMX_HTON_8 17 (reply_dest_endpoint c) (OMX_HTON_8 18 (de_endpoint_index (n_endpoint n e)) g)))))))))))\<rparr>) n"
    by (auto simp: send_connect_reply_packet_def Let_def split: option.splits)
  show ?thesis
    unfolding n' new_skb_eq [OF skb] dev_queue_xmit_def
    by (intro exI conjI, simp add: ETH_ZLEN_def, simp, simp add: connect_fields_def set_target_peer_fields [OF g] pkt_length_defs)
qed

lemma connect_sent:
  assumes "omx_miscdev_ioctl other ie cmd e n = Some ((None, def), n')" "connect_target cmd = Some (index, dst, net)"
    "net \<or> omx_local_peer_acquire_endpoint index dst n = None" "de_iface (n_endpoint n e) = Some k"
  shows "\<exists>f. n' = n\<lparr>xmit := xmit n @ [(k, \<lparr>skb_len = 60, skb_data = f\<rparr>)]\<rparr> \<and> connect_body cmd f \<and>
    connect_fields index dst (omx_board_addr_from_netdevice (if_dev_addr (n_iface n k))) (de_endpoint_index (n_endpoint n e)) f"
proof -
  have h: "omx_ioctl_with_endpoint_handler other ie cmd e n = Some ((None, def), n')"
    using assms(1) by (simp add: omx_miscdev_ioctl_def split: if_splits)
  show ?thesis
  proof (cases cmd)
    case (OMX_CMD_SEND_CONNECT_REQUEST c)
    then have "send_connect_request_packet (ie_kernel ie) e k c n = Some (None, n')"
      using h assms(2-4) by (auto simp: omx_ioctl_with_endpoint_handler_def omx_ioctl_send_connect_request_def
          omx_shared_try_send_connect_request_def Let_def split: if_splits)
    from connect_request_sent [OF this] OMX_CMD_SEND_CONNECT_REQUEST assms(2) show ?thesis by (simp del: connect_body.simps)
  next
    case (OMX_CMD_SEND_CONNECT_REPLY c)
    then have "send_connect_reply_packet (ie_kernel ie) e k c n = Some (None, n')"
      using h assms(2-4) by (auto simp: omx_ioctl_with_endpoint_handler_def omx_ioctl_send_connect_reply_def
          omx_shared_try_send_connect_reply_def Let_def split: if_splits)
    from connect_reply_sent [OF this] OMX_CMD_SEND_CONNECT_REPLY assms(2) show ?thesis by (simp del: connect_body.simps)
  qed (use assms(2) in simp_all)
qed

lemma set_reverse_index_eq:
  assumes "unat (p_index (n_peer n p)) < length (if_reverse_peer_indexes (n_iface n k))"
  shows "omx_peer_set_reverse_index p k r n =
    Some (upd_iface k (\<lambda>i. i\<lparr>if_reverse_peer_indexes := (if_reverse_peer_indexes i)[unat (p_index (n_peer n p)) := ucast r]\<rparr>) n)"
  using assms by (auto simp: omx_peer_set_reverse_index_def Let_def upd_iface_def)

lemma acquire_upd_iface [simp]:
  "omx_endpoint_acquire_by_iface_index k i (upd_iface j (\<lambda>x. x\<lparr>if_reverse_peer_indexes := g x\<rparr>) n) =
    omx_endpoint_acquire_by_iface_index k i n"
  by (simp add: omx_endpoint_acquire_by_iface_index_def upd_iface_def split: option.split)

lemma reverse_index_bound:
  assumes "node_ok m" "omx_iface_find_by_ifp ifp m = Some k" "omx_peer_lookup_by_addr_locked addr m = Some p"
  shows "unat (p_index (n_peer m p)) < length (if_reverse_peer_indexes (n_iface m k))"
proof -
  have ok': "peers_ok m" using assms(1) by (simp add: node_ok_def)
  have "in_table m p" using assms(3) lookup_Some [of m addr p] ok' by (auto simp: peers_ok_def)
  moreover have "Some k \<in> set (omx_ifaces m)"
    using assms(2) by (auto simp: omx_iface_find_by_ifp_def find_Some_iff split: option.splits dest!: nth_mem)
  ultimately show ?thesis using ok' in_table_index(1) [of m p] by (auto simp: peers_ok_def ifaces_ok_def)
qed

lemma connect_received:
  assumes f: "connect_body cmd f" "connect_fields index dst addr src f" and ok: "node_ok m" and k: "omx_iface_find_by_ifp ifp m = Some k"
    and p: "omx_peer_lookup_by_addr_locked addr m = Some p" and e: "omx_endpoint_acquire_by_iface_index k dst m = Inr e"
    and q: "quiet log L (de_queues (n_endpoint m e))" "room log L"
  shows "\<exists>evt q. connect_event (ucast (p_index (n_peer m p))) src cmd = Some evt \<and> quiet (log @ [evt]) L q \<and>
    omx_recv other env ifp \<lparr>skb_len = 60, skb_data = f\<rparr> m = Some (upd_endpoint e (\<lambda>ep. ep\<lparr>de_queues := q\<rparr>)
      (upd_iface k (\<lambda>i. i\<lparr>if_reverse_peer_indexes := (if_reverse_peer_indexes i)[unat (p_index (n_peer m p)) := ucast index]\<rparr>) m))"
proof -
  let ?i = "unat (p_index (n_peer m p))"
  let ?m = "upd_iface k (\<lambda>i. i\<lparr>if_reverse_peer_indexes := (if_reverse_peer_indexes i)[?i := ucast index]\<rparr>) m"
  note i = reverse_index_bound [OF ok k p]
  obtain evt where evt: "connect_event (ucast (p_index (n_peer m p))) src cmd = Some evt" "evt \<noteq> OMX_EVT_IGNORE"
    using f(1) by (cases cmd) auto
  have "omx_recv_connect env k \<lparr>skb_len = 60, skb_data = f\<rparr> m = Some (notify_unexp e evt ?m)"
    using f evt(1) p e set_reverse_index_eq [OF i]
    by (cases cmd) (auto simp: omx_recv_connect_def connect_fields_def Let_def pkt_length_defs)
  then have r: "omx_recv other env ifp \<lparr>skb_len = 60, skb_data = f\<rparr> m = Some (snd (notify_unexp e evt ?m))"
    using f(2) k by (simp add: omx_recv_def handle_packet_def pkt_type_tables connect_fields_def)
  have "quiet log L (de_queues (n_endpoint ?m e))" using q(1) by simp
  then obtain x where "notify_unexp e evt ?m = (None, upd_endpoint e (\<lambda>ep. ep\<lparr>de_queues := x\<rparr>) ?m)" "quiet (log @ [evt]) L x"
    using notify_deliver(1) [OF _ evt(2) q(2)] by blast
  then show ?thesis using evt(1) r by (intro exI [of _ evt] exI [of _ x]) simp
qed

end
