(* ===== verification/Driver_Machines.thy ===== *)
theory Driver_Machines
  imports Driver_Transfer
begin

text \<open>
  Two machines that know each other, as the concrete instance of the properties of the transfers.
\<close>

subsection \<open>Two machines\<close>

text \<open>
  A machine with one interface, on which endpoint 1 is open in session 5, that knows one other machine under index 1 and
  has index 1 there.
\<close>

definition fresh_queues :: driver_eventqs where
  "fresh_queues = omx_endpoint_queues_init [] (replicate 1024 \<lparr>evt_id = 0, evt_body = OMX_EVT_NONE\<rparr>) (de_queues (n_endpoint node_zero 0))"

definition machine_ops :: "u8 list \<Rightarrow> u64 \<Rightarrow> node_op list" where
  "machine_ops addr peer = [Attach True 0 7 addr [104], Dev_open 0, Endpoint_open kernel_ok True 0 0 1 5 fresh_queues,
     Peer_add kernel_ok True True peer (Some [105])]"

definition machine :: "u8 list \<Rightarrow> u64 \<Rightarrow> omx_node option" where
  "machine addr peer = do {
     n \<leftarrow> node_run (machine_ops addr peer) (node_start 4 2 2 node_zero);
     omx_peer_set_reverse_index (Peer 0) 0 1 n
   }"

definition is_machine :: "u8 list \<Rightarrow> u64 \<Rightarrow> omx_node \<Rightarrow> bool" where
  "is_machine addr peer n \<longleftrightarrow> de_status (n_endpoint n 0) = OMX_ENDPOINT_STATUS_OK \<and> de_iface (n_endpoint n 0) = Some 0 \<and>
    de_endpoint_index (n_endpoint n 0) = 1 \<and> de_session_id (n_endpoint n 0) = 5 \<and> \<not> de_freed (n_endpoint n 0) \<and>
    omx_iface_find_by_ifp 7 n = Some 0 \<and> peer_at 1 n = Some (Peer 0) \<and> if_reverse_peer_indexes (n_iface n 0) ! 1 = 1 \<and>
    if_dev_addr (n_iface n 0) = addr \<and> omx_endpoint_acquire_by_iface_index 0 1 n = Inr 0 \<and>
    omx_endpoint_acquire_by_iface_index 0 0 n = Inl ENOENT \<and>
    omx_peer_lookup_by_addr_locked peer n = Some (Peer 0) \<and> p_index (n_peer n (Peer 0)) = 1 \<and>
    omx_local_peer_acquire_endpoint 0 1 n = Some (Inr 0) \<and> own_peer_index 0 n = Some 0 \<and> omx_local_peer_acquire_endpoint 1 1 n = None \<and>
    omx_endpoint_max n = 2 \<and> omx_ifaces n = [Some 0, None] \<and> if_endpoints (n_iface n 0) = [None, Some 0]"

lemma machine_legal:
  "legal_run (machine_ops [2, 0, 0, 0, 0, 1] 0x020000000002) (node_start 4 2 2 node_zero)"
  "legal_run (machine_ops [2, 0, 0, 0, 0, 2] 0x020000000001) (node_start 4 2 2 node_zero)"
  by code_simp+

lemma machine_is:
  "case machine [2, 0, 0, 0, 0, 1] 0x020000000002 of None \<Rightarrow> False | Some n \<Rightarrow> is_machine [2, 0, 0, 0, 0, 1] 0x020000000002 n"
  "case machine [2, 0, 0, 0, 0, 2] 0x020000000001 of None \<Rightarrow> False | Some n \<Rightarrow> is_machine [2, 0, 0, 0, 0, 2] 0x020000000001 n"
  by code_simp+

lemma machine_queues:
  "case machine [2, 0, 0, 0, 0, 1] 0x020000000002 of None \<Rightarrow> False | Some n \<Rightarrow> de_queues (n_endpoint n 0) = fresh_queues"
  "case machine [2, 0, 0, 0, 0, 2] 0x020000000001 of None \<Rightarrow> False | Some n \<Rightarrow> de_queues (n_endpoint n 0) = fresh_queues"
  by code_simp+

lemma machine_ok:
  assumes "machine addr peer = Some n" "legal_run (machine_ops addr peer) (node_start 4 2 2 node_zero)"
  shows "node_ok n"
proof -
  obtain n0 where n0: "node_run (machine_ops addr peer) (node_start 4 2 2 node_zero) = Some n0" "node_ok n0"
    using node_run_ok [OF node_start_ok assms(2)] by auto
  have "omx_peer_set_reverse_index (Peer 0) 0 1 n0 = Some n" using assms(1) n0(1) by (simp add: machine_def)
  then consider "n = n0" | rs where "n = upd_iface 0 (\<lambda>i. i\<lparr>if_reverse_peer_indexes := rs\<rparr>) n0"
      "length rs = length (if_reverse_peer_indexes (n_iface n0 0))"
    by (auto simp: omx_peer_set_reverse_index_def Let_def split: if_splits)
  then show ?thesis
  proof cases
    case 2
    have "peers_ok n" unfolding 2(1) by (rule only_reverse_peers_ok [OF only_reverse_upd]) (use 2(2) n0(2) in \<open>simp_all add: node_ok_def\<close>)
    then show ?thesis using same_core_node_ok [OF same_core_only_reverse [OF only_reverse_upd] n0(2)] unfolding 2(1) by blast
  qed (use n0(2) in simp)
qed

lemma two_machines:
  obtains a b where "node_ok a" "is_machine [2, 0, 0, 0, 0, 1] 0x020000000002 a" "de_queues (n_endpoint a 0) = fresh_queues"
    "node_ok b" "is_machine [2, 0, 0, 0, 0, 2] 0x020000000001 b" "de_queues (n_endpoint b 0) = fresh_queues"
proof -
  obtain a b where "machine [2, 0, 0, 0, 0, 1] 0x020000000002 = Some a" "machine [2, 0, 0, 0, 0, 2] 0x020000000001 = Some b"
    using machine_is by (auto split: option.splits)
  then show thesis using machine_is machine_queues machine_ok machine_legal that [of a b] by simp
qed

lemma fresh_quiet: "quiet [] 0 fresh_queues" "room [] 0"
  unfolding fresh_queues_def by (rule quiet_start) (simp_all add: room_def)

text \<open>A tiny message of two bytes from endpoint 1 of one machine to the endpoint \<open>dst\<close> of another one.\<close>

definition sample_ie :: ioctl_env where
  "sample_ie = \<lparr>ie_kernel = kernel_ok, ie_data_ok = True, ie_usegs = None, ie_skb_copy_max = 0, ie_skb_frags = 18\<rparr>"

definition sample_tiny :: "u16 \<Rightarrow> u8 \<Rightarrow> bool \<Rightarrow> omx_cmd_send_tiny" where
  "sample_tiny peer dst shared = \<lparr>tiny_peer_index = peer, tiny_dest_endpoint = dst, tiny_shared = shared, tiny_session_id = 5, tiny_seqnum = 3,
     tiny_piggyack = 2, tiny_length = 2, tiny_checksum = 0, tiny_match_info = 0x1234, tiny_data = [7, 8] @ replicate 30 0\<rparr>"

lemma sample_tiny_sent:
  assumes "is_machine addr peer n"
  shows "\<exists>n'. omx_miscdev_ioctl (\<lambda>_ _ n. Some (None, n)) sample_ie (OMX_CMD_SEND_TINY (sample_tiny 1 dst False)) 0 n = Some ((None, None), n')"
  using assms
  by (simp add: is_machine_def omx_miscdev_ioctl_def omx_ioctl_with_endpoint_handler_def omx_ioctl_send_tiny_def sample_ie_def
      sample_tiny_def kernel_ok_def omx_new_skb_def omx_set_target_peer_def OMX_TINY_MSG_LENGTH_MAX_def Let_def)

end
