(* ===== verification/Driver_Safety.thy ===== *)
theory Driver_Safety
  imports Driver_Machines
begin

text \<open>
  Whatever bytes a packet is made of, receiving it neither reaches a kernel bug nor breaks the invariant of the driver.
\<close>

subsection \<open>The invariant with the queues\<close>

text \<open>The queues of the open endpoints are between two operations.\<close>

definition queues_ok :: "omx_node \<Rightarrow> bool" where
  "queues_ok n \<longleftrightarrow> (\<forall>e. \<not> de_freed (n_endpoint n e) \<and> de_status (n_endpoint n e) = OMX_ENDPOINT_STATUS_OK \<longrightarrow>
    (\<exists>log L. quiet log L (de_queues (n_endpoint n e))))"

definition driver_ok :: "omx_node \<Rightarrow> bool" where
  "driver_ok n \<longleftrightarrow> node_ok n \<and> queues_ok n"

lemma driver_ok_core: "driver_ok n \<Longrightarrow> same_core n n' \<Longrightarrow> peers_ok n' \<Longrightarrow> driver_ok n'"
  using same_core_node_ok [of n n'] by (simp add: driver_ok_def queues_ok_def same_core_def)

lemma driver_ok_xmit: "driver_ok n \<Longrightarrow> driver_ok (n\<lparr>xmit := x\<rparr>)"
  using driver_ok_core [of n "n\<lparr>xmit := x\<rparr>"] by (simp add: driver_ok_def node_ok_def)

lemma driver_ok_queues:
  assumes "driver_ok n" "quiet log L q"
  shows "driver_ok (upd_endpoint e (\<lambda>ep. ep\<lparr>de_recvq := r ep, de_queues := q\<rparr>) n)"
proof -
  let ?n = "upd_endpoint e (\<lambda>ep. ep\<lparr>de_recvq := r ep, de_queues := q\<rparr>) n"
  have ok: "node_ok n" "refs_ok n" "peers_ok n" using assms(1) by (simp_all add: driver_ok_def node_ok_def endpoints_ok_def)
  have "refs_ok ?n = refs_ok n" by (rule refs_ok_upd_endpoint) simp
  then have "node_ok ?n" using ok by (intro same_rest_node_ok [OF ok(1)]) (simp, simp, simp_all add: upd_endpoint_def)
  then show ?thesis using assms by (auto simp: driver_ok_def queues_ok_def upd_endpoint_def)
qed

lemma driver_ok_queues_only: "driver_ok n \<Longrightarrow> quiet log L q \<Longrightarrow> driver_ok (upd_endpoint e (\<lambda>ep. ep\<lparr>de_queues := q\<rparr>) n)"
  using driver_ok_queues [of n log L q e de_recvq] by simp

lemma acquired_quiet:
  assumes "driver_ok n" "Some k \<in> set (omx_ifaces n)" "omx_endpoint_acquire_by_iface_index k i n = Inr e"
  obtains log L where "quiet log L (de_queues (n_endpoint n e))"
proof -
  have e: "unat i < omx_endpoint_max n" "if_endpoints (n_iface n k) ! unat i = Some e" "de_status (n_endpoint n e) = OMX_ENDPOINT_STATUS_OK"
    using assms(3) by (auto simp: omx_endpoint_acquire_by_iface_index_def split: if_splits option.splits)
  have "iface_refs n k" using assms(1,2) by (simp add: driver_ok_def node_ok_def endpoints_ok_def refs_ok_def)
  then have "\<not> de_freed (n_endpoint n e)" using e(1,2) by (simp add: iface_refs_def endpoint_in_def)
  then show thesis using assms(1) e(3) that by (auto simp: driver_ok_def queues_ok_def)
qed

lemma driver_ok_notify:
  assumes "driver_ok n" "Some k \<in> set (omx_ifaces n)" "omx_endpoint_acquire_by_iface_index k i n = Inr e" "evt \<noteq> OMX_EVT_IGNORE"
  shows "driver_ok (snd (notify_unexp e evt n))"
proof -
  obtain log L where q: "quiet log L (de_queues (n_endpoint n e))" using acquired_quiet [OF assms(1-3)] .
  show ?thesis
    by (cases "room log L") (use notify_deliver [OF q assms(4)] driver_ok_queues_only [OF assms(1)] in fastforce)+
qed

lemma driver_ok_nack: "driver_ok n \<Longrightarrow> driver_ok (omx_send_nack_lib env k p nt s d sn n)"
  by (auto simp: omx_send_nack_lib_def Let_def dev_queue_xmit_def driver_ok_xmit split: option.split)

text \<open>A slot of the receive queue is taken, written and committed, or there is none.\<close>

lemma driver_ok_slot:
  assumes ok: "driver_ok n" and k: "Some k \<in> set (omx_ifaces n)" and acq: "omx_endpoint_acquire_by_iface_index k i n = Inr e" and bs: "length bs \<le> 8192"
    and evt: "\<And>roff. evt roff \<noteq> OMX_EVT_IGNORE"
  shows "case prepare_unexp e n of
      (Inl err, n1) \<Rightarrow> driver_ok n1
    | (Inr roff, n1) \<Rightarrow> \<exists>n2 n3. recvq_store e (unat roff) bs n1 = Some n2 \<and> commit_unexp e (evt roff) n2 = Some n3 \<and> driver_ok n3"
proof -
  obtain log L where q: "quiet log L (de_queues (n_endpoint n e))" using acquired_quiet [OF ok k acq] .
  show ?thesis
  proof (cases "room log L")
    case True
    obtain i n1 n2 where s: "prepare_unexp e n = (Inr (recvq_offset i), n1)" "recvq_store e (unat (recvq_offset i)) bs n1 = Some n2"
        "n_endpoint n1 = (n_endpoint n)(e := (n_endpoint n e)\<lparr>de_queues := de_queues (n_endpoint n1 e)\<rparr>)"
        "\<And>evt. evt \<noteq> OMX_EVT_IGNORE \<Longrightarrow> \<exists>q. commit_unexp e evt n2 =
          Some (upd_endpoint e (\<lambda>ep. ep\<lparr>de_recvq := put_data (unat (recvq_offset i)) bs (de_recvq ep), de_queues := q\<rparr>) n) \<and>
          quiet (log @ [evt]) L q"
      by (rule recvq_deliver [OF q bs True], rule that) assumption+
    show ?thesis using s(1,2) s(4) [OF evt [of "recvq_offset i"]] driver_ok_queues [OF ok] by auto
  next
    case False
    then obtain d' where "omx_prepare_notify_unexp_event_with_recvq (de_queues (n_endpoint n e)) = (Inl EBUSY, d')" "quiet log L d'"
      using prepare_quiet [OF q] by auto
    then show ?thesis using driver_ok_queues_only [OF ok] by (simp add: prepare_unexp_def)
  qed
qed

text \<open>The copies out of the packet stay inside of it.\<close>

lemma skb_bits_fit:
  assumes "\<not> ucast (l :: u16) > skb_data_len skb hdr" "hdr \<le> skb_len skb" "skb_len skb < 2 ^ 32"
  shows "skb_bits skb hdr (unat l) = Some (skb_copy_bits hdr (unat l) (skb_data skb))"
proof -
  have "unat (of_nat (skb_len skb) - of_nat hdr :: u64) = skb_len skb - hdr"
    using assms(2,3) by (simp add: of_nat_diff [symmetric] unat_of_nat take_bit_nat_def del: of_nat_diff)
  moreover have "unat (ucast l :: u64) = unat l" by (simp add: unsigned_ucast_eq take_bit_nat_def)
  ultimately show ?thesis using assms(1,2) by (simp add: skb_data_len_def word_less_nat_alt skb_bits_def)
qed

subsection \<open>The handlers\<close>

definition safe :: "(omx_errno option \<times> omx_node) option \<Rightarrow> bool" where
  "safe r \<longleftrightarrow> (\<exists>err n'. r = Some (err, n') \<and> driver_ok n')"

lemma safe_Some: "safe (Some (err, n)) = driver_ok n"
  by (simp add: safe_def)

lemma safe_notify:
  "driver_ok n \<Longrightarrow> Some k \<in> set (omx_ifaces n) \<Longrightarrow> omx_endpoint_acquire_by_iface_index k i n = Inr e \<Longrightarrow> evt \<noteq> OMX_EVT_IGNORE \<Longrightarrow> safe (Some (notify_unexp e evt n))"
  using driver_ok_notify [of n k i e evt] by (cases "notify_unexp e evt n") (simp add: safe_def)

lemma safe_slot:
  assumes "driver_ok n" "Some k \<in> set (omx_ifaces n)" "omx_endpoint_acquire_by_iface_index k i n = Inr e" "b = Some bs" "length bs \<le> 8192" "\<And>roff. evt roff \<noteq> OMX_EVT_IGNORE"
  shows "safe (case prepare_unexp e n of
      (Inl err, n) \<Rightarrow> Some (Some err, n)
    | (Inr roff, n) \<Rightarrow> do {
        bs \<leftarrow> b;
        n \<leftarrow> recvq_store e (unat roff) bs n;
        n \<leftarrow> commit_unexp e (evt roff) n;
        Some (None, n)
      })"
  using driver_ok_slot [OF assms(1-3,5), of evt, OF assms(6)] by (auto simp: assms(4) safe_Some split: prod.splits sum.splits)

lemma safe_tiny:
  "driver_ok n \<Longrightarrow> Some k \<in> set (omx_ifaces n) \<Longrightarrow> 60 \<le> skb_len skb \<Longrightarrow> skb_len skb < 2 ^ 32 \<Longrightarrow> safe (omx_recv_tiny env k skb n)"
  using skb_bits_fit [where l = "OMX_NTOH_16 20 (skb_data skb)" and skb = skb and hdr = 40]
  by (auto simp: omx_recv_tiny_def Let_def safe_Some driver_ok_nack safe_notify split: sum.split)

lemma length_small: "\<not> ucast (l :: u16) > OMX_SMALL_MSG_LENGTH_MAX \<Longrightarrow> length (skb_copy_bits off (unat l) f) \<le> 8192"
  by (simp add: OMX_SMALL_MSG_LENGTH_MAX_def word_less_nat_alt unsigned_ucast_eq take_bit_nat_def skb_copy_bits_def)

lemma safe_small:
  "driver_ok n \<Longrightarrow> Some k \<in> set (omx_ifaces n) \<Longrightarrow> 60 \<le> skb_len skb \<Longrightarrow> skb_len skb < 2 ^ 32 \<Longrightarrow> safe (omx_recv_small env k skb n)"
  using skb_bits_fit [where l = "OMX_NTOH_16 20 (skb_data skb)" and skb = skb and hdr = 40]
  by (auto simp: omx_recv_small_def Let_def safe_Some driver_ok_nack length_small intro!: safe_slot split: sum.split)

lemma safe_medium:
  "driver_ok n \<Longrightarrow> Some k \<in> set (omx_ifaces n) \<Longrightarrow> 60 \<le> skb_len skb \<Longrightarrow> skb_len skb < 2 ^ 32 \<Longrightarrow> safe (omx_recv_medium_frag env k skb n)"
  using skb_bits_fit [where l = "OMX_NTOH_16 40 (skb_data skb)" and skb = skb and hdr = 48]
  by (auto simp: omx_recv_medium_frag_def Let_def safe_Some driver_ok_nack limit_values skb_copy_bits_def intro!: safe_slot split: sum.split)

lemma safe_rndv: "driver_ok n \<Longrightarrow> Some k \<in> set (omx_ifaces n) \<Longrightarrow> safe (omx_recv_rndv env k skb n)"
  by (auto simp: omx_recv_rndv_def Let_def safe_Some driver_ok_nack intro!: safe_notify split: sum.split)

lemma safe_recv_notify: "driver_ok n \<Longrightarrow> Some k \<in> set (omx_ifaces n) \<Longrightarrow> safe (omx_recv_notify env k skb n)"
  by (auto simp: omx_recv_notify_def Let_def safe_Some driver_ok_nack intro!: safe_notify split: sum.split)

lemma safe_truc: "driver_ok n \<Longrightarrow> Some k \<in> set (omx_ifaces n) \<Longrightarrow> safe (Some (omx_recv_truc k skb n))"
  by (auto simp: omx_recv_truc_def Let_def safe_Some intro!: safe_notify split: sum.split)

lemma safe_nack_lib: "driver_ok n \<Longrightarrow> Some k \<in> set (omx_ifaces n) \<Longrightarrow> safe (Some (omx_recv_nack_lib k skb n))"
  by (auto simp: omx_recv_nack_lib_def Let_def safe_Some intro!: safe_notify split: sum.split option.split)

lemma safe_connect:
  assumes ok: "driver_ok n" and k: "Some k \<in> set (omx_ifaces n)"
  shows "safe (omx_recv_connect env k skb n)"
proof (cases "omx_peer_lookup_by_addr_locked (omx_board_addr_from_ethhdr_src (skb_data skb)) n")
  case None
  then show ?thesis using ok by (simp add: omx_recv_connect_def safe_Some Let_def)
next
  case (Some p)
  have ok': "peers_ok n" using ok by (simp add: driver_ok_def node_ok_def)
  then have "in_table n p" using Some lookup_Some [of n _ p] by (auto simp: peers_ok_def)
  then obtain n1 where n1: "omx_peer_set_reverse_index p k (OMX_NTOH_16 26 (skb_data skb)) n = Some n1" "peers_ok n1" "same_core n n1"
    using set_reverse_index_ok [OF ok' _ k] by blast
  then have "driver_ok n1" "Some k \<in> set (omx_ifaces n1)" using driver_ok_core [OF ok] k by (auto simp: same_core_def)
  then show ?thesis using Some n1(1) ok
    by (auto simp: omx_recv_connect_def Let_def safe_Some driver_ok_nack intro!: safe_notify split: sum.split)
qed

lemma driver_ok_host_query: "driver_ok n \<Longrightarrow> Some k \<in> set (omx_ifaces n) \<Longrightarrow> driver_ok (omx_recv_host_query k skb n)"
  using node_exec_ok [of n "node_op.Recv_host_query k skb"] by (auto simp: driver_ok_def queues_ok_def omx_recv_host_query_def)

lemma driver_ok_host_reply:
  "driver_ok n \<Longrightarrow> Some k \<in> set (omx_ifaces n) \<Longrightarrow> OMX_NTOH_8 17 (skb_data skb) \<noteq> 0 \<Longrightarrow> driver_ok (omx_recv_host_reply k skb n)"
  using node_exec_ok [of n "node_op.Recv_host_reply k skb"] by (auto simp: driver_ok_def queues_ok_def omx_recv_host_reply_def)

lemma safe_handler: "safe r \<Longrightarrow> \<exists>n'. map_option snd r = Some n' \<and> driver_ok n'"
  by (auto simp: safe_def)

lemma hdr_len_small: "omx_pkt_type_hdr_len ptype \<le> 60"
  by (simp add: omx_pkt_type_hdr_len_def)

lemma find_by_ifp_in: "omx_iface_find_by_ifp ifp n = Some k \<Longrightarrow> Some k \<in> set (omx_ifaces n)"
  by (auto simp: omx_iface_find_by_ifp_def find_Some_iff split: option.splits dest!: nth_mem)

lemma handle_packet_safe:
  assumes ok: "driver_ok n" and k: "Some k \<in> set (omx_ifaces n)" and len: "60 \<le> skb_len skb" "skb_len skb < 2 ^ 32"
    and reply: "h = pkt_handler.Recv_host_reply \<longrightarrow> OMX_NTOH_8 17 (skb_data skb) \<noteq> 0"
    and other: "\<And>h. \<exists>n'. other h k skb n = Some n' \<and> driver_ok n'"
  shows "\<exists>n'. handle_packet other env h k skb n = Some n' \<and> driver_ok n'"
proof -
  note s = safe_handler [OF safe_connect [OF ok k]] safe_handler [OF safe_tiny [OF ok k len]] safe_handler [OF safe_small [OF ok k len]]
    safe_handler [OF safe_medium [OF ok k len]] safe_handler [OF safe_rndv [OF ok k]] safe_handler [OF safe_recv_notify [OF ok k]]
    safe_handler [OF safe_truc [OF ok k]] safe_handler [OF safe_nack_lib [OF ok k]]
  show ?thesis
    using s ok k reply other driver_ok_host_query [OF ok k] driver_ok_host_reply [OF ok k]
    by (cases h) (simp_all add: handle_packet_def)
qed

subsection \<open>Properties\<close>


lemma open_endpoint_listed:
  assumes "node_ok n" "\<not> de_freed (n_endpoint n e)" "de_status (n_endpoint n e) = OMX_ENDPOINT_STATUS_OK"
  obtains k i where "Some k \<in> set (omx_ifaces n)" "i < omx_endpoint_max n" "if_endpoints (n_iface n k) ! i = Some e"
    "endpoint_in k i (n_endpoint n e)"
proof -
  have "\<not> unused (n_endpoint n e)" using assms(3) by (simp add: unused_def)
  then obtain k i where ki: "Some k \<in> set (omx_ifaces n)" "i < omx_endpoint_max n" "if_endpoints (n_iface n k) ! i = Some e"
    using assms(1,2) by (auto simp: node_ok_def endpoints_ok_def refs_ok_def)
  moreover from this have "iface_refs n k" using assms(1) by (simp add: node_ok_def endpoints_ok_def refs_ok_def)
  ultimately have "endpoint_in k i (n_endpoint n e)" by (simp add: iface_refs_def)
  with ki show thesis by (rule that)
qed

lemma machine_driver_ok:
  assumes "node_ok n" "is_machine addr peer n" "de_queues (n_endpoint n 0) = fresh_queues"
  shows "driver_ok n"
proof -
  have "e = 0" if "\<not> de_freed (n_endpoint n e)" "de_status (n_endpoint n e) = OMX_ENDPOINT_STATUS_OK" for e
    by (rule open_endpoint_listed [OF assms(1) that]) (use assms(2) in \<open>auto simp: is_machine_def less_2_cases_iff nth_Cons'\<close>)
  moreover have "quiet [] 0 (de_queues (n_endpoint n 0))" using assms(3) fresh_quiet(1) by simp
  ultimately show ?thesis using assms(1) unfolding driver_ok_def queues_ok_def by blast
qed

text \<open>A packet with random bytes that claims to be a medium fragment of 16 bytes for the open endpoint.\<close>

definition sample_packet :: sk_buff where
  "sample_packet = \<lparr>skb_len = 60, skb_data = OMX_HTON_8 16 OMX_PKT_TYPE_MEDIUM (OMX_HTON_8 17 1 (OMX_HTON_16 40 16 (\<lambda>i. of_nat (i * 37))))\<rparr>"


end
