(* ===== verification/Driver_Delivery.thy ===== *)
theory Driver_Delivery
  imports Driver_Safety
begin

text \<open>
  The properties of the transfers between endpoints.
\<close>

subsection \<open>Both ends of a transfer\<close>

text \<open>An open endpoint is the one its interface finds under its index.\<close>

lemma own_acquire:
  assumes "node_ok n" "\<not> de_freed (n_endpoint n e)" "de_status (n_endpoint n e) = OMX_ENDPOINT_STATUS_OK" "de_iface (n_endpoint n e) = Some k"
  shows "omx_endpoint_acquire_by_iface_index k (de_endpoint_index (n_endpoint n e)) n = Inr e"
  by (rule open_endpoint_listed [OF assms(1-3)])
    (use assms(3,4) in \<open>auto simp: endpoint_in_def omx_endpoint_acquire_by_iface_index_def\<close>)

lemma sent_keeps:
  assumes "sent e k len f n n'"
  shows "omx_endpoint_acquire_by_iface_index j i n' = omx_endpoint_acquire_by_iface_index j i n"
    "omx_iface_find_by_ifp ifp n' = omx_iface_find_by_ifp ifp n" "peer_at x n' = peer_at x n"
    "quiet log L (de_queues (n_endpoint n e)) \<Longrightarrow> quiet log L (de_queues (n_endpoint n' e))"
proof -
  obtain q r where n': "n' = (upd_endpoint e (\<lambda>ep. ep\<lparr>de_refcount := r, de_queues := q\<rparr>) n)\<lparr>xmit := xmit n @ [(k, \<lparr>skb_len = len, skb_data = f\<rparr>)]\<rparr>"
      "\<forall>log L. quiet log L (de_queues (n_endpoint n e)) \<longrightarrow> quiet log L q"
    using assms by (auto simp: sent_def)
  have "de_status (n_endpoint n' x) = de_status (n_endpoint n x)" for x by (simp add: n'(1) upd_endpoint_def)
  then show "omx_endpoint_acquire_by_iface_index j i n' = omx_endpoint_acquire_by_iface_index j i n"
    by (simp add: omx_endpoint_acquire_by_iface_index_def Let_def n'(1) upd_endpoint_def cong: option.case_cong)
  show "omx_iface_find_by_ifp ifp n' = omx_iface_find_by_ifp ifp n"
    using arg_cong [OF n'(1), of n_iface] arg_cong [OF n'(1), of omx_ifaces]
    by (simp add: omx_iface_find_by_ifp_def upd_endpoint_def cong: option.case_cong)
  show "peer_at x n' = peer_at x n" by (simp add: peer_at_def n'(1) upd_endpoint_def)
  show "quiet log L (de_queues (n_endpoint n e)) \<Longrightarrow> quiet log L (de_queues (n_endpoint n' e))"
    using n'(2) by (simp add: n'(1) upd_endpoint_def)
qed

text \<open>A message for an endpoint of this machine that refuses it.\<close>

definition refusal_local :: "omx_node \<Rightarrow> cmd_route \<Rightarrow> omx_nack_type option" where
  "refusal_local n rt =
    (case omx_local_peer_acquire_endpoint (to_peer rt) (to_endpoint rt) n of
       None \<Rightarrow> None
     | Some (Inl err) \<Rightarrow> Some (endpoint_error_to_nack_type err)
     | Some (Inr d) \<Rightarrow> if to_session rt \<noteq> de_session_id (n_endpoint n d) then Some OMX_NACK_TYPE_BAD_SESSION else None)"

lemma shared_refused:
  assumes h: "omx_miscdev_ioctl other ie cmd e n = Some ((None, def), n')" and rt: "route cmd = Some rt" "to_shared rt" "cmd_nacked rt"
    and ref: "refusal_local n rt = Some nt"
  shows "n' = snd (notify_unexp e (nack_event nt rt) n)"
proof -
  have h': "omx_ioctl_with_endpoint_handler other ie cmd e n = Some ((None, def), n')"
    using h by (simp add: omx_miscdev_ioctl_def split: if_splits)
  have "omx_shared_get_endpoint_or_nack_type (to_peer rt) (to_endpoint rt) (to_session rt) n = Inl nt" "nt \<noteq> OMX_NACK_TYPE_NONE"
    using ref by (auto simp: refusal_local_def omx_shared_get_endpoint_or_nack_type_def endpoint_error_to_nack_type_def
        split: option.splits sum.splits if_splits)
  then have d: "omx_shared_get_endpoint_or_notify_nack e (to_peer rt) (to_endpoint rt) (to_session rt) (cmd_seqnum rt) n =
      (None, snd (notify_unexp e (nack_event nt rt) n))"
    by (simp add: omx_shared_get_endpoint_or_notify_nack_def omx_shared_notify_nack_def nack_event_def)
  show ?thesis
  proof (cases cmd)
    case (OMX_CMD_SEND_TINY c)
    then have r: "rt = the (route (OMX_CMD_SEND_TINY c))" using rt by simp
    show ?thesis using h' OMX_CMD_SEND_TINY rt(2) d
      by (auto simp: r omx_ioctl_with_endpoint_handler_def omx_ioctl_send_tiny_def omx_shared_send_tiny_def Let_def split: if_splits Option.bind_splits)
  next
    case (OMX_CMD_SEND_SMALL c)
    then have r: "rt = the (route (OMX_CMD_SEND_SMALL c))" using rt by simp
    show ?thesis using h' OMX_CMD_SEND_SMALL rt(2) d
      by (auto simp: r omx_ioctl_with_endpoint_handler_def omx_ioctl_send_small_def omx_shared_send_small_def Let_def split: if_splits Option.bind_splits)
  next
    case (OMX_CMD_SEND_MEDIUMSQ_FRAG c)
    then have r: "rt = the (route (OMX_CMD_SEND_MEDIUMSQ_FRAG c))" using rt by simp
    show ?thesis using h' OMX_CMD_SEND_MEDIUMSQ_FRAG rt(2) d
      by (auto simp: r omx_ioctl_with_endpoint_handler_def omx_ioctl_send_mediumsq_frag_def omx_shared_send_mediumsq_frag_def Let_def
          split: if_splits Option.bind_splits)
  next
    case (OMX_CMD_SEND_RNDV c)
    then have r: "rt = the (route (OMX_CMD_SEND_RNDV c))" using rt by simp
    show ?thesis using h' OMX_CMD_SEND_RNDV rt(2) d
      by (auto simp: r omx_ioctl_with_endpoint_handler_def omx_ioctl_send_rndv_def omx_shared_send_rndv_def Let_def split: if_splits Option.bind_splits)
  next
    case (OMX_CMD_SEND_NOTIFY c)
    then have r: "rt = the (route (OMX_CMD_SEND_NOTIFY c))" using rt by simp
    show ?thesis using h' OMX_CMD_SEND_NOTIFY rt(2) d
      by (auto simp: r omx_ioctl_with_endpoint_handler_def omx_ioctl_send_notify_def omx_shared_send_notify_def Let_def split: if_splits Option.bind_splits)
  qed (use rt in auto)
qed

subsection \<open>Properties\<close>

text \<open>C2: A message that is sent through the network becomes an event of the endpoint it is for: if a command to send a
  tiny, small, medium fragment, rendez-vous, notify or ack succeeds, the packet it gave to the network makes the
  receiving driver append exactly one event to those of the destination, with the fields of the command, the index of
  the sender in the table of the receiver and the data, in the event or in the slot of the receive queue it names. It is
  the next event the library of the destination reads once it has read the earlier ones.\<close>

theorem message_delivered:
  assumes "omx_miscdev_ioctl other ie cmd e n = Some ((None, def), n')" "route cmd = Some rt" "\<not> to_shared rt" "cmd_wf cmd"
    "de_iface (n_endpoint n e) = Some k" "peer = ucast (if_reverse_peer_indexes (n_iface n k) ! unat (to_peer rt))"
    "reaches m k' peer rt e'" "omx_iface_find_by_ifp ifp m = Some k'" "quiet log L (de_queues (n_endpoint m e'))" "room log L"
  shows "\<exists>skb m' evt. xmit n' = xmit n @ [(k, skb)] \<and> omx_recv other' env ifp skb m = Some m' \<and>
    quiet (log @ [evt]) L (de_queues (n_endpoint m' e')) \<and>
    delivers (ie_kernel ie) (de_sendq (n_endpoint n e)) peer (de_endpoint_index (n_endpoint n e)) cmd (de_recvq (n_endpoint m' e')) evt \<and>
    (L = length log \<longrightarrow> ring_read (d_unexp_eventq (de_queues (n_endpoint m' e'))) (of_nat L) = Some evt)"
proof -
  obtain len f where f: "sent e k len f n n'" "on_wire (ie_kernel ie) (de_sendq (n_endpoint n e)) peer (de_endpoint_index (n_endpoint n e)) cmd len f"
    using ioctl_sent [OF assms(1-5)] assms(6) by blast
  obtain m' where m': "omx_recv other' env ifp \<lparr>skb_len = len, skb_data = f\<rparr> m = Some m'"
      "arrived (ie_kernel ie) (de_sendq (n_endpoint n e)) peer (de_endpoint_index (n_endpoint n e)) cmd log L e' m m'"
    using wire_arrives [OF f(2) assms(2,7-10)] by blast
  obtain evt where evt: "quiet (log @ [evt]) L (de_queues (n_endpoint m' e'))"
      "delivers (ie_kernel ie) (de_sendq (n_endpoint n e)) peer (de_endpoint_index (n_endpoint n e)) cmd (de_recvq (n_endpoint m' e')) evt"
    using arrived_in_endpoint [OF m'(2)] by (auto simp: arrived_in_def)
  have "xmit n' = xmit n @ [(k, \<lparr>skb_len = len, skb_data = f\<rparr>)]" using f(1) by (auto simp: sent_def)
  moreover have "L = length log \<longrightarrow> ring_read (d_unexp_eventq (de_queues (n_endpoint m' e'))) (of_nat L) = Some evt"
    using quiet_next [OF evt(1)] by (auto simp: nth_append)
  ultimately show ?thesis using m'(1) evt by blast
qed

theorem message_delivered_witness:
  "\<exists>a b a' skb b'. is_machine [2, 0, 0, 0, 0, 1] 0x020000000002 a \<and> is_machine [2, 0, 0, 0, 0, 2] 0x020000000001 b \<and>
    omx_miscdev_ioctl (\<lambda>_ _ n. Some (None, n)) sample_ie (OMX_CMD_SEND_TINY (sample_tiny 1 1 False)) 0 a = Some ((None, None), a') \<and>
    xmit a' = xmit a @ [(0, skb)] \<and> omx_recv (\<lambda>_ _ _ n. Some n) kernel_ok 7 skb b = Some b' \<and>
    ring_read (d_unexp_eventq (de_queues (n_endpoint b' 0))) 0 = Some (cmd_event 1 1 0 (OMX_CMD_SEND_TINY (sample_tiny 1 1 False)))"
proof -
  obtain a b where ab: "is_machine [2, 0, 0, 0, 0, 1] 0x020000000002 a" "is_machine [2, 0, 0, 0, 0, 2] 0x020000000001 b"
      "de_queues (n_endpoint b 0) = fresh_queues"
    using two_machines by blast
  obtain a' where a': "omx_miscdev_ioctl (\<lambda>_ _ n. Some (None, n)) sample_ie (OMX_CMD_SEND_TINY (sample_tiny 1 1 False)) 0 a = Some ((None, None), a')"
    using sample_tiny_sent [OF ab(1)] by blast
  let ?rt = "the (route (OMX_CMD_SEND_TINY (sample_tiny 1 1 False)))"
  have "reaches b 0 1 ?rt 0" using ab(2) by (simp add: reaches_def is_machine_def sample_tiny_def)
  moreover have "(1 :: u16) = ucast (if_reverse_peer_indexes (n_iface a 0) ! unat (to_peer ?rt))" using ab(1) by (simp add: is_machine_def sample_tiny_def)
  ultimately obtain skb b' evt where "xmit a' = xmit a @ [(0, skb)]" "omx_recv (\<lambda>_ _ _ n. Some n) kernel_ok 7 skb b = Some b'"
      "delivers kernel_ok (de_sendq (n_endpoint a 0)) 1 1 (OMX_CMD_SEND_TINY (sample_tiny 1 1 False)) (de_recvq (n_endpoint b' 0)) evt"
      "ring_read (d_unexp_eventq (de_queues (n_endpoint b' 0))) 0 = Some evt"
    using message_delivered [OF a', of ?rt 0 1 b 0 0 7 "[]" 0 "\<lambda>_ _ _ n. Some n" kernel_ok] ab fresh_quiet
    by (auto simp: is_machine_def sample_tiny_def sample_ie_def)
  moreover from this(3) have "evt = cmd_event 1 1 0 (OMX_CMD_SEND_TINY (sample_tiny 1 1 False))" by (auto simp: delivers_def)
  ultimately show ?thesis
    using ab(1,2) a' by (intro exI [of _ a] exI [of _ b] exI [of _ a'] exI [of _ skb] exI [of _ b']) simp
qed


lemma sample_tiny_shared:
  assumes "is_machine addr peer n"
  shows "\<exists>n'. omx_miscdev_ioctl (\<lambda>_ _ n. Some (None, n)) sample_ie (OMX_CMD_SEND_TINY (sample_tiny 0 1 True)) 0 n = Some ((None, None), n')"
  using assms
  by (simp add: is_machine_def omx_miscdev_ioctl_def omx_ioctl_with_endpoint_handler_def omx_ioctl_send_tiny_def sample_ie_def
      sample_tiny_def kernel_ok_def omx_shared_send_tiny_def OMX_TINY_MSG_LENGTH_MAX_def Let_def
      omx_shared_get_endpoint_or_notify_nack_def omx_shared_get_endpoint_or_nack_type_def)




text \<open>C14: A connect request or reply for another machine becomes one packet, and that packet one event of the endpoint it
  names, with all the fields of the command and the peer the receiver knows the sender as. The receiver notes the index
  under which the sender knows it, so that what it sends back is found in the table of the sender.\<close>

theorem connect_delivered:
  assumes "omx_miscdev_ioctl other ie cmd e n = Some ((None, def), n')" "connect_target cmd = Some (index, dst, net)"
    "net \<or> omx_local_peer_acquire_endpoint index dst n = None" "de_iface (n_endpoint n e) = Some k"
    "node_ok m" "omx_iface_find_by_ifp ifp m = Some k'"
    "omx_peer_lookup_by_addr_locked (omx_board_addr_from_netdevice (if_dev_addr (n_iface n k))) m = Some p"
    "omx_endpoint_acquire_by_iface_index k' dst m = Inr d" "quiet log L (de_queues (n_endpoint m d))" "room log L"
  shows "\<exists>skb evt m'. xmit n' = xmit n @ [(k, skb)] \<and> omx_recv other' env ifp skb m = Some m' \<and>
    connect_event (ucast (p_index (n_peer m p))) (de_endpoint_index (n_endpoint n e)) cmd = Some evt \<and>
    quiet (log @ [evt]) L (de_queues (n_endpoint m' d)) \<and>
    if_reverse_peer_indexes (n_iface m' k') ! unat (p_index (n_peer m p)) = ucast index"
proof -
  obtain f where f: "n' = n\<lparr>xmit := xmit n @ [(k, \<lparr>skb_len = 60, skb_data = f\<rparr>)]\<rparr>" "connect_body cmd f"
      "connect_fields index dst (omx_board_addr_from_netdevice (if_dev_addr (n_iface n k))) (de_endpoint_index (n_endpoint n e)) f"
    using connect_sent [OF assms(1-4)] by blast
  let ?m' = "\<lambda>q. upd_endpoint d (\<lambda>ep. ep\<lparr>de_queues := q\<rparr>)
      (upd_iface k' (\<lambda>i. i\<lparr>if_reverse_peer_indexes := (if_reverse_peer_indexes i)[unat (p_index (n_peer m p)) := ucast index]\<rparr>) m)"
  obtain evt q where "connect_event (ucast (p_index (n_peer m p))) (de_endpoint_index (n_endpoint n e)) cmd = Some evt"
      "quiet (log @ [evt]) L q" "omx_recv other' env ifp \<lparr>skb_len = 60, skb_data = f\<rparr> m = Some (?m' q)"
    using connect_received [OF f(2,3) assms(5-10)] by blast
  moreover have "xmit n' = xmit n @ [(k, \<lparr>skb_len = 60, skb_data = f\<rparr>)]" by (simp add: f(1))
  moreover have "quiet (log @ [evt]) L (de_queues (n_endpoint (?m' q) d))" using calculation(2) by (simp add: upd_endpoint_def)
  moreover have "if_reverse_peer_indexes (n_iface (?m' q) k') ! unat (p_index (n_peer m p)) = ucast index"
    using reverse_index_bound [OF assms(5-7)] by (simp add: upd_endpoint_def upd_iface_def)
  ultimately show ?thesis by blast
qed

definition sample_connect :: omx_cmd_send_connect_request where
  "sample_connect = \<lparr>conn_peer_index = 1, conn_dest_endpoint = 1, conn_shared_disabled = False, conn_seqnum = 4,
     conn_src_session_id = 5, conn_app_key = 0x12345678, conn_target_recv_seqnum_start = 9, conn_connect_seqnum = 2\<rparr>"

lemma sample_connect_sent:
  assumes "is_machine addr peer n"
  shows "\<exists>n'. omx_miscdev_ioctl (\<lambda>_ _ n. Some (None, n)) sample_ie (OMX_CMD_SEND_CONNECT_REQUEST sample_connect) 0 n = Some ((None, None), n')"
  using assms
  by (simp add: is_machine_def omx_miscdev_ioctl_def omx_ioctl_with_endpoint_handler_def omx_ioctl_send_connect_request_def sample_ie_def
      sample_connect_def kernel_ok_def omx_new_skb_def omx_set_target_peer_def omx_shared_try_send_connect_request_def
      send_connect_request_packet_def Let_def)

theorem connect_delivered_witness:
  "\<exists>a a' b b' evt skb. is_machine [2, 0, 0, 0, 0, 1] 0x020000000002 a \<and> is_machine [2, 0, 0, 0, 0, 2] 0x020000000001 b \<and>
    omx_miscdev_ioctl (\<lambda>_ _ n. Some (None, n)) sample_ie (OMX_CMD_SEND_CONNECT_REQUEST sample_connect) 0 a = Some ((None, None), a') \<and>
    omx_recv (\<lambda>_ _ _ n. Some n) kernel_ok 7 skb b = Some b' \<and>
    connect_event 1 1 (OMX_CMD_SEND_CONNECT_REQUEST sample_connect) = Some evt \<and> quiet [evt] 0 (de_queues (n_endpoint b' 0)) \<and>
    if_reverse_peer_indexes (n_iface b' 0) ! 1 = 1"
proof -
  obtain a b where a: "is_machine [2, 0, 0, 0, 0, 1] 0x020000000002 a"
      and b: "node_ok b" "is_machine [2, 0, 0, 0, 0, 2] 0x020000000001 b" "de_queues (n_endpoint b 0) = fresh_queues"
    using two_machines by blast
  obtain a' where a': "omx_miscdev_ioctl (\<lambda>_ _ n. Some (None, n)) sample_ie (OMX_CMD_SEND_CONNECT_REQUEST sample_connect) 0 a = Some ((None, None), a')"
    using sample_connect_sent [OF a] by blast
  have addr: "omx_board_addr_from_netdevice [2, 0, 0, 0, 0, 1] = 0x020000000001" by code_simp
  obtain skb evt b' where "omx_recv (\<lambda>_ _ _ n. Some n) kernel_ok 7 skb b = Some b'"
      "connect_event 1 1 (OMX_CMD_SEND_CONNECT_REQUEST sample_connect) = Some evt" "quiet [evt] 0 (de_queues (n_endpoint b' 0))"
      "if_reverse_peer_indexes (n_iface b' 0) ! 1 = 1"
    using connect_delivered [OF a', of 1 1 False 0 b 7 0 "Peer 0" 0 "[]" 0 "\<lambda>_ _ _ n. Some n" kernel_ok] a b fresh_quiet addr
    by (auto simp: is_machine_def sample_connect_def)
  then show ?thesis using a b(2) a' by blast
qed

text \<open>C39: The slot of the send queue that holds a fragment of a medium message is given back by an event of the expected
  queue. When an endpoint of the same machine refuses the fragment, the command succeeds and this event does not come: the
  expected queue of the sender stays as it was and no event is deferred.\<close>

theorem refused_fragment_not_done:
  assumes "omx_miscdev_ioctl other ie (OMX_CMD_SEND_MEDIUMSQ_FRAG c) e n = Some ((None, def), n')" "msq_shared c"
    "refusal_local n (the (route (OMX_CMD_SEND_MEDIUMSQ_FRAG c))) = Some nt"
  shows "d_exp_eventq (de_queues (n_endpoint n' e)) = d_exp_eventq (de_queues (n_endpoint n e)) \<and>
    nextfree_exp_eventq_index (de_queues (n_endpoint n' e)) = nextfree_exp_eventq_index (de_queues (n_endpoint n e)) \<and> def = None"
proof -
  have "def = None" using assms(1,2)
    by (auto simp: omx_miscdev_ioctl_def omx_ioctl_with_endpoint_handler_def omx_ioctl_send_mediumsq_frag_def Let_def
        split: if_splits Option.bind_splits)
  then show ?thesis using shared_refused [OF assms(1) _ _ _ assms(3)] assms(2)
    by (auto simp: notify_unexp_def omx_notify_unexp_event_def notify_unexp_take_def notify_unexp_write_def notify_unexp_rollback_def
        omx_wakeup_waiter_list_def upd_endpoint_def Let_def split: sum.splits prod.splits if_splits)
qed

definition sample_fragment :: omx_cmd_send_mediumsq_frag where
  "sample_fragment = \<lparr>msq_peer_index = 0, msq_dest_endpoint = 1, msq_shared = True, msq_session_id = 6, msq_seqnum = 3, msq_piggyack = 2,
     msq_sendq_offset = 8192, msq_checksum = 0, msq_msg_length = 200, msq_frag_length = 200, msq_frag_seqnum = 0, msq_match_info = 0x1234\<rparr>"

theorem refused_fragment_not_done_witness:
  "\<exists>a a'. is_machine [2, 0, 0, 0, 0, 1] 0x020000000002 a \<and>
    omx_miscdev_ioctl (\<lambda>_ _ n. Some (None, n)) sample_ie (OMX_CMD_SEND_MEDIUMSQ_FRAG sample_fragment) 0 a = Some ((None, None), a') \<and>
    nextfree_exp_eventq_index (de_queues (n_endpoint a' 0)) = nextfree_exp_eventq_index (de_queues (n_endpoint a 0))"
proof -
  obtain a where a: "is_machine [2, 0, 0, 0, 0, 1] 0x020000000002 a" using two_machines by blast
  obtain a' where a': "omx_miscdev_ioctl (\<lambda>_ _ n. Some (None, n)) sample_ie (OMX_CMD_SEND_MEDIUMSQ_FRAG sample_fragment) 0 a = Some ((None, None), a')"
    using a by (simp add: is_machine_def omx_miscdev_ioctl_def omx_ioctl_with_endpoint_handler_def omx_ioctl_send_mediumsq_frag_def
        sample_ie_def sample_fragment_def kernel_ok_def omx_shared_send_mediumsq_frag_def omx_shared_get_endpoint_or_notify_nack_def
        omx_shared_get_endpoint_or_nack_type_def limit_values OMX_SENDQ_SIZE_def Let_def)
  moreover have "refusal_local a (the (route (OMX_CMD_SEND_MEDIUMSQ_FRAG sample_fragment))) = Some OMX_NACK_TYPE_BAD_SESSION"
    using a by (simp add: refusal_local_def is_machine_def sample_fragment_def)
  ultimately show ?thesis using refused_fragment_not_done [OF a'] a by (auto simp: sample_fragment_def)
qed

end
