(* ===== verification/Spec2Isabelle.thy ===== *)
theory Spec2Isabelle
  imports Seqnum Linked_List Segments Slot_Map Requests Partner_Ack Regions Send Ack Partner Large Views Send_Window Recv Recv_Order Limits Progress Api Driver_Ring Driver_Lifecycle Driver_Recv Driver_Queue Driver_Delivery
begin

text \<open>
  Open-MX is a message passing stack over plain Ethernet: a kernel driver (\<^verbatim>\<open>driver/linux\<close>) that gives the processes of a
  machine endpoints on its network interfaces, and a user-space library (\<^verbatim>\<open>libopen-mx\<close>) that implements reliable, ordered,
  matched messages on top of it. This development is a model of both, function by function, with the theorems that make
  them correct. The constants, functions and structures keep the names of the source.

  \<^bold>\<open>The parts and how they interact.\<close> The application calls the library (\<^verbatim>\<open>omx_isend\<close>, \<^verbatim>\<open>omx_irecv\<close>, \<^verbatim>\<open>omx_iconnect\<close>,
  \<^verbatim>\<open>omx_test\<close>, ...), which keeps requests and partners and gives commands to the driver (\<^verbatim>\<open>struct omx_cmd_send_tiny\<close> and so on,
  \<^verbatim>\<open>common/omx_io.h\<close>). The driver turns a command into packets (\<^verbatim>\<open>common/omx_wire.h\<close>) or, for an endpoint of the same machine,
  directly into events; a received packet becomes an event of an endpoint. Events are stored in two rings that the driver
  shares with the library, the data of small and medium messages in a receive queue next to them. The library polls the
  rings, sends acks and retransmits what was not acked.

  \<^bold>\<open>Conventions.\<close> Integers of the code are words of their width (\<open>u8\<close> ... \<open>u64\<close>) wherever they can wrap, structures are
  records, unions and enumerations datatypes. Operations pass the state explicitly: \<open>endpoint\<close> for the library, \<open>omx_node\<close>
  for the driver of one machine, \<open>driver_eventqs\<close> for the rings of an endpoint. \<open>None\<close> as the outcome of an operation is an
  abort of the library, a \<^verbatim>\<open>BUG_ON\<close> of the driver or an access outside of an array or to freed memory; error codes are values
  (\<open>Inl\<close> or \<open>Some\<close> error). The configuration is the default one: no debugging, no MX wire compatibility, an MTU of 9000 bytes
  (fragments of 8192 bytes), no DMA engine. What is not under the roots above is a parameter: the answers of the
  driver to the library's registrations and commands, memory addresses returned by the allocator, the kernel services
  \<open>kernel_env\<close> (allocation of packets and of memory, copies from the application), the random or clock values.

  \<^bold>\<open>Foundations.\<close>
  \<^item> \<^verbatim>\<open>Omx_Prelude\<close>: the C integer types, outcomes of operations that may abort, generic lemmas, and the locales
    \<open>simulation\<close> and \<open>partial_simulation\<close> by which sequences of operations refine sequences on an abstract state.
  \<^item> \<^verbatim>\<open>Seqnum\<close> (\<^verbatim>\<open>omx_types.h\<close>): 14-bit sequence numbers with 2 session bits; \<open>seqnum_window\<close>: the distance of two numbers.
  \<^item> \<^verbatim>\<open>Types\<close>, \<^verbatim>\<open>Endpoint_State\<close>, \<^verbatim>\<open>Limits\<close>, \<^verbatim>\<open>Event_Ring\<close> (\<^verbatim>\<open>omx_io.h\<close>, \<^verbatim>\<open>open-mx.h\<close>, \<^verbatim>\<open>omx_wire.h\<close>, \<^verbatim>\<open>omx_types.h\<close>): return codes,
    commands and events, partners, requests, the endpoint of the library, the sizes both sides agree on, the slots of the rings.
  \<^item> \<^verbatim>\<open>Linked_List\<close> (\<^verbatim>\<open>omx_list.h\<close>): the intrusive lists on a store of pointers. \<open>queue_ops_refine\<close>: any disciplined
    sequence of operations refines the same one on HOL lists (the interpretation \<open>queues\<close>), which justifies the HOL lists
    in the rest of the model; \<open>list_walks_terminate\<close>.

  \<^bold>\<open>The library.\<close>
  \<^item> \<^verbatim>\<open>Segments\<close> (\<^verbatim>\<open>omx_segments.h\<close>): gather and scatter copies on a byte memory, partial copies that resume at a saved
    position, the checksum. The copies are right for any segments and fragments may come in any order; the copy between two
    lists of segments is right when one side has one segment and reads out of bounds otherwise.
  \<^item> \<^verbatim>\<open>Slot_Map\<close> (\<^verbatim>\<open>omx_lib.h\<close>, \<^verbatim>\<open>omx_endpoint.c\<close>): the free list of the send queue refines an allocator of slots.
  \<^item> \<^verbatim>\<open>Requests\<close> (\<^verbatim>\<open>omx_request.h\<close>, \<^verbatim>\<open>omx_test.c\<close>, \<^verbatim>\<open>omx_misc.c\<close>, \<^verbatim>\<open>omx_error.c\<close>): allocation, the done queue, early completion,
    zombies, cancelling. \<open>completion_accounting\<close>: what is in the done queues and what the zombie counter counts.
  \<^item> \<^verbatim>\<open>Partner_Ack\<close> (\<^verbatim>\<open>omx_lib.h\<close>): timeouts, the lists of partners to ack and of throttled partners, which hold exactly the
    partners whose state says so; the 32-bit conversion of timeouts and where it wraps.
  \<^item> \<^verbatim>\<open>Regions\<close> (\<^verbatim>\<open>omx_large.c\<close>): the map of registered regions and its cache: the lists partition the slots, the driver has
    registered exactly the listed regions, getting a region covers the request, invalidation is exact.
  \<^item> \<^verbatim>\<open>Send\<close>, \<^verbatim>\<open>Ack\<close>, \<^verbatim>\<open>Partner\<close>, \<^verbatim>\<open>Large\<close>, \<^verbatim>\<open>Recv\<close>, \<^verbatim>\<open>Progress\<close>, \<^verbatim>\<open>Api\<close> (the \<^verbatim>\<open>.c\<close> files of these names, \<^verbatim>\<open>omx_lib.c\<close>): the whole protocol,
    from the calls of the application to the commands and from the events to completed requests.
  \<^item> \<^verbatim>\<open>Views\<close>: the locales \<open>completion_view\<close>, \<open>posting_view\<close> and \<open>sending_view\<close>: what completing, posting and sending leave
    alone of an endpoint, for any view of it; \<^verbatim>\<open>Send_Window\<close> and \<^verbatim>\<open>Recv_Order\<close> interpret them.
  \<^item> \<^verbatim>\<open>Send_Window\<close>: in any order of sends, retries, retransmissions, acks and nacks the messages that wait for an
    ack have different, increasing numbers inside the window; \<open>handle_ack_exact\<close>: what an ack does.
  \<^item> \<^verbatim>\<open>Recv_Order\<close>: what processing a received message leaves alone of the sequence numbers of the receiver.

  \<^bold>\<open>The driver.\<close>
  \<^item> \<^verbatim>\<open>Driver_Event\<close>, \<^verbatim>\<open>Driver_Ring\<close> (\<^verbatim>\<open>omx_event.c\<close>, \<^verbatim>\<open>omx_endpoint.h\<close>): the rings with reservation, commit, cancel, release and sleeping
    threads. \<open>event_ring_fifo\<close>, \<open>event_ring_drains\<close>, \<open>wait_event_no_lost_wakeup\<close>: under every interleaving of the critical
    sections and across the wrap of the indexes the ring is a lossless queue and no wakeup is lost; \<open>notify_rollback_race\<close> and
    \<open>wait_event_race_status\<close> are the interleavings the code does not handle.
  \<^item> \<^verbatim>\<open>Driver_Wire\<close>, \<^verbatim>\<open>Driver_State\<close> (\<^verbatim>\<open>omx_wire.h\<close>, \<^verbatim>\<open>omx_wire_access.h\<close>, \<^verbatim>\<open>omx_misc.h\<close>, \<^verbatim>\<open>omx_peer.h\<close>, \<^verbatim>\<open>omx_iface.h\<close>): packets as bytes,
    the state of the driver of one machine with explicit addresses of peers, interfaces and endpoints.
  \<^item> \<^verbatim>\<open>Driver_Peer\<close>, \<^verbatim>\<open>Driver_Peer_Table\<close> (\<^verbatim>\<open>omx_peer.c\<close>): the peer table, its hashed lists, host queries, and its invariant.
  \<^item> \<^verbatim>\<open>Driver_Iface\<close>, \<^verbatim>\<open>Driver_Node\<close>, \<^verbatim>\<open>Driver_Lifecycle\<close> (\<^verbatim>\<open>omx_iface.c\<close>, \<^verbatim>\<open>omx_dev.c\<close>): interfaces and endpoints come and go.
    \<open>driver_invariant\<close>: every legal sequence of operations keeps the invariant \<open>node_ok\<close> and never reaches a \<^verbatim>\<open>BUG_ON\<close> or freed
    memory; \<open>forced_detach_use_after_free\<close> is the sequence that is not legal for a reason.
  \<^item> \<^verbatim>\<open>Driver_Shared\<close>, \<^verbatim>\<open>Driver_Send\<close>, \<^verbatim>\<open>Driver_Recv\<close> (\<^verbatim>\<open>omx_shared.c\<close>, \<^verbatim>\<open>omx_send.c\<close>, \<^verbatim>\<open>omx_recv.c\<close>, \<^verbatim>\<open>omx_dev.c\<close>): the commands that send, with
    the dispatch of commands, the way inside a machine, the reception of packets with the table of packet types.
  \<^item> \<^verbatim>\<open>Driver_Safety\<close>: \<open>recv_safe\<close>: a packet with arbitrary bytes neither reaches a \<^verbatim>\<open>BUG_ON\<close> or an access out of bounds nor
    breaks the invariant of the driver and its rings.
  \<^item> \<^verbatim>\<open>Driver_Queue\<close>, \<^verbatim>\<open>Driver_Packets\<close>, \<^verbatim>\<open>Driver_Transfer\<close>, \<^verbatim>\<open>Driver_Machines\<close>, \<^verbatim>\<open>Driver_Delivery\<close>: the contract of the driver with the
    library. \<open>delivers\<close> says which event, with which data, a command stands for; \<open>message_delivered\<close> and
    \<open>shared_message_delivered\<close>: it is what the destination gets through the network and inside the machine;
    \<open>undeliverable_is_nacked\<close>, \<open>connect_delivered\<close>; \<open>refused_fragment_not_done\<close> is a completion that is lost. \<^verbatim>\<open>Driver_Machines\<close> runs two machines to the state in which they know
    each other; the examples of the theorems are about these.

  \<^bold>\<open>Both together.\<close> This theory composes the driver with the library: \<open>message_processed\<close> follows a message from the command
  of one library through two drivers to the event loop of another library (\<open>event_loop\<close> of \<^verbatim>\<open>Progress\<close>).

  \<^bold>\<open>Loops.\<close> No definition takes fuel. The loops of the code are structural recursion, recursion with a proved measure
  (\<open>copy_from_to_segments_loop\<close>, \<open>copy_frag\<close>, \<open>sendq_pages\<close>), or, where the code by itself does not bound them,
  \<open>partial_function (option)\<close>, for which not to return is \<open>None\<close>: the walks over linked lists, which end on
  well-formed lists (\<open>list_walks_terminate\<close>), the event loop, which ends (\<open>message_processed\<close>), the retransmission
  loops, and two loops of the medium send that do not end after a refused fragment. Natural numbers stand for counters the
  code keeps in words only in specifications; the invariants relate them to the words.

  \<^bold>\<open>Not modelled.\<close> The waiting calls of the library (\<^verbatim>\<open>omx_wait\<close>, \<^verbatim>\<open>omx_connect\<close>, ...), which repeat the modelled ones and sleep, and
  its locks; initialisation, information and debugging functions, which parse files and fill text buffers; opening and closing
  an endpoint (\<^verbatim>\<open>mmap\<close> and device files); the raw interface of the monitoring tool; the MX compatibility layer of
  one-line wrappers; \<^verbatim>\<open>dlmalloc.c\<close>, a third-party allocator. In the driver: pulls and registered regions (\<^verbatim>\<open>omx_pull.c\<close>,
  \<^verbatim>\<open>omx_reg.c\<close>), which consist of calls to the page, timer and MMU notifier services of the kernel, so that their packets and
  commands are the parameter \<open>other\<close> of \<open>omx_recv\<close> and \<open>omx_miscdev_ioctl\<close>; DMA copies; the benchmark command; module loading;
  counters and messages to the log, which no operation reads. Reading a structure under RCU is atomic in the model.
\<close>

section \<open>From the command of one library to the events of another one\<close>

text \<open>
  What the library does with a list of events, the first of which has the index \<open>L\<close>: it processes each of them, and gives
  slots back to the driver after each batch.
\<close>

fun process_events :: "omx_env \<Rightarrow> omx_cmd \<Rightarrow> nat \<Rightarrow> omx_evt list \<Rightarrow> omx_endpoint \<Rightarrow> omx_endpoint option" where
  "process_events env cmd L [] ep = Some ep"
| "process_events env cmd L (evt # evts) ep = do {
     ep \<leftarrow> omx__process_event env evt ep;
     ep \<leftarrow> release_slots cmd (of_nat (Suc L)) ep;
     process_events env cmd (Suc L) evts ep
   }"

lemma quiet_read:
  assumes "quiet log L d" "L \<le> j" "j \<le> length log"
  shows "ring_read (d_unexp_eventq d) (of_nat j) = (if j < length log then Some (log ! j) else None)"
proof -
  have "ring_ok (released_of L) L (length log) log {} (d_unexp_eventq d)"
    using assms(1) by (auto simp: quiet_def ring_inv_def ring_of_def min_absorb2 Let_def)
  then have "ring_ok (released_of L) j (length log) log {} (d_unexp_eventq d)" using assms(2,3) by (auto simp: ring_ok_def intro: order_trans [OF released_of_le])
  from ring_ok_read [OF this] show ?thesis by simp
qed

lemma event_loop_read:
  assumes "length ring = 1024"
  shows "event_loop env (\<lambda>_. ring) cmd index ep =
    (case ring_read ring index of
       None \<Rightarrow> Some (index, ep)
     | Some evt \<Rightarrow> do {
         ep \<leftarrow> omx__process_event env evt ep;
         ep \<leftarrow> release_slots cmd (index + 1) ep;
         event_loop env (\<lambda>_. ring) cmd (index + 1) ep
       })"
  by (subst event_loop.simps) (simp add: ring_read_def event_slot_def OMX_EVENTQ_ENTRY_NR_def assms Let_def)

text \<open>The loop of the library ends, with the event after the last one that was stored as the next one.\<close>

lemma event_loop_processes:
  assumes "quiet log L d"
  shows "event_loop env (\<lambda>_. d_unexp_eventq d) cmd (of_nat L) ep =
    map_option (Pair (of_nat (length log))) (process_events env cmd L (drop L log) ep)"
proof -
  have len: "length (d_unexp_eventq d) = 1024"
    using assms by (auto simp: quiet_def ring_inv_def ring_of_def ring_ok_def Let_def)
  have "event_loop env (\<lambda>_. d_unexp_eventq d) cmd (of_nat (length log - k)) ep =
      map_option (Pair (of_nat (length log))) (process_events env cmd (length log - k) (drop (length log - k) log) ep)"
    if "k \<le> length log - L" for k using that
  proof (induction k arbitrary: ep)
    case 0
    then show ?case using quiet_read [OF assms, of "length log"] assms by (simp add: event_loop_read [OF len] quiet_def)
  next
    case (Suc k)
    let ?j = "length log - Suc k"
    have j: "Suc ?j = length log - k" "?j < length log" "L \<le> ?j" using Suc.prems by auto
    then have "drop ?j log = log ! ?j # drop (length log - k) log" by (metis Cons_nth_drop_Suc)
    moreover have "of_nat ?j + 1 = (of_nat (length log - k) :: u32)" using j(1) by (metis of_nat_Suc add.commute)
    ultimately show ?case
      using quiet_read [OF assms j(3)] Suc.IH j Suc.prems
      by (subst event_loop_read [OF len]) (auto split: Option.bind_splits)
  qed
  from this [of "length log - L"] show ?thesis using assms by (simp add: quiet_def)
qed

text \<open>C1: A message that one library gives to its driver is processed by the library of the destination: the packet of the
  command makes the receiving driver store an event such that the event loop of the library, started where it stopped
  before, ends and processes every event of that endpoint it has not seen, each once and in order, and then the event of
  the message, which has the fields and the data of the command; the loop only fails if the processing of one of these
  events does.\<close>

theorem message_processed:
  assumes "omx_miscdev_ioctl other ie cmd e n = Some ((None, def), n')" "route cmd = Some rt" "\<not> to_shared rt" "cmd_wf cmd"
    "de_iface (n_endpoint n e) = Some k" "peer = ucast (if_reverse_peer_indexes (n_iface n k) ! unat (to_peer rt))"
    "reaches m k' peer rt e'" "omx_iface_find_by_ifp ifp m = Some k'" "quiet log L (de_queues (n_endpoint m e'))" "room log L"
  shows "\<exists>skb m' evt. xmit n' = xmit n @ [(k, skb)] \<and> omx_recv other' env ifp skb m = Some m' \<and>
    delivers (ie_kernel ie) (de_sendq (n_endpoint n e)) peer (de_endpoint_index (n_endpoint n e)) cmd (de_recvq (n_endpoint m' e')) evt \<and>
    (\<forall>lib release ep. event_loop lib (\<lambda>_. d_unexp_eventq (de_queues (n_endpoint m' e'))) release (of_nat L) ep =
      map_option (Pair (of_nat (Suc (length log)))) (process_events lib release L (drop L log @ [evt]) ep))"
proof -
  obtain len f where f: "sent e k len f n n'" "on_wire (ie_kernel ie) (de_sendq (n_endpoint n e)) peer (de_endpoint_index (n_endpoint n e)) cmd len f"
    using ioctl_sent [OF assms(1-5)] assms(6) by blast
  obtain m' where m': "omx_recv other' env ifp \<lparr>skb_len = len, skb_data = f\<rparr> m = Some m'"
      "arrived (ie_kernel ie) (de_sendq (n_endpoint n e)) peer (de_endpoint_index (n_endpoint n e)) cmd log L e' m m'"
    using wire_arrives [OF f(2) assms(2,7-10)] by blast
  obtain evt where evt: "quiet (log @ [evt]) L (de_queues (n_endpoint m' e'))"
      "delivers (ie_kernel ie) (de_sendq (n_endpoint n e)) peer (de_endpoint_index (n_endpoint n e)) cmd (de_recvq (n_endpoint m' e')) evt"
    using arrived_in_endpoint [OF m'(2)] by (auto simp: arrived_in_def)
  have "xmit n' = xmit n @ [(k, \<lparr>skb_len = len, skb_data = f\<rparr>)]" using f(1) by (auto simp: sent_def)
  moreover have "L \<le> length log" using assms(9) by (simp add: quiet_def)
  ultimately show ?thesis using m'(1) evt event_loop_processes [OF evt(1)] by (intro exI conjI allI) simp_all
qed

theorem message_processed_witness:
  "\<exists>a b a' skb b' evt. is_machine [2, 0, 0, 0, 0, 1] 0x020000000002 a \<and> is_machine [2, 0, 0, 0, 0, 2] 0x020000000001 b \<and>
    omx_miscdev_ioctl (\<lambda>_ _ n. Some (None, n)) sample_ie (OMX_CMD_SEND_TINY (sample_tiny 1 1 False)) 0 a = Some ((None, None), a') \<and>
    xmit a' = xmit a @ [(0, skb)] \<and> omx_recv (\<lambda>_ _ _ n. Some n) kernel_ok 7 skb b = Some b' \<and>
    evt = cmd_event 1 1 0 (OMX_CMD_SEND_TINY (sample_tiny 1 1 False)) \<and>
    (\<forall>lib ep. event_loop lib (\<lambda>_. d_unexp_eventq (de_queues (n_endpoint b' 0))) OMX_CMD_RELEASE_UNEXP_SLOTS 0 ep =
      map_option (Pair 1) (process_events lib OMX_CMD_RELEASE_UNEXP_SLOTS 0 [evt] ep))"
proof -
  obtain a b where ab: "is_machine [2, 0, 0, 0, 0, 1] 0x020000000002 a" "is_machine [2, 0, 0, 0, 0, 2] 0x020000000001 b"
      "de_queues (n_endpoint b 0) = fresh_queues"
    using two_machines by blast
  obtain a' where a': "omx_miscdev_ioctl (\<lambda>_ _ n. Some (None, n)) sample_ie (OMX_CMD_SEND_TINY (sample_tiny 1 1 False)) 0 a = Some ((None, None), a')"
    using sample_tiny_sent [OF ab(1)] by blast
  let ?rt = "the (route (OMX_CMD_SEND_TINY (sample_tiny 1 1 False)))"
  have "reaches b 0 1 ?rt 0" using ab(2) by (simp add: reaches_def is_machine_def sample_tiny_def)
  moreover have "(1 :: u16) = ucast (if_reverse_peer_indexes (n_iface a 0) ! unat (to_peer ?rt))" using ab(1) by (simp add: is_machine_def sample_tiny_def)
  ultimately obtain skb b' evt where "xmit a' = xmit a @ [(0, skb)]" "omx_recv (\<lambda>_ _ _ n. Some n) kernel_ok 7 skb b = Some b'"
      "delivers kernel_ok (de_sendq (n_endpoint a 0)) 1 1 (OMX_CMD_SEND_TINY (sample_tiny 1 1 False)) (de_recvq (n_endpoint b' 0)) evt"
      "\<forall>lib release ep. event_loop lib (\<lambda>_. d_unexp_eventq (de_queues (n_endpoint b' 0))) release 0 ep =
        map_option (Pair 1) (process_events lib release 0 [evt] ep)"
    using message_processed [OF a', of ?rt 0 1 b 0 0 7 "[]" 0 "\<lambda>_ _ _ n. Some n" kernel_ok] ab fresh_quiet
    by (auto simp: is_machine_def sample_tiny_def sample_ie_def simp del: process_events.simps)
  moreover from this(3) have "evt = cmd_event 1 1 0 (OMX_CMD_SEND_TINY (sample_tiny 1 1 False))" by (auto simp: delivers_def)
  ultimately show ?thesis using ab(1,2) a' by blast
qed

end
